(* ===== verification/Prelude.thy ===== *)
theory Prelude
  imports Main "HOL-Library.Word"
begin

text \<open>
  Shared material of the development: the machine integers of the C++ sources, the faults a
  C++ expression can end in, the error monad in which every throwing operation is written, checked
  signed 64-bit arithmetic, and generic list lemmas used by several components.
\<close>

section \<open>Machine integers\<close>

type_synonym u8 = "8 word"
type_synonym u32 = "32 word"
type_synonym u64 = "64 word"

text \<open>
  \<open>TimePoint\<close> and \<open>DurationNs\<close> are \<open>int64_t\<close>. They are modelled as mathematical
  integers together with the check \<open>in_i64\<close>; signed overflow, which C++ leaves undefined, is the
  fault \<open>Undefined\<close> of the checked operations below.
\<close>

type_synonym i64 = int

definition i64_min :: int where "i64_min = - (2 ^ 63)"
definition i64_max :: int where "i64_max = 2 ^ 63 - 1"

definition in_i64 :: "int \<Rightarrow> bool" where
  "in_i64 x \<longleftrightarrow> i64_min \<le> x \<and> x \<le> i64_max"

section \<open>Faults and the error monad\<close>

text \<open>
  \<open>Invalid_argument\<close> and \<open>Overflow_error\<close> are the two exception classes the sources throw; the parsing of
  numbers throws the first and \<open>Out_of_range\<close>;
  \<open>Undefined\<close> is behaviour the C++ standard leaves undefined (signed overflow, a
  floating-to-integer cast out of range, an index out of range).
\<close>

datatype fault = Invalid_argument | Overflow_error | Out_of_range | Undefined

definition bindR :: "fault + 'a \<Rightarrow> ('a \<Rightarrow> fault + 'b) \<Rightarrow> fault + 'b" where
  "bindR m f = (case m of Inl e \<Rightarrow> Inl e | Inr x \<Rightarrow> f x)"

lemma bindR_Inl [simp]: "bindR (Inl e) f = Inl e"
  and bindR_Inr [simp]: "bindR (Inr x) f = f x"
  by (simp_all add: bindR_def)

lemma bindR_eq_Inr [simp]: "bindR m f = Inr y \<longleftrightarrow> (\<exists>x. m = Inr x \<and> f x = Inr y)"
  by (cases m) auto

lemma bindR_eq_Inl: "bindR m f = Inl e \<longleftrightarrow> m = Inl e \<or> (\<exists>x. m = Inr x \<and> f x = Inl e)"
  by (cases m) auto

lemma bindR_cong [fundef_cong]:
  "m = m' \<Longrightarrow> (\<And>x. m' = Inr x \<Longrightarrow> f x = f' x) \<Longrightarrow> bindR m f = bindR m' f'"
  by (cases m') auto

fun foldR :: "('a \<Rightarrow> 's \<Rightarrow> fault + 's) \<Rightarrow> 'a list \<Rightarrow> 's \<Rightarrow> fault + 's" where
  "foldR f [] s = Inr s"
| "foldR f (x # xs) s = bindR (f x s) (foldR f xs)"

lemma foldR_append: "foldR f (xs @ ys) s = bindR (foldR f xs s) (foldR f ys)"
  by (induction xs arbitrary: s) (auto simp: bindR_def split: sum.splits)

lemma foldR_invariant:
  assumes "foldR f xs s = Inr t" and "P s"
    and "\<And>x u v. x \<in> set xs \<Longrightarrow> P u \<Longrightarrow> f x u = Inr v \<Longrightarrow> P v"
  shows "P t"
  using assms by (induction xs arbitrary: s) auto

text \<open>A fold whose step never faults is an ordinary fold.\<close>

lemma foldR_total:
  assumes "\<And>x u. x \<in> set xs \<Longrightarrow> f x u = Inr (g x u)"
  shows "foldR f xs s = Inr (fold g xs s)"
  using assms by (induction xs arbitrary: s) auto

definition add64 :: "i64 \<Rightarrow> i64 \<Rightarrow> fault + i64" where
  "add64 a b = (if in_i64 (a + b) then Inr (a + b) else Inl Undefined)"

definition sub64 :: "i64 \<Rightarrow> i64 \<Rightarrow> fault + i64" where
  "sub64 a b = (if in_i64 (a - b) then Inr (a - b) else Inl Undefined)"

definition mul64 :: "i64 \<Rightarrow> i64 \<Rightarrow> fault + i64" where
  "mul64 a b = (if in_i64 (a * b) then Inr (a * b) else Inl Undefined)"

lemma add64_Inr [simp]: "add64 a b = Inr c \<longleftrightarrow> in_i64 (a + b) \<and> c = a + b"
  and sub64_Inr [simp]: "sub64 a b = Inr c \<longleftrightarrow> in_i64 (a - b) \<and> c = a - b"
  and mul64_Inr [simp]: "mul64 a b = Inr c \<longleftrightarrow> in_i64 (a * b) \<and> c = a * b"
  by (auto simp: add64_def sub64_def mul64_def)

lemma in_i64_between: "in_i64 a \<Longrightarrow> in_i64 c \<Longrightarrow> a \<le> b \<Longrightarrow> b \<le> c \<Longrightarrow> in_i64 b"
  by (simp add: in_i64_def)

section \<open>Lists\<close>

lemma takeWhile_all: "(\<forall>x \<in> set xs. P x) \<Longrightarrow> takeWhile P xs = xs"
  by (simp add: takeWhile_eq_all_conv)

lemma takeWhile_none: "(\<forall>x \<in> set xs. \<not> P x) \<Longrightarrow> takeWhile P xs = []"
  by (cases xs) auto

text \<open>On a list sorted by \<open>f\<close>, the elements at most \<open>t\<close> are a prefix.\<close>

lemma sorted_split_filter:
  fixes f :: "'a \<Rightarrow> 'b::linorder"
  assumes "sorted (map f xs)"
  shows takeWhile_sorted_filter: "takeWhile (\<lambda>x. f x \<le> t) xs = filter (\<lambda>x. f x \<le> t) xs"
    and dropWhile_sorted_filter: "dropWhile (\<lambda>x. f x \<le> t) xs = filter (\<lambda>x. t < f x) xs"
proof -
  have "takeWhile (\<lambda>x. f x \<le> t) xs = filter (\<lambda>x. f x \<le> t) xs \<and>
        dropWhile (\<lambda>x. f x \<le> t) xs = filter (\<lambda>x. t < f x) xs"
    using assms
  proof (induction xs)
    case (Cons a xs)
    show ?case
    proof (cases "f a \<le> t")
      case False
      with Cons.prems have "\<forall>x \<in> set (a # xs). t < f x" by auto
      then have "filter (\<lambda>x. t < f x) (a # xs) = a # xs"
        and "filter (\<lambda>x. f x \<le> t) (a # xs) = []"
        by (simp_all only: filter_id_conv filter_empty_conv not_le)
      with False show ?thesis by simp
    qed (use Cons in simp)
  qed simp
  then show "takeWhile (\<lambda>x. f x \<le> t) xs = filter (\<lambda>x. f x \<le> t) xs"
    and "dropWhile (\<lambda>x. f x \<le> t) xs = filter (\<lambda>x. t < f x) xs" by simp_all
qed

lemma fold_invariant_set:
  assumes "P s" and "\<And>x u. x \<in> set xs \<Longrightarrow> P u \<Longrightarrow> P (f x u)"
  shows "P (fold f xs s)"
  using assms by (induction xs arbitrary: s) auto

end
