(* ===== verification/Ord_Map.thy ===== *)
theory Ord_Map
  imports Prelude
begin

text \<open>
  The model of \<open>std::map<K, V>\<close>. The sources iterate over their maps, and the order of the
  iteration (ascending keys) is visible: it picks the reported bottleneck dimension and the order of
  saved records. An ordered map is therefore its list of entries with strictly ascending keys; the
  type carries the ordering, so two maps are equal exactly when they hold the same entries.
\<close>

section \<open>Sorted association lists\<close>

fun ins_list :: "'k::linorder \<Rightarrow> 'v \<Rightarrow> ('k \<times> 'v) list \<Rightarrow> ('k \<times> 'v) list" where
  "ins_list k v [] = [(k, v)]"
| "ins_list k v ((k', v') # xs) =
     (if k < k' then (k, v) # (k', v') # xs
      else if k = k' then (k, v) # xs
      else (k', v') # ins_list k v xs)"

abbreviation ascending :: "('k::linorder \<times> 'v) list \<Rightarrow> bool" where
  "ascending xs \<equiv> sorted_wrt (<) (map fst xs)"

lemma set_ins_list: "fst ` set (ins_list k v xs) = insert k (fst ` set xs)"
  by (induction k v xs rule: ins_list.induct) auto

lemma ascending_ins_list: "ascending xs \<Longrightarrow> ascending (ins_list k v xs)"
proof (induction k v xs rule: ins_list.induct)
  case (2 k v k' v' xs)
  have "\<forall>y \<in> fst ` set (ins_list k v xs). k' < y" if "k' < k"
    using 2(2) that by (auto simp: set_ins_list)
  then show ?case using 2 by (auto intro: less_trans)
qed simp

lemma ascending_filter: "ascending xs \<Longrightarrow> ascending (filter P xs)"
  by (induction xs) auto

lemma ascending_distinct: "ascending xs \<Longrightarrow> distinct (map fst xs)"
  by (simp add: strict_sorted_iff)

lemma map_of_ins_list: "map_of (ins_list k v xs) = (map_of xs)(k \<mapsto> v)"
  by (induction k v xs rule: ins_list.induct) (auto simp: fun_eq_iff)

lemma map_of_erase: "map_of (filter (\<lambda>p. fst p \<noteq> k) xs) = (map_of xs)(k := None)"
  by (induction xs) (auto simp: fun_eq_iff)

lemma map_of_expand:
  assumes "distinct (map fst xs)"
  shows "xs = map (\<lambda>k. (k, the (map_of xs k))) (map fst xs)"
proof -
  have "map (\<lambda>p. (fst p, the (map_of xs (fst p)))) xs = xs"
    using assms by (intro map_idI) (auto simp: map_of_is_SomeI)
  then show ?thesis by (simp add: comp_def)
qed

lemma ascending_map_of_inj:
  assumes "ascending xs" and "ascending ys" and "map_of xs = map_of ys"
  shows "xs = ys"
proof -
  have "set (map fst xs) = set (map fst ys)"
    using assms(3) by (metis dom_map_of_conv_image_fst set_map)
  then have "map fst xs = map fst ys"
    using assms(1,2) by (intro strict_sorted_equal) auto
  then show ?thesis
    using map_of_expand [OF ascending_distinct [OF assms(1)]]
      map_of_expand [OF ascending_distinct [OF assms(2)]] assms(3) by simp
qed

section \<open>The map type\<close>

typedef (overloaded) ('k::linorder, 'v) omap = "{xs :: ('k \<times> 'v) list. ascending xs}"
  morphisms om_entries Abs_omap
  by (rule exI [of _ "[]"]) simp

setup_lifting type_definition_omap

lift_definition om_empty :: "('k::linorder, 'v) omap" is "[]"
  by simp

lift_definition om_insert :: "'k::linorder \<Rightarrow> 'v \<Rightarrow> ('k, 'v) omap \<Rightarrow> ('k, 'v) omap" is ins_list
  by (rule ascending_ins_list)

lift_definition om_erase :: "'k::linorder \<Rightarrow> ('k, 'v) omap \<Rightarrow> ('k, 'v) omap"
  is "\<lambda>k. filter (\<lambda>p. fst p \<noteq> k)"
  by (rule ascending_filter)

definition om_lookup :: "('k::linorder, 'v) omap \<Rightarrow> 'k \<Rightarrow> 'v option" where
  "om_lookup m = map_of (om_entries m)"

definition om_contains :: "('k::linorder, 'v) omap \<Rightarrow> 'k \<Rightarrow> bool" where
  "om_contains m k \<longleftrightarrow> om_lookup m k \<noteq> None"

definition om_size :: "('k::linorder, 'v) omap \<Rightarrow> nat" where
  "om_size m = length (om_entries m)"

text \<open>Entries of a map built by insertions compute by these equations.\<close>

lemma om_entries_simps [simp]:
  "om_entries om_empty = []"
  "om_entries (om_insert k v m) = ins_list k v (om_entries m)"
  "om_entries (om_erase k m) = filter (\<lambda>p. fst p \<noteq> k) (om_entries m)"
  by (transfer, simp)+

lemma om_entries_ascending [simp]: "ascending (om_entries m)"
  by transfer simp

lemma om_entries_distinct [simp]: "distinct (map fst (om_entries m))"
  by (simp add: ascending_distinct)

lemma om_entries_inj: "om_entries m = om_entries m' \<Longrightarrow> m = m'"
  by (simp add: om_entries_inject)

lemma om_lookup_simps [simp]:
  "om_lookup om_empty = Map.empty"
  "om_lookup (om_insert k v m) = (om_lookup m)(k \<mapsto> v)"
  "om_lookup (om_erase k m) = (om_lookup m)(k := None)"
  by (simp_all add: om_lookup_def map_of_ins_list map_of_erase)

lemma om_lookup_iff: "om_lookup m k = Some v \<longleftrightarrow> (k, v) \<in> set (om_entries m)"
  by (simp add: om_lookup_def)

lemma om_eqI: "(\<And>k. om_lookup m k = om_lookup m' k) \<Longrightarrow> m = m'"
  by (intro om_entries_inj ascending_map_of_inj) (auto simp: om_lookup_def)

lemma om_contains_simps [simp]:
  "\<not> om_contains om_empty k"
  "om_contains (om_insert k v m) k' \<longleftrightarrow> k' = k \<or> om_contains m k'"
  "om_contains (om_erase k m) k' \<longleftrightarrow> k' \<noteq> k \<and> om_contains m k'"
  by (auto simp: om_contains_def)

lemma om_contains_iff: "om_contains m k \<longleftrightarrow> k \<in> fst ` set (om_entries m)"
  by (auto simp: om_contains_def om_lookup_def map_of_eq_None_iff)

section \<open>Stores of records addressed by their own key\<close>

text \<open>
  The sources keep records that carry their identity in two ways: a \<open>std::map\<close> entry written with
  \<open>m[r.id] = r\<close>, and a vector from which the old record of that identity is erased
  (\<open>erase(remove_if(...))\<close>) before the new one is appended. Both promise the same thing.
\<close>

locale keyed_store =
  fixes key :: "'v \<Rightarrow> 'k" and empty :: "'s" and get :: "'s \<Rightarrow> 'k \<Rightarrow> 'v option"
    and put :: "'v \<Rightarrow> 's \<Rightarrow> 's"
  assumes get_empty: "get empty k = None"
    and get_put: "get (put v s) k = (if k = key v then Some v else get s k)"
begin

lemma get_put_same: "get (put v s) (key v) = Some v"
  by (simp add: get_put)

lemma get_put_other: "k \<noteq> key v \<Longrightarrow> get (put v s) k = get s k"
  by (simp add: get_put)

text \<open>A loop of writes leaves, under each key, the last record written with it.\<close>

lemma get_fold_put:
  "get (fold put vs s) k =
     (case find (\<lambda>v. key v = k) (rev vs) of Some v \<Rightarrow> Some v | None \<Rightarrow> get s k)"
proof (induction vs arbitrary: s)
  case (Cons v vs)
  have "find P (xs @ [v]) = (case find P xs of Some w \<Rightarrow> Some w | None \<Rightarrow> if P v then Some v else None)"
    for P and xs :: "'v list"
    by (induction xs) auto
  then show ?case by (simp add: Cons.IH get_put split: option.split)
qed simp

end

interpretation om_by: keyed_store key om_empty om_lookup "\<lambda>v. om_insert (key v) v"
  for key :: "'v \<Rightarrow> 'k::linorder"
  by unfold_locales (auto simp: fun_upd_def)

definition upsert :: "('v \<Rightarrow> 'k) \<Rightarrow> 'v \<Rightarrow> 'v list \<Rightarrow> 'v list" where
  "upsert key v xs = filter (\<lambda>x. key x \<noteq> key v) xs @ [v]"

definition find_by :: "('v \<Rightarrow> 'k) \<Rightarrow> 'v list \<Rightarrow> 'k \<Rightarrow> 'v option" where
  "find_by key xs k = find (\<lambda>x. key x = k) xs"

interpretation vec_by: keyed_store key "[]" "find_by key" "upsert key" for key :: "'v \<Rightarrow> 'k"
proof unfold_locales
  fix v :: 'v and s :: "'v list" and k :: 'k
  have "find (\<lambda>x. key x = k) (filter (\<lambda>x. key x \<noteq> key v) s @ [v]) =
        (if k = key v then Some v else find (\<lambda>x. key x = k) s)"
    by (induction s) auto
  then show "find_by key (upsert key v s) k = (if k = key v then Some v else find_by key s k)"
    by (simp add: find_by_def upsert_def)
qed (simp add: find_by_def)

lemma find_in_set: "find P xs = Some x \<Longrightarrow> x \<in> set xs"
  by (auto simp: find_Some_iff)

lemma find_by_distinct:
  assumes "distinct (map key xs)" and "x \<in> set xs"
  shows "find_by key xs (key x) = Some x"
  using assms by (induction xs) (auto simp: find_by_def)

lemma upsert_distinct: "distinct (map key xs) \<Longrightarrow> distinct (map key (upsert key v xs))"
  by (auto simp: upsert_def intro: distinct_map_filter)

lemma set_upsert: "set (upsert key v xs) = insert v {x \<in> set xs. key x \<noteq> key v}"
  by (auto simp: upsert_def)

text \<open>
  A loop over entries with distinct keys whose step changes only what is stored under the step's own
  key changes every key at most once.
\<close>

lemma pointwise_loop:
  assumes step: "\<And>e v m d. get (s (e, v) m) d = (if d = e then f d v (get m d) else get m d)"
    and "distinct (map fst xs)"
  shows "get (fold s xs m) d = (case map_of xs d of None \<Rightarrow> get m d | Some v \<Rightarrow> f d v (get m d))"
  using assms(2)
proof (induction xs arbitrary: m)
  case (Cons a xs)
  obtain e v where a: "a = (e, v)" by (cases a)
  from Cons.prems have "map_of xs e = None" by (simp add: a map_of_eq_None_iff)
  with Cons show ?case by (cases "d = e") (simp_all add: a step cong: option.case_cong)
qed simp

text \<open>Rebuilding a map by inserting its entries gives the map back.\<close>

lemma om_lookup_fold_insert:
  "om_lookup (fold (\<lambda>(k, v). om_insert k v) xs m) k =
     (case map_of (rev xs) k of Some v \<Rightarrow> Some v | None \<Rightarrow> om_lookup m k)"
  by (induction xs arbitrary: m) (auto simp: map_add_def split: option.splits)

lemma om_rebuild: "fold (\<lambda>(k, v). om_insert k v) (om_entries m) om_empty = m"
proof (rule om_eqI)
  fix k
  have "map_of (rev (om_entries m)) = map_of (om_entries m)"
    by (rule map_of_inject_set [THEN iffD2]) (simp_all flip: rev_map)
  then show "om_lookup (fold (\<lambda>(k, v). om_insert k v) (om_entries m) om_empty) k = om_lookup m k"
    unfolding om_lookup_fold_insert by (simp add: om_lookup_def split: option.splits)
qed

end
