(* ===== verification/Binary64.thy ===== *)
theory Binary64
  imports Prelude
begin

text \<open>
  The C++ \<open>double\<close> as an IEEE 754 binary64 value. A double is its 64-bit pattern, so the
  \<open>memcpy\<close> of the binary codec is the identity on patterns; arithmetic decodes the patterns,
  computes exactly and rounds to nearest, ties to even. The exact value of a finite double is an
  integer multiple of \<open>2 ^ -1074\<close>; \<open>d_val\<close> counts those units.
\<close>

section \<open>Patterns\<close>

datatype double = Double (bits: u64)

definition d_mag :: "double \<Rightarrow> nat" where
  "d_mag x = unat (bits x) mod 2 ^ 63"

definition d_sign :: "double \<Rightarrow> bool" where
  "d_sign x \<longleftrightarrow> 2 ^ 63 \<le> unat (bits x)"

definition d_mk :: "bool \<Rightarrow> nat \<Rightarrow> double" where
  "d_mk s n = Double (word_of_nat (n + (if s then 2 ^ 63 else 0)))"

text \<open>The magnitude of infinity: all exponent bits set, fraction zero.\<close>

definition inf_mag :: nat where
  "inf_mag = 2047 * 2 ^ 52"

definition isnan :: "double \<Rightarrow> bool" where "isnan x \<longleftrightarrow> inf_mag < d_mag x"
definition isinf :: "double \<Rightarrow> bool" where "isinf x \<longleftrightarrow> d_mag x = inf_mag"
definition isfinite :: "double \<Rightarrow> bool" where "isfinite x \<longleftrightarrow> d_mag x < inf_mag"

definition d_zero :: double where "d_zero = Double 0"
definition d_qnan :: double where "d_qnan = d_mk False (inf_mag + 2 ^ 51)"

lemma unat_u64_of_nat: "m < 2 ^ 64 \<Longrightarrow> unat (word_of_nat m :: u64) = m"
  by (simp add: unat_of_nat)

lemma unat_d_mk: "n < 2 ^ 63 \<Longrightarrow> unat (bits (d_mk s n)) = n + (if s then 2 ^ 63 else 0)"
  unfolding d_mk_def double.sel by (rule unat_u64_of_nat) simp

lemma d_mag_mk [simp]: "n < 2 ^ 63 \<Longrightarrow> d_mag (d_mk s n) = n"
  and d_sign_mk [simp]: "n < 2 ^ 63 \<Longrightarrow> d_sign (d_mk s n) = s"
  by (simp_all add: d_mag_def d_sign_def unat_d_mk)

lemma d_mk_mag_sign [simp]: "d_mk (d_sign x) (d_mag x) = x"
proof -
  obtain w where x: "x = Double w" by (cases x)
  have "unat w < 2 ^ 64" using unsigned_less [of w, where ?'a = nat] by simp
  then have "unat w mod 2 ^ 63 + (if 2 ^ 63 \<le> unat w then 2 ^ 63 else 0) = unat w"
    by (cases "2 ^ 63 \<le> unat w") (simp_all add: le_mod_geq)
  then have "word_of_nat (unat w mod 2 ^ 63 + (if 2 ^ 63 \<le> unat w then 2 ^ 63 else 0)) = w"
    by (simp only:) simp
  then show ?thesis by (simp only: x d_mk_def d_sign_def d_mag_def double.sel)
qed

lemma d_mag_bound: "d_mag x < 2 ^ 63"
  by (simp add: d_mag_def)

lemma double_eqI:
  assumes "d_sign x = d_sign y" and "d_mag x = d_mag y"
  shows "x = y"
proof -
  have "x = d_mk (d_sign x) (d_mag x)" by (rule d_mk_mag_sign [symmetric])
  also have "\<dots> = y" unfolding assms by (rule d_mk_mag_sign)
  finally show ?thesis .
qed

lemma isfinite_not: "isfinite x \<longleftrightarrow> \<not> isnan x \<and> \<not> isinf x"
  by (auto simp: isfinite_def isnan_def isinf_def)

section \<open>Comparison\<close>

text \<open>
  Sign and magnitude read as a signed integer order the non-NaN doubles, both zeros together; a
  comparison with NaN is false.
\<close>

definition d_key :: "double \<Rightarrow> int" where
  "d_key x = (if d_sign x then - int (d_mag x) else int (d_mag x))"

definition d_lt :: "double \<Rightarrow> double \<Rightarrow> bool" where
  "d_lt x y \<longleftrightarrow> \<not> isnan x \<and> \<not> isnan y \<and> d_key x < d_key y"

definition d_le :: "double \<Rightarrow> double \<Rightarrow> bool" where
  "d_le x y \<longleftrightarrow> \<not> isnan x \<and> \<not> isnan y \<and> d_key x \<le> d_key y"

definition d_eq :: "double \<Rightarrow> double \<Rightarrow> bool" where
  "d_eq x y \<longleftrightarrow> \<not> isnan x \<and> \<not> isnan y \<and> d_key x = d_key y"

section \<open>Exact values\<close>

definition mag_val :: "nat \<Rightarrow> nat" where
  "mag_val n = (let e = n div 2 ^ 52; f = n mod 2 ^ 52
                in if e = 0 then f else (2 ^ 52 + f) * 2 ^ (e - 1))"

definition d_val :: "double \<Rightarrow> int" where
  "d_val x = (if d_sign x then - int (mag_val (d_mag x)) else int (mag_val (d_mag x)))"

lemma mag_val_small: "n < 2 ^ 53 \<Longrightarrow> mag_val n = n"
proof -
  assume n: "n < 2 ^ 53"
  then have "n div 2 ^ 52 < 2" by (simp add: less_mult_imp_div_less)
  then consider "n div 2 ^ 52 = 0" | "n div 2 ^ 52 = 1" by linarith
  then show ?thesis
  proof cases
    case 1
    then show ?thesis by (simp add: mag_val_def div_eq_0_iff)
  next
    case 2
    then have "2 ^ 52 * 1 + n mod 2 ^ 52 = n" by (metis mult_div_mod_eq)
    then show ?thesis using 2 by (simp add: mag_val_def)
  qed
qed

lemma mag_val_split: "f < 2 ^ 52 \<Longrightarrow> mag_val (Suc e * 2 ^ 52 + f) = (2 ^ 52 + f) * 2 ^ e"
proof -
  assume f: "f < 2 ^ 52"
  have "(Suc e * 2 ^ 52 + f) div 2 ^ 52 = Suc e" and "(Suc e * 2 ^ 52 + f) mod 2 ^ 52 = f"
    using f by (simp_all only: div_mult_self3 mod_mult_self3 div_less mod_less)
  then show ?thesis by (simp only: mag_val_def Let_def) simp
qed

lemma mag_decompose:
  assumes "2 ^ 52 \<le> n"
  obtains e f where "n = Suc e * 2 ^ 52 + f" and "f < 2 ^ 52"
proof
  show "n mod 2 ^ 52 < 2 ^ 52" by (rule mod_less_divisor) simp
  have "0 < n div 2 ^ 52" using assms by (simp only: div_greater_zero_iff) simp
  then show "n = Suc (n div 2 ^ 52 - 1) * 2 ^ 52 + n mod 2 ^ 52"
    by (simp only: Suc_diff_1 div_mult_mod_eq)
qed

lemma mag_val_Suc: "mag_val n < mag_val (Suc n)"
proof (cases "Suc n < 2 ^ 53")
  case True
  then show ?thesis by (simp add: mag_val_small)
next
  case False
  then have "2 ^ 52 \<le> n" by simp
  then obtain e f where n: "n = Suc e * 2 ^ 52 + f" and f: "f < 2 ^ 52" by (rule mag_decompose)
  show ?thesis
  proof (cases "Suc f < 2 ^ 52")
    case True
    then have "mag_val (Suc n) = (2 ^ 52 + Suc f) * 2 ^ e"
      using mag_val_split [OF True, of e] by (simp only: n add_Suc_right)
    then show ?thesis using mag_val_split [OF f, of e] n by simp
  next
    case False
    with f have fe: "f = 2 ^ 52 - 1" by linarith
    then have "Suc n = Suc (Suc e) * 2 ^ 52 + 0" unfolding n by simp
    then have "mag_val (Suc n) = 2 ^ 52 * 2 ^ Suc e"
      using mag_val_split [of 0 "Suc e"] by simp
    moreover have "mag_val n = (2 ^ 52 + f) * 2 ^ e"
      unfolding n by (rule mag_val_split [OF f])
    ultimately show ?thesis using fe by simp
  qed
qed

lemma mag_val_strict_mono: "m < n \<Longrightarrow> mag_val m < mag_val n"
  by (rule lift_Suc_mono_less [where f = mag_val]) (rule mag_val_Suc)

lemma mag_val_less_iff [simp]: "mag_val m < mag_val n \<longleftrightarrow> m < n"
  by (metis less_asym linorder_neqE_nat mag_val_strict_mono)

lemma mag_val_eq_iff [simp]: "mag_val m = mag_val n \<longleftrightarrow> m = n"
  by (metis linorder_neqE_nat mag_val_less_iff less_irrefl)

lemma mag_val_0 [simp]: "mag_val 0 = 0"
  by (simp add: mag_val_small)

section \<open>Rounding to nearest, ties to even\<close>

fun nbits :: "nat \<Rightarrow> nat" where
  "nbits n = (if n = 0 then 0 else Suc (nbits (n div 2)))"

declare nbits.simps [simp del]

lemma nbits_0 [simp]: "nbits 0 = 0"
  by (simp add: nbits.simps)

lemma nbits_le_iff: "nbits n \<le> b \<longleftrightarrow> n < 2 ^ b"
proof (induction n arbitrary: b rule: nbits.induct)
  case (1 n)
  show ?case
  proof (cases "n = 0")
    case False
    then have step: "nbits n = Suc (nbits (n div 2))" by (simp add: nbits.simps [of n])
    show ?thesis
    proof (cases b)
      case (Suc c)
      have "nbits n \<le> b \<longleftrightarrow> n div 2 < 2 ^ c" using "1" [OF False] by (simp add: step Suc)
      also have "\<dots> \<longleftrightarrow> n < 2 ^ b" unfolding Suc power_Suc by linarith
      finally show ?thesis .
    qed (simp add: step False)
  qed simp
qed

lemma nbits_lower: "0 < n \<Longrightarrow> 2 ^ (nbits n - 1) \<le> n"
proof -
  assume "0 < n"
  then have "nbits n \<noteq> 0" by (simp add: nbits.simps)
  then have "\<not> nbits n \<le> nbits n - 1" by simp
  then show ?thesis by (simp add: nbits_le_iff not_less)
qed

lemma nbits_upper: "n < 2 ^ nbits n"
  by (rule nbits_le_iff [THEN iffD1]) simp

lemma nbits_eqI:
  assumes "2 ^ b \<le> n" and "n < 2 ^ Suc b"
  shows "nbits n = Suc b"
proof -
  have "nbits n \<le> Suc b" and "\<not> nbits n \<le> b"
    using assms by (simp_all only: nbits_le_iff not_less)
  then show ?thesis by linarith
qed

lemma nbits_mono: "m \<le> n \<Longrightarrow> nbits m \<le> nbits n"
  by (meson le_less_trans nbits_le_iff nbits_upper)

text \<open>\<open>rne p q\<close> is the fraction \<open>p / q\<close> rounded to an integer.\<close>

definition rne :: "nat \<Rightarrow> nat \<Rightarrow> nat" where
  "rne p q = (let d = p div q; r = p mod q
              in if q < 2 * r \<or> (2 * r = q \<and> odd d) then d + 1 else d)"

lemma rne_bounds: "p div q \<le> rne p q" "rne p q \<le> p div q + 1"
  by (simp_all add: rne_def Let_def)

lemma rne_exact: "0 < q \<Longrightarrow> rne (m * q) q = m"
  by (simp add: rne_def)

lemma rne_mono:
  assumes "0 < q" and "0 < q'" and "p * q' \<le> p' * q"
  shows "rne p q \<le> rne p' q'"
proof -
  define d r d' r' where "d = p div q" and "r = p mod q" and "d' = p' div q'" and "r' = p' mod q'"
  have p: "p = d * q + r" and p': "p' = d' * q' + r'" and r: "r < q" and r': "r' < q'"
    using assms by (simp_all add: d_def r_def d'_def r'_def)
  have le: "(d * q + r) * q' \<le> (d' * q' + r') * q" using assms(3) by (simp add: p p')
  have "d * q * q' < (d' + 1) * q' * q"
  proof -
    have "d * q * q' \<le> (d' * q' + r') * q" using le by (simp add: algebra_simps)
    also have "\<dots> < (d' * q' + q') * q" using r' assms(1) by simp
    finally show ?thesis by (simp add: algebra_simps)
  qed
  then have "d * (q * q') < Suc d' * (q * q')" by (simp add: algebra_simps)
  then have "d \<le> d'" by (simp only: mult_less_cancel2 less_Suc_eq_le)
  show ?thesis
  proof (cases "d = d'")
    case False
    then have "rne p q \<le> d'" using \<open>d \<le> d'\<close> rne_bounds(2) [of p q] by (simp add: d_def)
    also have "\<dots> \<le> rne p' q'" using rne_bounds(1) [of p' q'] by (simp add: d'_def)
    finally show ?thesis .
  next
    case True
    then have rr: "r * q' \<le> r' * q" using le by (simp add: algebra_simps)
    have up: "q' < 2 * r' \<or> (2 * r' = q' \<and> odd d')" if "q < 2 * r \<or> (2 * r = q \<and> odd d)"
    proof (rule ccontr)
      assume n: "\<not> ?thesis"
      then have le': "2 * r' \<le> q'" by simp
      have "q * q' \<le> (2 * r) * q'" and "(2 * r') * q \<le> q' * q"
        using that le' by (auto intro!: mult_le_mono1)
      moreover have "(2 * r) * q' = 2 * (r * q')" "(2 * r') * q = 2 * (r' * q)" "q' * q = q * q'"
        by simp_all
      ultimately have "(2 * r) * q' = q * q'" and "(2 * r') * q = q' * q"
        using rr by linarith+
      then have "2 * r = q" "2 * r' = q'" using assms(1,2) by simp_all
      with that n True show False by simp
    qed
    then show ?thesis
      using True by (auto simp: rne_def Let_def simp flip: d_def r_def d'_def r'_def)
  qed
qed

text \<open>
  \<open>rmag p q\<close> is the magnitude of the double nearest to \<open>p / q\<close> units: \<open>k\<close> bits are dropped from the
  integer part to leave a 53-bit significand, and the carry of the rounding moves to the next
  exponent by itself.
\<close>

definition rmag :: "nat \<Rightarrow> nat \<Rightarrow> nat" where
  "rmag p q = (let k = nbits (p div q) - 53 in k * 2 ^ 52 + rne p (q * 2 ^ k))"

lemma rmag_significand:
  assumes "0 < q" and k: "k = nbits (p div q) - 53"
  shows "rne p (q * 2 ^ k) \<le> 2 ^ 53" and "0 < k \<Longrightarrow> 2 ^ 52 \<le> rne p (q * 2 ^ k)"
proof -
  have d: "p div (q * 2 ^ k) = (p div q) div 2 ^ k" by (simp add: div_mult2_eq)
  have "p div q < 2 ^ (k + 53)"
    using k by (intro nbits_le_iff [THEN iffD1]) simp
  then have "(p div q) div 2 ^ k < 2 ^ 53"
    by (simp add: less_mult_imp_div_less power_add mult.commute)
  then show "rne p (q * 2 ^ k) \<le> 2 ^ 53"
    using rne_bounds(2) [of p "q * 2 ^ k"] d by simp
  assume "0 < k"
  then have "0 < p div q" and kb: "k + 52 = nbits (p div q) - 1" using k by (auto intro: gr0I)
  then have "2 ^ (k + 52) \<le> p div q" using nbits_lower [of "p div q"] by simp
  then have "2 ^ 52 \<le> (p div q) div 2 ^ k"
    by (simp add: less_eq_div_iff_mult_less_eq power_add mult.commute)
  then show "2 ^ 52 \<le> rne p (q * 2 ^ k)"
    using rne_bounds(1) [of p "q * 2 ^ k"] d by simp
qed

lemma rmag_mono:
  assumes "0 < q" and "0 < q'" and "p * q' \<le> p' * q"
  shows "rmag p q \<le> rmag p' q'"
proof -
  define k k' where "k = nbits (p div q) - 53" and "k' = nbits (p' div q') - 53"
  have "p div q \<le> p' div q'"
  proof -
    have "p div q * q * q' \<le> p * q'" by (simp add: div_times_less_eq_dividend)
    also have "\<dots> \<le> p' * q" by (rule assms)
    finally have "p div q * q' \<le> p'" using assms(1) by (simp add: mult.commute mult.left_commute)
    then show ?thesis using assms(2) by (simp add: less_eq_div_iff_mult_less_eq)
  qed
  then have "k \<le> k'" unfolding k_def k'_def by (intro diff_le_mono nbits_mono)
  show ?thesis
  proof (cases "k = k'")
    case True
    then have "rne p (q * 2 ^ k) \<le> rne p' (q' * 2 ^ k')"
      using assms by (intro rne_mono) (simp_all add: algebra_simps)
    then show ?thesis using True by (simp add: rmag_def Let_def flip: k_def k'_def)
  next
    case False
    have "rmag p q \<le> k * 2 ^ 52 + 2 ^ 53"
      using rmag_significand(1) [OF assms(1) k_def] by (simp add: rmag_def Let_def flip: k_def)
    also have "\<dots> \<le> k' * 2 ^ 52 + 2 ^ 52"
      using False \<open>k \<le> k'\<close> by simp
    also have "\<dots> \<le> rmag p' q'"
      using rmag_significand(2) [OF assms(2) k'_def] False \<open>k \<le> k'\<close>
      by (simp add: rmag_def Let_def flip: k'_def)
    finally show ?thesis .
  qed
qed

lemma rmag_small: "p < 2 ^ 53 \<Longrightarrow> rmag p 1 = p"
proof -
  assume "p < 2 ^ 53"
  then have "nbits p \<le> 53" by (simp add: nbits_le_iff)
  then show ?thesis using rne_exact [of 1 p] by (simp add: rmag_def)
qed

lemma rmag_mag_val [simp]: "rmag (mag_val n) 1 = n"
proof (cases "n < 2 ^ 53")
  case True
  then show ?thesis by (simp only: mag_val_small rmag_small)
next
  case False
  then have "2 ^ 52 \<le> n" by simp
  then obtain e f where n: "n = Suc e * 2 ^ 52 + f" and f: "f < 2 ^ 52" by (rule mag_decompose)
  have v: "mag_val n = (2 ^ 52 + f) * 2 ^ e" unfolding n by (rule mag_val_split [OF f])
  have "nbits (mag_val n) = Suc (52 + e)"
    unfolding v by (rule nbits_eqI) (use f in \<open>simp_all add: power_add mult.commute\<close>)
  then have "rmag (mag_val n) 1 = e * 2 ^ 52 + rne ((2 ^ 52 + f) * 2 ^ e) (2 ^ e)"
    by (simp add: rmag_def v)
  then show ?thesis by (simp add: rne_exact n)
qed

lemma rmag_0 [simp]: "rmag 0 q = 0"
  by (simp add: rmag_def rne_def)

lemma rmag_pos: "0 < p \<Longrightarrow> 0 < rmag p 1"
proof -
  assume "0 < p"
  then have "rmag 1 1 \<le> rmag p 1" by (intro rmag_mono) auto
  then show ?thesis using rmag_small [of 1] by simp
qed

section \<open>Arithmetic\<close>

text \<open>One is \<open>2 ^ 1074\<close> units.\<close>

definition one_units :: nat where
  "one_units = 2 ^ 1074"

definition d_round :: "bool \<Rightarrow> nat \<Rightarrow> nat \<Rightarrow> double" where
  "d_round s p q = d_mk s (min (rmag p q) inf_mag)"

definition d_neg :: "double \<Rightarrow> double" where
  "d_neg x = d_mk (\<not> d_sign x) (d_mag x)"

definition d_add :: "double \<Rightarrow> double \<Rightarrow> double" where
  "d_add x y =
     (if isnan x \<or> isnan y then d_qnan
      else if isinf x then (if isinf y \<and> d_sign x \<noteq> d_sign y then d_qnan else x)
      else if isinf y then y
      else let v = d_val x + d_val y
           in if v = 0 then d_mk (d_sign x \<and> d_sign y) 0 else d_round (v < 0) (nat \<bar>v\<bar>) 1)"

definition d_sub :: "double \<Rightarrow> double \<Rightarrow> double" where
  "d_sub x y = d_add x (d_neg y)"

definition d_mul :: "double \<Rightarrow> double \<Rightarrow> double" where
  "d_mul x y =
     (let s = (d_sign x \<noteq> d_sign y)
      in if isnan x \<or> isnan y then d_qnan
         else if isinf x \<or> isinf y then
           (if d_mag x = 0 \<or> d_mag y = 0 then d_qnan else d_mk s inf_mag)
         else d_round s (mag_val (d_mag x) * mag_val (d_mag y)) one_units)"

definition d_div :: "double \<Rightarrow> double \<Rightarrow> double" where
  "d_div x y =
     (let s = (d_sign x \<noteq> d_sign y)
      in if isnan x \<or> isnan y then d_qnan
         else if isinf x then (if isinf y then d_qnan else d_mk s inf_mag)
         else if isinf y then d_mk s 0
         else if d_mag y = 0 then (if d_mag x = 0 then d_qnan else d_mk s inf_mag)
         else d_round s (mag_val (d_mag x) * one_units) (mag_val (d_mag y)))"

text \<open>Conversions, and decimal literals \<open>p / q\<close> of the sources, rounded as the compiler rounds them.\<close>

definition d_of_nat :: "nat \<Rightarrow> double" where
  "d_of_nat n = d_round False (n * one_units) 1"

definition d_of_u64 :: "u64 \<Rightarrow> double" where
  "d_of_u64 w = d_of_nat (unat w)"

definition d_of_i64 :: "i64 \<Rightarrow> double" where
  "d_of_i64 i = d_round (i < 0) (nat \<bar>i\<bar> * one_units) 1"

definition d_lit :: "nat \<Rightarrow> nat \<Rightarrow> double" where
  "d_lit p q = d_round False (p * one_units) q"

text \<open>
  The cast \<open>static_cast<uint64_t>(x)\<close> truncates towards zero; a NaN or a truncated value that is not
  representable makes it undefined, here \<open>None\<close>.
\<close>

definition d_to_u64 :: "double \<Rightarrow> u64 option" where
  "d_to_u64 x =
     (if \<not> isfinite x then None
      else let t = mag_val (d_mag x) div one_units
           in if (d_sign x \<and> t \<noteq> 0) \<or> 2 ^ 64 \<le> t then None else Some (word_of_nat t))"

section \<open>The algebra of keys\<close>

text \<open>
  Every comparison is a comparison of keys, and the key of a sum is the rounded exact sum, so the
  order properties of double arithmetic are properties of two monotone integer functions.
\<close>

definition key_val :: "int \<Rightarrow> int" where
  "key_val k = sgn k * int (mag_val (nat \<bar>k\<bar>))"

definition rkey :: "int \<Rightarrow> int" where
  "rkey v = sgn v * int (min (rmag (nat \<bar>v\<bar>) 1) inf_mag)"

lemma d_val_key: "d_val x = key_val (d_key x)"
  by (auto simp: d_val_def key_val_def d_key_def sgn_if)

lemma key_val_mono: "k < l \<Longrightarrow> key_val k < key_val l"
proof -
  assume kl: "k < l"
  have pos: "0 < mag_val n" if "0 < n" for n using that mag_val_less_iff [of 0 n] by simp
  show ?thesis
    using kl pos [of "nat k"] pos [of "nat l"] pos [of "nat (- k)"] pos [of "nat (- l)"]
    by (auto simp: key_val_def sgn_if abs_if nat_less_eq_zless)
qed

lemma key_val_less_iff [simp]: "key_val k < key_val l \<longleftrightarrow> k < l"
  by (metis key_val_mono less_asym linorder_neqE_linordered_idom)

lemma key_val_le_iff [simp]: "key_val k \<le> key_val l \<longleftrightarrow> k \<le> l"
  by (simp flip: not_less)

lemma key_val_0 [simp]: "key_val 0 = 0"
  by (simp add: key_val_def)

lemma inf_mag_pos: "0 < inf_mag" "inf_mag < 2 ^ 63"
  by (simp_all add: inf_mag_def)

lemma rkey_mono: "v \<le> w \<Longrightarrow> rkey v \<le> rkey w"
proof -
  assume vw: "v \<le> w"
  have m: "min (rmag a 1) inf_mag \<le> min (rmag b 1) inf_mag" if "a \<le> b" for a b
    using that by (intro min.mono rmag_mono) auto
  consider "0 \<le> v" | "v < 0" "0 \<le> w" | "w < 0" using vw by linarith
  then show ?thesis
  proof cases
    case 1
    then show ?thesis using m [of "nat v" "nat w"] vw
      by (cases "v = 0") (simp_all add: rkey_def sgn_if abs_if)
  next
    case 2
    then have "rkey v \<le> 0" and "0 \<le> rkey w" by (simp_all add: rkey_def sgn_if)
    then show ?thesis by simp
  next
    case 3
    then show ?thesis using m [of "nat (- w)" "nat (- v)"] vw
      by (simp add: rkey_def sgn_if abs_if)
  qed
qed

lemma rkey_0 [simp]: "rkey 0 = 0"
  by (simp add: rkey_def)

lemma rkey_pos [simp]: "0 < rkey v \<longleftrightarrow> 0 < v"
  using rmag_pos [of "nat v"] inf_mag_pos by (auto simp: rkey_def sgn_if)

lemma rkey_neg [simp]: "rkey v < 0 \<longleftrightarrow> v < 0"
  using rmag_pos [of "nat (- v)"] inf_mag_pos by (auto simp: rkey_def sgn_if)

lemma rkey_nonneg [simp]: "0 \<le> rkey v \<longleftrightarrow> 0 \<le> v"
  by (simp flip: not_less)

lemma rkey_bound: "\<bar>rkey v\<bar> \<le> int inf_mag"
  by (simp add: rkey_def abs_mult sgn_if)

lemma rkey_key_val: "\<bar>k\<bar> \<le> int inf_mag \<Longrightarrow> rkey (key_val k) = k"
proof -
  assume k: "\<bar>k\<bar> \<le> int inf_mag"
  have pos: "0 < mag_val n" if "0 < n" for n using that mag_val_less_iff [of 0 n] by simp
  show ?thesis
    using k pos [of "nat k"] pos [of "nat (- k)"]
    by (auto simp: rkey_def key_val_def sgn_if abs_if min_def simp del: One_nat_def)
qed

lemma d_key_mk: "n < 2 ^ 63 \<Longrightarrow> d_key (d_mk s n) = (if s then - int n else int n)"
  by (simp add: d_key_def)

lemma d_mag_key: "d_mag x = nat \<bar>d_key x\<bar>"
  by (simp add: d_key_def)

lemma isfinite_key: "isfinite x \<longleftrightarrow> \<bar>d_key x\<bar> < int inf_mag"
  by (auto simp: isfinite_def d_mag_key)

lemma isfinite_simps: "isfinite x \<Longrightarrow> \<not> isnan x" "isfinite x \<Longrightarrow> \<not> isinf x"
  by (auto simp: isfinite_def isnan_def isinf_def)

lemma d_key_round:
  "d_key (d_round (v < 0) (nat \<bar>v\<bar>) 1) = rkey v" "\<not> isnan (d_round s p q)"
proof -
  have b: "min (rmag p q) inf_mag < 2 ^ 63" for p q
    using inf_mag_pos(2) by (rule le_less_trans [rotated]) simp
  show "\<not> isnan (d_round s p q)"
    unfolding isnan_def d_round_def d_mag_mk [OF b] by simp
  show "d_key (d_round (v < 0) (nat \<bar>v\<bar>) 1) = rkey v"
    unfolding d_round_def d_key_mk [OF b] by (auto simp: rkey_def sgn_if)
qed

lemma d_neg_simps [simp]:
  "d_mag (d_neg x) = d_mag x" "d_sign (d_neg x) = (\<not> d_sign x)" "d_key (d_neg x) = - d_key x"
  "d_val (d_neg x) = - d_val x" "isfinite (d_neg x) = isfinite x" "isnan (d_neg x) = isnan x"
  using d_mag_bound [of x]
  by (simp_all add: d_neg_def d_key_def d_val_def isfinite_def isnan_def)

lemma d_key_add:
  assumes "isfinite x" and "isfinite y"
  shows "d_key (d_add x y) = rkey (d_val x + d_val y)" and "\<not> isnan (d_add x y)"
  using assms
  by (auto simp: d_add_def Let_def isfinite_simps d_key_round d_key_mk isnan_def [of "d_mk _ 0"]
      simp del: One_nat_def)

lemma d_key_sub:
  assumes "isfinite x" and "isfinite y"
  shows "d_key (d_sub x y) = rkey (d_val x - d_val y)" and "\<not> isnan (d_sub x y)"
  using d_key_add [of x "d_neg y"] assms by (simp_all add: d_sub_def)

lemma rkey_d_val [simp]: "isfinite x \<Longrightarrow> rkey (d_val x) = d_key x"
  by (simp add: d_val_key rkey_key_val isfinite_key)

lemma d_add_mono:
  assumes "isfinite x" "isfinite y" "isfinite x'" "isfinite y'"
    and "d_key x \<le> d_key x'" "d_key y \<le> d_key y'"
  shows "d_key (d_add x y) \<le> d_key (d_add x' y')"
  using assms by (auto simp: d_key_add d_val_key intro!: rkey_mono add_mono)

lemma d_add_ge: "isfinite x \<Longrightarrow> isfinite y \<Longrightarrow> 0 \<le> d_key y \<Longrightarrow> d_key x \<le> d_key (d_add x y)"
  using rkey_mono [of "d_val x" "d_val x + d_val y"] key_val_le_iff [of 0 "d_key y"]
  by (simp add: d_key_add d_val_key flip: d_val_key)

lemma d_add_le: "isfinite x \<Longrightarrow> isfinite y \<Longrightarrow> d_key y \<le> 0 \<Longrightarrow> d_key (d_add x y) \<le> d_key x"
  using rkey_mono [of "d_val x + d_val y" "d_val x"] key_val_le_iff [of "d_key y" 0]
  by (simp add: d_key_add d_val_key flip: d_val_key)

lemma d_sub_le: "isfinite x \<Longrightarrow> isfinite y \<Longrightarrow> 0 \<le> d_key y \<Longrightarrow> d_key (d_sub x y) \<le> d_key x"
  using d_add_le [of x "d_neg y"] by (simp add: d_sub_def)

lemma d_sub_pos: "isfinite x \<Longrightarrow> isfinite y \<Longrightarrow> 0 < d_key (d_sub x y) \<longleftrightarrow> d_key y < d_key x"
  by (simp add: d_key_sub d_val_key)

lemma d_add_commute: "\<not> isnan x \<Longrightarrow> \<not> isnan y \<Longrightarrow> d_add x y = d_add y x"
  by (auto simp: d_add_def Let_def add.commute isinf_def intro: double_eqI)

section \<open>Non-negative finite doubles\<close>

definition amount_ok :: "double \<Rightarrow> bool" where
  "amount_ok x \<longleftrightarrow> isfinite x \<and> \<not> d_sign x"

lemma d_zero_simps [simp]:
  "d_mag d_zero = 0" "\<not> d_sign d_zero" "d_key d_zero = 0" "d_val d_zero = 0"
  "isfinite d_zero" "amount_ok d_zero" "\<not> isnan d_zero"
  by (simp_all add: d_zero_def d_mag_def d_sign_def d_key_def d_val_def isfinite_def amount_ok_def
      isnan_def inf_mag_pos)

lemma amount_ok_finite [simp]: "amount_ok x \<Longrightarrow> isfinite x"
  by (simp add: amount_ok_def)

lemma amount_ok_key: "amount_ok x \<Longrightarrow> 0 \<le> d_key x"
  by (simp add: amount_ok_def d_key_def)

lemma amount_ok_val: "amount_ok x \<Longrightarrow> 0 \<le> d_val x"
  by (simp add: amount_ok_def d_val_def)

lemma amount_ok_pos_key: "isfinite x \<Longrightarrow> 0 < d_key x \<Longrightarrow> amount_ok x"
  by (auto simp: amount_ok_def d_key_def split: if_splits)

lemma amount_ok_eqI: "amount_ok x \<Longrightarrow> amount_ok y \<Longrightarrow> d_key x = d_key y \<Longrightarrow> x = y"
  by (intro double_eqI) (simp_all add: amount_ok_def d_key_def)

lemma d_cmp_finite:
  assumes "isfinite x" and "isfinite y"
  shows "d_lt x y \<longleftrightarrow> d_key x < d_key y" and "d_le x y \<longleftrightarrow> d_key x \<le> d_key y"
    and "d_eq x y \<longleftrightarrow> d_key x = d_key y"
  using assms by (simp_all add: d_lt_def d_le_def d_eq_def isfinite_simps)

lemma d_sign_add: "isfinite x \<Longrightarrow> isfinite y \<Longrightarrow> \<not> d_sign x \<Longrightarrow> 0 \<le> d_val x + d_val y \<Longrightarrow> \<not> d_sign (d_add x y)"
  using inf_mag_pos
  by (simp add: d_add_def Let_def isfinite_simps d_round_def min.strict_coboundedI2)

lemma d_add_amount:
  assumes "amount_ok x" and "amount_ok y"
  shows "\<not> isnan (d_add x y)" and "isfinite (d_add x y) \<Longrightarrow> amount_ok (d_add x y)"
  using assms d_sign_add [of x y] amount_ok_val [of x] amount_ok_val [of y]
  by (simp_all add: amount_ok_def d_key_add)

lemma d_sub_zero_right: "isfinite x \<Longrightarrow> d_key (d_sub x d_zero) = d_key x"
  by (simp add: d_key_sub)

lemma d_sub_amount: "amount_ok x \<Longrightarrow> amount_ok y \<Longrightarrow> isfinite (d_sub x y)"
proof -
  assume xy: "amount_ok x" "amount_ok y"
  have "rkey (d_val x - d_val y) \<le> rkey (d_val x)"
    using xy by (intro rkey_mono) (simp add: amount_ok_val)
  moreover have "rkey (- d_val y) \<le> rkey (d_val x - d_val y)"
    using xy by (intro rkey_mono) (simp add: amount_ok_val)
  moreover have "rkey (- d_val y) = - d_key y"
    using rkey_d_val [of "d_neg y"] xy by simp
  moreover have "rkey (d_val x) = d_key x" "d_key (d_sub x y) = rkey (d_val x - d_val y)"
    using xy by (simp_all add: d_key_sub)
  moreover have "\<bar>d_key x\<bar> < int inf_mag" "\<bar>d_key y\<bar> < int inf_mag"
    using xy by (simp_all flip: isfinite_key)
  ultimately show ?thesis
    unfolding isfinite_key by linarith
qed

section \<open>Small integers are exact\<close>

lemma mag_val_inf: "mag_val inf_mag = 2 ^ 52 * 2 ^ 2046"
  using mag_val_split [of 0 2046] by (simp only: inf_mag_def) simp

lemma representable: "m < 2 ^ 53 \<Longrightarrow> \<exists>i. mag_val i = m * 2 ^ k"
proof -
  assume m: "m < 2 ^ 53"
  show ?thesis
  proof (cases "nbits m + k \<le> 53 \<or> m = 0")
    case True
    have "m * 2 ^ k < 2 ^ nbits m * 2 ^ k" using nbits_upper [of m] by simp
    also have "\<dots> \<le> 2 ^ 53" if "nbits m + k \<le> 53" unfolding power_add [symmetric] using that
      by (intro power_increasing) simp_all
    finally show ?thesis using True mag_val_small by (metis mag_val_0 mult_0)
  next
    case False
    define s e where "s = 53 - nbits m" and "e = k - s"
    have le: "nbits m \<le> 53" using m by (simp only: nbits_le_iff)
    then have k: "k = s + e" using False by (simp add: s_def e_def)
    have lo: "2 ^ 52 \<le> m * 2 ^ s" and hi: "m * 2 ^ s < 2 ^ 53"
    proof -
      have "0 < nbits m" using False by (simp add: nbits.simps [of m])
      then have sum: "nbits m - 1 + s = 52" "nbits m + s = 53" using le by (simp_all add: s_def)
      have "2 ^ (nbits m - 1) * 2 ^ s \<le> m * 2 ^ s" using nbits_lower [of m] False by simp
      then show "2 ^ 52 \<le> m * 2 ^ s" by (simp only: sum flip: power_add)
      have "m * 2 ^ s < 2 ^ nbits m * 2 ^ s" using nbits_upper [of m] by simp
      then show "m * 2 ^ s < 2 ^ 53" by (simp only: sum flip: power_add)
    qed
    have "mag_val (Suc e * 2 ^ 52 + (m * 2 ^ s - 2 ^ 52)) = (2 ^ 52 + (m * 2 ^ s - 2 ^ 52)) * 2 ^ e"
      by (rule mag_val_split) (use hi in simp)
    also have "\<dots> = m * 2 ^ k" using lo by (simp add: k power_add)
    finally show ?thesis by blast
  qed
qed

lemma nat_mag:
  assumes "n < 2 ^ 53"
  shows "mag_val (rmag (n * one_units) 1) = n * one_units" and "rmag (n * one_units) 1 < inf_mag"
proof -
  obtain i where i: "mag_val i = n * one_units"
    using representable [OF assms, of 1074] by (auto simp: one_units_def)
  then show "mag_val (rmag (n * one_units) 1) = n * one_units"
    by (metis rmag_mag_val)
  have "n * one_units < 2 ^ 53 * 2 ^ 1074"
    unfolding one_units_def using assms by (simp only: mult_less_cancel2) simp
  also have "\<dots> \<le> mag_val inf_mag"
    unfolding mag_val_inf power_add [symmetric] by (rule power_increasing) simp_all
  finally have "i < inf_mag" by (simp flip: i)
  then show "rmag (n * one_units) 1 < inf_mag" using i by (metis rmag_mag_val)
qed

lemma d_of_nat_exact:
  assumes "n < 2 ^ 53"
  shows "d_val (d_of_nat n) = int n * int one_units" and "amount_ok (d_of_nat n)"
proof -
  let ?r = "rmag (n * one_units) 1"
  have r: "?r < inf_mag" "?r < 2 ^ 63" using nat_mag(2) [OF assms] inf_mag_pos(2) by simp_all
  then have "d_of_nat n = d_mk False ?r" by (simp add: d_of_nat_def d_round_def)
  then show "d_val (d_of_nat n) = int n * int one_units" and "amount_ok (d_of_nat n)"
    using r nat_mag(1) [OF assms] by (simp_all add: d_val_def amount_ok_def isfinite_def)
qed

lemma one_units_pos: "0 < one_units"
  by (simp add: one_units_def)

lemma d_of_nat_0 [simp]: "d_of_nat 0 = d_zero"
  by (simp add: d_of_nat_def d_round_def d_zero_def d_mk_def)

lemma d_of_nat_less_iff:
  assumes "m < 2 ^ 53" and "n < 2 ^ 53"
  shows "d_key (d_of_nat m) < d_key (d_of_nat n) \<longleftrightarrow> m < n"
proof -
  have "d_key (d_of_nat m) < d_key (d_of_nat n) \<longleftrightarrow> d_val (d_of_nat m) < d_val (d_of_nat n)"
    by (simp only: d_val_key key_val_less_iff)
  also have "\<dots> \<longleftrightarrow> m < n"
    using assms one_units_pos by (simp add: d_of_nat_exact)
  finally show ?thesis .
qed

lemma d_of_nat_add:
  assumes "m + n < 2 ^ 53"
  shows "d_add (d_of_nat m) (d_of_nat n) = d_of_nat (m + n)"
proof -
  have mn: "m < 2 ^ 53" "n < 2 ^ 53" using assms by simp_all
  have ok: "amount_ok (d_of_nat m)" "amount_ok (d_of_nat n)" "amount_ok (d_of_nat (m + n))"
    using mn assms by (simp_all add: d_of_nat_exact)
  have v: "d_val (d_of_nat m) + d_val (d_of_nat n) = d_val (d_of_nat (m + n))"
    by (simp add: d_of_nat_exact [OF mn(1)] d_of_nat_exact [OF mn(2)] d_of_nat_exact [OF assms]
        algebra_simps)
  have key: "d_key (d_add (d_of_nat m) (d_of_nat n)) = d_key (d_of_nat (m + n))"
    using ok by (simp add: d_key_add v)
  then have "isfinite (d_add (d_of_nat m) (d_of_nat n))"
    using ok(3) by (simp add: isfinite_key amount_ok_def)
  then show ?thesis
    using d_add_amount(2) [OF ok(1,2)] ok(3) key by (intro amount_ok_eqI) simp_all
qed

lemma d_of_nat_sub:
  assumes "m < 2 ^ 53" and "n \<le> m"
  shows "d_sub (d_of_nat m) (d_of_nat n) = d_of_nat (m - n)"
proof -
  have mn: "m < 2 ^ 53" "n < 2 ^ 53" "m - n < 2 ^ 53" using assms by simp_all
  have ok: "amount_ok (d_of_nat m)" "amount_ok (d_of_nat n)" "amount_ok (d_of_nat (m - n))"
    using mn by (simp_all add: d_of_nat_exact)
  have v: "d_val (d_of_nat m) - d_val (d_of_nat n) = d_val (d_of_nat (m - n))"
    using assms by (simp add: d_of_nat_exact [OF mn(1)] d_of_nat_exact [OF mn(2)]
        d_of_nat_exact [OF mn(3)] of_nat_diff left_diff_distrib)
  have "\<not> d_sign (d_sub (d_of_nat m) (d_of_nat n))"
    unfolding d_sub_def by (rule d_sign_add) (use ok v amount_ok_val [OF ok(3)] in \<open>simp_all add: amount_ok_def\<close>)
  then have "amount_ok (d_sub (d_of_nat m) (d_of_nat n))"
    using d_sub_amount [OF ok(1,2)] by (simp add: amount_ok_def)
  then show ?thesis
    using ok v by (intro amount_ok_eqI) (simp_all add: d_key_sub)
qed

lemma d_of_nat_to_u64: "n < 2 ^ 53 \<Longrightarrow> d_to_u64 (d_of_nat n) = Some (word_of_nat n)"
proof -
  assume n: "n < 2 ^ 53"
  have ok: "amount_ok (d_of_nat n)" using n by (rule d_of_nat_exact)
  then have "int (mag_val (d_mag (d_of_nat n))) = d_val (d_of_nat n)"
    by (simp add: d_val_def amount_ok_def)
  then have "mag_val (d_mag (d_of_nat n)) = n * one_units"
    using d_of_nat_exact(1) [OF n] by (metis of_nat_eq_iff of_nat_mult)
  then show ?thesis
    using ok n one_units_pos by (simp add: d_to_u64_def amount_ok_def Let_def)
qed

section \<open>Products, quotients and conversions of amounts\<close>

lemma d_key_pos_round: "d_key (d_round False p q) = int (min (rmag p q) inf_mag)"
  and d_sign_pos_round: "\<not> d_sign (d_round False p q)"
proof -
  have b: "min (rmag p q) inf_mag < 2 ^ 63"
    using inf_mag_pos(2) by (rule le_less_trans [rotated]) simp
  show "d_key (d_round False p q) = int (min (rmag p q) inf_mag)" and "\<not> d_sign (d_round False p q)"
    using b by (simp_all only: d_round_def d_key_mk d_sign_mk if_False simp_thms)
qed

lemma round_mono:
  "0 < q \<Longrightarrow> 0 < q' \<Longrightarrow> p * q' \<le> p' * q \<Longrightarrow> d_key (d_round False p q) \<le> d_key (d_round False p' q')"
  unfolding d_key_pos_round of_nat_le_iff by (intro min.mono rmag_mono) simp_all

lemma rmag_mag_val_Suc [simp]: "rmag (mag_val n) (Suc 0) = n"
  using rmag_mag_val [of n] by simp

lemma amount_ok_round: "rmag p q < inf_mag \<Longrightarrow> amount_ok (d_round False p q)"
  by (simp add: amount_ok_def isfinite_key d_key_pos_round d_sign_pos_round)

lemma d_mul_round:
  "amount_ok x \<Longrightarrow> amount_ok y \<Longrightarrow> d_mul x y = d_round False (mag_val (d_mag x) * mag_val (d_mag y)) one_units"
  by (simp add: d_mul_def amount_ok_def isfinite_simps)

lemma amount_ok_mag: "amount_ok x \<Longrightarrow> d_key x = int (d_mag x)"
  by (simp add: amount_ok_def d_key_def)

lemma d_div_round:
  "amount_ok x \<Longrightarrow> amount_ok y \<Longrightarrow> 0 < d_key y \<Longrightarrow>
     d_div x y = d_round False (mag_val (d_mag x) * one_units) (mag_val (d_mag y))"
  by (simp add: d_div_def amount_ok_mag) (simp add: amount_ok_def isfinite_simps)

lemma mag_val_mono: "m \<le> n \<Longrightarrow> mag_val m \<le> mag_val n"
  by (metis linorder_not_le mag_val_less_iff)

lemma d_mul_mono:
  assumes "amount_ok x" "amount_ok y" "amount_ok c" and "d_key x \<le> d_key y"
  shows "d_key (d_mul x c) \<le> d_key (d_mul y c)"
proof -
  have "mag_val (d_mag x) \<le> mag_val (d_mag y)" using assms by (simp add: amount_ok_mag mag_val_mono)
  then show ?thesis
    unfolding d_mul_round [OF assms(1,3)] d_mul_round [OF assms(2,3)]
    by (intro round_mono) (simp_all add: one_units_pos mult_le_mono)
qed

lemma d_div_mono:
  assumes "amount_ok x" "amount_ok y" "amount_ok c" "0 < d_key c" and "d_key x \<le> d_key y"
  shows "d_key (d_div x c) \<le> d_key (d_div y c)"
proof -
  have "mag_val (d_mag x) \<le> mag_val (d_mag y)" using assms by (simp add: amount_ok_mag mag_val_mono)
  moreover have "0 < mag_val (d_mag c)" using assms mag_val_less_iff [of 0 "d_mag c"] by (simp add: amount_ok_mag)
  ultimately show ?thesis
    unfolding d_div_round [OF assms(1,3,4)] d_div_round [OF assms(2,3,4)]
    by (intro round_mono) (simp_all add: mult_le_mono)
qed

lemma mag_one: "d_mag (d_of_nat 1) = rmag one_units 1" and rmag_one_finite: "rmag one_units 1 < inf_mag"
proof -
  show f: "rmag one_units 1 < inf_mag" using nat_mag(2) [of 1] by simp
  then have "rmag one_units 1 < 2 ^ 63" using inf_mag_pos(2) by (rule less_trans)
  then show "d_mag (d_of_nat 1) = rmag one_units 1"
    using f by (simp add: d_of_nat_def d_round_def)
qed

text \<open>A quotient of ordered amounts is a fraction.\<close>

lemma d_div_fraction:
  assumes "amount_ok x" "amount_ok y" "0 < d_key y" and "d_key x \<le> d_key y"
  shows "amount_ok (d_div x y)" and "d_key (d_div x y) \<le> d_key (d_of_nat 1)"
proof -
  have m: "0 < mag_val (d_mag y)" using assms mag_val_less_iff [of 0 "d_mag y"] by (simp add: amount_ok_mag)
  have "mag_val (d_mag x) \<le> mag_val (d_mag y)"
    using assms by (simp add: amount_ok_mag mag_val_mono)
  then have "rmag (mag_val (d_mag x) * one_units) (mag_val (d_mag y)) \<le> rmag one_units 1"
    using m by (intro rmag_mono) (simp_all add: mult.commute)
  then have le: "rmag (mag_val (d_mag x) * one_units) (mag_val (d_mag y)) \<le> d_mag (d_of_nat 1)"
    by (simp only: mag_one)
  then show "amount_ok (d_div x y)"
    unfolding d_div_round [OF assms(1-3)]
    by (intro amount_ok_round le_less_trans [OF _ rmag_one_finite]) (simp only: mag_one)
  then show "d_key (d_div x y) \<le> d_key (d_of_nat 1)"
    using assms le d_of_nat_exact(2) [of 1] by (simp add: d_div_round d_key_pos_round amount_ok_mag min.coboundedI1)
qed

lemma d_mul_fraction:
  assumes "amount_ok x" "amount_ok c" and "d_key c \<le> d_key (d_of_nat 1)"
  shows "amount_ok (d_mul x c)" and "d_key (d_mul x c) \<le> d_key x"
proof -
  have "d_mag c \<le> d_mag (d_of_nat 1)"
    using assms d_of_nat_exact(2) [of 1] by (simp add: amount_ok_mag)
  then have "mag_val (d_mag c) \<le> one_units"
    using nat_mag(1) [of 1] by (metis mag_one mag_val_mono mult_1 one_less_numeral_iff one_less_power
        semiring_norm(76) zero_less_numeral)
  then have "mag_val (d_mag x) * mag_val (d_mag c) * 1 \<le> mag_val (d_mag x) * one_units" by simp
  then have "rmag (mag_val (d_mag x) * mag_val (d_mag c)) one_units \<le> rmag (mag_val (d_mag x)) 1"
    by (intro rmag_mono) (simp_all add: one_units_pos)
  then have le: "rmag (mag_val (d_mag x) * mag_val (d_mag c)) one_units \<le> d_mag x" by simp
  moreover have "d_mag x < inf_mag" using assms(1) by (simp add: amount_ok_def isfinite_def)
  ultimately show "amount_ok (d_mul x c)" using assms by (auto simp: d_mul_round intro!: amount_ok_round)
  then show "d_key (d_mul x c) \<le> d_key x"
    using assms le by (simp add: d_mul_round d_key_pos_round amount_ok_mag min.coboundedI1)
qed

lemma d_mul_commute: "amount_ok x \<Longrightarrow> amount_ok y \<Longrightarrow> d_mul x y = d_mul y x"
  by (simp add: d_mul_round mult.commute)

text \<open>Dividing by one or more keeps an amount finite.\<close>

lemma d_div_amount:
  assumes "amount_ok x" "amount_ok c" and "d_key (d_of_nat 1) \<le> d_key c"
  shows "amount_ok (d_div x c)"
proof -
  have c: "d_mag (d_of_nat 1) \<le> d_mag c"
    using assms d_of_nat_exact(2) [of 1] by (simp add: amount_ok_mag)
  have one: "mag_val (d_mag (d_of_nat 1)) = one_units"
    unfolding mag_one using nat_mag(1) [of 1] by simp
  then have le: "one_units \<le> mag_val (d_mag c)" using mag_val_mono [OF c] by simp
  then have "0 < mag_val (d_mag c)" using one_units_pos by (rule less_le_trans [rotated])
  then have pos: "0 < d_key c" using assms(2) mag_val_less_iff [of 0 "d_mag c"] by (simp add: amount_ok_mag)
  have "rmag (mag_val (d_mag x) * one_units) (mag_val (d_mag c)) \<le> rmag (mag_val (d_mag x)) 1"
    using le \<open>0 < mag_val (d_mag c)\<close> by (intro rmag_mono) simp_all
  moreover have "d_mag x < inf_mag" using assms(1) by (simp add: amount_ok_def isfinite_def)
  ultimately show ?thesis
    unfolding d_div_round [OF assms(1,2) pos] by (intro amount_ok_round) simp
qed

lemma d_lit_fraction:
  assumes "0 < q" and "p \<le> q"
  shows "amount_ok (d_lit p q)" and "d_key (d_lit p q) \<le> d_key (d_of_nat 1)"
proof -
  have "rmag (p * one_units) q \<le> rmag one_units 1"
    using assms by (intro rmag_mono) simp_all
  then show "amount_ok (d_lit p q)"
    unfolding d_lit_def by (intro amount_ok_round le_less_trans [OF _ rmag_one_finite])
  show "d_key (d_lit p q) \<le> d_key (d_of_nat 1)"
    unfolding d_lit_def d_of_nat_def using assms by (intro round_mono) simp_all
qed

text \<open>Every 64-bit integer converts to a finite amount, in order.\<close>

lemma d_of_nat_amount: "n \<le> 2 ^ 64 \<Longrightarrow> amount_ok (d_of_nat n)"
proof -
  assume n: "n \<le> 2 ^ 64"
  obtain i where i: "mag_val i = 1 * 2 ^ (64 + 1074)" using representable [of 1 "64 + 1074"] by auto
  have "rmag (n * one_units) 1 \<le> rmag (mag_val i) 1"
    using n unfolding i one_units_def by (intro rmag_mono) (simp_all add: power_add)
  moreover have "mag_val i < mag_val inf_mag"
    unfolding mag_val_inf i power_add [symmetric] mult_1 by (rule power_strict_increasing) simp_all
  then have "rmag (mag_val i) 1 < inf_mag" by simp
  ultimately show ?thesis unfolding d_of_nat_def by (intro amount_ok_round) (rule le_less_trans)
qed

lemma d_of_u64_amount [simp]: "amount_ok (d_of_u64 w)"
  using unsigned_less [of w, where ?'a = nat] by (simp add: d_of_u64_def d_of_nat_amount)

lemma d_of_nat_mono: "m \<le> n \<Longrightarrow> d_key (d_of_nat m) \<le> d_key (d_of_nat n)"
  unfolding d_of_nat_def by (intro round_mono) simp_all

lemma d_of_nat_pos: "0 < n \<Longrightarrow> 0 < d_key (d_of_nat n)"
  using d_of_nat_mono [of 1 n] d_of_nat_less_iff [of 0 1] by simp

lemma d_of_i64_nonneg: "0 \<le> i \<Longrightarrow> d_of_i64 i = d_of_nat (nat i)"
  by (simp add: d_of_i64_def d_of_nat_def)

section \<open>Evaluating concrete doubles\<close>

text \<open>
  A common power of two comes out of a rounding once the significand is full, so closed terms compute
  on numerals of about a hundred bits instead of a thousand.
\<close>

lemma nbits_numeral [simp]:
  "nbits 1 = 1" "nbits (Suc 0) = 1" "nbits (numeral Num.One) = 1"
  "nbits (numeral (Num.Bit0 m)) = Suc (nbits (numeral m))"
  "nbits (numeral (Num.Bit1 m)) = Suc (nbits (numeral m))"
  by (simp_all add: nbits.simps [of "1::nat"] nbits.simps [of "numeral _"] nbits.simps [of "Suc 0"])

lemma rne_scale: "0 < c \<Longrightarrow> rne (p * c) (q * c) = rne p q"
  by (simp add: rne_def Let_def mult_mod_left flip: mult.assoc)

lemma nbits_mult_pow:
  assumes "0 < d" and "d * 2 ^ j \<le> n" and "n < (d + 1) * 2 ^ j"
  shows "nbits n = nbits d + j"
proof -
  have b: "0 < nbits d" using assms(1) by (simp add: nbits.simps [of d])
  have "d + 1 \<le> 2 ^ nbits d" using nbits_upper [of d] by simp
  then have "(d + 1) * 2 ^ j \<le> 2 ^ nbits d * 2 ^ j" by (rule mult_le_mono1)
  then have hi: "n < 2 ^ Suc (nbits d - 1 + j)" using assms(3) b by (simp flip: power_add)
  have "2 ^ (nbits d - 1) * 2 ^ j \<le> d * 2 ^ j" using nbits_lower [OF assms(1)] by simp
  then have lo: "2 ^ (nbits d - 1 + j) \<le> n" unfolding power_add using assms(2) by (rule le_trans)
  show ?thesis using nbits_eqI [OF lo hi] b by simp
qed

lemma rmag_shift:
  assumes "0 < q" and "2 ^ 52 \<le> p div q"
  shows "rmag (p * 2 ^ j) q = j * 2 ^ 52 + rmag p q"
proof -
  have pq: "0 < p div q" using assms(2) by (rule less_le_trans [rotated]) simp
  have lo: "p div q * 2 ^ j \<le> (p * 2 ^ j) div q"
    by (metis div_mult1_eq le_add1 mult.commute)
  have "p < (p div q + 1) * q" using assms(1) by (metis Suc_eq_plus1 dividend_less_div_times add.commute mult_Suc)
  then have "p * 2 ^ j < (p div q + 1) * q * 2 ^ j" by (rule mult_less_mono1) simp
  also have "\<dots> = (p div q + 1) * 2 ^ j * q" by (simp only: mult.assoc mult.commute [of q])
  finally have "p * 2 ^ j < (p div q + 1) * 2 ^ j * q" .
  then have hi: "(p * 2 ^ j) div q < (p div q + 1) * 2 ^ j"
    by (rule less_mult_imp_div_less)
  have n: "nbits ((p * 2 ^ j) div q) = nbits (p div q) + j"
    by (rule nbits_mult_pow [OF pq lo hi])
  have "\<not> nbits (p div q) \<le> 52" using assms(2) by (simp only: nbits_le_iff not_less)
  then have "nbits (p div q) + j - 53 = (nbits (p div q) - 53) + j" by simp
  then show ?thesis
    using rne_scale [of "2 ^ j" p "q * 2 ^ (nbits (p div q) - 53)"]
    by (simp add: rmag_def n power_add algebra_simps)
qed

lemma d_lit_eval:
  assumes "0 < q" and "2 ^ 52 \<le> (p * 2 ^ 60) div q"
  shows "d_lit p q = d_mk False (min (1014 * 2 ^ 52 + rmag (p * 2 ^ 60) q) inf_mag)"
proof -
  have "p * one_units = p * 2 ^ 60 * 2 ^ 1014"
    unfolding one_units_def by (simp only: mult.assoc flip: power_add) simp
  then show ?thesis
    by (simp only: d_lit_def d_round_def rmag_shift [OF assms])
qed

lemma d_of_nat_eval:
  assumes "0 < n"
  shows "d_of_nat n = d_mk False (min (1022 * 2 ^ 52 + rmag (n * 2 ^ 52) 1) inf_mag)"
proof -
  have "n * one_units = n * 2 ^ 52 * 2 ^ 1022"
    unfolding one_units_def by (simp only: mult.assoc flip: power_add) simp
  moreover have "2 ^ 52 \<le> n * 2 ^ 52 div 1" using assms by simp
  ultimately show ?thesis
    by (simp only: d_of_nat_def d_round_def rmag_shift [OF zero_less_one])
qed

lemmas d_eval = d_lit_eval d_of_nat_eval d_mk_def rmag_def rne_def inf_mag_def

end
