(* ===== verification/Identities.thy ===== *)
theory Identities
  imports Ord_Map
begin

text \<open>
  Identities and generations (\<open>core/strong_id.hpp\<close>, \<open>core/identities.hpp\<close>, \<open>core/hash.hpp\<close>), provenance
  (\<open>core/provenance.hpp\<close>), and the freshness evidence with its generation tracker
  (\<open>model/freshness.hpp\<close>). The tag of an identity is a phantom type argument, so identities of
  different authorities have different HOL types, as they have different C++ types.
\<close>

section \<open>Strong identities\<close>

datatype 'tag StrongId = StrongId (sid_value: u64)

definition kInvalidId :: u64 where "kInvalidId = 0"

definition sid_default :: "'tag StrongId" where "sid_default = StrongId kInvalidId"

definition sid_valid :: "'tag StrongId \<Rightarrow> bool" where
  "sid_valid i \<longleftrightarrow> sid_value i \<noteq> kInvalidId"

instantiation StrongId :: (type) linorder
begin

definition less_eq_StrongId :: "'a StrongId \<Rightarrow> 'a StrongId \<Rightarrow> bool" where
  "i \<le> j \<longleftrightarrow> sid_value i \<le> sid_value j"

definition less_StrongId :: "'a StrongId \<Rightarrow> 'a StrongId \<Rightarrow> bool" where
  "i < j \<longleftrightarrow> sid_value i < sid_value j"

instance
  by intro_classes (auto simp: less_eq_StrongId_def less_StrongId_def StrongId.expand)

end

section \<open>Generations\<close>

datatype 'tag Generation = Generation (gen_value: u64)

definition gen_default :: "'tag Generation" where "gen_default = Generation kInvalidId"

definition gen_valid :: "'tag Generation \<Rightarrow> bool" where
  "gen_valid g \<longleftrightarrow> gen_value g \<noteq> kInvalidId"

definition gen_advance :: "'tag Generation \<Rightarrow> 'tag Generation" where
  "gen_advance g =
     (if gen_value g = kInvalidId then Generation 1
      else Generation (if gen_value g = - 1 then gen_value g else gen_value g + 1))"

definition isNewerThan :: "'tag Generation \<Rightarrow> 'tag Generation \<Rightarrow> bool" where
  "isNewerThan g h \<longleftrightarrow> gen_value h < gen_value g"

definition isCurrent :: "'tag Generation \<Rightarrow> 'tag Generation \<Rightarrow> bool" where
  "isCurrent g h \<longleftrightarrow> gen_value g = gen_value h"

instantiation Generation :: (type) linorder
begin

definition less_eq_Generation :: "'a Generation \<Rightarrow> 'a Generation \<Rightarrow> bool" where
  "g \<le> h \<longleftrightarrow> gen_value g \<le> gen_value h"

definition less_Generation :: "'a Generation \<Rightarrow> 'a Generation \<Rightarrow> bool" where
  "g < h \<longleftrightarrow> gen_value g < gen_value h"

instance
  by intro_classes (auto simp: less_eq_Generation_def less_Generation_def Generation.expand)

end

lemma word_less_Suc: "w \<noteq> (- 1 :: u64) \<Longrightarrow> w < w + 1"
  using unatSuc [of w] by (auto simp: word_less_nat_alt add.commute eq_neg_iff_add_eq_0)

section \<open>The identity domains\<close>

typedecl CapacityModelTag
typedecl CapacitySnapshotTag
typedecl CapacityForecastTag
typedecl ResourceTag
typedecl ResourcePoolTag
typedecl FleetTag
typedecl NodeTag
typedecl DeviceTag
typedecl MemoryDomainTag
typedecl LinkTag
typedecl TopologyTag
typedecl CapabilityTag
typedecl HealthTag
typedecl AvailabilityTag
typedecl ReservationTag
typedecl WorkloadDemandTag
typedecl PolicyTag
typedecl SloTag
typedecl ForecastSourceTag
typedecl SourceBootTag
typedecl WorkerBootTag
typedecl WorkerTag
typedecl CoordinatorEpochTag
typedecl ScenarioTag
typedecl HeadroomTag
typedecl FragmentationTag
typedecl AuthorityTag

type_synonym CapacityModelId = "CapacityModelTag StrongId"
type_synonym CapacityModelGeneration = "CapacityModelTag Generation"
type_synonym CapacitySnapshotId = "CapacitySnapshotTag StrongId"
type_synonym CapacitySnapshotGeneration = "CapacitySnapshotTag Generation"
type_synonym CapacityForecastId = "CapacityForecastTag StrongId"
type_synonym CapacityForecastGeneration = "CapacityForecastTag Generation"
type_synonym ResourceId = "ResourceTag StrongId"
type_synonym ResourceGeneration = "ResourceTag Generation"
type_synonym ResourcePoolId = "ResourcePoolTag StrongId"
type_synonym ResourcePoolGeneration = "ResourcePoolTag Generation"
type_synonym FleetId = "FleetTag StrongId"
type_synonym FleetGeneration = "FleetTag Generation"
type_synonym NodeId = "NodeTag StrongId"
type_synonym NodeGeneration = "NodeTag Generation"
type_synonym DeviceId = "DeviceTag StrongId"
type_synonym DeviceGeneration = "DeviceTag Generation"
type_synonym MemoryDomainId = "MemoryDomainTag StrongId"
type_synonym MemoryDomainGeneration = "MemoryDomainTag Generation"
type_synonym LinkId = "LinkTag StrongId"
type_synonym LinkGeneration = "LinkTag Generation"
type_synonym TopologyId = "TopologyTag StrongId"
type_synonym TopologyGeneration = "TopologyTag Generation"
type_synonym CapabilityId = "CapabilityTag StrongId"
type_synonym CapabilityGeneration = "CapabilityTag Generation"
type_synonym HealthId = "HealthTag StrongId"
type_synonym HealthGeneration = "HealthTag Generation"
type_synonym AvailabilityId = "AvailabilityTag StrongId"
type_synonym AvailabilityGeneration = "AvailabilityTag Generation"
type_synonym ReservationId = "ReservationTag StrongId"
type_synonym ReservationGeneration = "ReservationTag Generation"
type_synonym WorkloadDemandId = "WorkloadDemandTag StrongId"
type_synonym WorkloadDemandGeneration = "WorkloadDemandTag Generation"
type_synonym PolicyId = "PolicyTag StrongId"
type_synonym PolicyGeneration = "PolicyTag Generation"
type_synonym SloId = "SloTag StrongId"
type_synonym SloGeneration = "SloTag Generation"
type_synonym ForecastSourceId = "ForecastSourceTag StrongId"
type_synonym ForecastSourceGeneration = "ForecastSourceTag Generation"
type_synonym SourceBootId = "SourceBootTag StrongId"
type_synonym WorkerBootId = "WorkerBootTag StrongId"
type_synonym WorkerId = "WorkerTag StrongId"
type_synonym CoordinatorEpoch = "CoordinatorEpochTag Generation"
type_synonym ScenarioId = "ScenarioTag StrongId"
type_synonym ScenarioGeneration = "ScenarioTag Generation"
type_synonym HeadroomId = "HeadroomTag StrongId"
type_synonym HeadroomGeneration = "HeadroomTag Generation"
type_synonym FragmentationId = "FragmentationTag StrongId"
type_synonym FragmentationGeneration = "FragmentationTag Generation"
type_synonym AuthorityId = "AuthorityTag StrongId"
type_synonym AuthorityGeneration = "AuthorityTag Generation"

section \<open>Hashing\<close>

text \<open>
  The hash of an identity or generation is the library's hash of its number (\<open>core/hash.hpp\<close>), which is an
  argument: it determines the identity exactly when the library's hash determines the number.
\<close>

definition hash_StrongId :: "(u64 \<Rightarrow> u64) \<Rightarrow> 'tag StrongId \<Rightarrow> u64" where
  "hash_StrongId hash64 i = hash64 (sid_value i)"

definition hash_Generation :: "(u64 \<Rightarrow> u64) \<Rightarrow> 'tag Generation \<Rightarrow> u64" where
  "hash_Generation hash64 g = hash64 (gen_value g)"

lemma inj_comp_bij:
  assumes "bij f"
  shows "inj (h \<circ> f) \<longleftrightarrow> inj h"
proof
  assume "inj (h \<circ> f)"
  then have "inj ((h \<circ> f) \<circ> inv f)" using bij_is_inj [OF bij_imp_bij_inv [OF assms]] by (rule inj_compose)
  moreover have "(h \<circ> f) \<circ> inv f = h" using assms by (simp add: fun_eq_iff surj_f_inv_f bij_is_surj)
  ultimately show "inj h" by simp
qed (use assms in \<open>auto intro: inj_compose bij_is_inj\<close>)

lemma bij_numbers: "bij sid_value" "bij gen_value"
proof -
  show "bij sid_value" by (rule o_bij [of StrongId]) (simp_all add: fun_eq_iff)
  show "bij gen_value" by (rule o_bij [of Generation]) (simp_all add: fun_eq_iff)
qed

lemma hash_collisions:
  "inj (hash_StrongId hash64) \<longleftrightarrow> inj hash64" "inj (hash_Generation hash64) \<longleftrightarrow> inj hash64"
  using inj_comp_bij [OF bij_numbers(1), of hash64] inj_comp_bij [OF bij_numbers(2), of hash64]
  by (simp_all add: comp_def hash_StrongId_def [abs_def] hash_Generation_def [abs_def])

section \<open>Provenance\<close>

text \<open>
  An \<open>enum class E : uint8_t\<close> holds any byte, and the payload readers cast bytes to these types
  unchecked. Enumerations that are read from bytes are therefore wrapped bytes with named values;
  enumerations that never come from bytes are datatypes.
\<close>

datatype Provenance = Provenance (prov_code: u8)

abbreviation "Measured \<equiv> Provenance 0"
abbreviation "Reported \<equiv> Provenance 1"
abbreviation "Derived \<equiv> Provenance 2"
abbreviation "Estimated \<equiv> Provenance 3"
abbreviation "ForecastP \<equiv> Provenance 4"
abbreviation "Reconstructed \<equiv> Provenance 5"
abbreviation "Synthetic \<equiv> Provenance 6"
abbreviation "UnknownP \<equiv> Provenance 7"

definition Provenance_to_string :: "Provenance \<Rightarrow> string" where
  "Provenance_to_string p =
     (if p = Measured then ''MEASURED''
      else if p = Reported then ''REPORTED''
      else if p = Derived then ''DERIVED''
      else if p = Estimated then ''ESTIMATED''
      else if p = ForecastP then ''FORECAST''
      else if p = Reconstructed then ''RECONSTRUCTED''
      else if p = Synthetic then ''SYNTHETIC''
      else ''UNKNOWN'')"

datatype EvidenceKind = EvReal | EvDerived | EvEstimated | EvForecast | EvSynthetic | EvUnknown
  | EvUnsupported

fun EvidenceKind_to_string :: "EvidenceKind \<Rightarrow> string" where
  "EvidenceKind_to_string EvReal = ''REAL''"
| "EvidenceKind_to_string EvDerived = ''DERIVED''"
| "EvidenceKind_to_string EvEstimated = ''ESTIMATED''"
| "EvidenceKind_to_string EvForecast = ''FORECAST''"
| "EvidenceKind_to_string EvSynthetic = ''SYNTHETIC''"
| "EvidenceKind_to_string EvUnknown = ''UNKNOWN''"
| "EvidenceKind_to_string EvUnsupported = ''UNSUPPORTED''"

section \<open>Freshness and the generation tracker\<close>

datatype Freshness = Fresh | Stale | RevalidationNeeded | EvidenceInsufficient | FreshnessUnknown

fun Freshness_to_string :: "Freshness \<Rightarrow> string" where
  "Freshness_to_string Fresh = ''FRESH''"
| "Freshness_to_string Stale = ''STALE''"
| "Freshness_to_string RevalidationNeeded = ''REVALIDATION_REQUIRED''"
| "Freshness_to_string EvidenceInsufficient = ''INSUFFICIENT_EVIDENCE''"
| "Freshness_to_string FreshnessUnknown = ''UNKNOWN''"

type_synonym ('i, 'g) GenerationTracker = "('i StrongId, 'g Generation) omap"

definition tracker_current :: "('i, 'g) GenerationTracker \<Rightarrow> 'i StrongId \<Rightarrow> 'g Generation" where
  "tracker_current t i = (case om_lookup t i of None \<Rightarrow> gen_default | Some g \<Rightarrow> g)"

text \<open>The second guard of the source, \<open>next.valid() && !next.valid()\<close>, is kept as it is written.\<close>

definition tracker_advance ::
  "('i, 'g) GenerationTracker \<Rightarrow> 'i StrongId \<Rightarrow> 'g Generation \<Rightarrow> bool \<times> ('i, 'g) GenerationTracker"
where
  "tracker_advance t i next =
     (let cur = tracker_current t i
      in if gen_valid next \<and> gen_valid cur \<and> gen_value next < gen_value cur then (False, t)
         else if gen_valid next \<and> \<not> gen_valid next then (False, t)
         else (True, om_insert i next t))"

definition tracker_isStale ::
  "('i, 'g) GenerationTracker \<Rightarrow> 'i StrongId \<Rightarrow> 'g Generation \<Rightarrow> bool" where
  "tracker_isStale t i observed =
     (let cur = tracker_current t i
      in if \<not> gen_valid cur then False else gen_value observed < gen_value cur)"

lemma tracker_current_empty [simp]: "tracker_current om_empty i = gen_default"
  by (simp add: tracker_current_def)

lemma tracker_current_insert [simp]:
  "tracker_current (om_insert i g t) j = (if j = i then g else tracker_current t j)"
  by (simp add: tracker_current_def)

text \<open>
  Behind the guard every publication uses (a valid recorded generation is never lowered), the
  tracker always accepts.
\<close>

definition gen_regresses :: "'g Generation \<Rightarrow> 'g Generation \<Rightarrow> bool" where
  "gen_regresses cur next \<longleftrightarrow> gen_valid cur \<and> gen_value next < gen_value cur"

lemma tracker_advance_guarded:
  "\<not> gen_regresses (tracker_current t i) next \<Longrightarrow> tracker_advance t i next = (True, om_insert i next t)"
  by (auto simp: tracker_advance_def gen_regresses_def Let_def)

lemma gen_not_regresses_le: "\<not> gen_regresses cur next \<Longrightarrow> gen_value cur \<le> gen_value next"
  by (auto simp: gen_regresses_def gen_valid_def kInvalidId_def)

section \<open>Generation-guarded publication\<close>

text \<open>
  Five operations of the model accept a record only if it does not lower the generation recorded for
  its identity, and record its generation when they accept it. The locale states that contract for
  one operation; its lemmas are about any sequence of publications.
\<close>

locale generation_guard =
  fixes recorded :: "'s \<Rightarrow> 'i \<Rightarrow> 'g Generation" and ident :: "'m \<Rightarrow> 'i"
    and gen :: "'m \<Rightarrow> 'g Generation" and publish :: "'s \<Rightarrow> 'm \<Rightarrow> fault + bool \<times> 's"
  assumes stale_rejected: "gen_regresses (recorded s (ident m)) (gen m) \<Longrightarrow> publish s m = Inr (False, s)"
    and rejected_same: "publish s m = Inr (False, s') \<Longrightarrow> s' = s"
    and accepted_records: "publish s m = Inr (True, s') \<Longrightarrow>
          recorded s' j = (if j = ident m then gen m else recorded s j)"
begin

lemma accepted_not_stale: "publish s m = Inr (True, s') \<Longrightarrow> \<not> gen_regresses (recorded s (ident m)) (gen m)"
  using stale_rejected [of s m] by auto

lemma publish_monotone: "publish s m = Inr (b, s') \<Longrightarrow> gen_value (recorded s j) \<le> gen_value (recorded s' j)"
  by (cases b) (auto simp: accepted_records dest: rejected_same accepted_not_stale gen_not_regresses_le)

text \<open>A sequence of publications, each answered but not looked at.\<close>

lemma run_monotone:
  assumes "foldR (\<lambda>m s. bindR (publish s m) (\<lambda>(b, s'). Inr s')) ms s = Inr t"
  shows "gen_value (recorded s j) \<le> gen_value (recorded t j)"
  using assms
proof (rule foldR_invariant)
  fix m u v
  assume "gen_value (recorded s j) \<le> gen_value (recorded u j)"
    and "bindR (publish u m) (\<lambda>(b, s'). Inr s') = Inr v"
  then show "gen_value (recorded s j) \<le> gen_value (recorded v j)"
    by (auto dest!: publish_monotone [of _ _ _ _ j] intro: order_trans)
qed simp

text \<open>Once a generation has been accepted, no later run lets an older one of that identity in.\<close>

lemma replay_rejected:
  assumes "publish s m = Inr (True, s')"
    and "foldR (\<lambda>m s. bindR (publish s m) (\<lambda>(b, s'). Inr s')) ms s' = Inr t"
    and "ident old = ident m" and "gen_value (gen old) < gen_value (gen m)"
  shows "publish t old = Inr (False, t)"
proof (rule stale_rejected)
  have "gen_value (gen m) \<le> gen_value (recorded t (ident m))"
    using run_monotone [OF assms(2), of "ident m"] accepted_records [OF assms(1), of "ident m"] by simp
  then show "gen_regresses (recorded t (ident old)) (gen old)"
    using assms(3,4) by (auto simp: gen_regresses_def gen_valid_def kInvalidId_def word_less_nat_alt word_le_nat_alt)
qed

end

text \<open>
  The publication is one operation of a system with others: when no step lowers a recorded generation,
  a stale record stays rejected whatever happens in between.
\<close>

locale guarded_system = generation_guard recorded ident gen publish
  for recorded :: "'s \<Rightarrow> 'i \<Rightarrow> 'g Generation" and ident :: "'m \<Rightarrow> 'i"
    and gen :: "'m \<Rightarrow> 'g Generation" and publish :: "'s \<Rightarrow> 'm \<Rightarrow> fault + bool \<times> 's" +
  fixes step :: "'s \<Rightarrow> 's \<Rightarrow> bool"
  assumes step_keeps: "step s s' \<Longrightarrow> gen_value (recorded s j) \<le> gen_value (recorded s' j)"
begin

lemma steps_monotone: "step\<^sup>*\<^sup>* s t \<Longrightarrow> gen_value (recorded s j) \<le> gen_value (recorded t j)"
  by (induction rule: rtranclp_induct) (auto intro: order_trans step_keeps)

lemma stale_forever:
  assumes "publish s m = Inr (True, s')" and "step\<^sup>*\<^sup>* s' t"
    and "ident old = ident m" and "gen_value (gen old) < gen_value (gen m)"
  shows "publish t old = Inr (False, t)"
proof (rule stale_rejected)
  have "gen_value (gen m) \<le> gen_value (recorded t (ident m))"
    using steps_monotone [OF assms(2), of "ident m"] accepted_records [OF assms(1), of "ident m"] by simp
  then show "gen_regresses (recorded t (ident old)) (gen old)"
    using assms(3,4) by (auto simp: gen_regresses_def gen_valid_def kInvalidId_def word_less_nat_alt word_le_nat_alt)
qed

end

end
