(* ===== verification/Units.thy ===== *)
theory Units
  imports Identities Binary64
begin

text \<open>
  The validated value types of \<open>core/units.hpp\<close>: byte and device counts with checked arithmetic,
  rates and fractions that reject invalid doubles, and half-open time intervals.
\<close>

section \<open>Validation\<close>

definition validateBounded :: "double \<Rightarrow> double \<Rightarrow> double \<Rightarrow> fault + unit" where
  "validateBounded v lo hi =
     (if \<not> isfinite v then Inl Invalid_argument
      else if d_lt v lo \<or> d_lt hi v then Inl Invalid_argument
      else Inr ())"

definition validateNonNegative :: "double \<Rightarrow> fault + unit" where
  "validateNonNegative v =
     (if \<not> isfinite v then Inl Invalid_argument
      else if d_lt v d_zero then Inl Invalid_argument
      else Inr ())"

section \<open>Counts\<close>

datatype ByteCount = ByteCount (bc_value: u64)

definition bc_zero :: ByteCount where "bc_zero = ByteCount 0"

text \<open>\<open>bool add(ByteCount o, ByteCount& out)\<close>: the flag and the new value of \<open>out\<close>.\<close>

definition bc_add :: "ByteCount \<Rightarrow> ByteCount \<Rightarrow> ByteCount \<Rightarrow> bool \<times> ByteCount" where
  "bc_add a b out =
     (if (- 1) - bc_value b < bc_value a then (False, out)
      else (True, ByteCount (bc_value a + bc_value b)))"

definition bc_subtract :: "ByteCount \<Rightarrow> ByteCount \<Rightarrow> ByteCount \<Rightarrow> bool \<times> ByteCount" where
  "bc_subtract a b out =
     (if bc_value a < bc_value b then (False, out)
      else (True, ByteCount (bc_value a - bc_value b)))"

definition bc_max :: ByteCount where "bc_max = ByteCount (- 1)"

instantiation ByteCount :: linorder
begin

definition less_eq_ByteCount :: "ByteCount \<Rightarrow> ByteCount \<Rightarrow> bool" where
  "a \<le> b \<longleftrightarrow> bc_value a \<le> bc_value b"

definition less_ByteCount :: "ByteCount \<Rightarrow> ByteCount \<Rightarrow> bool" where
  "a < b \<longleftrightarrow> bc_value a < bc_value b"

instance
  by intro_classes (auto simp: less_eq_ByteCount_def less_ByteCount_def ByteCount.expand)

end

datatype DeviceCount = DeviceCount (dc_value: u64)

instantiation DeviceCount :: linorder
begin

definition less_eq_DeviceCount :: "DeviceCount \<Rightarrow> DeviceCount \<Rightarrow> bool" where
  "a \<le> b \<longleftrightarrow> dc_value a \<le> dc_value b"

definition less_DeviceCount :: "DeviceCount \<Rightarrow> DeviceCount \<Rightarrow> bool" where
  "a < b \<longleftrightarrow> dc_value a < dc_value b"

instance
  by intro_classes (auto simp: less_eq_DeviceCount_def less_DeviceCount_def DeviceCount.expand)

end

lemma unat_u64_max: "unat (- 1 :: u64) = 18446744073709551615"
  by (simp add: unsigned_minus_1_eq_mask mask_eq_exp_minus_1)

lemma unat_add_guard: "((- 1 :: u64) - b < a) \<longleftrightarrow> 2 ^ 64 \<le> unat a + unat b"
proof -
  have "unat b < 2 ^ 64" using unsigned_less [of b, where ?'a = nat] by simp
  moreover have "unat ((- 1 :: u64) - b) = 2 ^ 64 - 1 - unat b"
    by (simp add: unat_sub unat_u64_max)
  ultimately show ?thesis by (auto simp: word_less_nat_alt)
qed

lemma bc_add_spec:
  "bc_add a b out =
     (if unat (bc_value a) + unat (bc_value b) < 2 ^ 64
      then (True, ByteCount (word_of_nat (unat (bc_value a) + unat (bc_value b)))) else (False, out))"
  by (simp add: bc_add_def unat_add_guard)

text \<open>The value of a byte count, and of the saturating sums the analyses build with \<open>bc_add\<close>.\<close>

definition bc_nat :: "ByteCount \<Rightarrow> nat" where "bc_nat b = unat (bc_value b)"

definition u64_cap :: nat where "u64_cap = 2 ^ 64 - 1"

lemma bc_nat_simps [simp]: "bc_nat bc_zero = 0" "bc_nat bc_max = u64_cap" "bc_nat b \<le> u64_cap"
  using unsigned_less [of "bc_value b", where ?'a = nat]
  by (simp_all add: bc_nat_def bc_zero_def bc_max_def u64_cap_def unat_u64_max)

lemma bc_nat_bound: "bc_nat b < 2 ^ 64"
  using unsigned_less [of "bc_value b", where ?'a = nat] by (simp add: bc_nat_def)

lemma bc_nat_of_nat: "n < 2 ^ 64 \<Longrightarrow> bc_nat (ByteCount (word_of_nat n)) = n"
  by (simp add: bc_nat_def unat_u64_of_nat)

lemma bc_nat_less: "a < b \<longleftrightarrow> bc_nat a < bc_nat b"
  and bc_nat_le: "a \<le> b \<longleftrightarrow> bc_nat a \<le> bc_nat b"
  by (simp_all add: less_ByteCount_def less_eq_ByteCount_def bc_nat_def word_less_nat_alt word_le_nat_alt)

lemma bc_add_nat:
  "bc_add a b out = (if bc_nat a + bc_nat b < 2 ^ 64
     then (True, ByteCount (word_of_nat (bc_nat a + bc_nat b))) else (False, out))"
  by (simp add: bc_add_spec bc_nat_def)

definition bc_of :: "nat \<Rightarrow> ByteCount" where
  "bc_of n = ByteCount (word_of_nat n)"

lemma bc_nat_of [simp]: "n \<le> u64_cap \<Longrightarrow> bc_nat (bc_of n) = n"
  by (simp add: bc_of_def u64_cap_def bc_nat_of_nat)

lemma bc_add_cap:
  "bc_add a b out = (if bc_nat a + bc_nat b \<le> u64_cap then (True, bc_of (bc_nat a + bc_nat b)) else (False, out))"
  by (auto simp: bc_add_nat bc_of_def u64_cap_def)

lemma bc_subtract_nat:
  "bc_subtract a b out = (if bc_nat b \<le> bc_nat a
     then (True, ByteCount (word_of_nat (bc_nat a - bc_nat b))) else (False, out))"
  by (auto simp: bc_subtract_def bc_nat_def word_less_nat_alt of_nat_diff)

section \<open>Rates, compute, power and fractions\<close>

datatype ByteRate = ByteRate (rate_value: double)
datatype ComputeUnits = ComputeUnits (compute_value: double)
datatype Power = Power (power_value: double)

definition mkByteRate :: "double \<Rightarrow> fault + ByteRate" where
  "mkByteRate v = bindR (validateNonNegative v) (\<lambda>_. Inr (ByteRate v))"

definition mkComputeUnits :: "double \<Rightarrow> fault + ComputeUnits" where
  "mkComputeUnits v = bindR (validateNonNegative v) (\<lambda>_. Inr (ComputeUnits v))"

definition mkPower :: "double \<Rightarrow> fault + Power" where
  "mkPower v = bindR (validateNonNegative v) (\<lambda>_. Inr (Power v))"

definition rate_valid :: "ByteRate \<Rightarrow> bool" where
  "rate_valid r \<longleftrightarrow> isfinite (rate_value r) \<and> d_le d_zero (rate_value r)"

datatype 'tag BoundedFraction = BoundedFraction (frac_value: double)

definition frac_default :: "'tag BoundedFraction" where "frac_default = BoundedFraction d_zero"

definition mkFraction :: "double \<Rightarrow> fault + 'tag BoundedFraction" where
  "mkFraction v = bindR (validateBounded v (d_of_nat 0) (d_of_nat 1)) (\<lambda>_. Inr (BoundedFraction v))"

definition frac_valid :: "'tag BoundedFraction \<Rightarrow> bool" where
  "frac_valid f \<longleftrightarrow> isfinite (frac_value f) \<and> d_le (d_of_nat 0) (frac_value f) \<and> d_le (frac_value f) (d_of_nat 1)"

typedecl CapacityFractionTag
typedecl ConfidenceTag

type_synonym CapacityFraction = "CapacityFractionTag BoundedFraction"
type_synonym Confidence = "ConfidenceTag BoundedFraction"

lemma d_of_nat_1_ok [simp]: "amount_ok (d_of_nat (Suc 0))" "isfinite (d_of_nat (Suc 0))" "\<not> isnan (d_of_nat (Suc 0))"
proof -
  show "amount_ok (d_of_nat (Suc 0))" by (rule d_of_nat_exact) simp
  then show "isfinite (d_of_nat (Suc 0))" "\<not> isnan (d_of_nat (Suc 0))" by (simp_all add: isfinite_simps)
qed

lemma mkFraction_Inr: "mkFraction v = Inr f \<longleftrightarrow> f = BoundedFraction v \<and> frac_valid f"
  by (auto simp: mkFraction_def validateBounded_def frac_valid_def d_lt_def d_le_def isfinite_simps
      split: if_splits)

lemma mkFraction_Inl:
  "(mkFraction v :: fault + 'tag BoundedFraction) = Inl e \<longleftrightarrow>
     e = Invalid_argument \<and> \<not> frac_valid (BoundedFraction v :: 'tag BoundedFraction)"
  by (auto simp: mkFraction_def validateBounded_def frac_valid_def d_lt_def d_le_def isfinite_simps)

lemma mkByteRate_Inr: "mkByteRate v = Inr r \<longleftrightarrow> r = ByteRate v \<and> rate_valid (ByteRate v)"
  by (auto simp: mkByteRate_def validateNonNegative_def rate_valid_def d_lt_def d_le_def isfinite_simps
      split: if_splits)

section \<open>Time\<close>

type_synonym TimePoint = i64
type_synonym DurationNs = i64

definition kNanosPerMilli :: i64 where "kNanosPerMilli = 1000000"
definition kNanosPerSecond :: i64 where "kNanosPerSecond = 1000000000"

definition timeFromMillis :: "i64 \<Rightarrow> fault + TimePoint" where
  "timeFromMillis ms = mul64 ms kNanosPerMilli"

text \<open>C++ division truncates towards zero.\<close>

definition toMillis :: "TimePoint \<Rightarrow> i64" where
  "toMillis t = sgn t * (\<bar>t\<bar> div kNanosPerMilli)"

definition isValidDuration :: "DurationNs \<Rightarrow> bool" where "isValidDuration d \<longleftrightarrow> 0 \<le> d"
definition isValidTime :: "TimePoint \<Rightarrow> bool" where "isValidTime t \<longleftrightarrow> 0 \<le> t"

datatype Interval = Interval (iv_start: TimePoint) (iv_end: TimePoint)

definition iv_default :: Interval where "iv_default = Interval 0 0"

definition iv_valid :: "Interval \<Rightarrow> bool" where
  "iv_valid i \<longleftrightarrow> 0 \<le> iv_start i \<and> iv_start i < iv_end i"

definition mkInterval :: "TimePoint \<Rightarrow> TimePoint \<Rightarrow> fault + Interval" where
  "mkInterval s e = (if \<not> iv_valid (Interval s e) then Inl Invalid_argument else Inr (Interval s e))"

definition iv_length :: "Interval \<Rightarrow> fault + DurationNs" where
  "iv_length i = sub64 (iv_end i) (iv_start i)"

definition iv_overlaps :: "Interval \<Rightarrow> Interval \<Rightarrow> bool" where
  "iv_overlaps i j \<longleftrightarrow> iv_start i < iv_end j \<and> iv_start j < iv_end i"

definition iv_contains :: "Interval \<Rightarrow> Interval \<Rightarrow> bool" where
  "iv_contains i j \<longleftrightarrow> iv_start i \<le> iv_start j \<and> iv_end j \<le> iv_end i"

definition iv_containsPoint :: "Interval \<Rightarrow> TimePoint \<Rightarrow> bool" where
  "iv_containsPoint i t \<longleftrightarrow> iv_start i \<le> t \<and> t < iv_end i"

lemma mkInterval_Inr [simp]: "mkInterval s e = Inr i \<longleftrightarrow> i = Interval s e \<and> 0 \<le> s \<and> s < e"
  by (auto simp: mkInterval_def iv_valid_def)

lemma mkInterval_Inl [simp]: "mkInterval s e = Inl f \<longleftrightarrow> f = Invalid_argument \<and> \<not> (0 \<le> s \<and> s < e)"
  by (auto simp: mkInterval_def iv_valid_def)

lemma toMillis_fromMillis: "timeFromMillis ms = Inr t \<Longrightarrow> toMillis t = ms"
  by (auto simp: timeFromMillis_def toMillis_def kNanosPerMilli_def sgn_mult abs_mult sgn_mult_abs)

end
