(* ===== verification/Capacity.thy ===== *)
theory Capacity
  imports Units
begin

text \<open>
  Multi-dimensional capacity (\<open>capacity/dimension.hpp\<close>, \<open>capacity/capacity.hpp\<close>): the dimensions,
  the map from dimensions to amounts, and the arithmetic on it. The lemmas give every operation's
  effect on the amount of one dimension, and show that amounts stay finite and non-negative.
\<close>

section \<open>Dimensions\<close>

datatype Dimension = Dimension (dim_code: u8)

abbreviation "AcceleratorCount \<equiv> Dimension 0"
abbreviation "AcceleratorCompute \<equiv> Dimension 1"
abbreviation "VramBytes \<equiv> Dimension 2"
abbreviation "ContiguousVramBytes \<equiv> Dimension 3"
abbreviation "PinnedHostMemoryBytes \<equiv> Dimension 4"
abbreviation "PageableHostMemoryBytes \<equiv> Dimension 5"
abbreviation "CpuCount \<equiv> Dimension 6"
abbreviation "StorageBytes \<equiv> Dimension 7"
abbreviation "StorageBandwidth \<equiv> Dimension 8"
abbreviation "PcieBandwidth \<equiv> Dimension 9"
abbreviation "NetworkBandwidth \<equiv> Dimension 10"
abbreviation "CollectiveBandwidth \<equiv> Dimension 11"
abbreviation "QueueSlots \<equiv> Dimension 12"
abbreviation "ModelResidencySlots \<equiv> Dimension 13"
abbreviation "AdapterResidencySlots \<equiv> Dimension 14"
abbreviation "TensorStateResidencyBytes \<equiv> Dimension 15"
abbreviation "TransferBudgetBytes \<equiv> Dimension 16"
abbreviation "PowerHeadroom \<equiv> Dimension 17"
abbreviation "NodeCount \<equiv> Dimension 18"
abbreviation "RackLocalCount \<equiv> Dimension 19"
abbreviation "TopologyLocalCount \<equiv> Dimension 20"

instantiation Dimension :: linorder
begin

definition less_eq_Dimension :: "Dimension \<Rightarrow> Dimension \<Rightarrow> bool" where
  "a \<le> b \<longleftrightarrow> dim_code a \<le> dim_code b"

definition less_Dimension :: "Dimension \<Rightarrow> Dimension \<Rightarrow> bool" where
  "a < b \<longleftrightarrow> dim_code a < dim_code b"

instance
  by intro_classes (auto simp: less_eq_Dimension_def less_Dimension_def Dimension.expand)

end

lemma Dimension_less [simp]: "Dimension a < Dimension b \<longleftrightarrow> a < b"
  by (simp add: less_Dimension_def)

definition dimensionName :: "Dimension \<Rightarrow> string" where
  "dimensionName d =
     (if d = AcceleratorCount then ''accelerator_count''
      else if d = AcceleratorCompute then ''accelerator_compute''
      else if d = VramBytes then ''vram_bytes''
      else if d = ContiguousVramBytes then ''contiguous_vram_bytes''
      else if d = PinnedHostMemoryBytes then ''pinned_host_memory_bytes''
      else if d = PageableHostMemoryBytes then ''pageable_host_memory_bytes''
      else if d = CpuCount then ''cpu_count''
      else if d = StorageBytes then ''storage_bytes''
      else if d = StorageBandwidth then ''storage_bandwidth''
      else if d = PcieBandwidth then ''pcie_bandwidth''
      else if d = NetworkBandwidth then ''network_bandwidth''
      else if d = CollectiveBandwidth then ''collective_bandwidth''
      else if d = QueueSlots then ''queue_slots''
      else if d = ModelResidencySlots then ''model_residency_slots''
      else if d = AdapterResidencySlots then ''adapter_residency_slots''
      else if d = TensorStateResidencyBytes then ''tensor_state_residency_bytes''
      else if d = TransferBudgetBytes then ''transfer_budget_bytes''
      else if d = PowerHeadroom then ''power_headroom''
      else if d = NodeCount then ''node_count''
      else if d = RackLocalCount then ''rack_local_count''
      else if d = TopologyLocalCount then ''topology_local_count''
      else ''unknown'')"

definition dimensionIsBytes :: "Dimension \<Rightarrow> bool" where
  "dimensionIsBytes d \<longleftrightarrow>
     d \<in> {VramBytes, ContiguousVramBytes, PinnedHostMemoryBytes, PageableHostMemoryBytes, StorageBytes,
          TensorStateResidencyBytes, TransferBudgetBytes}"

definition dimensionIsRate :: "Dimension \<Rightarrow> bool" where
  "dimensionIsRate d \<longleftrightarrow>
     d \<in> {StorageBandwidth, PcieBandwidth, NetworkBandwidth, CollectiveBandwidth}"

definition dimensionIsCount :: "Dimension \<Rightarrow> bool" where
  "dimensionIsCount d \<longleftrightarrow>
     d \<in> {AcceleratorCount, CpuCount, QueueSlots, ModelResidencySlots, AdapterResidencySlots, NodeCount,
          RackLocalCount, TopologyLocalCount}"

section \<open>Capacity\<close>

type_synonym Capacity = "(Dimension, double) omap"

definition cap_has :: "Capacity \<Rightarrow> Dimension \<Rightarrow> bool" where
  "cap_has c d \<longleftrightarrow> om_contains c d"

definition cap_amount :: "Capacity \<Rightarrow> Dimension \<Rightarrow> double" where
  "cap_amount c d = (case om_lookup c d of None \<Rightarrow> d_zero | Some v \<Rightarrow> v)"

definition cap_setAmount :: "Capacity \<Rightarrow> Dimension \<Rightarrow> double \<Rightarrow> bool \<times> Capacity" where
  "cap_setAmount c d v =
     (if \<not> isfinite v \<or> d_lt v d_zero then (False, c)
      else if d_eq v d_zero then (True, om_erase d c)
      else (True, om_insert d v c))"

text \<open>The loop of \<open>add\<close> leaves its earlier writes behind when it throws; its caller never sees them.\<close>

definition cap_add :: "Capacity \<Rightarrow> Capacity \<Rightarrow> fault + Capacity" where
  "cap_add c other =
     foldR (\<lambda>(d, v) m.
       let cur = cap_amount m d; total = d_add cur v
       in if \<not> isfinite total then Inl Overflow_error else Inr (om_insert d total m))
       (om_entries other) c"

definition cap_subtractClamp :: "Capacity \<Rightarrow> Capacity \<Rightarrow> Capacity" where
  "cap_subtractClamp c other =
     fold (\<lambda>(d, v) m.
       let cur = cap_amount m d; t = d_sub cur v
       in om_insert d (if d_lt d_zero t then t else d_zero) m)
       (om_entries other) c"

definition cap_trySubtract :: "Capacity \<Rightarrow> Capacity \<Rightarrow> bool \<times> Capacity" where
  "cap_trySubtract c other =
     (if \<exists>(d, v) \<in> set (om_entries other). d_lt (cap_amount c d) v then (False, c)
      else (True,
        fold (\<lambda>(d, v) m.
          let m' = om_insert d (d_sub (cap_amount m d) v) m
          in if d_eq (cap_amount m' d) d_zero then om_erase d m' else m')
          (om_entries other) c))"

definition cap_satisfies :: "Capacity \<Rightarrow> Capacity \<Rightarrow> bool" where
  "cap_satisfies c requirement \<longleftrightarrow>
     (\<forall>(d, v) \<in> set (om_entries requirement). \<not> d_lt (cap_amount c d) v)"

definition cap_missingDimensions :: "Capacity \<Rightarrow> Capacity \<Rightarrow> Dimension list" where
  "cap_missingDimensions c requirement =
     map fst (filter (\<lambda>(d, v). d_lt (cap_amount c d) v) (om_entries requirement))"

definition cap_min :: "Capacity \<Rightarrow> Capacity \<Rightarrow> Capacity" where
  "cap_min c other =
     (let out = fold (\<lambda>(d, v) m.
                  let ov = cap_amount other d in om_insert d (if d_lt v ov then v else ov) m)
                  (om_entries c) om_empty
      in fold (\<lambda>(d, v) m. if \<not> cap_has m d then om_insert d v m else m) (om_entries other) out)"

definition cap_maxCap :: "Capacity \<Rightarrow> Capacity \<Rightarrow> Capacity" where
  "cap_maxCap c other =
     (let out = fold (\<lambda>(d, v) m.
                  let ov = cap_amount other d in om_insert d (if d_lt ov v then v else ov) m)
                  (om_entries c) om_empty
      in fold (\<lambda>(d, v) m. if \<not> cap_has m d then om_insert d v m else m) (om_entries other) out)"

text \<open>\<open>std::map\<close> equality: the same keys, and values equal as doubles.\<close>

definition cap_eq :: "Capacity \<Rightarrow> Capacity \<Rightarrow> bool" where
  "cap_eq a b \<longleftrightarrow>
     list_all2 (\<lambda>(d, v) (e, w). d = e \<and> d_eq v w) (om_entries a) (om_entries b)"

section \<open>Typed accessors\<close>

definition cap_set :: "Dimension \<Rightarrow> double \<Rightarrow> Capacity \<Rightarrow> Capacity" where
  "cap_set d v c = snd (cap_setAmount c d v)"

definition setVram :: "ByteCount \<Rightarrow> Capacity \<Rightarrow> Capacity" where
  "setVram b = cap_set VramBytes (d_of_u64 (bc_value b))"

definition setVramContiguous :: "ByteCount \<Rightarrow> Capacity \<Rightarrow> Capacity" where
  "setVramContiguous b = cap_set ContiguousVramBytes (d_of_u64 (bc_value b))"

definition setPinnedHostMemory :: "ByteCount \<Rightarrow> Capacity \<Rightarrow> Capacity" where
  "setPinnedHostMemory b = cap_set PinnedHostMemoryBytes (d_of_u64 (bc_value b))"

definition setPageableHostMemory :: "ByteCount \<Rightarrow> Capacity \<Rightarrow> Capacity" where
  "setPageableHostMemory b = cap_set PageableHostMemoryBytes (d_of_u64 (bc_value b))"

definition setStorage :: "ByteCount \<Rightarrow> Capacity \<Rightarrow> Capacity" where
  "setStorage b = cap_set StorageBytes (d_of_u64 (bc_value b))"

definition setTensorStateResidency :: "ByteCount \<Rightarrow> Capacity \<Rightarrow> Capacity" where
  "setTensorStateResidency b = cap_set TensorStateResidencyBytes (d_of_u64 (bc_value b))"

definition setTransferBudget :: "ByteCount \<Rightarrow> Capacity \<Rightarrow> Capacity" where
  "setTransferBudget b = cap_set TransferBudgetBytes (d_of_u64 (bc_value b))"

definition setAccelerators :: "DeviceCount \<Rightarrow> Capacity \<Rightarrow> Capacity" where
  "setAccelerators n = cap_set AcceleratorCount (d_of_u64 (dc_value n))"

definition setCpuCount :: "DeviceCount \<Rightarrow> Capacity \<Rightarrow> Capacity" where
  "setCpuCount n = cap_set CpuCount (d_of_u64 (dc_value n))"

definition setQueueSlots :: "DeviceCount \<Rightarrow> Capacity \<Rightarrow> Capacity" where
  "setQueueSlots n = cap_set QueueSlots (d_of_u64 (dc_value n))"

definition setModelResidencySlots :: "DeviceCount \<Rightarrow> Capacity \<Rightarrow> Capacity" where
  "setModelResidencySlots n = cap_set ModelResidencySlots (d_of_u64 (dc_value n))"

definition setAdapterResidencySlots :: "DeviceCount \<Rightarrow> Capacity \<Rightarrow> Capacity" where
  "setAdapterResidencySlots n = cap_set AdapterResidencySlots (d_of_u64 (dc_value n))"

definition setNodeCount :: "DeviceCount \<Rightarrow> Capacity \<Rightarrow> Capacity" where
  "setNodeCount n = cap_set NodeCount (d_of_u64 (dc_value n))"

definition setRackLocalCount :: "DeviceCount \<Rightarrow> Capacity \<Rightarrow> Capacity" where
  "setRackLocalCount n = cap_set RackLocalCount (d_of_u64 (dc_value n))"

definition setTopologyLocalCount :: "DeviceCount \<Rightarrow> Capacity \<Rightarrow> Capacity" where
  "setTopologyLocalCount n = cap_set TopologyLocalCount (d_of_u64 (dc_value n))"

definition setCompute :: "ComputeUnits \<Rightarrow> Capacity \<Rightarrow> Capacity" where
  "setCompute c = cap_set AcceleratorCompute (compute_value c)"

definition setStorageBandwidth :: "ByteRate \<Rightarrow> Capacity \<Rightarrow> Capacity" where
  "setStorageBandwidth r = cap_set StorageBandwidth (rate_value r)"

definition setPcieBandwidth :: "ByteRate \<Rightarrow> Capacity \<Rightarrow> Capacity" where
  "setPcieBandwidth r = cap_set PcieBandwidth (rate_value r)"

definition setNetworkBandwidth :: "ByteRate \<Rightarrow> Capacity \<Rightarrow> Capacity" where
  "setNetworkBandwidth r = cap_set NetworkBandwidth (rate_value r)"

definition setCollectiveBandwidth :: "ByteRate \<Rightarrow> Capacity \<Rightarrow> Capacity" where
  "setCollectiveBandwidth r = cap_set CollectiveBandwidth (rate_value r)"

definition setPowerHeadroom :: "Power \<Rightarrow> Capacity \<Rightarrow> Capacity" where
  "setPowerHeadroom p = cap_set PowerHeadroom (power_value p)"

text \<open>Reading back casts a double to an integer; out of range the cast is undefined.\<close>

definition cap_cast :: "Capacity \<Rightarrow> Dimension \<Rightarrow> fault + u64" where
  "cap_cast c d = (case d_to_u64 (cap_amount c d) of None \<Rightarrow> Inl Undefined | Some w \<Rightarrow> Inr w)"

definition cap_vram :: "Capacity \<Rightarrow> fault + ByteCount" where
  "cap_vram c = bindR (cap_cast c VramBytes) (\<lambda>w. Inr (ByteCount w))"

definition cap_vramContiguous :: "Capacity \<Rightarrow> fault + ByteCount" where
  "cap_vramContiguous c = bindR (cap_cast c ContiguousVramBytes) (\<lambda>w. Inr (ByteCount w))"

definition cap_accelerators :: "Capacity \<Rightarrow> fault + DeviceCount" where
  "cap_accelerators c = bindR (cap_cast c AcceleratorCount) (\<lambda>w. Inr (DeviceCount w))"

section \<open>Effect on one dimension\<close>

lemma cap_amount_empty [simp]: "cap_amount om_empty d = d_zero"
  and cap_amount_insert [simp]: "cap_amount (om_insert e v c) d = (if d = e then v else cap_amount c d)"
  and cap_amount_erase [simp]: "cap_amount (om_erase e c) d = (if d = e then d_zero else cap_amount c d)"
  by (simp_all add: cap_amount_def)

lemma cap_has_simps [simp]:
  "\<not> cap_has om_empty d"
  "cap_has (om_insert e v c) d \<longleftrightarrow> d = e \<or> cap_has c d"
  "cap_has (om_erase e c) d \<longleftrightarrow> d \<noteq> e \<and> cap_has c d"
  by (simp_all add: cap_has_def)

lemma cap_not_has: "\<not> cap_has c d \<Longrightarrow> cap_amount c d = d_zero"
  by (simp add: cap_has_def om_contains_def cap_amount_def)

lemma cap_entry: "(d, v) \<in> set (om_entries c) \<longleftrightarrow> cap_has c d \<and> cap_amount c d = v"
  by (auto simp: cap_has_def om_contains_def cap_amount_def simp flip: om_lookup_iff)

lemma cap_eqI: "(\<And>d. cap_has a d = cap_has b d) \<Longrightarrow> (\<And>d. cap_amount a d = cap_amount b d) \<Longrightarrow> a = b"
proof (rule om_eqI)
  fix d
  assume "\<And>d. cap_has a d = cap_has b d" and "\<And>d. cap_amount a d = cap_amount b d"
  then have "cap_has a d = cap_has b d" and "cap_amount a d = cap_amount b d" by blast+
  then show "om_lookup a d = om_lookup b d"
    by (auto simp: cap_has_def om_contains_def cap_amount_def split: option.splits)
qed

text \<open>
  Every loop over the entries of another capacity rewrites one amount per step as a function of the
  present amount; the keys of a map are distinct, so each dimension is rewritten at most once.
\<close>

lemma cap_update_loop:
  fixes f :: "Dimension \<Rightarrow> double \<Rightarrow> double \<Rightarrow> double" and c :: Capacity
  assumes "distinct (map fst xs)"
  defines "r \<equiv> fold (\<lambda>(d, v) m. om_insert d (f d v (cap_amount m d)) m) xs c"
  shows "cap_has r d \<longleftrightarrow> cap_has c d \<or> d \<in> fst ` set xs"
    and "cap_amount r d = (case map_of xs d of None \<Rightarrow> cap_amount c d | Some v \<Rightarrow> f d v (cap_amount c d))"
proof -
  have "cap_has r d = (case map_of xs d of None \<Rightarrow> cap_has c d | Some v \<Rightarrow> True)"
    unfolding r_def by (rule pointwise_loop [where f = "\<lambda>_ _ _. True", OF _ assms(1)]) simp
  then show "cap_has r d \<longleftrightarrow> cap_has c d \<or> d \<in> fst ` set xs"
    using map_of_eq_None_iff [of xs d] by (auto split: option.splits)
  show "cap_amount r d = (case map_of xs d of None \<Rightarrow> cap_amount c d | Some v \<Rightarrow> f d v (cap_amount c d))"
    unfolding r_def by (rule pointwise_loop [where f = f, OF _ assms(1)]) simp
qed

lemma map_of_entries: "map_of (om_entries c) d = (if cap_has c d then Some (cap_amount c d) else None)"
  by (cases "om_lookup c d") (simp_all add: cap_has_def om_contains_def cap_amount_def flip: om_lookup_def)

lemma entries_keys: "d \<in> fst ` set (om_entries c) \<longleftrightarrow> cap_has c d"
  by (simp add: cap_has_def om_contains_iff)

definition clamp_sub :: "double \<Rightarrow> double \<Rightarrow> double" where
  "clamp_sub x v = (let t = d_sub x v in if d_lt d_zero t then t else d_zero)"

lemma cap_subtractClamp_has: "cap_has (cap_subtractClamp c q) d \<longleftrightarrow> cap_has c d \<or> cap_has q d"
  and cap_subtractClamp_amount:
    "cap_amount (cap_subtractClamp c q) d =
       (if cap_has q d then clamp_sub (cap_amount c d) (cap_amount q d) else cap_amount c d)"
proof -
  have eq: "cap_subtractClamp c q =
    fold (\<lambda>(d, v) m. om_insert d (clamp_sub (cap_amount m d) v) m) (om_entries q) c"
    unfolding cap_subtractClamp_def clamp_sub_def Let_def ..
  show "cap_has (cap_subtractClamp c q) d \<longleftrightarrow> cap_has c d \<or> cap_has q d"
    and "cap_amount (cap_subtractClamp c q) d =
       (if cap_has q d then clamp_sub (cap_amount c d) (cap_amount q d) else cap_amount c d)"
    unfolding eq using cap_update_loop [OF om_entries_distinct, of "\<lambda>_ v x. clamp_sub x v" q c d]
    by (simp_all add: entries_keys map_of_entries)
qed

lemma cap_add_loop:
  assumes "distinct (map fst xs)"
    and "foldR (\<lambda>(d, v) m.
       let cur = cap_amount m d; total = d_add cur v
       in if \<not> isfinite total then Inl Overflow_error else Inr (om_insert d total m)) xs c = Inr r"
  shows "(cap_has r d \<longleftrightarrow> cap_has c d \<or> d \<in> fst ` set xs) \<and>
     cap_amount r d = (case map_of xs d of None \<Rightarrow> cap_amount c d | Some v \<Rightarrow> d_add (cap_amount c d) v) \<and>
     (d \<in> fst ` set xs \<longrightarrow> isfinite (cap_amount r d))"
  using assms
proof (induction xs arbitrary: c)
  case (Cons a xs)
  obtain e v where a: "a = (e, v)" by (cases a)
  let ?c = "om_insert e (d_add (cap_amount c e) v) c"
  have fin: "isfinite (d_add (cap_amount c e) v)" and step: "foldR (\<lambda>(d, v) m.
       let cur = cap_amount m d; total = d_add cur v
       in if \<not> isfinite total then Inl Overflow_error else Inr (om_insert d total m)) xs ?c = Inr r"
    using Cons.prems(2) by (auto simp: a Let_def split: if_splits)
  from Cons.prems(1) have "map_of xs e = None" by (simp add: a map_of_eq_None_iff)
  with Cons.IH [OF _ step] Cons.prems(1) fin show ?case
    by (cases "d = e") (auto simp: a map_of_eq_None_iff cong: option.case_cong)
qed simp

lemma cap_add_effect:
  assumes "cap_add c q = Inr r"
  shows "cap_has r d \<longleftrightarrow> cap_has c d \<or> cap_has q d"
    and "cap_amount r d = (if cap_has q d then d_add (cap_amount c d) (cap_amount q d) else cap_amount c d)"
    and "cap_has q d \<Longrightarrow> isfinite (cap_amount r d)"
  using cap_add_loop [OF om_entries_distinct assms [unfolded cap_add_def], of d]
  by (auto simp: entries_keys map_of_entries)

lemma cap_add_total:
  assumes "\<And>d. cap_has q d \<Longrightarrow> isfinite (d_add (cap_amount c d) (cap_amount q d))"
  shows "\<exists>r. cap_add c q = Inr r"
proof -
  have "\<exists>r. foldR (\<lambda>(d, v) m.
       let cur = cap_amount m d; total = d_add cur v
       in if \<not> isfinite total then Inl Overflow_error else Inr (om_insert d total m)) xs m = Inr r"
    if "distinct (map fst xs)" and "\<forall>(d, v) \<in> set xs. isfinite (d_add (cap_amount m d) v)" for xs m
    using that
  proof (induction xs arbitrary: m)
    case (Cons a xs)
    obtain e v where a: "a = (e, v)" by (cases a)
    have "\<forall>(d, v') \<in> set xs. isfinite (d_add (cap_amount (om_insert e (d_add (cap_amount m e) v) m) d) v')"
      using Cons.prems by (force simp: a)
    with Cons show ?case by (simp add: a)
  qed simp
  then show ?thesis
    using assms unfolding cap_add_def by (force simp: cap_entry)
qed

lemma cap_fill_loop:
  fixes c :: Capacity
  assumes "distinct (map fst xs)"
  defines "r \<equiv> fold (\<lambda>(d, v) m. if \<not> cap_has m d then om_insert d v m else m) xs c"
  shows "cap_has r d \<longleftrightarrow> cap_has c d \<or> d \<in> fst ` set xs"
    and "cap_amount r d = (if cap_has c d then cap_amount c d
           else case map_of xs d of None \<Rightarrow> d_zero | Some v \<Rightarrow> v)"
proof -
  have "(cap_has r d \<longleftrightarrow> cap_has c d \<or> d \<in> fst ` set xs) \<and> cap_amount r d =
     (if cap_has c d then cap_amount c d else case map_of xs d of None \<Rightarrow> d_zero | Some v \<Rightarrow> v)"
    using assms(1) unfolding r_def
  proof (induction xs arbitrary: c)
    case (Cons a xs)
    obtain e v where a: "a = (e, v)" by (cases a)
    from Cons.prems have "map_of xs e = None" by (simp add: a map_of_eq_None_iff)
    then show ?case
      using Cons.IH [of "if \<not> cap_has c e then om_insert e v c else c"] Cons.prems
      by (cases "d = e") (auto simp: a)
  qed (simp add: cap_not_has)
  then show "cap_has r d \<longleftrightarrow> cap_has c d \<or> d \<in> fst ` set xs"
    and "cap_amount r d = (if cap_has c d then cap_amount c d
           else case map_of xs d of None \<Rightarrow> d_zero | Some v \<Rightarrow> v)"
    by blast+
qed

lemma cap_select_loop:
  fixes g :: "Dimension \<Rightarrow> double \<Rightarrow> double"
  assumes "distinct (map fst xs)"
  defines "r \<equiv> fold (\<lambda>(d, v) m. om_insert d (g d v) m) xs om_empty"
  shows "cap_has r d \<longleftrightarrow> d \<in> fst ` set xs"
    and "cap_amount r d = (case map_of xs d of None \<Rightarrow> d_zero | Some v \<Rightarrow> g d v)"
  using cap_update_loop [OF assms(1), of "\<lambda>d v _. g d v" om_empty d]
  by (simp_all add: r_def cong: option.case_cong)

text \<open>
  A dimension that this capacity lacks keeps the other's amount: an absent entry does not count as
  zero here, although it does in \<open>amount\<close> and \<open>satisfies\<close>.
\<close>

lemma cap_min_has: "cap_has (cap_min c q) d \<longleftrightarrow> cap_has c d \<or> cap_has q d"
  and cap_min_amount:
    "cap_amount (cap_min c q) d =
       (if cap_has c d
        then (if d_lt (cap_amount c d) (cap_amount q d) then cap_amount c d else cap_amount q d)
        else cap_amount q d)"
  unfolding cap_min_def Let_def
  by (auto simp: cap_fill_loop cap_select_loop entries_keys map_of_entries cap_not_has)

lemma cap_max_has: "cap_has (cap_maxCap c q) d \<longleftrightarrow> cap_has c d \<or> cap_has q d"
  and cap_max_amount:
    "cap_amount (cap_maxCap c q) d =
       (if cap_has c d
        then (if d_lt (cap_amount q d) (cap_amount c d) then cap_amount c d else cap_amount q d)
        else cap_amount q d)"
  unfolding cap_maxCap_def Let_def
  by (auto simp: cap_fill_loop cap_select_loop entries_keys map_of_entries cap_not_has)

section \<open>Well-formed capacities\<close>

definition capacity_ok :: "Capacity \<Rightarrow> bool" where
  "capacity_ok c \<longleftrightarrow> (\<forall>(d, v) \<in> set (om_entries c). amount_ok v)"

lemma capacity_okD: "capacity_ok c \<Longrightarrow> amount_ok (cap_amount c d)"
  by (cases "cap_has c d") (auto simp: capacity_ok_def cap_entry cap_not_has)

lemma capacity_okI: "(\<And>d. cap_has c d \<Longrightarrow> amount_ok (cap_amount c d)) \<Longrightarrow> capacity_ok c"
  by (auto simp: capacity_ok_def cap_entry)

lemma capacity_ok_empty [simp]: "capacity_ok om_empty"
  by (simp add: capacity_ok_def)

lemma clamp_sub_ok: "amount_ok x \<Longrightarrow> amount_ok v \<Longrightarrow> amount_ok (clamp_sub x v)"
  by (auto simp: clamp_sub_def Let_def d_cmp_finite d_sub_amount intro: amount_ok_pos_key)

lemma clamp_sub_key:
  assumes "amount_ok x" and "amount_ok v"
  shows "d_key (clamp_sub x v) = max 0 (d_key (d_sub x v))"
  using assms by (simp add: clamp_sub_def Let_def d_cmp_finite d_sub_amount max_def)

lemma cap_setAmount_ok: "capacity_ok c \<Longrightarrow> capacity_ok (snd (cap_setAmount c d v))"
  by (auto simp: cap_setAmount_def d_cmp_finite capacity_okD amount_ok_pos_key intro!: capacity_okI)

lemma cap_subtractClamp_ok: "capacity_ok c \<Longrightarrow> capacity_ok q \<Longrightarrow> capacity_ok (cap_subtractClamp c q)"
  by (auto intro!: capacity_okI simp: cap_subtractClamp_amount clamp_sub_ok capacity_okD)

lemma cap_add_ok: "capacity_ok c \<Longrightarrow> capacity_ok q \<Longrightarrow> cap_add c q = Inr r \<Longrightarrow> capacity_ok r"
  using d_add_amount(2) cap_add_effect(2,3) [of c q r]
  by (intro capacity_okI) (metis capacity_okD)

lemma cap_min_ok: "capacity_ok c \<Longrightarrow> capacity_ok q \<Longrightarrow> capacity_ok (cap_min c q)"
  and cap_max_ok: "capacity_ok c \<Longrightarrow> capacity_ok q \<Longrightarrow> capacity_ok (cap_maxCap c q)"
  by (auto intro!: capacity_okI simp: cap_min_amount cap_max_amount capacity_okD)

lemma cap_set_ok [intro]: "capacity_ok c \<Longrightarrow> capacity_ok (cap_set d v c)"
  by (simp add: cap_set_def cap_setAmount_ok)

text \<open>Comparison of whole capacities, dimension by dimension.\<close>

definition cap_le :: "Capacity \<Rightarrow> Capacity \<Rightarrow> bool" where
  "cap_le a b \<longleftrightarrow> (\<forall>d. d_key (cap_amount a d) \<le> d_key (cap_amount b d))"

lemma cap_le_refl [simp]: "cap_le a a" and cap_le_trans: "cap_le a b \<Longrightarrow> cap_le b c \<Longrightarrow> cap_le a c"
  by (auto simp: cap_le_def intro: order_trans)

lemma cap_satisfies_le:
  assumes "capacity_ok c" and "capacity_ok q"
  shows "cap_satisfies c q \<longleftrightarrow> cap_le q c"
proof -
  have "cap_satisfies c q \<longleftrightarrow> (\<forall>d. cap_has q d \<longrightarrow> d_key (cap_amount q d) \<le> d_key (cap_amount c d))"
    using assms by (force simp: cap_satisfies_def cap_entry d_cmp_finite capacity_okD not_less)
  also have "\<dots> \<longleftrightarrow> cap_le q c"
    unfolding cap_le_def
  proof (intro iff_allI)
    fix d
    show "(cap_has q d \<longrightarrow> d_key (cap_amount q d) \<le> d_key (cap_amount c d)) \<longleftrightarrow>
          d_key (cap_amount q d) \<le> d_key (cap_amount c d)"
      using capacity_okD [OF assms(1), THEN amount_ok_key, of d]
      by (cases "cap_has q d") (simp_all add: cap_not_has)
  qed
  finally show ?thesis .
qed

lemma cap_missing_iff: "cap_missingDimensions c q = [] \<longleftrightarrow> cap_satisfies c q"
  by (auto simp: cap_missingDimensions_def cap_satisfies_def filter_empty_conv)

lemma cap_subtractClamp_le:
  assumes "capacity_ok c" and "capacity_ok q"
  shows "cap_le (cap_subtractClamp c q) c"
  using assms d_sub_le capacity_okD [THEN amount_ok_key]
  by (auto simp: cap_le_def cap_subtractClamp_amount clamp_sub_key capacity_okD)

lemma cap_add_ge:
  assumes "capacity_ok c" and "capacity_ok q" and "cap_add c q = Inr r"
  shows "cap_le c r"
  using assms d_add_ge capacity_okD [THEN amount_ok_key]
  by (auto simp: cap_le_def cap_add_effect [OF assms(3)] capacity_okD)

section \<open>Whole-number capacities\<close>

text \<open>
  The abstract capacity is a function from dimensions to natural numbers. Counts and byte amounts
  are whole, and below \<open>2 ^ 53\<close> the double arithmetic on them is exact: the operations refine natural
  addition, truncated subtraction and the pointwise order.
\<close>

definition cap_rep :: "Capacity \<Rightarrow> (Dimension \<Rightarrow> nat) \<Rightarrow> bool" where
  "cap_rep c f \<longleftrightarrow> (\<forall>d. f d < 2 ^ 53 \<and> cap_amount c d = d_of_nat (f d))"

lemma cap_repD: "cap_rep c f \<Longrightarrow> cap_amount c d = d_of_nat (f d)" "cap_rep c f \<Longrightarrow> f d < 2 ^ 53"
  unfolding cap_rep_def by blast+

lemma cap_rep_ok: "cap_rep c f \<Longrightarrow> capacity_ok c"
  by (auto intro!: capacity_okI simp: cap_repD(1) d_of_nat_exact(2) [OF cap_repD(2)])

lemma cap_rep_empty: "cap_rep om_empty (\<lambda>_. 0)"
  by (simp add: cap_rep_def)

lemma cap_rep_not_has: "cap_rep c f \<Longrightarrow> \<not> cap_has c d \<Longrightarrow> f d = 0"
proof -
  assume r: "cap_rep c f" and n: "\<not> cap_has c d"
  have "\<not> d_key (d_of_nat 0) < d_key (d_of_nat (f d))"
    using cap_repD(1) [OF r, of d] n by (simp add: cap_not_has)
  then show ?thesis using d_of_nat_less_iff [of 0 "f d"] cap_repD(2) [OF r, of d] by simp
qed

lemma clamp_sub_of_nat:
  assumes "m < 2 ^ 53" and "n < 2 ^ 53"
  shows "clamp_sub (d_of_nat m) (d_of_nat n) = d_of_nat (m - n)"
proof (cases "n < m")
  case True
  have "m - n < 2 ^ 53" using assms by simp
  then have "d_lt d_zero (d_of_nat (m - n))"
    using d_of_nat_less_iff [of 0 "m - n"] True d_of_nat_exact(2) [of "m - n"] by (simp add: d_cmp_finite)
  then show ?thesis using True d_of_nat_sub [OF assms(1), of n] by (simp add: clamp_sub_def)
next
  case False
  then have "\<not> d_key (d_of_nat n) < d_key (d_of_nat m)" using assms by (simp add: d_of_nat_less_iff)
  then have "\<not> d_lt d_zero (d_sub (d_of_nat m) (d_of_nat n))"
    using assms by (simp add: d_lt_def d_sub_pos d_of_nat_exact(2))
  then show ?thesis using False by (simp add: clamp_sub_def)
qed

lemma cap_rep_subtractClamp:
  assumes "cap_rep c f" and "cap_rep q g"
  shows "cap_rep (cap_subtractClamp c q) (\<lambda>d. f d - g d)"
  unfolding cap_rep_def
proof
  fix d
  have "cap_amount (cap_subtractClamp c q) d = d_of_nat (f d - g d)"
    using clamp_sub_of_nat [OF cap_repD(2) [OF assms(1)] cap_repD(2) [OF assms(2)]]
      cap_rep_not_has [OF assms(2), of d]
    by (simp add: cap_subtractClamp_amount cap_repD(1) [OF assms(1)] cap_repD(1) [OF assms(2)])
  then show "f d - g d < 2 ^ 53 \<and> cap_amount (cap_subtractClamp c q) d = d_of_nat (f d - g d)"
    using cap_repD(2) [OF assms(1), of d] by simp
qed

lemma cap_rep_add:
  assumes "cap_rep c f" and "cap_rep q g" and "\<And>d. f d + g d < 2 ^ 53"
  shows "\<exists>r. cap_add c q = Inr r \<and> cap_rep r (\<lambda>d. f d + g d)"
proof -
  have sum: "d_add (cap_amount c d) (cap_amount q d) = d_of_nat (f d + g d)" for d
    using d_of_nat_add [OF assms(3)] by (simp add: cap_repD(1) [OF assms(1)] cap_repD(1) [OF assms(2)])
  then have "\<exists>r. cap_add c q = Inr r"
    using assms(3) by (intro cap_add_total) (simp add: d_of_nat_exact(2))
  then obtain r where r: "cap_add c q = Inr r" by blast
  have "cap_amount r d = d_of_nat (f d + g d)" for d
    using cap_rep_not_has [OF assms(2), of d] sum [of d] cap_repD(1) [OF assms(1), of d]
    by (auto simp: cap_add_effect(2) [OF r])
  then show ?thesis using r assms(3) by (auto simp: cap_rep_def)
qed

lemma cap_rep_satisfies:
  assumes "cap_rep c f" and "cap_rep q g"
  shows "cap_satisfies c q \<longleftrightarrow> (\<forall>d. g d \<le> f d)"
proof -
  have "d_key (cap_amount q d) \<le> d_key (cap_amount c d) \<longleftrightarrow> g d \<le> f d" for d
    using d_of_nat_less_iff [OF cap_repD(2) [OF assms(1)] cap_repD(2) [OF assms(2)], of d d]
    by (simp add: cap_repD(1) [OF assms(1)] cap_repD(1) [OF assms(2)] not_less [symmetric])
  then show ?thesis
    using cap_satisfies_le [OF cap_rep_ok [OF assms(1)] cap_rep_ok [OF assms(2)]] by (simp add: cap_le_def)
qed

text \<open>Capacities written with whole amounts, as the adapters and the examples write them.\<close>

lemma d_of_nat_zero_iff: "n < 2 ^ 53 \<Longrightarrow> d_eq (d_of_nat n) d_zero \<longleftrightarrow> n = 0"
  using d_of_nat_less_iff [of 0 n] d_of_nat_exact(2) [of n] amount_ok_key [of "d_of_nat n"]
  by (auto simp: d_cmp_finite)

lemma cap_set_whole:
  assumes "n < 2 ^ 53"
  shows "cap_set d (d_of_nat n) c = (if n = 0 then om_erase d c else om_insert d (d_of_nat n) c)"
  using d_of_nat_exact(2) [OF assms] amount_ok_key [of "d_of_nat n"] d_of_nat_zero_iff [OF assms]
  by (auto simp: cap_set_def cap_setAmount_def d_cmp_finite)

lemma cap_rep_set: "cap_rep c f \<Longrightarrow> n < 2 ^ 53 \<Longrightarrow> cap_rep (cap_set d (d_of_nat n) c) (f(d := n))"
  by (simp add: cap_rep_def cap_set_whole)

definition whole :: "(Dimension \<times> nat) list \<Rightarrow> Capacity" where
  "whole xs = fold (\<lambda>(d, n). cap_set d (d_of_nat n)) xs om_empty"

lemma whole_rep: "\<forall>(d, n) \<in> set xs. n < 2 ^ 53 \<Longrightarrow> cap_rep (whole xs) (fold (\<lambda>(d, n) f. f(d := n)) xs (\<lambda>_. 0))"
proof -
  have "cap_rep (fold (\<lambda>(d, n). cap_set d (d_of_nat n)) xs c) (fold (\<lambda>(d, n) f. f(d := n)) xs f)"
    if "cap_rep c f" and "\<forall>(d, n) \<in> set xs. n < 2 ^ 53" for c f
    using that by (induction xs arbitrary: c f) (auto simp: cap_rep_set)
  then show "\<forall>(d, n) \<in> set xs. n < 2 ^ 53 \<Longrightarrow> cap_rep (whole xs) (fold (\<lambda>(d, n) f. f(d := n)) xs (\<lambda>_. 0))"
    by (simp add: whole_def cap_rep_empty)
qed

lemma whole_ok: "\<forall>(d, n) \<in> set xs. n < 2 ^ 53 \<Longrightarrow> capacity_ok (whole xs)"
  by (rule cap_rep_ok [OF whole_rep])

lemma whole_amount:
  "\<forall>(d, n) \<in> set xs. n < 2 ^ 53 \<Longrightarrow> cap_amount (whole xs) d = d_of_nat (fold (\<lambda>(d, n) f. f(d := n)) xs (\<lambda>_. 0) d)"
  by (rule cap_repD(1) [OF whole_rep])

lemma cap_rep_has: "cap_rep c f \<Longrightarrow> 0 < f d \<Longrightarrow> cap_has c d"
  using cap_rep_not_has by fastforce

lemma cap_rep_vram: "cap_rep c f \<Longrightarrow> cap_vram c = Inr (bc_of (f VramBytes))"
  by (simp add: cap_vram_def cap_cast_def cap_repD(1) d_of_nat_to_u64 [OF cap_repD(2)] bc_of_def)

lemma cap_rep_accelerators: "cap_rep c f \<Longrightarrow> cap_accelerators c = Inr (DeviceCount (word_of_nat (f AcceleratorCount)))"
  by (simp add: cap_accelerators_def cap_cast_def cap_repD(1) d_of_nat_to_u64 [OF cap_repD(2)])

lemma d_add_zero_left:
  assumes "amount_ok v"
  shows "d_add d_zero v = v"
proof -
  have z: "amount_ok d_zero" by (simp add: amount_ok_def isfinite_key inf_mag_def)
  have k: "d_key (d_add d_zero v) = d_key v"
    using assms z by (simp add: d_key_add d_val_key rkey_key_val flip: d_val_key)
  then have "isfinite (d_add d_zero v)" using assms by (simp add: isfinite_key amount_ok_def)
  then show ?thesis using d_add_amount(2) [OF z assms] assms k by (intro amount_ok_eqI) simp_all
qed

lemma cap_add_empty:
  assumes "capacity_ok q"
  shows "cap_add om_empty q = Inr q"
proof -
  have eq: "d_add d_zero (cap_amount q d) = cap_amount q d" for d
    by (rule d_add_zero_left [OF capacity_okD [OF assms]])
  obtain r where r: "cap_add om_empty q = Inr r"
    using cap_add_total [of q om_empty] eq capacity_okD [OF assms] by auto
  have "r = q" using cap_add_effect [OF r] eq by (intro cap_eqI) (auto simp: cap_not_has)
  then show ?thesis using r by simp
qed

end
