(* ===== verification/Timeline.thy ===== *)
theory Timeline
  imports Capacity "HOL-Library.Multiset"
begin

text \<open>
  The event-driven capacity timeline (\<open>timeline/timeline.hpp\<close>): signed deltas, reservations, releases,
  maintenance windows, the frozen prefix index and the window queries. The lemmas relate the index to
  a plain replay of the events, whatever order \<open>std::sort\<close> gives events of equal time.
\<close>

section \<open>Deltas\<close>

type_synonym CapacityDelta = "(Dimension, double) omap"

definition delta_at :: "CapacityDelta \<Rightarrow> Dimension \<Rightarrow> double" where
  "delta_at dl d = (case om_lookup dl d of None \<Rightarrow> d_zero | Some v \<Rightarrow> v)"

definition delta_change :: "CapacityDelta \<Rightarrow> Dimension \<Rightarrow> double \<Rightarrow> fault + CapacityDelta" where
  "delta_change dl d v =
     (if \<not> isfinite v then Inl Invalid_argument
      else Inr (om_insert d (d_add (delta_at dl d) v) dl))"

definition delta_add :: "CapacityDelta \<Rightarrow> Dimension \<Rightarrow> double \<Rightarrow> fault + CapacityDelta" where
  "delta_add dl d v = delta_change dl d v"

definition delta_subtract :: "CapacityDelta \<Rightarrow> Dimension \<Rightarrow> double \<Rightarrow> fault + CapacityDelta" where
  "delta_subtract dl d v = delta_change dl d (d_neg v)"

definition delta_empty :: "CapacityDelta \<Rightarrow> bool" where
  "delta_empty dl \<longleftrightarrow> om_size dl = 0"

definition applyDelta :: "Capacity \<Rightarrow> CapacityDelta \<Rightarrow> Capacity" where
  "applyDelta c dl =
     fold (\<lambda>(dim, v) m.
       let cur = cap_amount m dim; next = d_add cur v; next' = (if d_lt next d_zero then d_zero else next)
       in snd (cap_setAmount m dim next'))
       (om_entries dl) c"

definition delta_negate :: "CapacityDelta \<Rightarrow> CapacityDelta" where
  "delta_negate dl = fold (\<lambda>(dim, v). om_insert dim (d_neg v)) (om_entries dl) om_empty"

section \<open>Reservations, releases, maintenance\<close>

datatype ReservationStrength = ReservationStrength (strength_code: u8)

abbreviation "Hard \<equiv> ReservationStrength 0"
abbreviation "Soft \<equiv> ReservationStrength 1"

definition ReservationStrength_to_string :: "ReservationStrength \<Rightarrow> string" where
  "ReservationStrength_to_string s =
     (if s = Hard then ''HARD'' else if s = Soft then ''SOFT'' else ''UNKNOWN'')"

record Reservation =
  rsv_id :: ReservationId
  rsv_generation :: ReservationGeneration
  rsv_interval :: Interval
  rsv_hold :: CapacityDelta
  rsv_strength :: ReservationStrength
  rsv_provenance :: Provenance

definition Reservation_default :: Reservation where
  "Reservation_default = \<lparr>rsv_id = sid_default, rsv_generation = gen_default, rsv_interval = iv_default,
     rsv_hold = om_empty, rsv_strength = Hard, rsv_provenance = Reported\<rparr>"

record ReleaseEvent =
  rel_sourceId :: ForecastSourceId
  rel_time :: TimePoint
  rel_earliest :: TimePoint
  rel_latest :: TimePoint
  rel_release :: CapacityDelta
  rel_confidence :: Confidence
  rel_provenance :: Provenance

record MaintenanceWindow =
  mw_interval :: Interval
  mw_unavailable :: CapacityDelta
  mw_knownFuture :: bool

section \<open>The timeline\<close>

record CapacityEvent =
  ev_time :: TimePoint
  ev_delta :: CapacityDelta

record Timeline =
  tl_base :: Capacity
  tl_events :: "CapacityEvent list"
  tl_times :: "TimePoint list"
  tl_prefix :: "Capacity list"

definition tl_create :: "Capacity \<Rightarrow> Timeline" where
  "tl_create base = \<lparr>tl_base = base, tl_events = [], tl_times = [], tl_prefix = []\<rparr>"

definition tl_setBase :: "Timeline \<Rightarrow> Capacity \<Rightarrow> Timeline" where
  "tl_setBase tml base = tml\<lparr>tl_base := base\<rparr>"

definition mk_event :: "TimePoint \<Rightarrow> CapacityDelta \<Rightarrow> CapacityEvent" where
  "mk_event t dl = \<lparr>ev_time = t, ev_delta = dl\<rparr>"

definition reservation_events :: "Reservation \<Rightarrow> CapacityEvent list" where
  "reservation_events r =
     [mk_event (iv_start (rsv_interval r)) (delta_negate (rsv_hold r)),
      mk_event (iv_end (rsv_interval r)) (rsv_hold r)]"

definition tl_addReservation :: "Timeline \<Rightarrow> Reservation \<Rightarrow> Timeline" where
  "tl_addReservation tml r = tml\<lparr>tl_events := tl_events tml @ reservation_events r\<rparr>"

definition tl_addRelease :: "Timeline \<Rightarrow> ReleaseEvent \<Rightarrow> Timeline" where
  "tl_addRelease tml e = tml\<lparr>tl_events := tl_events tml @ [mk_event (rel_time e) (rel_release e)]\<rparr>"

definition tl_addMaintenance :: "Timeline \<Rightarrow> MaintenanceWindow \<Rightarrow> Timeline" where
  "tl_addMaintenance tml m =
     tml\<lparr>tl_events := tl_events tml @
        [mk_event (iv_start (mw_interval m)) (delta_negate (mw_unavailable m)),
         mk_event (iv_end (mw_interval m)) (mw_unavailable m)]\<rparr>"

text \<open>The running capacity after each event.\<close>

fun running_caps :: "Capacity \<Rightarrow> CapacityEvent list \<Rightarrow> Capacity list" where
  "running_caps c [] = []"
| "running_caps c (e # es) = (let c' = applyDelta c (ev_delta e) in c' # running_caps c' es)"

text \<open>
  \<open>std::sort\<close> is not stable, so \<open>freeze_with\<close> takes the sorting function; \<open>freeze\<close> is its instance for
  one sort that the standard permits.
\<close>

definition freeze_with :: "(CapacityEvent list \<Rightarrow> CapacityEvent list) \<Rightarrow> Timeline \<Rightarrow> Timeline" where
  "freeze_with srt tml =
     (let es = srt (tl_events tml)
      in tml\<lparr>tl_events := es, tl_times := i64_min # map ev_time es,
            tl_prefix := tl_base tml # running_caps (tl_base tml) es\<rparr>)"

definition std_sort :: "CapacityEvent list \<Rightarrow> CapacityEvent list" where
  "std_sort = sort_key ev_time"

definition freeze :: "Timeline \<Rightarrow> Timeline" where
  "freeze = freeze_with std_sort"

text \<open>\<open>std::upper_bound\<close> on a sorted range: the number of leading elements not above \<open>t\<close>.\<close>

definition upper_bound :: "('a \<Rightarrow> TimePoint) \<Rightarrow> TimePoint \<Rightarrow> 'a list \<Rightarrow> nat" where
  "upper_bound key t xs = length (takeWhile (\<lambda>x. key x \<le> t) xs)"

definition firstEventIndexAfter :: "Timeline \<Rightarrow> TimePoint \<Rightarrow> nat" where
  "firstEventIndexAfter tml t = upper_bound ev_time t (tl_events tml)"

text \<open>
  The index of the last time not after \<open>t\<close>. Before \<open>freeze\<close> there is none: the unsigned subtraction
  wraps and the following access is out of range.
\<close>

definition capacityAt :: "Timeline \<Rightarrow> TimePoint \<Rightarrow> fault + Capacity" where
  "capacityAt tml t =
     (let n = upper_bound id t (tl_times tml)
      in if n = 0 \<or> length (tl_prefix tml) < n then Inl Undefined else Inr (tl_prefix tml ! (n - 1)))"

fun range_walk ::
  "(Capacity \<Rightarrow> Capacity \<Rightarrow> Capacity) \<Rightarrow> TimePoint \<Rightarrow> TimePoint \<Rightarrow> CapacityEvent list \<Rightarrow> Capacity \<Rightarrow> Capacity \<Rightarrow>
   Capacity \<times> Capacity"
where
  "range_walk pick start stop [] best cur = (best, cur)"
| "range_walk pick start stop (e # es) best cur =
     (if ev_time e < start then range_walk pick start stop es best cur
      else if stop \<le> ev_time e then (best, cur)
      else let best1 = pick best cur; cur1 = applyDelta cur (ev_delta e); best2 = pick best1 cur1
           in range_walk pick start stop es best2 cur1)"

definition rangeMin :: "Timeline \<Rightarrow> TimePoint \<Rightarrow> TimePoint \<Rightarrow> fault + Capacity" where
  "rangeMin tml start stop =
     bindR (capacityAt tml start) (\<lambda>c.
       let (best, cur) = range_walk cap_min start stop (drop (firstEventIndexAfter tml start) (tl_events tml)) c c
       in Inr (cap_min best cur))"

definition rangeMax :: "Timeline \<Rightarrow> TimePoint \<Rightarrow> TimePoint \<Rightarrow> fault + Capacity" where
  "rangeMax tml start stop =
     bindR (capacityAt tml start) (\<lambda>c.
       let (best, cur) = range_walk cap_maxCap start stop (drop (firstEventIndexAfter tml start) (tl_events tml)) c c
       in Inr (cap_maxCap best cur))"

section \<open>Deltas act on one dimension at a time\<close>

definition clamp_add :: "double \<Rightarrow> double \<Rightarrow> double" where
  "clamp_add x v = (let n = d_add x v; n' = (if d_lt n d_zero then d_zero else n)
     in if \<not> isfinite n' then x else if d_eq n' d_zero then d_zero else n')"

lemma cap_amount_setAmount:
  "cap_amount (snd (cap_setAmount c e v)) d =
     (if d = e \<and> isfinite v \<and> \<not> d_lt v d_zero
      then (if d_eq v d_zero then d_zero else v) else cap_amount c d)"
  by (simp add: cap_setAmount_def)

lemma d_lt_irrefl: "\<not> d_lt d_zero d_zero"
  by (simp add: d_lt_def)

lemma applyDelta_amount:
  "cap_amount (applyDelta c dl) d =
     (if om_contains dl d then clamp_add (cap_amount c d) (delta_at dl d) else cap_amount c d)"
proof -
  have "cap_amount (applyDelta c dl) d =
    (case map_of (om_entries dl) d of None \<Rightarrow> cap_amount c d | Some v \<Rightarrow> clamp_add (cap_amount c d) v)"
    unfolding applyDelta_def
    by (rule pointwise_loop [where f = "\<lambda>_ v x. clamp_add x v"])
      (auto simp: cap_amount_setAmount clamp_add_def Let_def d_lt_irrefl)
  then show ?thesis
    by (simp add: om_contains_def delta_at_def flip: om_lookup_def split: option.split)
qed

lemma applyDelta_ok: "capacity_ok c \<Longrightarrow> capacity_ok (applyDelta c dl)"
  unfolding applyDelta_def
  by (rule fold_invariant_set) (auto simp: Let_def intro!: cap_setAmount_ok)

lemma delta_at_simps [simp]:
  "delta_at om_empty d = d_zero"
  "delta_at (om_insert e v dl) d = (if d = e then v else delta_at dl d)"
  by (simp_all add: delta_at_def)

lemma delta_negate_lookup: "om_lookup (delta_negate dl) d = map_option d_neg (om_lookup dl d)"
proof -
  have "om_lookup (delta_negate dl) d =
    (case map_of (om_entries dl) d of None \<Rightarrow> om_lookup om_empty d | Some v \<Rightarrow> Some (d_neg v))"
    unfolding delta_negate_def
    by (rule pointwise_loop [where f = "\<lambda>_ v _. Some (d_neg v)"]) simp_all
  then show ?thesis by (simp flip: om_lookup_def split: option.split)
qed

lemma delta_negate_simps [simp]:
  "om_contains (delta_negate dl) d = om_contains dl d"
  "om_contains dl d \<Longrightarrow> delta_at (delta_negate dl) d = d_neg (delta_at dl d)"
  by (auto simp: om_contains_def delta_at_def delta_negate_lookup)

section \<open>The replay of the events\<close>

text \<open>The abstract timeline: the capacity after a list of events, and the curve of a base and its events.\<close>

definition cap_after :: "Capacity \<Rightarrow> CapacityEvent list \<Rightarrow> Capacity" where
  "cap_after c es = fold (\<lambda>e m. applyDelta m (ev_delta e)) es c"

definition curve :: "Capacity \<Rightarrow> CapacityEvent list \<Rightarrow> TimePoint \<Rightarrow> Capacity" where
  "curve base es t = cap_after base (filter (\<lambda>e. ev_time e \<le> t) es)"

lemma cap_after_simps [simp]:
  "cap_after c [] = c" "cap_after c (e # es) = cap_after (applyDelta c (ev_delta e)) es"
  "cap_after c (es @ fs) = cap_after (cap_after c es) fs"
  by (simp_all add: cap_after_def)

lemma cap_after_ok: "capacity_ok c \<Longrightarrow> capacity_ok (cap_after c es)"
  by (induction es arbitrary: c) (simp_all add: applyDelta_ok)

lemma length_running_caps [simp]: "length (running_caps c es) = length es"
  by (induction c es rule: running_caps.induct) (simp_all add: Let_def)

lemma running_caps_nth: "i \<le> length es \<Longrightarrow> (c # running_caps c es) ! i = cap_after c (take i es)"
proof (induction es arbitrary: c i)
  case (Cons e es)
  show ?case
  proof (cases i)
    case (Suc j)
    then show ?thesis using Cons.IH [of j "applyDelta c (ev_delta e)"] Cons.prems by (simp add: Let_def)
  qed simp
qed simp

lemma cap_after_prefix_visited: "cap_after c (take i es) \<in> set (c # running_caps c es)"
  by (metis length_Cons length_running_caps linorder_le_cases nth_mem running_caps_nth take_all
      le_imp_less_Suc order_refl)

lemma running_caps_ok: "capacity_ok c \<Longrightarrow> x \<in> set (running_caps c es) \<Longrightarrow> capacity_ok x"
  by (induction c es rule: running_caps.induct) (auto simp: Let_def applyDelta_ok)

section \<open>A frozen timeline indexes the replay\<close>

definition frozen :: "Timeline \<Rightarrow> bool" where
  "frozen tml \<longleftrightarrow> sorted (map ev_time (tl_events tml)) \<and>
     tl_times tml = i64_min # map ev_time (tl_events tml) \<and>
     tl_prefix tml = tl_base tml # running_caps (tl_base tml) (tl_events tml)"

text \<open>What \<open>freeze\<close> relies on in \<open>std::sort\<close>: a permutation in ascending order of time.\<close>

locale event_sort =
  fixes srt :: "CapacityEvent list \<Rightarrow> CapacityEvent list"
  assumes srt_mset: "mset (srt es) = mset es"
    and srt_sorted: "sorted (map ev_time (srt es))"
begin

lemma set_srt: "set (srt es) = set es"
  by (metis set_mset_mset srt_mset)

lemma frozen_freeze_with: "frozen (freeze_with srt tml)"
  by (simp add: frozen_def freeze_with_def Let_def srt_sorted)

lemma freeze_with_simps:
  "tl_base (freeze_with srt tml) = tl_base tml" "tl_events (freeze_with srt tml) = srt (tl_events tml)"
  by (simp_all add: freeze_with_def Let_def)

end

interpretation stable: event_sort std_sort
  by unfold_locales (simp_all add: std_sort_def)

lemma frozen_freeze [simp]: "frozen (freeze tml)"
  unfolding freeze_def by (rule stable.frozen_freeze_with)

lemma freeze_simps [simp]:
  "tl_base (freeze tml) = tl_base tml" "tl_events (freeze tml) = sort_key ev_time (tl_events tml)"
  by (simp_all add: freeze_def freeze_with_def std_sort_def Let_def)

lemma capacityAt_frozen:
  assumes "frozen tml" and "i64_min \<le> t"
  shows "capacityAt tml t = Inr (curve (tl_base tml) (tl_events tml) t)"
proof -
  let ?es = "tl_events tml"
  define k where "k = length (takeWhile (\<lambda>e. ev_time e \<le> t) ?es)"
  have k: "k \<le> length ?es" by (simp add: k_def length_takeWhile_le)
  have "upper_bound id t (tl_times tml) = Suc k"
    using assms by (simp add: frozen_def upper_bound_def k_def takeWhile_map comp_def)
  moreover have "tl_prefix tml ! k = cap_after (tl_base tml) (take k ?es)"
    using assms(1) running_caps_nth [OF k] by (simp add: frozen_def)
  moreover have "take k ?es = takeWhile (\<lambda>e. ev_time e \<le> t) ?es"
    unfolding k_def by (rule takeWhile_eq_take [symmetric])
  moreover have "takeWhile (\<lambda>e. ev_time e \<le> t) ?es = filter (\<lambda>e. ev_time e \<le> t) ?es"
    using assms(1) by (simp add: frozen_def takeWhile_sorted_filter)
  ultimately show ?thesis
    using k assms(1) by (simp add: capacityAt_def curve_def frozen_def)
qed

section \<open>Window queries\<close>

definition window :: "CapacityEvent list \<Rightarrow> TimePoint \<Rightarrow> TimePoint \<Rightarrow> CapacityEvent list" where
  "window es start stop = filter (\<lambda>e. start < ev_time e \<and> ev_time e < stop) es"

definition visit :: "(Capacity \<Rightarrow> Capacity \<Rightarrow> Capacity) \<Rightarrow> CapacityEvent \<Rightarrow> Capacity \<times> Capacity \<Rightarrow> Capacity \<times> Capacity"
where
  "visit pick e bc = (let cur1 = applyDelta (snd bc) (ev_delta e) in (pick (pick (fst bc) (snd bc)) cur1, cur1))"

lemma range_walk_fold:
  assumes "sorted (map ev_time es)" and "\<forall>e \<in> set es. start < ev_time e"
  shows "range_walk pick start stop es best cur =
     fold (visit pick) (filter (\<lambda>e. ev_time e < stop) es) (best, cur)"
  using assms
proof (induction es arbitrary: best cur)
  case (Cons e es)
  show ?case
  proof (cases "stop \<le> ev_time e")
    case True
    then have "filter (\<lambda>e. ev_time e < stop) (e # es) = []"
      using Cons.prems(1) by (auto simp: filter_empty_conv)
    then show ?thesis using True Cons.prems by simp
  next
    case False
    then show ?thesis using Cons by (simp add: visit_def Let_def)
  qed
qed simp

lemma range_query_fold:
  assumes "frozen tml"
  shows "range_walk pick start stop (drop (firstEventIndexAfter tml start) (tl_events tml)) c c =
     fold (visit pick) (window (tl_events tml) start stop) (c, c)"
proof -
  let ?es = "tl_events tml"
  have srt: "sorted (map ev_time ?es)" using assms by (simp add: frozen_def)
  have d: "drop (firstEventIndexAfter tml start) ?es = filter (\<lambda>e. start < ev_time e) ?es"
    using dropWhile_sorted_filter [OF srt, of start]
    by (simp add: firstEventIndexAfter_def upper_bound_def dropWhile_eq_drop)
  show ?thesis
    unfolding d using srt
    by (subst range_walk_fold) (auto simp: window_def sorted_filter conj_commute intro!: arg_cong [where f = "\<lambda>w. fold (visit pick) w (c, c)"] filter_cong)
qed

text \<open>The states a window query visits: the capacity at its start and after each event inside it.\<close>

definition visited :: "Capacity \<Rightarrow> CapacityEvent list \<Rightarrow> Capacity set" where
  "visited c es = set (c # running_caps c es)"

lemma visited_simps [simp]:
  "visited c [] = {c}" "visited c (e # es) = insert c (visited (applyDelta c (ev_delta e)) es)"
  by (simp_all add: visited_def Let_def)

lemma visited_ok: "capacity_ok c \<Longrightarrow> x \<in> visited c es \<Longrightarrow> capacity_ok x"
  by (auto simp: visited_def running_caps_ok)

lemma visited_prefix:
  assumes "x \<in> visited c es"
  obtains k where "x = cap_after c (take k es)"
proof -
  from assms obtain i where "i < length (c # running_caps c es)" "x = (c # running_caps c es) ! i"
    unfolding visited_def by (metis in_set_conv_nth)
  then show ?thesis using that [of i] by (simp add: running_caps_nth)
qed

definition walk_result :: "(Capacity \<Rightarrow> Capacity \<Rightarrow> Capacity) \<Rightarrow> CapacityEvent list \<Rightarrow> Capacity \<times> Capacity \<Rightarrow> Capacity" where
  "walk_result pick es bc = (let (best, cur) = fold (visit pick) es bc in pick best cur)"

lemma walk_result_Cons: "walk_result pick (e # es) bc = walk_result pick es (visit pick e bc)"
  by (simp add: walk_result_def)

lemma rangeMin_frozen:
  assumes "frozen tml" and "i64_min \<le> start"
  defines "c \<equiv> curve (tl_base tml) (tl_events tml) start"
  shows "rangeMin tml start stop = Inr (walk_result cap_min (window (tl_events tml) start stop) (c, c))"
    and "rangeMax tml start stop = Inr (walk_result cap_maxCap (window (tl_events tml) start stop) (c, c))"
  using assms by (simp_all add: rangeMin_def rangeMax_def capacityAt_frozen range_query_fold walk_result_def
      split: prod.split)

lemma walk_min_attained:
  "\<exists>x \<in> insert best (visited cur es). cap_amount (walk_result cap_min es (best, cur)) d = cap_amount x d"
proof (induction es arbitrary: best cur)
  case (Cons e es)
  show ?case
    using Cons.IH [of "cap_min (cap_min best cur) (applyDelta cur (ev_delta e))" "applyDelta cur (ev_delta e)"]
    by (auto simp: walk_result_Cons visit_def Let_def cap_min_amount visited_def split: if_splits)
qed (simp add: walk_result_def cap_min_amount)

lemma cap_min_key:
  assumes "capacity_ok a" and "capacity_ok b" and "cap_has a d"
  shows "d_key (cap_amount (cap_min a b) d) = min (d_key (cap_amount a d)) (d_key (cap_amount b d))"
  using assms by (simp add: cap_min_amount d_cmp_finite capacity_okD min_def)

lemma cap_max_key:
  assumes "capacity_ok a" and "capacity_ok b"
  shows "d_key (cap_amount (cap_maxCap a b) d) = max (d_key (cap_amount a d)) (d_key (cap_amount b d))"
  using assms capacity_okD [OF assms(2), THEN amount_ok_key, of d]
  by (auto simp: cap_max_amount d_cmp_finite capacity_okD max_def cap_not_has)

text \<open>The minimum is below every visited amount of a dimension that is present at the start.\<close>

lemma walk_min_lower:
  assumes "capacity_ok best" and "capacity_ok cur" and "cap_has best d"
    and "x \<in> insert best (visited cur es)"
  shows "d_key (cap_amount (walk_result cap_min es (best, cur)) d) \<le> d_key (cap_amount x d)"
  using assms
proof (induction es arbitrary: best cur x)
  case Nil
  then show ?case by (auto simp: walk_result_def cap_min_key)
next
  case (Cons e es)
  let ?cur1 = "applyDelta cur (ev_delta e)" and ?best1 = "cap_min best cur"
  let ?best2 = "cap_min ?best1 ?cur1"
  have ok: "capacity_ok ?cur1" "capacity_ok ?best1" "capacity_ok ?best2"
    using Cons.prems by (simp_all add: applyDelta_ok cap_min_ok)
  have IH: "d_key (cap_amount (walk_result cap_min (e # es) (best, cur)) d) \<le> d_key (cap_amount y d)"
    if "y \<in> insert ?best2 (visited ?cur1 es)" for y
    using Cons.IH [OF ok(3,1) _ that] Cons.prems(3)
    by (simp add: walk_result_Cons visit_def Let_def cap_min_has)
  have "d_key (cap_amount ?best2 d) \<le> d_key (cap_amount best d)"
    and "d_key (cap_amount ?best2 d) \<le> d_key (cap_amount cur d)"
    using Cons.prems ok by (simp_all add: cap_min_key cap_min_has)
  then show ?case using Cons.prems(4) IH [of ?best2] IH [of x] by force
qed

lemma walk_max_upper:
  assumes "capacity_ok best" and "capacity_ok cur" and "x \<in> insert best (visited cur es)"
  shows "d_key (cap_amount x d) \<le> d_key (cap_amount (walk_result cap_maxCap es (best, cur)) d)"
  using assms
proof (induction es arbitrary: best cur x)
  case Nil
  then show ?case by (auto simp: walk_result_def cap_max_key)
next
  case (Cons e es)
  let ?cur1 = "applyDelta cur (ev_delta e)" and ?best1 = "cap_maxCap best cur"
  let ?best2 = "cap_maxCap ?best1 ?cur1"
  have ok: "capacity_ok ?cur1" "capacity_ok ?best1" "capacity_ok ?best2"
    using Cons.prems by (simp_all add: applyDelta_ok cap_max_ok)
  have IH: "d_key (cap_amount y d) \<le> d_key (cap_amount (walk_result cap_maxCap (e # es) (best, cur)) d)"
    if "y \<in> insert ?best2 (visited ?cur1 es)" for y
    using Cons.IH [OF ok(3,1) that] by (simp add: walk_result_Cons visit_def Let_def)
  have "d_key (cap_amount best d) \<le> d_key (cap_amount ?best2 d)"
    and "d_key (cap_amount cur d) \<le> d_key (cap_amount ?best2 d)"
    using Cons.prems ok by (simp_all add: cap_max_key)
  then show ?case using Cons.prems(3) IH [of ?best2] IH [of x] by force
qed

lemma filter_upto_split:
  assumes "sorted (map ev_time es)" and "start \<le> t"
  shows "filter (\<lambda>e. ev_time e \<le> t) es =
     filter (\<lambda>e. ev_time e \<le> start) es @ filter (\<lambda>e. start < ev_time e \<and> ev_time e \<le> t) es"
  using assms
proof (induction es)
  case (Cons e es)
  show ?case
  proof (cases "ev_time e \<le> start")
    case False
    with Cons.prems have "filter (\<lambda>e. ev_time e \<le> start) es = []"
      by (auto simp: filter_empty_conv)
    moreover have "\<forall>x \<in> set es. start < ev_time x"
      using False Cons.prems by auto
    then have "filter (\<lambda>e. ev_time e \<le> t) es = filter (\<lambda>e. start < ev_time e \<and> ev_time e \<le> t) es"
      by (auto intro!: filter_cong)
    ultimately show ?thesis using False by simp
  qed (use Cons in simp)
qed simp

text \<open>Every instant of the window is in a visited state.\<close>

lemma curve_visited:
  assumes "sorted (map ev_time es)" and "start \<le> t" and "t < stop"
  shows "curve base es t \<in> visited (curve base es start) (window es start stop)"
proof -
  have "sorted (map ev_time (filter (\<lambda>e. start < ev_time e) es))"
    using assms(1) by (simp add: sorted_filter)
  note split = filter_upto_split [OF assms(1,2)]
  have "sorted (map ev_time (window es start stop))"
    using assms(1) by (simp add: window_def sorted_filter)
  then have "take (length (takeWhile (\<lambda>e. ev_time e \<le> t) (window es start stop))) (window es start stop) =
      filter (\<lambda>e. ev_time e \<le> t) (window es start stop)"
    by (metis takeWhile_eq_take takeWhile_sorted_filter)
  also have "\<dots> = filter (\<lambda>e. start < ev_time e \<and> ev_time e \<le> t) es"
    using assms(3) by (auto simp: window_def intro!: filter_cong)
  finally show ?thesis
    unfolding curve_def split cap_after_simps visited_def by (metis cap_after_prefix_visited)
qed

section \<open>Exact accounting\<close>

text \<open>
  A delta of whole amounts is an integer per dimension. While no running amount leaves the range
  from 0 to \<open>2 ^ 53\<close>, nothing is clamped or rounded and the replay is integer addition.
\<close>

definition delta_rep :: "CapacityDelta \<Rightarrow> (Dimension \<Rightarrow> int) \<Rightarrow> bool" where
  "delta_rep dl g \<longleftrightarrow> (\<forall>d. isfinite (delta_at dl d) \<and> d_val (delta_at dl d) = g d * int one_units)"

lemma delta_repD:
  "delta_rep dl g \<Longrightarrow> isfinite (delta_at dl d)"
  "delta_rep dl g \<Longrightarrow> d_val (delta_at dl d) = g d * int one_units"
  by (simp_all add: delta_rep_def)

lemma delta_at_absent: "\<not> om_contains dl d \<Longrightarrow> delta_at dl d = d_zero"
  by (simp add: om_contains_def delta_at_def)

lemma d_val_zero [simp]: "d_val d_zero = 0"
  by (simp add: d_val_key)

lemma delta_rep_absent: "delta_rep dl g \<Longrightarrow> \<not> om_contains dl d \<Longrightarrow> g d = 0"
  using delta_repD(2) [of dl g d] one_units_pos by (simp add: delta_at_absent)

lemma delta_rep_negate: "delta_rep dl g \<Longrightarrow> delta_rep (delta_negate dl) (\<lambda>d. - g d)"
  unfolding delta_rep_def [of "delta_negate dl"]
proof (intro allI)
  fix d
  assume r: "delta_rep dl g"
  show "isfinite (delta_at (delta_negate dl) d) \<and> d_val (delta_at (delta_negate dl) d) = - g d * int one_units"
    using delta_repD [OF r, of d] delta_rep_absent [OF r, of d]
    by (cases "om_contains dl d") (simp_all add: delta_at_absent isfinite_key)
qed

lemma d_add_whole:
  assumes "m < 2 ^ 53" and "isfinite y" and "d_val y = k * int one_units" and "0 \<le> int m + k"
  shows "d_add (d_of_nat m) y = d_of_nat (nat (int m + k))"
proof -
  have x: "isfinite (d_of_nat m)" "d_val (d_of_nat m) = int m * int one_units" "\<not> d_sign (d_of_nat m)"
    using d_of_nat_exact [OF assms(1)] by (simp_all add: amount_ok_def)
  have v: "d_val (d_of_nat m) + d_val y = (int m + k) * int one_units"
    by (simp add: x(2) assms(3) distrib_right)
  have abs: "nat \<bar>(int m + k) * int one_units\<bar> = nat (int m + k) * one_units"
    using assms(4) by (simp add: abs_mult nat_mult_distrib)
  show ?thesis
  proof (cases "int m + k = 0")
    case True
    then have "d_add (d_of_nat m) y = d_mk False 0"
      using v x(1,3) assms(2) by (simp add: d_add_def isfinite_simps)
    then show ?thesis using True by (simp add: d_mk_def d_zero_def)
  next
    case False
    with assms(4) have "0 < (int m + k) * int one_units" using one_units_pos by simp
    then have "(int m + k) * int one_units \<noteq> 0" "\<not> (int m + k) * int one_units < 0" by linarith+
    then have "d_add (d_of_nat m) y = d_round False (nat \<bar>(int m + k) * int one_units\<bar>) 1"
      unfolding d_add_def v Let_def using isfinite_simps [OF x(1)] isfinite_simps [OF assms(2)]
      by (simp only: if_False simp_thms)
    then show ?thesis by (simp only: abs d_of_nat_def)
  qed
qed

lemma clamp_add_whole:
  assumes "m < 2 ^ 53" and "isfinite y" and "d_val y = k * int one_units"
    and "0 \<le> int m + k" and "int m + k < 2 ^ 53"
  shows "clamp_add (d_of_nat m) y = d_of_nat (nat (int m + k))"
proof -
  have "nat (int m + k) < 2 ^ 53" using assms(4,5) by simp
  then have ok: "amount_ok (d_of_nat (nat (int m + k)))" by (rule d_of_nat_exact)
  then have "\<not> d_lt (d_of_nat (nat (int m + k))) d_zero"
    using amount_ok_key [OF ok] by (simp add: d_cmp_finite)
  moreover have "d_eq (d_of_nat (nat (int m + k))) d_zero \<Longrightarrow> d_of_nat (nat (int m + k)) = d_zero"
    using ok by (intro amount_ok_eqI) (simp_all add: d_cmp_finite amount_ok_def)
  ultimately show ?thesis
    using ok by (auto simp: clamp_add_def Let_def d_add_whole [OF assms(1-4)])
qed

lemma cap_rep_applyDelta:
  assumes "cap_rep c f" and "delta_rep dl g" and "\<And>d. 0 \<le> int (f d) + g d \<and> int (f d) + g d < 2 ^ 53"
  shows "cap_rep (applyDelta c dl) (\<lambda>d. nat (int (f d) + g d))"
  unfolding cap_rep_def
proof (intro allI)
  fix d
  have "cap_amount (applyDelta c dl) d = d_of_nat (nat (int (f d) + g d))"
    using clamp_add_whole [OF cap_repD(2) [OF assms(1)] delta_repD [OF assms(2)], of d] assms(3) [of d]
      delta_rep_absent [OF assms(2), of d]
    by (simp add: applyDelta_amount cap_repD(1) [OF assms(1)])
  then show "nat (int (f d) + g d) < 2 ^ 53 \<and>
      cap_amount (applyDelta c dl) d = d_of_nat (nat (int (f d) + g d))"
    using assms(3) [of d] by (simp add: nat_less_iff)
qed

text \<open>
  The bounds that keep the replay of events, in any order by time, inside the exact range: at no instant do the decreases
  of that instant exhaust what the earlier events leave, and all increases together stay below the bound.
\<close>

definition never_clamps :: "(Dimension \<Rightarrow> nat) \<Rightarrow> (CapacityEvent \<Rightarrow> Dimension \<Rightarrow> int) \<Rightarrow> CapacityEvent list \<Rightarrow> bool"
where
  "never_clamps f F es \<longleftrightarrow> (\<forall>d.
     (\<forall>t. 0 \<le> int (f d) + (\<Sum>e \<leftarrow> filter (\<lambda>e. ev_time e < t) es. F e d) +
        (\<Sum>e \<leftarrow> filter (\<lambda>e. ev_time e = t) es. min 0 (F e d))) \<and>
     int (f d) + (\<Sum>e \<leftarrow> es. max 0 (F e d)) < 2 ^ 53)"

lemma sum_list_min_le: "(\<Sum>e \<leftarrow> es. min 0 (h e)) \<le> (0 :: int)" and sum_list_max_ge: "(0 :: int) \<le> (\<Sum>e \<leftarrow> es. max 0 (h e))"
  and sum_list_min_self: "(\<Sum>e \<leftarrow> es. min 0 (h e)) \<le> (\<Sum>e \<leftarrow> es. h e)"
  by (induction es) auto

lemma sum_list_filter_split:
  "(\<Sum>e \<leftarrow> es. h e) = (\<Sum>e \<leftarrow> filter P es. h e) + (\<Sum>e \<leftarrow> filter (\<lambda>e. \<not> P e) es. h e :: int)"
  by (induction es) auto

lemma never_clampsD:
  assumes "never_clamps f F es"
  shows "0 \<le> int (f d) + (\<Sum>e \<leftarrow> filter (\<lambda>e. ev_time e < t) es. F e d) + (\<Sum>e \<leftarrow> filter (\<lambda>e. ev_time e = t) es. min 0 (F e d))"
    and "int (f d) + (\<Sum>e \<leftarrow> es. max 0 (F e d)) < 2 ^ 53"
  using assms by (simp_all add: never_clamps_def)

lemma never_clamps_upto:
  assumes "never_clamps f F es"
  shows "never_clamps f F (filter (\<lambda>e. ev_time e \<le> t) es)"
  unfolding never_clamps_def
proof (intro allI conjI)
  fix d u
  note n = never_clampsD [OF assms, of d]
  show "int (f d) + (\<Sum>e \<leftarrow> filter (\<lambda>e. ev_time e \<le> t) es. max 0 (F e d)) < 2 ^ 53"
    using n(2) sum_list_max_ge [of "\<lambda>e. F e d" "filter (\<lambda>e. \<not> ev_time e \<le> t) es"]
      sum_list_filter_split [of "\<lambda>e. max 0 (F e d)" es "\<lambda>e. ev_time e \<le> t"] by linarith
  show "0 \<le> int (f d) + (\<Sum>e \<leftarrow> filter (\<lambda>e. ev_time e < u) (filter (\<lambda>e. ev_time e \<le> t) es). F e d) +
      (\<Sum>e \<leftarrow> filter (\<lambda>e. ev_time e = u) (filter (\<lambda>e. ev_time e \<le> t) es). min 0 (F e d))"
  proof (cases "u \<le> t")
    case True
    then have "filter (\<lambda>e. ev_time e < u) (filter (\<lambda>e. ev_time e \<le> t) es) = filter (\<lambda>e. ev_time e < u) es"
        "filter (\<lambda>e. ev_time e = u) (filter (\<lambda>e. ev_time e \<le> t) es) = filter (\<lambda>e. ev_time e = u) es"
      by (auto intro!: filter_cong)
    then show ?thesis using n(1) [of u] by simp
  next
    case False
    have e: "filter (\<lambda>e. ev_time e < u) (filter (\<lambda>e. ev_time e \<le> t) es) = filter (\<lambda>e. ev_time e \<le> t) es"
        "filter (\<lambda>e. ev_time e = u) (filter (\<lambda>e. ev_time e \<le> t) es) = []"
        "filter (\<lambda>e. ev_time e < t) (filter (\<lambda>e. ev_time e \<le> t) es) = filter (\<lambda>e. ev_time e < t) es"
        "filter (\<lambda>e. \<not> ev_time e < t) (filter (\<lambda>e. ev_time e \<le> t) es) = filter (\<lambda>e. ev_time e = t) es"
      using False by (auto simp: filter_empty_conv intro!: filter_cong)
    show ?thesis
      unfolding e(1,2)
      using n(1) [of t] sum_list_filter_split [of "\<lambda>e. F e d" "filter (\<lambda>e. ev_time e \<le> t) es" "\<lambda>e. ev_time e < t", unfolded e(3,4)]
        sum_list_min_self [of "\<lambda>e. F e d" "filter (\<lambda>e. ev_time e = t) es"] by simp
  qed
qed

lemma sum_list_mset: "mset es = mset fs \<Longrightarrow> (\<Sum>e \<leftarrow> es. h e) = (\<Sum>e \<leftarrow> fs. h e :: int)"
  by (metis mset_map sum_mset_sum_list)

lemma sum_list_mset_filter: "mset es = mset fs \<Longrightarrow> (\<Sum>e \<leftarrow> filter P es. h e) = (\<Sum>e \<leftarrow> filter P fs. h e :: int)"
  by (intro sum_list_mset) simp

lemma never_clamps_mset: "mset es = mset fs \<Longrightarrow> never_clamps f F es \<longleftrightarrow> never_clamps f F fs"
  by (simp add: never_clamps_def sum_list_mset [of es fs] sum_list_mset_filter [of es fs])

text \<open>The first event of a sorted list leaves the rest inside the range.\<close>

lemma never_clamps_Cons:
  assumes "never_clamps f F (e # es)" and "sorted (map ev_time (e # es))"
  shows "0 \<le> int (f d) + F e d" and "int (f d) + F e d < 2 ^ 53" and "never_clamps (\<lambda>d. nat (int (f d) + F e d)) F es"
proof -
  have later: "\<forall>x \<in> set es. ev_time e \<le> ev_time x" using assms(2) by simp
  then have none: "filter (\<lambda>x. ev_time x < u) es = []" if "u \<le> ev_time e" for u
    using that by (auto simp: filter_empty_conv)
  have first: "0 \<le> int (f d) + min 0 (F e d) + (\<Sum>x \<leftarrow> filter (\<lambda>x. ev_time x = ev_time e) es. min 0 (F x d))" for d
    using never_clampsD(1) [OF assms(1), of d "ev_time e"] none [OF order_refl] by simp
  have up: "int (f d) + max 0 (F e d) + (\<Sum>x \<leftarrow> es. max 0 (F x d)) < 2 ^ 53" for d
    using never_clampsD(2) [OF assms(1), of d] by (simp add: add.assoc)
  have low: "0 \<le> int (f d) + F e d" for d
    using first [of d] sum_list_min_le [of "\<lambda>x. F x d" "filter (\<lambda>x. ev_time x = ev_time e) es"] by linarith
  then show "0 \<le> int (f d) + F e d" .
  show "int (f d) + F e d < 2 ^ 53" using up [of d] sum_list_max_ge [of "\<lambda>x. F x d" es] by linarith
  show "never_clamps (\<lambda>d. nat (int (f d) + F e d)) F es"
    unfolding never_clamps_def int_nat_eq if_P [OF low]
  proof (intro allI conjI)
    fix d t
    show "int (f d) + F e d + (\<Sum>x \<leftarrow> es. max 0 (F x d)) < 2 ^ 53" using up [of d] by linarith
    show "0 \<le> int (f d) + F e d + (\<Sum>x \<leftarrow> filter (\<lambda>x. ev_time x < t) es. F x d) +
        (\<Sum>x \<leftarrow> filter (\<lambda>x. ev_time x = t) es. min 0 (F x d))"
    proof (cases t "ev_time e" rule: linorder_cases)
      case less
      then have "filter (\<lambda>x. ev_time x = t) es = []" using later by (auto simp: filter_empty_conv)
      then show ?thesis using none [of t] less low [of d] by simp
    next
      case equal
      then show ?thesis using first [of d] none [of t] by simp
    next
      case greater
      then show ?thesis using never_clampsD(1) [OF assms(1), of d t] by (simp add: add.assoc)
    qed
  qed
qed

lemma cap_rep_after:
  assumes "cap_rep c f" and "\<forall>e \<in> set es. delta_rep (ev_delta e) (F e)" and "never_clamps f F es" and "sorted (map ev_time es)"
  shows "cap_rep (cap_after c es) (\<lambda>d. nat (int (f d) + (\<Sum>e \<leftarrow> es. F e d)))"
  using assms
proof (induction es arbitrary: c f)
  case (Cons e es)
  note n = never_clamps_Cons [OF Cons.prems(3,4)]
  have "cap_rep (applyDelta c (ev_delta e)) (\<lambda>d. nat (int (f d) + F e d))"
    using Cons.prems(1,2) n(1,2) by (intro cap_rep_applyDelta) auto
  from Cons.IH [OF this _ n(3)] Cons.prems(2,4) n(1) show ?case by (simp add: add.assoc)
qed simp

lemma curve_exact:
  assumes "cap_rep base f" and "\<forall>e \<in> set es. delta_rep (ev_delta e) (F e)" and "never_clamps f F es" and "sorted (map ev_time es)"
  shows "cap_rep (curve base es t) (\<lambda>d. nat (int (f d) + (\<Sum>e \<leftarrow> filter (\<lambda>e. ev_time e \<le> t) es. F e d)))"
  unfolding curve_def
  by (rule cap_rep_after [OF assms(1) _ never_clamps_upto [OF assms(3)]]) (use assms in \<open>simp_all add: sorted_filter\<close>)

section \<open>One reservation\<close>

lemma clamp_add_neg:
  assumes "amount_ok x" and "amount_ok v"
  shows "clamp_add x (d_neg v) = clamp_sub x v"
proof -
  have "isfinite (d_sub x v)" by (rule d_sub_amount [OF assms])
  then show ?thesis
    by (cases "d_key (d_sub x v)" "0 :: int" rule: linorder_cases)
      (simp_all add: clamp_add_def clamp_sub_def Let_def d_cmp_finite flip: d_sub_def)
qed

lemma delta_at_cap: "delta_at q d = cap_amount q d"
  by (simp add: delta_at_def cap_amount_def)

lemma cap_rep_hold:
  assumes "cap_rep c f" and "cap_rep q h"
  shows "cap_rep (applyDelta c (delta_negate q)) (\<lambda>d. f d - h d)"
proof -
  have "cap_amount (applyDelta c (delta_negate q)) d = d_of_nat (f d - h d)" for d
  proof (cases "om_contains q d")
    case True
    then have "delta_at (delta_negate q) d = d_neg (d_of_nat (h d))"
      using cap_repD(1) [OF assms(2), of d] by (simp flip: delta_at_cap)
    then show ?thesis
      using True cap_repD [OF assms(1), of d] cap_repD(2) [OF assms(2), of d]
      by (simp add: applyDelta_amount clamp_add_neg d_of_nat_exact(2) clamp_sub_of_nat)
  next
    case False
    then have "h d = 0" using cap_rep_not_has [OF assms(2), of d] by (simp add: cap_has_def)
    then show ?thesis using False by (simp add: applyDelta_amount cap_repD(1) [OF assms(1)])
  qed
  then show ?thesis using cap_repD(2) [OF assms(1)] by (simp add: cap_rep_def less_imp_diff_less)
qed

lemma cap_rep_delta: "cap_rep q h \<Longrightarrow> delta_rep q (\<lambda>d. int (h d))"
  using d_of_nat_exact cap_repD [of q h]
  by (simp add: delta_rep_def delta_at_cap amount_ok_def)

lemma cap_rep_return:
  assumes "cap_rep c f" and "cap_rep q h" and "\<And>d. f d + h d < 2 ^ 53"
  shows "cap_rep (applyDelta c q) (\<lambda>d. f d + h d)"
proof -
  have "cap_rep (applyDelta c q) (\<lambda>d. nat (int (f d) + int (h d)))"
  proof (rule cap_rep_applyDelta [OF assms(1) cap_rep_delta [OF assms(2)]])
    fix d show "0 \<le> int (f d) + int (h d) \<and> int (f d) + int (h d) < 2 ^ 53"
      using assms(3) [of d] by simp
  qed
  then show ?thesis by (simp add: nat_add_distrib)
qed

section \<open>Properties\<close>

text \<open>
  C4. For every sorting function \<open>std::sort\<close> may be, a point query on the frozen timeline returns
  exactly the replay of the events up to the instant, in sorted order, on the base capacity.
\<close>

theorem capacityAt_replay:
  assumes "\<And>es. mset (srt es) = mset es" and "\<And>es. sorted (map ev_time (srt es))" and "i64_min \<le> t"
  shows "capacityAt (freeze_with srt tml) t =
     Inr (cap_after (tl_base tml) (filter (\<lambda>e. ev_time e \<le> t) (srt (tl_events tml))))"
proof -
  from assms(1,2) have s: "event_sort srt" by unfold_locales
  show ?thesis
    using capacityAt_frozen [OF event_sort.frozen_freeze_with [OF s] assms(3)]
    by (simp add: event_sort.freeze_with_simps [OF s] curve_def)
qed

theorem capacityAt_replay_witness:
  "capacityAt (freeze_with std_sort (tl_addReservation (tl_create om_empty) Reservation_default)) 3 \<noteq> Inl Undefined"
  using capacityAt_replay [of std_sort 3 "tl_addReservation (tl_create om_empty) Reservation_default"]
  by (simp add: std_sort_def i64_min_def)

text \<open>
  C39. For every sorting function, a window minimum is sound for every dimension that is present at the start of the window: it
  is not above the amount at any instant of the window, and it is the amount after some prefix of the
  window's events. (For a dimension absent at the start the first half fails: see lemma
  earliestFit_absent_dimension in the theory of earliest fits.)
\<close>

theorem rangeMin_sound:
  assumes "\<And>es. mset (srt es) = mset es" and "\<And>es. sorted (map ev_time (srt es))"
    and "capacity_ok (tl_base tml)" and "i64_min \<le> start"
    and "capacityAt (freeze_with srt tml) start = Inr c0" and "cap_has c0 d"
  shows "\<exists>lo. rangeMin (freeze_with srt tml) start stop = Inr lo \<and>
     (\<forall>t c. start \<le> t \<longrightarrow> t < stop \<longrightarrow> capacityAt (freeze_with srt tml) t = Inr c \<longrightarrow>
        d_le (cap_amount lo d) (cap_amount c d)) \<and>
     (\<exists>k. cap_amount lo d = cap_amount (cap_after c0 (take k (window (srt (tl_events tml)) start stop))) d)"
proof -
  from assms(1,2) have s: "event_sort srt" by unfold_locales
  note f = event_sort.frozen_freeze_with [OF s, of tml] event_sort.freeze_with_simps [OF s, of tml]
  let ?b = "tl_base tml" and ?es = "srt (tl_events tml)"
  let ?w = "window ?es start stop"
  have c0: "c0 = curve ?b ?es start"
    using assms(5) capacityAt_frozen [OF f(1) assms(4)] f by simp
  then have ok: "capacity_ok c0" by (simp add: curve_def cap_after_ok assms(3))
  let ?lo = "walk_result cap_min ?w (c0, c0)"
  have lo: "rangeMin (freeze_with srt tml) start stop = Inr ?lo"
    using rangeMin_frozen(1) [OF f(1) assms(4)] by (simp add: c0 f)
  have below: "d_key (cap_amount ?lo d) \<le> d_key (cap_amount x d)" if "x \<in> visited c0 ?w" for x
    using walk_min_lower [OF ok ok assms(6), of x] that by simp
  obtain x where x: "x \<in> visited c0 ?w" "cap_amount ?lo d = cap_amount x d"
    using walk_min_attained [of c0 c0 ?w d] by (auto simp: visited_def)
  then obtain k where k: "x = cap_after c0 (take k ?w)" by (auto elim: visited_prefix)
  have "d_le (cap_amount ?lo d) (cap_amount c d)"
    if t: "start \<le> t" "t < stop" and c: "capacityAt (freeze_with srt tml) t = Inr c" for t c
  proof -
    have "c = curve ?b ?es t"
      using c capacityAt_frozen [OF f(1), of t] assms(4) t(1) f by simp
    then have "c \<in> visited c0 ?w" using t using assms(2) by (simp add: c0 curve_visited)
    then show ?thesis
      using below x visited_ok [OF ok] by (simp add: d_cmp_finite capacity_okD)
  qed
  then show ?thesis using lo x(2) k by auto
qed

theorem rangeMin_sound_witness:
  "\<exists>lo. rangeMin (freeze (tl_create (whole [(VramBytes, 2)]))) 0 10 = Inr lo \<and>
     d_le (cap_amount lo VramBytes) (d_of_nat 2)"
proof -
  let ?c = "whole [(VramBytes, 2)]"
  have at: "capacityAt (freeze (tl_create ?c)) t = Inr ?c" if "0 \<le> t" for t
    using capacityAt_frozen [OF frozen_freeze, of t "tl_create ?c"] that
    by (simp add: tl_create_def curve_def i64_min_def)
  have "capacity_ok ?c" "cap_has ?c VramBytes" and a: "cap_amount ?c VramBytes = d_of_nat 2"
    by (simp_all add: whole_ok) (simp_all add: whole_def cap_set_whole)
  then obtain lo where lo: "rangeMin (freeze (tl_create ?c)) 0 10 = Inr lo"
      "\<And>t c. 0 \<le> t \<Longrightarrow> t < 10 \<Longrightarrow> capacityAt (freeze (tl_create ?c)) t = Inr c \<Longrightarrow>
         d_le (cap_amount lo VramBytes) (cap_amount c VramBytes)"
    using rangeMin_sound [of std_sort "tl_create ?c" 0 ?c VramBytes 10] at [of 0]
    by (auto simp: tl_create_def i64_min_def stable.srt_mset stable.srt_sorted simp flip: freeze_def)
  then show ?thesis using lo(2) [OF _ _ at, of 5] by (simp add: a)
qed

text \<open>
  A reservation of whole amounts on an otherwise empty timeline: before its start the base is
  untouched, during it the hold is subtracted (truncated at zero), and from its end on the amount is
  the larger of base and hold. So the capacity comes back exactly when the hold did not exceed the
  base; a hold larger than the base returns more than it took.
\<close>

theorem single_reservation:
  assumes "cap_rep base f" and "cap_rep (rsv_hold r) h"
    and "i64_min \<le> iv_start (rsv_interval r)" and "iv_start (rsv_interval r) < iv_end (rsv_interval r)"
  shows "i64_min \<le> t \<Longrightarrow> \<exists>c. capacityAt (freeze (tl_addReservation (tl_create base) r)) t = Inr c \<and>
     cap_rep c (\<lambda>d. if t < iv_start (rsv_interval r) then f d
                    else if t < iv_end (rsv_interval r) then f d - h d
                    else max (f d) (h d))"
proof -
  assume t: "i64_min \<le> t"
  let ?s = "iv_start (rsv_interval r)" and ?e = "iv_end (rsv_interval r)"
  let ?c1 = "applyDelta base (delta_negate (rsv_hold r))"
  have held: "cap_rep ?c1 (\<lambda>d. f d - h d)" by (rule cap_rep_hold [OF assms(1,2)])
  have bound: "f d - h d + h d < 2 ^ 53" for d
    using cap_repD(2) [OF assms(1), of d] cap_repD(2) [OF assms(2), of d] by (cases "h d \<le> f d") simp_all
  have "cap_rep (applyDelta ?c1 (rsv_hold r)) (\<lambda>d. f d - h d + h d)"
    by (rule cap_rep_return [OF held assms(2) bound])
  moreover have "(\<lambda>d. f d - h d + h d) = (\<lambda>d. max (f d) (h d))"
    by (auto simp: fun_eq_iff max_def)
  ultimately have returned: "cap_rep (applyDelta ?c1 (rsv_hold r)) (\<lambda>d. max (f d) (h d))" by simp
  have "capacityAt (freeze (tl_addReservation (tl_create base) r)) t =
      Inr (curve base (sort_key ev_time (reservation_events r)) t)"
    using capacityAt_frozen [OF frozen_freeze t, of "tl_addReservation (tl_create base) r"]
    by (simp add: tl_addReservation_def tl_create_def)
  then show ?thesis
    using assms held returned by (auto simp: reservation_events_def mk_event_def curve_def)
qed

theorem single_reservation_witness:
  "\<exists>c. capacityAt (freeze (tl_addReservation (tl_create (whole [(VramBytes, 2)]))
       (Reservation_default\<lparr>rsv_interval := Interval 10 20, rsv_hold := whole [(VramBytes, 5)]\<rparr>))) 30 = Inr c \<and>
     cap_amount c VramBytes = d_of_nat 5"
proof -
  have r: "cap_rep (whole [(VramBytes, n)]) ((\<lambda>_. 0)(VramBytes := n))" if "n < 2 ^ 53" for n
    using whole_rep [of "[(VramBytes, n)]"] that by simp
  show ?thesis
    using single_reservation [of "whole [(VramBytes, 2)]" _
        "Reservation_default\<lparr>rsv_interval := Interval 10 20, rsv_hold := whole [(VramBytes, 5)]\<rparr>" _ 30, OF r]
      r [of 5] by (force simp: i64_min_def cap_rep_def)
qed

text \<open>
  Exact accounting. When base and deltas are whole amounts, at no instant the decreases of that instant exhaust what the
  earlier events leave, and all increases together stay in the exact range, then for every sorting
  function the amount at an instant is the base plus the sum of the deltas up to it: order within an
  instant does not matter, nothing is clamped and nothing is lost to rounding.
\<close>

theorem timeline_exact:
  assumes "\<And>es. mset (srt es) = mset es" and "\<And>es. sorted (map ev_time (srt es))" and "i64_min \<le> t"
    and "cap_rep (tl_base tml) f" and "\<forall>e \<in> set (tl_events tml). delta_rep (ev_delta e) (F e)"
    and "\<And>d u. 0 \<le> int (f d) + (\<Sum>e \<leftarrow> filter (\<lambda>e. ev_time e < u) (tl_events tml). F e d) +
          (\<Sum>e \<leftarrow> filter (\<lambda>e. ev_time e = u) (tl_events tml). min 0 (F e d))"
    and "\<And>d. int (f d) + (\<Sum>e \<leftarrow> tl_events tml. max 0 (F e d)) < 2 ^ 53"
  shows "\<exists>c. capacityAt (freeze_with srt tml) t = Inr c \<and>
     cap_rep c (\<lambda>d. nat (int (f d) + (\<Sum>e \<leftarrow> filter (\<lambda>e. ev_time e \<le> t) (tl_events tml). F e d)))"
proof -
  from assms(1,2) have s: "event_sort srt" by unfold_locales
  have "never_clamps f F (tl_events tml)" using assms(6,7) by (simp add: never_clamps_def)
  then have n: "never_clamps f F (srt (tl_events tml))"
    using never_clamps_mset [OF assms(1)] by blast
  have set: "set (srt (tl_events tml)) = set (tl_events tml)" by (rule event_sort.set_srt [OF s])
  have "(\<Sum>e \<leftarrow> filter (\<lambda>e. ev_time e \<le> t) (srt (tl_events tml)). F e d) =
      (\<Sum>e \<leftarrow> filter (\<lambda>e. ev_time e \<le> t) (tl_events tml). F e d)" for d
    by (rule sum_list_mset) (simp add: assms(1))
  then show ?thesis
    using curve_exact [OF assms(4) _ n assms(2), of t] assms(5) capacityAt_frozen [OF event_sort.frozen_freeze_with [OF s] assms(3)]
    by (simp add: event_sort.freeze_with_simps [OF s] set)
qed

theorem timeline_exact_witness:
  "\<exists>c. capacityAt (freeze_with std_sort (tl_addReservation (tl_create (whole [(VramBytes, 10)]))
       (Reservation_default\<lparr>rsv_interval := Interval 10 20, rsv_hold := whole [(VramBytes, 3)]\<rparr>))) 15 = Inr c \<and>
     cap_amount c VramBytes = d_of_nat 7"
proof -
  define r where "r = Reservation_default\<lparr>rsv_interval := Interval 10 20, rsv_hold := whole [(VramBytes, 3)]\<rparr>"
  let ?h = "(\<lambda>_. 0 :: nat)(VramBytes := 3)"
  let ?F = "\<lambda>e d. if ev_time e = 10 then - int (?h d) else int (?h d)"
  have h: "cap_rep (whole [(VramBytes, 3)]) ?h" and b: "cap_rep (whole [(VramBytes, 10)]) ((\<lambda>_. 0)(VramBytes := 10))"
    using whole_rep [of "[(VramBytes, 3)]"] whole_rep [of "[(VramBytes, 10)]"] by simp_all
  have ev: "tl_events (tl_addReservation (tl_create (whole [(VramBytes, 10)])) r) =
      [\<lparr>ev_time = 10, ev_delta = delta_negate (whole [(VramBytes, 3)])\<rparr>,
       \<lparr>ev_time = 20, ev_delta = whole [(VramBytes, 3)]\<rparr>]"
    by (simp add: tl_addReservation_def tl_create_def reservation_events_def mk_event_def r_def)
  have base: "tl_base (tl_addReservation (tl_create (whole [(VramBytes, 10)])) r) = whole [(VramBytes, 10)]"
    by (simp add: tl_addReservation_def tl_create_def)
  have "delta_rep (whole [(VramBytes, 3)]) (\<lambda>d. int (?h d))"
    and "delta_rep (delta_negate (whole [(VramBytes, 3)])) (\<lambda>d. - int (?h d))"
    using cap_rep_delta [OF h] delta_rep_negate by blast+
  note reps = this
  let ?tml = "tl_addReservation (tl_create (whole [(VramBytes, 10)])) r"
  have "\<exists>c. capacityAt (freeze_with std_sort ?tml) 15 = Inr c \<and>
      cap_rep c (\<lambda>d. nat (int (((\<lambda>_. 0)(VramBytes := 10)) d) +
        (\<Sum>e \<leftarrow> filter (\<lambda>e. ev_time e \<le> 15) (tl_events ?tml). ?F e d)))"
    by (rule timeline_exact) (use b reps in \<open>auto simp: std_sort_def i64_min_def ev base fun_upd_def\<close>)
  then show ?thesis unfolding ev by (auto simp: r_def cap_rep_def)
qed

end
