(* ===== verification/Fleet.thy ===== *)
theory Fleet
  imports Timeline "HOL-Library.Char_ord" "HOL-Library.List_Lexorder"
begin

text \<open>
  The evidence records (\<open>resource/resource.hpp\<close>), the demand profile (\<open>demand/demand.hpp\<close>) and the
  fleet view (\<open>model/view.hpp\<close>). Strings are compared byte by byte as unsigned characters, which is
  the order the library gives \<open>string\<close>.
\<close>

section \<open>Health and resource kinds\<close>

datatype HealthState = HealthState (health_code: u8)

abbreviation "Healthy \<equiv> HealthState 0"
abbreviation "Degraded \<equiv> HealthState 1"
abbreviation "Draining \<equiv> HealthState 2"
abbreviation "Maintenance \<equiv> HealthState 3"
abbreviation "Failed \<equiv> HealthState 4"
abbreviation "UnknownHealth \<equiv> HealthState 5"

definition HealthState_to_string :: "HealthState \<Rightarrow> string" where
  "HealthState_to_string h =
     (if h = Healthy then ''HEALTHY''
      else if h = Degraded then ''DEGRADED''
      else if h = Draining then ''DRAINING''
      else if h = Maintenance then ''MAINTENANCE''
      else if h = Failed then ''FAILED''
      else ''UNKNOWN'')"

datatype ResourceKind = ResourceKind (kind_code: u8)

abbreviation "Physical \<equiv> ResourceKind 0"
abbreviation "Pool \<equiv> ResourceKind 1"
abbreviation "Virtual \<equiv> ResourceKind 2"

section \<open>Evidence records\<close>

record DeviceCapability =
  architecture :: string
  className :: string
  capability :: string
  markers :: "string list"

definition DeviceCapability_default :: DeviceCapability where
  "DeviceCapability_default = \<lparr>architecture = [], className = [], capability = [], markers = []\<rparr>"

record DeviceInfo =
  dev_id :: DeviceId
  dev_generation :: DeviceGeneration
  dev_nodeId :: NodeId
  dev_capability :: DeviceCapability
  dev_vramTotal :: ByteCount
  dev_vramFree :: ByteCount
  dev_freeBlocks :: "ByteCount list"
  dev_health :: HealthState
  dev_memoryDomain :: MemoryDomainId
  dev_provenance :: Provenance
  dev_poolGoverned :: bool
  dev_drained :: bool
  dev_maintenance :: bool

definition DeviceInfo_default :: DeviceInfo where
  "DeviceInfo_default = \<lparr>dev_id = sid_default, dev_generation = gen_default, dev_nodeId = sid_default,
     dev_capability = DeviceCapability_default, dev_vramTotal = bc_zero, dev_vramFree = bc_zero,
     dev_freeBlocks = [], dev_health = UnknownHealth, dev_memoryDomain = sid_default,
     dev_provenance = UnknownP, dev_poolGoverned = True, dev_drained = False, dev_maintenance = False\<rparr>"

record MemoryDomainInfo =
  md_id :: MemoryDomainId
  md_generation :: MemoryDomainGeneration
  md_total :: ByteCount
  md_free :: ByteCount
  md_members :: "DeviceId list"

definition MemoryDomainInfo_default :: MemoryDomainInfo where
  "MemoryDomainInfo_default = \<lparr>md_id = sid_default, md_generation = gen_default, md_total = bc_zero, md_free = bc_zero,
     md_members = []\<rparr>"

record NodeInfo =
  node_id :: NodeId
  node_generation :: NodeGeneration
  node_devices :: "DeviceId list"
  node_memoryDomains :: "MemoryDomainId list"
  node_pinnedHostFree :: ByteCount
  node_pageableHostFree :: ByteCount
  node_health :: HealthState
  node_rack :: string
  node_topologyGroup :: string
  node_provenance :: Provenance

record ResourceInfo =
  res_id :: ResourceId
  res_generation :: ResourceGeneration
  res_fleetId :: FleetId
  res_nodeId :: NodeId
  res_deviceId :: DeviceId
  res_kind :: ResourceKind
  res_capability :: DeviceCapability
  res_nominal :: Capacity
  res_free :: Capacity
  res_freeBlocks :: "ByteCount list"
  res_committed :: Capacity
  res_unavailable :: Capacity
  res_health :: HealthState
  res_drained :: bool
  res_maintenance :: bool
  res_worker :: WorkerId
  res_bootId :: WorkerBootId
  res_provenance :: Provenance
  res_observedAt :: TimePoint

definition ResourceInfo_default :: ResourceInfo where
  "ResourceInfo_default = \<lparr>res_id = sid_default, res_generation = gen_default, res_fleetId = sid_default,
     res_nodeId = sid_default, res_deviceId = sid_default, res_kind = Physical,
     res_capability = DeviceCapability_default, res_nominal = om_empty, res_free = om_empty,
     res_freeBlocks = [], res_committed = om_empty, res_unavailable = om_empty, res_health = UnknownHealth,
     res_drained = False, res_maintenance = False, res_worker = sid_default, res_bootId = sid_default,
     res_provenance = UnknownP, res_observedAt = 0\<rparr>"

definition isCurrentDynamic :: "ResourceInfo \<Rightarrow> bool" where
  "isCurrentDynamic r \<longleftrightarrow> sid_valid (res_bootId r)"

record LinkInfo =
  link_id :: LinkId
  link_generation :: LinkGeneration
  link_a :: DeviceId
  link_b :: DeviceId
  link_bandwidth :: ByteRate
  link_shared :: bool

section \<open>Demand\<close>

record AcceleratorClass =
  ac_name :: string
  ac_architecture :: string
  ac_capability :: string

definition ac_less :: "AcceleratorClass \<Rightarrow> AcceleratorClass \<Rightarrow> bool" where
  "ac_less a b =
     (if ac_name a \<noteq> ac_name b then ac_name a < ac_name b
      else if ac_architecture a \<noteq> ac_architecture b then ac_architecture a < ac_architecture b
      else ac_capability a < ac_capability b)"

record WorkloadDemand =
  dm_id :: WorkloadDemandId
  dm_generation :: WorkloadDemandGeneration
  dm_requirements :: Capacity
  dm_requiresContiguousVram :: bool
  dm_minContiguousVram :: ByteCount
  dm_minAccelerators :: DeviceCount
  dm_topologyGroupSize :: "DeviceCount option"
  dm_allowedClasses :: "AcceleratorClass list"
  dm_requiredCapability :: string
  dm_colocation :: "ResourceId set"
  dm_antiAffinity :: "ResourceId set"
  dm_requiresModelResidency :: bool
  dm_requiresAdapterResidency :: bool
  dm_sloHeadroomRequirement :: CapacityFraction
  dm_maxAcceptableFragmentation :: "double option"
  dm_placementFlexibility :: DeviceCount
  dm_duration :: "DurationNs option"
  dm_minShape :: "Capacity option"
  dm_maxShape :: "Capacity option"

definition WorkloadDemand_default :: WorkloadDemand where
  "WorkloadDemand_default = \<lparr>dm_id = sid_default, dm_generation = gen_default, dm_requirements = om_empty,
     dm_requiresContiguousVram = False, dm_minContiguousVram = bc_zero, dm_minAccelerators = DeviceCount 1,
     dm_topologyGroupSize = None, dm_allowedClasses = [], dm_requiredCapability = [],
     dm_colocation = {}, dm_antiAffinity = {}, dm_requiresModelResidency = False,
     dm_requiresAdapterResidency = False, dm_sloHeadroomRequirement = frac_default,
     dm_maxAcceptableFragmentation = None, dm_placementFlexibility = DeviceCount 1, dm_duration = None,
     dm_minShape = None, dm_maxShape = None\<rparr>"

definition demand_valid :: "WorkloadDemand \<Rightarrow> bool" where
  "demand_valid d =
     (if \<not> sid_valid (dm_id d) \<or> \<not> gen_valid (dm_generation d) then False
      else if dc_value (dm_minAccelerators d) = 0 then False
      else if dm_requiresContiguousVram d \<and> dm_minContiguousVram d = bc_zero then False
      else case dm_maxAcceptableFragmentation d of None \<Rightarrow> True
        | Some f \<Rightarrow> \<not> (\<not> isfinite f \<or> d_lt f d_zero \<or> d_lt (d_of_nat 1) f))"

section \<open>The fleet view\<close>

record FleetView =
  fv_devices :: "DeviceInfo list"
  fv_resources :: "ResourceInfo list"
  fv_available :: Capacity
  fv_nominal :: Capacity
  fv_committed :: Capacity
  fv_unavailable :: Capacity
  fv_currentUse :: Capacity
  fv_reservations :: "Reservation list"
  fv_releases :: "ReleaseEvent list"
  fv_maintenance :: "MaintenanceWindow list"
  fv_now :: TimePoint
  fv_maxTopologyGroupSize :: nat
  fv_freshness :: Freshness
  fv_staleDynamic :: bool
  fv_provenance :: Provenance

definition FleetView_default :: FleetView where
  "FleetView_default = \<lparr>fv_devices = [], fv_resources = [], fv_available = om_empty, fv_nominal = om_empty,
     fv_committed = om_empty, fv_unavailable = om_empty, fv_currentUse = om_empty, fv_reservations = [],
     fv_releases = [], fv_maintenance = [], fv_now = 0, fv_maxTopologyGroupSize = 0, fv_freshness = Fresh,
     fv_staleDynamic = False, fv_provenance = UnknownP\<rparr>"

end
