(* ===== verification/Forecast.thy ===== *)
theory Forecast
  imports Timeline
begin

text \<open>
  Query modes and the timeline built for a mode (\<open>forecast/forecast.hpp\<close>): which boundary a release
  is credited at, which reservations count, and how confidence degrades with the horizon.
\<close>

section \<open>Query modes\<close>

datatype QueryMode = QueryMode (mode_code: u8)

abbreviation "Guaranteed \<equiv> QueryMode 0"
abbreviation "Conservative \<equiv> QueryMode 1"
abbreviation "Expected \<equiv> QueryMode 2"
abbreviation "Optimistic \<equiv> QueryMode 3"
abbreviation "WhatIf \<equiv> QueryMode 4"
abbreviation "SyntheticMode \<equiv> QueryMode 5"

definition QueryMode_to_string :: "QueryMode \<Rightarrow> string" where
  "QueryMode_to_string m =
     (if m = Guaranteed then ''GUARANTEED''
      else if m = Conservative then ''CONSERVATIVE''
      else if m = Expected then ''EXPECTED''
      else if m = Optimistic then ''OPTIMISTIC''
      else if m = WhatIf then ''WHAT_IF''
      else if m = SyntheticMode then ''SYNTHETIC''
      else ''UNKNOWN'')"

definition releaseTime :: "ReleaseEvent \<Rightarrow> QueryMode \<Rightarrow> TimePoint" where
  "releaseTime e mode =
     (if mode = Optimistic then rel_earliest e
      else if mode = Guaranteed \<or> mode = Conservative then rel_latest e
      else rel_time e)"

section \<open>Confidence\<close>

text \<open>The subtraction of the two instants is signed and undefined when it overflows.\<close>

definition degradeConfidence :: "Confidence \<Rightarrow> TimePoint \<Rightarrow> TimePoint \<Rightarrow> fault + double" where
  "degradeConfidence base horizon issueTime =
     bindR (sub64 horizon issueTime) (\<lambda>diff.
       let h = d_of_i64 (max 0 diff);
           days = d_div h (d_of_i64 (30 * kNanosPerSecond));
           degraded = d_sub (frac_value base) (d_mul (d_lit 10 100) days);
           low = (if d_lt degraded (d_lit 5 100) then d_lit 5 100 else degraded);
           high = (if d_lt (d_of_nat 1) low then d_of_nat 1 else low)
       in Inr high)"

section \<open>The timeline of a mode\<close>

definition counts_in :: "QueryMode \<Rightarrow> Reservation \<Rightarrow> bool" where
  "counts_in mode r \<longleftrightarrow> (rsv_strength r = Hard \<or> mode \<noteq> Guaranteed) \<and> \<not> delta_empty (rsv_hold r)"

definition buildTimeline_with ::
  "(CapacityEvent list \<Rightarrow> CapacityEvent list) \<Rightarrow> Capacity \<Rightarrow> Reservation list \<Rightarrow> ReleaseEvent list \<Rightarrow> QueryMode \<Rightarrow> Timeline"
where
  "buildTimeline_with srt base reservations releases mode =
     (let tml = fold (\<lambda>r tml. if rsv_strength r = Hard \<or> mode \<noteq> Guaranteed
                        then (if \<not> delta_empty (rsv_hold r) then tl_addReservation tml r else tml)
                        else tml) reservations (tl_create base);
          tml' = fold (\<lambda>e tml. tl_addRelease tml (e\<lparr>rel_time := releaseTime e mode\<rparr>)) releases tml
      in freeze_with srt tml')"

definition buildTimeline ::
  "Capacity \<Rightarrow> Reservation list \<Rightarrow> ReleaseEvent list \<Rightarrow> QueryMode \<Rightarrow> Timeline" where
  "buildTimeline = buildTimeline_with std_sort"

definition mode_events :: "Reservation list \<Rightarrow> ReleaseEvent list \<Rightarrow> QueryMode \<Rightarrow> CapacityEvent list" where
  "mode_events reservations releases mode =
     concat (map reservation_events (filter (counts_in mode) reservations)) @
     map (\<lambda>e. mk_event (releaseTime e mode) (rel_release e)) releases"

lemma add_reservations:
  "fold (\<lambda>r tml. if rsv_strength r = Hard \<or> mode \<noteq> Guaranteed
       then (if \<not> delta_empty (rsv_hold r) then tl_addReservation tml r else tml) else tml) rs tml =
   tml\<lparr>tl_events := tl_events tml @ concat (map reservation_events (filter (counts_in mode) rs))\<rparr>"
  by (induction rs arbitrary: tml) (simp_all add: counts_in_def tl_addReservation_def)

lemma add_releases:
  "fold (\<lambda>e tml. tl_addRelease tml (e\<lparr>rel_time := releaseTime e mode\<rparr>)) es tml =
   tml\<lparr>tl_events := tl_events tml @ map (\<lambda>e. mk_event (releaseTime e mode) (rel_release e)) es\<rparr>"
  by (induction es arbitrary: tml) (simp_all add: tl_addRelease_def)

lemma buildTimeline_events:
  "buildTimeline_with srt base rs es mode =
     freeze_with srt ((tl_create base)\<lparr>tl_events := mode_events rs es mode\<rparr>)"
  by (simp add: buildTimeline_with_def add_reservations add_releases mode_events_def tl_create_def)

context event_sort
begin

lemma capacityAt_buildTimeline_with:
  "i64_min \<le> t \<Longrightarrow> capacityAt (buildTimeline_with srt base rs es mode) t =
     Inr (curve base (srt (mode_events rs es mode)) t)"
  using capacityAt_frozen [OF frozen_freeze_with]
  by (simp add: buildTimeline_events freeze_with_simps tl_create_def)

end

lemma frozen_buildTimeline [simp]: "frozen (buildTimeline base rs es mode)"
  by (simp add: buildTimeline_def buildTimeline_events stable.frozen_freeze_with)

lemma buildTimeline_simps [simp]:
  "tl_base (buildTimeline base rs es mode) = base"
  "tl_events (buildTimeline base rs es mode) = std_sort (mode_events rs es mode)"
  by (simp_all add: buildTimeline_def buildTimeline_events stable.freeze_with_simps tl_create_def)

section \<open>Exact accounting per mode\<close>

definition ev_amount :: "CapacityEvent \<Rightarrow> Dimension \<Rightarrow> int" where
  "ev_amount e d = d_val (delta_at (ev_delta e) d) div int one_units"

lemma delta_rep_amount: "delta_rep (ev_delta e) g \<Longrightarrow> ev_amount e d = g d"
  using one_units_pos by (simp add: ev_amount_def delta_repD(2))

lemma ev_amount_simps:
  assumes "cap_rep q h"
  shows "ev_amount (mk_event t q) d = int (h d)"
    and "ev_amount (mk_event t (delta_negate q)) d = - int (h d)"
    and "delta_rep (ev_delta (mk_event t q)) (ev_amount (mk_event t q))"
    and "delta_rep (ev_delta (mk_event t (delta_negate q))) (ev_amount (mk_event t (delta_negate q)))"
proof -
  have r: "delta_rep q (\<lambda>d. int (h d))" "delta_rep (delta_negate q) (\<lambda>d. - int (h d))"
    using cap_rep_delta [OF assms] delta_rep_negate by blast+
  then show a: "ev_amount (mk_event t q) d = int (h d)"
    and b: "ev_amount (mk_event t (delta_negate q)) d = - int (h d)" for d
    by (simp_all add: delta_rep_amount mk_event_def)
  from r show "delta_rep (ev_delta (mk_event t q)) (ev_amount (mk_event t q))"
    and "delta_rep (ev_delta (mk_event t (delta_negate q))) (ev_amount (mk_event t (delta_negate q)))"
    by (simp_all add: delta_rep_def a b) (simp_all add: mk_event_def)
qed

lemma ev_time_mk [simp]: "ev_time (mk_event t q) = t"
  by (simp add: mk_event_def)

lemma sum_mode_events:
  fixes G :: "CapacityEvent \<Rightarrow> int"
  shows "(\<Sum>e \<leftarrow> mode_events rs es mode. G e) =
     (\<Sum>r \<leftarrow> filter (counts_in mode) rs. G (mk_event (iv_start (rsv_interval r)) (delta_negate (rsv_hold r))) +
        G (mk_event (iv_end (rsv_interval r)) (rsv_hold r))) +
     (\<Sum>e \<leftarrow> es. G (mk_event (releaseTime e mode) (rel_release e)))"
  by (induction rs) (simp_all add: mode_events_def reservation_events_def comp_def)

lemma sum_list_filter_if: "(\<Sum>x \<leftarrow> filter P xs. h x) = (\<Sum>x \<leftarrow> xs. if P x then h x else 0 :: int)"
  by (induction xs) simp_all

lemma sum_list_cong_set: "(\<And>x. x \<in> set xs \<Longrightarrow> h x = g x) \<Longrightarrow> (\<Sum>x \<leftarrow> xs. h x) = (\<Sum>x \<leftarrow> xs. g x)"
  by (induction xs) simp_all

lemma sum_list_neg: "(\<Sum>x \<leftarrow> xs. - h x) = - (\<Sum>x \<leftarrow> xs. h x :: int)"
  by (induction xs) simp_all

lemma sum_list_int: "int (\<Sum>x \<leftarrow> xs. h x) = (\<Sum>x \<leftarrow> xs. int (h x))"
  by (induction xs) simp_all

text \<open>The holds in force and the releases credited at an instant.\<close>

definition held_at :: "(Reservation \<Rightarrow> Dimension \<Rightarrow> nat) \<Rightarrow> Reservation list \<Rightarrow> QueryMode \<Rightarrow> TimePoint \<Rightarrow> Dimension \<Rightarrow> nat"
where
  "held_at H rs mode t d = (\<Sum>r \<leftarrow> filter (\<lambda>r. counts_in mode r \<and> iv_containsPoint (rsv_interval r) t) rs. H r d)"

definition credited_at ::
  "(ReleaseEvent \<Rightarrow> Dimension \<Rightarrow> nat) \<Rightarrow> ReleaseEvent list \<Rightarrow> QueryMode \<Rightarrow> TimePoint \<Rightarrow> Dimension \<Rightarrow> nat"
where
  "credited_at R es mode t d = (\<Sum>e \<leftarrow> filter (\<lambda>e. releaseTime e mode \<le> t) es. R e d)"

text \<open>
  What the holds claim of an instant, one that ends there included, and the releases strictly before it. The instants at which the
  claims exceed the base and the earlier releases are those where the order \<open>std::sort\<close> happens to give coinciding events,
  or the clamp at zero, can show.
\<close>

definition claimed_at :: "(Reservation \<Rightarrow> Dimension \<Rightarrow> nat) \<Rightarrow> Reservation list \<Rightarrow> QueryMode \<Rightarrow> TimePoint \<Rightarrow> Dimension \<Rightarrow> nat"
where
  "claimed_at H rs mode t d =
     (\<Sum>r \<leftarrow> filter (\<lambda>r. counts_in mode r \<and> iv_start (rsv_interval r) \<le> t \<and> t \<le> iv_end (rsv_interval r)) rs. H r d)"

definition credited_before ::
  "(ReleaseEvent \<Rightarrow> Dimension \<Rightarrow> nat) \<Rightarrow> ReleaseEvent list \<Rightarrow> QueryMode \<Rightarrow> TimePoint \<Rightarrow> Dimension \<Rightarrow> nat"
where
  "credited_before R es mode t d = (\<Sum>e \<leftarrow> filter (\<lambda>e. releaseTime e mode < t) es. R e d)"

definition never_overbooked ::
  "(Reservation \<Rightarrow> Dimension \<Rightarrow> nat) \<Rightarrow> (ReleaseEvent \<Rightarrow> Dimension \<Rightarrow> nat) \<Rightarrow> (Dimension \<Rightarrow> nat) \<Rightarrow> Reservation list \<Rightarrow> ReleaseEvent list \<Rightarrow> QueryMode \<Rightarrow> bool"
where
  "never_overbooked H R f rs es mode \<longleftrightarrow> (\<forall>t d. claimed_at H rs mode t d \<le> f d + credited_before R es mode t d)"

definition whole_evidence ::
  "(Reservation \<Rightarrow> Dimension \<Rightarrow> nat) \<Rightarrow> (ReleaseEvent \<Rightarrow> Dimension \<Rightarrow> nat) \<Rightarrow> Reservation list \<Rightarrow> ReleaseEvent list \<Rightarrow> bool"
where
  "whole_evidence H R rs es \<longleftrightarrow>
     (\<forall>r \<in> set rs. iv_start (rsv_interval r) < iv_end (rsv_interval r) \<and> cap_rep (rsv_hold r) (H r)) \<and>
     (\<forall>e \<in> set es. cap_rep (rel_release e) (R e))"

lemma whole_evidenceD:
  assumes "whole_evidence H R rs es"
  shows "r \<in> set rs \<Longrightarrow> cap_rep (rsv_hold r) (H r)"
    and "r \<in> set rs \<Longrightarrow> iv_start (rsv_interval r) < iv_end (rsv_interval r)"
    and "e \<in> set es \<Longrightarrow> cap_rep (rel_release e) (R e)"
  using assms by (auto simp: whole_evidence_def)

lemma mode_events_rep:
  assumes "whole_evidence H R rs es" and "e \<in> set (mode_events rs es mode)"
  shows "delta_rep (ev_delta e) (ev_amount e)"
  using assms(2)
  by (auto simp: mode_events_def reservation_events_def
      intro: ev_amount_simps(3,4) [OF whole_evidenceD(1) [OF assms(1)]] ev_amount_simps(3) [OF whole_evidenceD(3) [OF assms(1)]])

lemma mode_sum_at:
  assumes w: "whole_evidence H R rs es"
  shows "(\<Sum>e \<leftarrow> filter (\<lambda>e. ev_time e \<le> t) (mode_events rs es mode). ev_amount e d) =
     int (credited_at R es mode t d) - int (held_at H rs mode t d)"
proof -
  note amt = ev_amount_simps(1,2) [OF whole_evidenceD(1) [OF w]] ev_amount_simps(1) [OF whole_evidenceD(3) [OF w]]
  have "(\<Sum>e \<leftarrow> filter (\<lambda>e. ev_time e \<le> t) (mode_events rs es mode). ev_amount e d) =
     (\<Sum>r \<leftarrow> filter (counts_in mode) rs. - (if iv_containsPoint (rsv_interval r) t then int (H r d) else 0)) +
     (\<Sum>e \<leftarrow> es. if releaseTime e mode \<le> t then int (R e d) else 0)"
    unfolding sum_list_filter_if sum_mode_events
    by (intro arg_cong2 [where f = "(+)"] sum_list_cong_set)
      (auto simp: amt iv_containsPoint_def dest: whole_evidenceD(2) [OF w])
  also have "\<dots> = int (credited_at R es mode t d) - int (held_at H rs mode t d)"
    unfolding credited_at_def held_at_def sum_list_int sum_list_filter_if sum_list_neg [symmetric] diff_conv_add_uminus
    by (simp add: add.commute) (intro sum_list_cong_set, auto)
  finally show ?thesis .
qed

lemma mode_instant_sum:
  assumes w: "whole_evidence H R rs es"
  shows "(\<Sum>e \<leftarrow> filter (\<lambda>e. ev_time e < t) (mode_events rs es mode). ev_amount e d) +
     (\<Sum>e \<leftarrow> filter (\<lambda>e. ev_time e = t) (mode_events rs es mode). min 0 (ev_amount e d)) =
     int (credited_before R es mode t d) - int (claimed_at H rs mode t d)"
proof -
  note amt = ev_amount_simps(1,2) [OF whole_evidenceD(1) [OF w]] ev_amount_simps(1) [OF whole_evidenceD(3) [OF w]]
  let ?G = "\<lambda>e. (if ev_time e < t then ev_amount e d else 0) + (if ev_time e = t then min 0 (ev_amount e d) else 0)"
  have "(\<Sum>e \<leftarrow> mode_events rs es mode. ?G e) =
     (\<Sum>r \<leftarrow> filter (counts_in mode) rs. - (if iv_start (rsv_interval r) \<le> t \<and> t \<le> iv_end (rsv_interval r) then int (H r d) else 0)) +
     (\<Sum>e \<leftarrow> es. if releaseTime e mode < t then int (R e d) else 0)"
    unfolding sum_mode_events
    by (intro arg_cong2 [where f = "(+)"] sum_list_cong_set) (auto simp: amt dest: whole_evidenceD(2) [OF w])
  also have "\<dots> = int (credited_before R es mode t d) - int (claimed_at H rs mode t d)"
    unfolding credited_before_def claimed_at_def sum_list_int sum_list_filter_if sum_list_neg [symmetric] diff_conv_add_uminus
    by (simp add: add.commute) (intro sum_list_cong_set, auto)
  finally show ?thesis unfolding sum_list_filter_if sum_list_addf .
qed

lemma mode_never_clamps:
  assumes w: "whole_evidence H R rs es" and "never_overbooked H R f rs es mode"
    and "\<And>d. f d + (\<Sum>r \<leftarrow> filter (counts_in mode) rs. H r d) + (\<Sum>e \<leftarrow> es. R e d) < 2 ^ 53"
  shows "never_clamps f ev_amount (mode_events rs es mode)"
  unfolding never_clamps_def
proof (intro allI conjI)
  fix d t
  note amt = ev_amount_simps(1,2) [OF whole_evidenceD(1) [OF w]] ev_amount_simps(1) [OF whole_evidenceD(3) [OF w]]
  have "claimed_at H rs mode t d \<le> f d + credited_before R es mode t d" using assms(2) by (simp add: never_overbooked_def)
  then show "0 \<le> int (f d) + (\<Sum>e \<leftarrow> filter (\<lambda>e. ev_time e < t) (mode_events rs es mode). ev_amount e d) +
      (\<Sum>e \<leftarrow> filter (\<lambda>e. ev_time e = t) (mode_events rs es mode). min 0 (ev_amount e d))"
    using mode_instant_sum [OF w, where t = t and d = d and mode = mode] by linarith
  have "(\<Sum>e \<leftarrow> mode_events rs es mode. max 0 (ev_amount e d)) =
      (\<Sum>r \<leftarrow> filter (counts_in mode) rs. int (H r d)) + (\<Sum>e \<leftarrow> es. int (R e d))"
    unfolding sum_mode_events by (intro arg_cong2 [where f = "(+)"] sum_list_cong_set) (auto simp: amt)
  then show "int (f d) + (\<Sum>e \<leftarrow> mode_events rs es mode. max 0 (ev_amount e d)) < 2 ^ 53"
    using assms(3) [of d] by (simp flip: sum_list_int)
qed

lemma cap_rep_le: "cap_rep c f \<Longrightarrow> cap_rep c' f' \<Longrightarrow> (\<And>d. f d \<le> f' d) \<Longrightarrow> cap_le c c'"
  by (simp add: cap_le_def cap_repD(1) d_of_nat_mono)

lemma mode_timeline_rep:
  assumes s: "event_sort srt" and "i64_min \<le> t" and "cap_rep base f" and w: "whole_evidence H R rs es"
    and "never_overbooked H R f rs es mode"
    and "\<And>d. f d + (\<Sum>r \<leftarrow> filter (counts_in mode) rs. H r d) + (\<Sum>e \<leftarrow> es. R e d) < 2 ^ 53"
  shows "\<exists>c. capacityAt (buildTimeline_with srt base rs es mode) t = Inr c \<and>
     cap_rep c (\<lambda>d. nat (int (f d) + (int (credited_at R es mode t d) - int (held_at H rs mode t d))))"
proof -
  let ?ev = "mode_events rs es mode"
  have "never_clamps f ev_amount (srt ?ev)"
    using mode_never_clamps [OF w assms(5,6)] never_clamps_mset [OF event_sort.srt_mset [OF s]] by blast
  then have "cap_rep (curve base (srt ?ev) t)
      (\<lambda>d. nat (int (f d) + (\<Sum>e \<leftarrow> filter (\<lambda>e. ev_time e \<le> t) (srt ?ev). ev_amount e d)))"
    by (intro curve_exact [OF assms(3)]) (simp_all add: event_sort.set_srt [OF s] event_sort.srt_sorted [OF s] mode_events_rep [OF w])
  moreover have "(\<Sum>e \<leftarrow> filter (\<lambda>e. ev_time e \<le> t) (srt ?ev). ev_amount e d) =
      int (credited_at R es mode t d) - int (held_at H rs mode t d)" for d
    using sum_list_mset [of "filter (\<lambda>e. ev_time e \<le> t) (srt ?ev)" "filter (\<lambda>e. ev_time e \<le> t) ?ev"]
      mode_sum_at [OF w] by (simp add: event_sort.srt_mset [OF s])
  ultimately show ?thesis
    using event_sort.capacityAt_buildTimeline_with [OF s assms(2)] by simp
qed

lemma held_at_mode: "mode \<noteq> Guaranteed \<Longrightarrow> mode' \<noteq> Guaranteed \<Longrightarrow> held_at H rs mode t d = held_at H rs mode' t d"
  by (simp add: held_at_def counts_in_def)

lemma sum_filter_mono:
  "(\<And>x. x \<in> set xs \<Longrightarrow> P x \<Longrightarrow> Q x) \<Longrightarrow> (\<Sum>x \<leftarrow> filter P xs. h x) \<le> (\<Sum>x \<leftarrow> filter Q xs. h x :: nat)"
  by (induction xs) (auto simp: le_SucI trans_le_add2)

lemma held_at_guaranteed: "held_at H rs Guaranteed t d \<le> held_at H rs mode t d"
  unfolding held_at_def by (rule sum_filter_mono) (auto simp: counts_in_def)

lemma counted_guaranteed:
  "(\<Sum>r \<leftarrow> filter (counts_in Guaranteed) rs. H r d) \<le> (\<Sum>r \<leftarrow> filter (counts_in mode) rs. H r d :: nat)"
  by (rule sum_filter_mono) (auto simp: counts_in_def)

lemma held_le_claimed: "held_at H rs mode t d \<le> claimed_at H rs mode t d"
  unfolding held_at_def claimed_at_def by (rule sum_filter_mono) (auto simp: iv_containsPoint_def)

lemma credited_before_le: "credited_before R es mode t d \<le> credited_at R es mode t d"
  unfolding credited_before_def credited_at_def by (rule sum_filter_mono) simp

lemma never_overbooked_held:
  "never_overbooked H R f rs es mode \<Longrightarrow> held_at H rs mode t d \<le> f d + credited_at R es mode t d"
  unfolding never_overbooked_def
  by (meson add_left_mono credited_before_le held_le_claimed order_trans)

text \<open>Fewer holds and earlier releases never overbook.\<close>

lemma never_overbooked_mode:
  assumes "never_overbooked H R f rs es mode" and "\<And>r. counts_in mode' r \<Longrightarrow> counts_in mode r"
    and "\<forall>e \<in> set es. releaseTime e mode' \<le> releaseTime e mode"
  shows "never_overbooked H R f rs es mode'"
  unfolding never_overbooked_def
proof (intro allI)
  fix t d
  have "claimed_at H rs mode' t d \<le> claimed_at H rs mode t d"
    unfolding claimed_at_def using assms(2) by (intro sum_filter_mono) auto
  also have "\<dots> \<le> f d + credited_before R es mode t d" using assms(1) by (simp add: never_overbooked_def)
  also have "credited_before R es mode t d \<le> credited_before R es mode' t d"
    unfolding credited_before_def using assms(3) by (intro sum_filter_mono) (auto intro: le_less_trans)
  finally show "claimed_at H rs mode' t d \<le> f d + credited_before R es mode' t d" by simp
qed

lemma credited_at_mode:
  "\<forall>e \<in> set es. releaseTime e mode' \<le> releaseTime e mode \<Longrightarrow> credited_at R es mode t d \<le> credited_at R es mode' t d"
  unfolding credited_at_def by (rule sum_filter_mono) (auto intro: order_trans)

section \<open>Degradation is monotone\<close>

definition degrade :: "double \<Rightarrow> nat \<Rightarrow> double" where
  "degrade b n = d_sub b (d_mul (d_lit 10 100) (d_div (d_of_nat n) (d_of_nat 30000000000)))"

definition fraction_clamp :: "double \<Rightarrow> double" where
  "fraction_clamp x = (let low = (if d_lt x (d_lit 5 100) then d_lit 5 100 else x)
     in if d_lt (d_of_nat 1) low then d_of_nat 1 else low)"

lemma degradeConfidence_eq:
  "in_i64 (horizon - issue) \<Longrightarrow>
     degradeConfidence base horizon issue = Inr (fraction_clamp (degrade (frac_value base) (nat (horizon - issue))))"
  by (simp add: degradeConfidence_def sub64_def degrade_def fraction_clamp_def Let_def d_of_i64_nonneg
      kNanosPerSecond_def max_def)

lemma degrade_loss:
  assumes "m \<le> n" and "n \<le> 2 ^ 64"
  defines "loss \<equiv> \<lambda>n. d_mul (d_lit 10 100) (d_div (d_of_nat n) (d_of_nat 30000000000))"
  shows "amount_ok (loss n)" and "d_key (loss m) \<le> d_key (loss n)"
proof -
  have c: "amount_ok (d_of_nat 30000000000)" "d_key (d_of_nat 1) \<le> d_key (d_of_nat 30000000000)"
      "0 < d_key (d_of_nat 30000000000)"
    by (rule d_of_nat_exact, simp) (rule d_of_nat_mono d_of_nat_pos, simp)+
  have l: "amount_ok (d_lit 10 100)" "d_key (d_lit 10 100) \<le> d_key (d_of_nat 1)"
    by (rule d_lit_fraction; simp)+
  have q: "amount_ok (d_div (d_of_nat k) (d_of_nat 30000000000))" if "k \<le> n" for k
    using that assms(2) c by (intro d_div_amount d_of_nat_amount) auto
  have loss: "loss k = d_mul (d_div (d_of_nat k) (d_of_nat 30000000000)) (d_lit 10 100)" if "k \<le> n" for k
    unfolding loss_def by (rule d_mul_commute [OF l(1) q [OF that]])
  show "amount_ok (loss n)" unfolding loss [OF order_refl] by (rule d_mul_fraction [OF q l]) simp
  show "d_key (loss m) \<le> d_key (loss n)"
    unfolding loss [OF order_refl] loss [OF assms(1)]
    using assms c l q by (intro d_mul_mono d_div_mono d_of_nat_mono d_of_nat_amount) auto
qed

lemma degrade_mono:
  assumes "isfinite b" and "m \<le> n" and "n \<le> 2 ^ 64"
  shows "d_key (degrade b n) \<le> d_key (degrade b m)" and "d_key (degrade b n) \<le> d_key b"
    and "\<not> isnan (degrade b n)"
  using degrade_loss [OF assms(2,3)] degrade_loss(1) [OF order_refl order_trans [OF assms(2,3)]] assms(1)
    d_sub_le [of b] amount_ok_key d_key_sub
  by (auto simp: degrade_def d_key_sub d_val_key intro!: rkey_mono)

lemma fraction_clamp_props:
  assumes "\<not> isnan x" and "\<not> isnan y"
  shows "d_key x \<le> d_key y \<Longrightarrow> d_key (fraction_clamp x) \<le> d_key (fraction_clamp y)"
    and "d_key (d_lit 5 100) \<le> d_key (fraction_clamp x)" and "d_key (fraction_clamp x) \<le> d_key (d_of_nat 1)"
    and "\<not> isnan (fraction_clamp x)"
proof -
  have l: "amount_ok (d_lit 5 100)" "d_key (d_lit 5 100) \<le> d_key (d_of_nat 1)"
    by (rule d_lit_fraction; simp)+
  then show "d_key x \<le> d_key y \<Longrightarrow> d_key (fraction_clamp x) \<le> d_key (fraction_clamp y)"
    and "d_key (d_lit 5 100) \<le> d_key (fraction_clamp x)" and "d_key (fraction_clamp x) \<le> d_key (d_of_nat 1)"
    and "\<not> isnan (fraction_clamp x)"
    using assms by (auto simp: fraction_clamp_def Let_def d_lt_def isfinite_simps)
qed

section \<open>Properties\<close>

text \<open>
  C3. Exact accounting of a mode. With whole-number evidence whose totals stay below \<open>2 ^ 53\<close>, and a calendar that is never
  overbooked (at every instant the counted holds that touch it, those ending there included, are covered by the base and the
  earlier releases), the capacity at an instant is the base, plus the releases whose boundary for the mode has
  passed, minus the holds of the counted reservations in force; for every sorting function. (An overbooked calendar is
  reported with too much capacity afterwards: see \<open>single_reservation\<close>.)
\<close>

theorem mode_timeline_exact:
  assumes "\<And>es. mset (srt es) = mset es" and "\<And>es. sorted (map ev_time (srt es))" and "i64_min \<le> t"
    and "cap_rep base f" and "whole_evidence H R rs es" and "never_overbooked H R f rs es mode"
    and "\<And>d. f d + (\<Sum>r \<leftarrow> filter (counts_in mode) rs. H r d) + (\<Sum>e \<leftarrow> es. R e d) < 2 ^ 53"
  shows "\<exists>c. capacityAt (buildTimeline_with srt base rs es mode) t = Inr c \<and>
     cap_rep c (\<lambda>d. f d + credited_at R es mode t d - held_at H rs mode t d)"
proof -
  from assms(1,2) have s: "event_sort srt" by unfold_locales
  have "nat (int (f d) + (int (credited_at R es mode t d) - int (held_at H rs mode t d))) =
      f d + credited_at R es mode t d - held_at H rs mode t d" for d
    using never_overbooked_held [OF assms(6), where t = t and d = d] by simp
  then show ?thesis using mode_timeline_rep [OF s assms(3-7)] by simp
qed

text \<open>Two reservations, one after the other, that together hold more than the base.\<close>

definition ex_booking :: "TimePoint \<Rightarrow> nat \<Rightarrow> Reservation" where
  "ex_booking t n = Reservation_default\<lparr>rsv_interval := Interval t (t + 10), rsv_hold := whole [(VramBytes, n)]\<rparr>"

theorem mode_timeline_exact_witness:
  "\<exists>c. capacityAt (buildTimeline_with std_sort (whole [(VramBytes, 10)]) [ex_booking 10 7, ex_booking 30 8] [] Guaranteed) 35 = Inr c \<and>
     cap_amount c VramBytes = d_of_nat 2"
proof -
  let ?H = "\<lambda>r d. if d = VramBytes then if iv_start (rsv_interval r) = 10 then 7 else 8 else 0 :: nat"
    and ?f = "\<lambda>d. if d = VramBytes then 10 else 0 :: nat" and ?rs = "[ex_booking 10 7, ex_booking 30 8]"
  have r: "cap_rep (whole [(VramBytes, n)]) (\<lambda>d. if d = VramBytes then n else 0)" if "n < 2 ^ 53" for n
    using whole_rep [of "[(VramBytes, n)]"] that by (simp add: fun_upd_def)
  have c: "counts_in Guaranteed (ex_booking t 7)" "counts_in Guaranteed (ex_booking t 8)" for t
    by (simp_all add: counts_in_def ex_booking_def Reservation_default_def delta_empty_def om_size_def whole_def cap_set_whole)
  have iv: "rsv_interval (ex_booking t n) = Interval t (t + 10)" "rsv_hold (ex_booking t n) = whole [(VramBytes, n)]" for t n
    by (simp_all add: ex_booking_def)
  have "\<exists>c. capacityAt (buildTimeline_with std_sort (whole [(VramBytes, 10)]) ?rs [] Guaranteed) 35 = Inr c \<and>
     cap_rep c (\<lambda>d. ?f d + credited_at (\<lambda>_ _. 0) [] Guaranteed 35 d - held_at ?H ?rs Guaranteed 35 d)"
  proof (rule mode_timeline_exact)
    show "never_overbooked ?H (\<lambda>_ _. 0) ?f ?rs [] Guaranteed"
      by (simp add: never_overbooked_def claimed_at_def credited_before_def iv)
    show "whole_evidence ?H (\<lambda>_ _. 0) ?rs []" using r [of 7] r [of 8] by (simp add: whole_evidence_def iv)
  qed (use r [of 10] in \<open>simp_all add: stable.srt_mset stable.srt_sorted i64_min_def\<close>)
  then show ?thesis
    using c by (auto simp: cap_rep_def held_at_def credited_at_def iv iv_containsPoint_def)
qed

text \<open>
  Modes are ordered as announced. Under the same conditions, with every release's earliest,
  expected and latest boundary in that order, the conservative projection is below the expected one
  and that below the optimistic one; and the guaranteed projection, which ignores soft
  reservations, is never below the conservative one.
\<close>

theorem mode_order:
  assumes "i64_min \<le> t" and "cap_rep base f" and "whole_evidence H R rs es"
    and "never_overbooked H R f rs es Conservative"
    and "\<And>d. f d + (\<Sum>r \<leftarrow> filter (counts_in Conservative) rs. H r d) + (\<Sum>e \<leftarrow> es. R e d) < 2 ^ 53"
    and "\<forall>e \<in> set es. rel_earliest e \<le> rel_time e \<and> rel_time e \<le> rel_latest e"
  shows "\<exists>g c x o'. capacityAt (buildTimeline base rs es Guaranteed) t = Inr g \<and>
     capacityAt (buildTimeline base rs es Conservative) t = Inr c \<and>
     capacityAt (buildTimeline base rs es Expected) t = Inr x \<and>
     capacityAt (buildTimeline base rs es Optimistic) t = Inr o' \<and> cap_le c g \<and> cap_le c x \<and> cap_le x o'"
proof -
  have counted: "filter (counts_in m) rs = filter (counts_in Conservative) rs" if "m \<noteq> Guaranteed" for m
    using that by (intro filter_cong) (auto simp: counts_in_def)
  have "(\<Sum>r \<leftarrow> filter (counts_in m) rs. H r d) \<le> (\<Sum>r \<leftarrow> filter (counts_in Conservative) rs. H r d)" for m d
    using counted_guaranteed counted [of m] by (cases "m = Guaranteed") auto
  then have b: "f d + (\<Sum>r \<leftarrow> filter (counts_in m) rs. H r d) + (\<Sum>e \<leftarrow> es. R e d) < 2 ^ 53" for m d
    using assms(5) [of d] by (meson add_le_mono1 add_left_mono le_less_trans)
  have n: "never_overbooked H R f rs es m" for m
    by (rule never_overbooked_mode [OF assms(4)]) (use assms(6) in \<open>auto simp: counts_in_def releaseTime_def\<close>)
  have rep: "\<exists>c. capacityAt (buildTimeline base rs es m) t = Inr c \<and>
     cap_rep c (\<lambda>d. nat (int (f d) + (int (credited_at R es m t d) - int (held_at H rs m t d))))" for m
    unfolding buildTimeline_def
    by (rule mode_timeline_rep [OF stable.event_sort_axioms assms(1-3) n b])
  obtain g c x o' where at: "capacityAt (buildTimeline base rs es Guaranteed) t = Inr g"
      "capacityAt (buildTimeline base rs es Conservative) t = Inr c"
      "capacityAt (buildTimeline base rs es Expected) t = Inr x"
      "capacityAt (buildTimeline base rs es Optimistic) t = Inr o'"
    and reps: "cap_rep g (\<lambda>d. nat (int (f d) + (int (credited_at R es Guaranteed t d) - int (held_at H rs Guaranteed t d))))"
      "cap_rep c (\<lambda>d. nat (int (f d) + (int (credited_at R es Conservative t d) - int (held_at H rs Conservative t d))))"
      "cap_rep x (\<lambda>d. nat (int (f d) + (int (credited_at R es Expected t d) - int (held_at H rs Expected t d))))"
      "cap_rep o' (\<lambda>d. nat (int (f d) + (int (credited_at R es Optimistic t d) - int (held_at H rs Optimistic t d))))"
    using rep by meson
  have held: "held_at H rs Expected t d = held_at H rs Conservative t d"
      "held_at H rs Optimistic t d = held_at H rs Conservative t d" for d
    by (rule held_at_mode; simp)+
  have cred: "credited_at R es Conservative t d \<le> credited_at R es Expected t d"
      "credited_at R es Expected t d \<le> credited_at R es Optimistic t d"
      "credited_at R es Conservative t d \<le> credited_at R es Guaranteed t d" for d
    using assms(6) by (auto intro!: credited_at_mode simp: releaseTime_def)
  have "cap_le c g" "cap_le c x" "cap_le x o'"
    by (rule cap_rep_le [OF reps(2,1)] cap_rep_le [OF reps(2,3)] cap_rep_le [OF reps(3,4)],
        use held cred held_at_guaranteed [of H rs t _ Conservative] in \<open>intro nat_mono, simp add: add_mono diff_mono\<close>)+
  then show ?thesis using at by blast
qed

theorem mode_order_witness:
  "\<exists>c x. capacityAt (buildTimeline (whole [(VramBytes, 10)]) [] [] Conservative) 5 = Inr c \<and>
     capacityAt (buildTimeline (whole [(VramBytes, 10)]) [] [] Expected) 5 = Inr x \<and> cap_le c x"
proof -
  have "cap_rep (whole [(VramBytes, 10)]) ((\<lambda>_. 0)(VramBytes := 10))"
    using whole_rep [of "[(VramBytes, 10)]"] by simp
  moreover have "((\<lambda>_. 0)(VramBytes := 10)) d < (2 ^ 53 :: nat)" for d by simp
  ultimately show ?thesis
    using mode_order [of 5 "whole [(VramBytes, 10)]" "(\<lambda>_. 0)(VramBytes := 10)" "\<lambda>_ _. 0" "\<lambda>_ _. 0" "[]" "[]"]
    by (fastforce simp: i64_min_def whole_evidence_def never_overbooked_def claimed_at_def simp del: fun_upd_apply)
qed

text \<open>
  Confidence degrades monotonically with the horizon: a later horizon never raises it, the result
  always lies between 0.05 and 1, and it does not exceed a base confidence of at least 0.05.
\<close>

theorem degradeConfidence_monotone:
  assumes "frac_valid base" and "in_i64 (h1 - issue)" and "in_i64 (h2 - issue)" and "h1 \<le> h2"
  shows "\<exists>c1 c2. degradeConfidence base h1 issue = Inr c1 \<and> degradeConfidence base h2 issue = Inr c2 \<and>
     d_le c2 c1 \<and> d_le (d_lit 5 100) c2 \<and> d_le c1 (d_of_nat 1) \<and>
     (d_le (d_lit 5 100) (frac_value base) \<longrightarrow> d_le c1 (frac_value base))"
proof -
  let ?b = "frac_value base"
  let ?m = "nat (h1 - issue)" and ?n = "nat (h2 - issue)"
  have b: "isfinite ?b" "d_key ?b \<le> d_key (d_of_nat 1)" using assms(1) by (simp_all add: frac_valid_def d_le_def)
  have mn: "?m \<le> ?n" "?n \<le> 2 ^ 64" using assms(3,4) by (auto simp: in_i64_def i64_max_def)
  then have m: "?m \<le> 2 ^ 64" by (rule order_trans)
  note dn = degrade_mono [OF b(1) mn] and dm = degrade_mono [OF b(1) order_refl m]
  note p1 = fraction_clamp_props [OF dn(3) dm(3)] and p2 = fraction_clamp_props [OF dm(3) dm(3)]
  have "d_key (fraction_clamp (degrade ?b ?m)) \<le> d_key ?b" if "d_key (d_lit 5 100) \<le> d_key ?b"
    using that dm(2,3) b by (auto simp: fraction_clamp_def Let_def d_lt_def)
  moreover have "\<not> isnan (d_lit 5 100)" "\<not> isnan (d_of_nat 1)"
    using d_lit_fraction(1) [of 100 5] d_of_nat_exact(2) [of 1] by (simp_all add: isfinite_simps)
  ultimately show ?thesis
    using p1 p2 dn(1) b isfinite_simps(1) [OF b(1)]
    unfolding degradeConfidence_eq [OF assms(2)] degradeConfidence_eq [OF assms(3)] d_le_def
    by (intro exI conjI impI) auto
qed

theorem degradeConfidence_monotone_witness:
  "\<exists>c1 c2. degradeConfidence frac_default 10 0 = Inr c1 \<and> degradeConfidence frac_default 30000000000 0 = Inr c2 \<and> d_le c2 c1"
proof -
  have "d_key (d_of_nat 0) \<le> d_key (d_of_nat 1)" by (rule d_of_nat_mono) simp
  then have "frac_valid (frac_default :: Confidence)"
    by (simp add: frac_valid_def frac_default_def d_le_def)
  then show ?thesis
    using degradeConfidence_monotone [of "frac_default :: Confidence" 10 0 30000000000]
    by (auto simp: in_i64_def i64_min_def i64_max_def)
qed

end
