(* ===== verification/Fragmentation.thy ===== *)
theory Fragmentation
  imports Fleet
begin

text \<open>
  Fragmentation analysis (\<open>fragmentation/fragmentation.hpp\<close>): the free blocks of one device against a
  required block, and the fleet against a demand. Sums saturate at the largest 64-bit value.
\<close>

record FragmentationReport =
  fr_totalFreeMemory :: ByteCount
  fr_largestContiguousBlock :: ByteCount
  fr_usableForShape :: ByteCount
  fr_stranded :: ByteCount
  fr_fragmentationRatio :: double
  fr_totalDevices :: DeviceCount
  fr_usableDevices :: DeviceCount
  fr_usableDeviceIndices :: "nat list"
  fr_shapeSatisfiable :: bool
  fr_groupSatisfiable :: bool

definition FragmentationReport_default :: FragmentationReport where
  "FragmentationReport_default = \<lparr>fr_totalFreeMemory = bc_zero, fr_largestContiguousBlock = bc_zero,
     fr_usableForShape = bc_zero, fr_stranded = bc_zero, fr_fragmentationRatio = d_zero,
     fr_totalDevices = DeviceCount 0, fr_usableDevices = DeviceCount 0, fr_usableDeviceIndices = [],
     fr_shapeSatisfiable = False, fr_groupSatisfiable = False\<rparr>"

section \<open>One device\<close>

text \<open>The loop over the blocks; on overflow it saturates the total and stops.\<close>

fun sum_blocks :: "ByteCount list \<Rightarrow> ByteCount \<Rightarrow> ByteCount \<Rightarrow> ByteCount \<times> ByteCount" where
  "sum_blocks [] tot largest = (tot, largest)"
| "sum_blocks (b # bs) tot largest =
     (let (ok, t) = bc_add tot b bc_zero
      in if \<not> ok then (bc_max, largest)
         else sum_blocks bs t (if largest < b then b else largest))"

definition analyzeDeviceMemory :: "ByteCount list \<Rightarrow> ByteCount \<Rightarrow> FragmentationReport" where
  "analyzeDeviceMemory freeBlocks requiredBlock =
     (let (tot, largest) = sum_blocks freeBlocks bc_zero bc_zero;
          r0 = FragmentationReport_default\<lparr>fr_totalFreeMemory := tot, fr_largestContiguousBlock := largest,
                 fr_fragmentationRatio := d_zero\<rparr>;
          r1 = (if bc_value requiredBlock = 0
                then r0\<lparr>fr_shapeSatisfiable := True, fr_usableForShape := tot, fr_stranded := bc_zero\<rparr>
                else if bc_value requiredBlock \<le> bc_value largest
                then let (ok, s) = bc_subtract tot largest bc_zero;
                         r = r0\<lparr>fr_shapeSatisfiable := True, fr_usableForShape := largest\<rparr>
                     in if ok then r\<lparr>fr_stranded := s\<rparr> else r
                else r0\<lparr>fr_shapeSatisfiable := False, fr_usableForShape := bc_zero, fr_stranded := tot\<rparr>)
      in if 0 < bc_value tot \<and> 0 < bc_value (fr_usableForShape r1)
         then let ratio = d_sub (d_of_nat 1)
                    (d_div (d_of_u64 (bc_value (fr_usableForShape r1))) (d_of_u64 (bc_value tot)));
                  ratio1 = (if d_lt ratio d_zero then d_zero else ratio);
                  ratio2 = (if d_lt (d_of_nat 1) ratio1 then d_of_nat 1 else ratio1)
              in r1\<lparr>fr_fragmentationRatio := ratio2\<rparr>
         else r1)"

section \<open>The fleet\<close>

definition sat_add :: "ByteCount \<Rightarrow> ByteCount \<Rightarrow> ByteCount" where
  "sat_add a b = (let (ok, next) = bc_add a b bc_zero in if \<not> ok then bc_max else next)"

definition device_usable :: "ByteCount \<Rightarrow> DeviceInfo \<Rightarrow> bool" where
  "device_usable perDevice d \<longleftrightarrow>
     fr_shapeSatisfiable (analyzeDeviceMemory (dev_freeBlocks d) perDevice) \<and> dev_health d \<noteq> Failed \<and>
     \<not> dev_drained d \<and> \<not> dev_maintenance d \<and> dev_health d \<noteq> UnknownHealth"

text \<open>One step of the first loop: the report, the total free memory, the usable sum and the index.\<close>

definition fleet_step ::
  "ByteCount \<Rightarrow> DeviceInfo \<Rightarrow> FragmentationReport \<times> ByteCount \<times> ByteCount \<times> nat \<Rightarrow>
   FragmentationReport \<times> ByteCount \<times> ByteCount \<times> nat"
where
  "fleet_step perDevice d s =
     (let (r, tot, usableSum, i) = s;
          tot' = sat_add tot (dev_vramFree d);
          per = analyzeDeviceMemory (dev_freeBlocks d) perDevice;
          usable = (fr_shapeSatisfiable per \<and> dev_health d \<noteq> Failed \<and> \<not> dev_drained d \<and>
                    \<not> dev_maintenance d \<and> dev_health d \<noteq> UnknownHealth);
          r1 = (if usable
                then r\<lparr>fr_usableDevices := DeviceCount (dc_value (fr_usableDevices r) + 1),
                       fr_usableDeviceIndices := fr_usableDeviceIndices r @ [i]\<rparr>
                else r);
          usableSum' = (if usable then sat_add usableSum (fr_usableForShape per) else usableSum);
          r2 = (if fr_largestContiguousBlock r1 < fr_largestContiguousBlock per
                then r1\<lparr>fr_largestContiguousBlock := fr_largestContiguousBlock per\<rparr> else r1)
      in (r2, tot', usableSum', i + 1))"

definition stranded_memory :: "ByteCount \<Rightarrow> DeviceInfo list \<Rightarrow> ByteCount" where
  "stranded_memory perDevice devices =
     fold (\<lambda>d stranded. if \<not> device_usable perDevice d then sat_add stranded (dev_vramFree d) else stranded)
       devices bc_zero"

definition analyzeFragmentation ::
  "DeviceInfo list \<Rightarrow> WorkloadDemand \<Rightarrow> nat \<Rightarrow> FragmentationReport" where
  "analyzeFragmentation devices demand groupSize =
     (let perDevice = dm_minContiguousVram demand;
          need = dm_minAccelerators demand;
          (r, tot, usableSum, _) =
            fold (fleet_step perDevice) devices (FragmentationReport_default, bc_zero, bc_zero, 0);
          usableCount = dc_value (fr_usableDevices r);
          stranded = stranded_memory perDevice devices;
          r1 = r\<lparr>fr_totalDevices := DeviceCount (word_of_nat (length devices)),
                 fr_totalFreeMemory := tot,
                 fr_shapeSatisfiable := 0 < usableCount \<and> 0 < bc_value perDevice,
                 fr_groupSatisfiable := dc_value need \<le> usableCount \<and>
                   (groupSize = 0 \<or> groupSize \<le> unat usableCount),
                 fr_stranded := stranded,
                 fr_usableForShape := usableSum\<rparr>
      in if 0 < bc_value tot \<and> 0 < bc_value perDevice
         then let ratio = d_div (d_of_u64 (bc_value stranded)) (d_of_u64 (bc_value tot))
              in r1\<lparr>fr_fragmentationRatio := (if d_lt (d_of_nat 1) ratio then d_of_nat 1 else ratio)\<rparr>
         else r1)"

section \<open>Saturating sums\<close>

lemma bc_value_zero: "bc_value bc_zero = 0"
  by (simp add: bc_zero_def)

lemma sat_add_nat: "bc_nat (sat_add a b) = min u64_cap (bc_nat a + bc_nat b)"
  by (simp add: sat_add_def bc_add_cap)

text \<open>A saturating fold is the saturated sum.\<close>

lemma sat_fold:
  "bc_nat (fold (\<lambda>d acc. if P d then sat_add acc (v d) else acc) ds acc) =
     min u64_cap (bc_nat acc + (\<Sum>d \<leftarrow> filter P ds. bc_nat (v d)))"
  by (induction ds arbitrary: acc) (auto simp: sat_add_nat)

lemma stranded_memory_nat:
  "bc_nat (stranded_memory p ds) = min u64_cap (\<Sum>d \<leftarrow> filter (\<lambda>d. \<not> device_usable p d) ds. bc_nat (dev_vramFree d))"
  using sat_fold [of "\<lambda>d. \<not> device_usable p d" dev_vramFree ds bc_zero] by (simp add: stranded_memory_def)

definition total_blocks :: "ByteCount list \<Rightarrow> nat" where
  "total_blocks bs = (\<Sum>b \<leftarrow> bs. bc_nat b)"

lemma sum_blocks_total:
  "bc_nat (fst (sum_blocks bs tot largest)) = min u64_cap (bc_nat tot + total_blocks bs)"
  by (induction bs tot largest rule: sum_blocks.induct)
    (auto simp: total_blocks_def bc_add_cap min_def intro: antisym)

lemma sum_blocks_largest_le:
  "bc_nat largest \<le> bc_nat tot \<Longrightarrow> bc_nat (snd (sum_blocks bs tot largest)) \<le> bc_nat (fst (sum_blocks bs tot largest))"
  by (induction bs tot largest rule: sum_blocks.induct)
    (auto simp: bc_add_cap bc_nat_less)

lemma sum_blocks_largest:
  assumes "bc_nat tot + total_blocks bs \<le> u64_cap"
  shows "bc_nat (snd (sum_blocks bs tot largest)) = fold max (map bc_nat bs) (bc_nat largest)"
  using assms
proof (induction bs arbitrary: tot largest)
  case (Cons b bs)
  have "bc_nat tot + bc_nat b \<le> u64_cap" using Cons.prems by (simp add: total_blocks_def)
  moreover have "bc_nat (if largest < b then b else largest) = max (bc_nat b) (bc_nat largest)"
    by (simp add: bc_nat_less max_def)
  ultimately show ?case
    using Cons.IH [of "bc_of (bc_nat tot + bc_nat b)" "if largest < b then b else largest"] Cons.prems
    by (simp add: bc_add_cap total_blocks_def add.assoc)
qed (simp add: total_blocks_def)

lemma fold_max_ge: "(n :: nat) \<le> fold max xs m \<longleftrightarrow> n \<le> m \<or> (\<exists>x \<in> set xs. n \<le> x)"
  by (induction xs arbitrary: m) (simp_all add: le_max_iff_disj disj_assoc disj_commute disj_left_commute)

lemma sum_blocks_mem: "snd (sum_blocks bs tot largest) \<in> insert largest (set bs)"
proof (induction bs arbitrary: tot largest)
  case (Cons b bs)
  show ?case using Cons.IH [of "bc_of (bc_nat tot + bc_nat b)" b] Cons.IH [of "bc_of (bc_nat tot + bc_nat b)" largest]
    by (auto simp: bc_add_cap)
qed simp

section \<open>The ratio\<close>

definition unit_interval :: "double \<Rightarrow> bool" where
  "unit_interval x \<longleftrightarrow> d_le d_zero x \<and> d_le x (d_of_nat 1)"

lemma one_ok: "amount_ok (d_of_nat 1)" "isfinite (d_of_nat 1)" "\<not> isnan (d_of_nat 1)" "0 < d_key (d_of_nat 1)"
  using d_of_nat_exact(2) [of 1] d_of_nat_pos [of 1] by (simp_all add: isfinite_simps)

lemma unit_interval_zero [simp]: "unit_interval d_zero"
  using one_ok by (simp add: unit_interval_def d_le_def)

lemma u64_fraction:
  assumes "x \<le> y" and "0 < y"
  shows "amount_ok (d_div (d_of_u64 x) (d_of_u64 y))"
    and "d_key (d_div (d_of_u64 x) (d_of_u64 y)) \<le> d_key (d_of_nat 1)"
proof -
  have "0 < unat y" "unat x \<le> unat y" using assms by (simp_all add: word_less_nat_alt word_le_nat_alt)
  then have "0 < d_key (d_of_u64 y)" "d_key (d_of_u64 x) \<le> d_key (d_of_u64 y)"
    by (simp_all add: d_of_u64_def d_of_nat_pos d_of_nat_mono)
  then show "amount_ok (d_div (d_of_u64 x) (d_of_u64 y))"
    and "d_key (d_div (d_of_u64 x) (d_of_u64 y)) \<le> d_key (d_of_nat 1)"
    by (simp_all only: d_div_fraction d_of_u64_amount)
qed

lemma complement_unit:
  assumes "amount_ok q" and "d_key q \<le> d_key (d_of_nat 1)"
  defines "ratio \<equiv> d_sub (d_of_nat 1) q"
  defines "ratio1 \<equiv> if d_lt ratio d_zero then d_zero else ratio"
  shows "unit_interval (if d_lt (d_of_nat 1) ratio1 then d_of_nat 1 else ratio1)"
proof -
  have f: "isfinite ratio" unfolding ratio_def by (rule d_sub_amount [OF one_ok(1) assms(1)])
  have "d_key ratio \<le> d_key (d_of_nat 1)"
    unfolding ratio_def using d_sub_le [OF one_ok(2) amount_ok_finite [OF assms(1)] amount_ok_key [OF assms(1)]] .
  then show ?thesis
    using one_ok f isfinite_simps(1) [OF f]
    by (simp add: ratio1_def unit_interval_def d_le_def d_lt_def)
qed

lemma clamp_unit: "amount_ok q \<Longrightarrow> unit_interval (if d_lt (d_of_nat 1) q then d_of_nat 1 else q)"
  using one_ok amount_ok_key [of q] isfinite_simps(1) [of q]
  by (simp add: unit_interval_def d_le_def d_lt_def)

section \<open>The fleet loop\<close>

lemma fleet_fold:
  assumes "fold (fleet_step p) ds (r, t, u, i) = (r', t', u', i')"
  shows "dc_value (fr_usableDevices r') = dc_value (fr_usableDevices r) + word_of_nat (length (filter (device_usable p) ds)) \<and>
    fr_usableDeviceIndices r' = fr_usableDeviceIndices r @
      map fst (filter (\<lambda>kd. device_usable p (snd kd)) (enumerate i ds)) \<and>
    bc_nat t' = min u64_cap (bc_nat t + (\<Sum>d \<leftarrow> ds. bc_nat (dev_vramFree d))) \<and>
    bc_nat u' = min u64_cap (bc_nat u + (\<Sum>d \<leftarrow> filter (device_usable p) ds.
      bc_nat (fr_usableForShape (analyzeDeviceMemory (dev_freeBlocks d) p))))"
  using assms
proof (induction ds arbitrary: r t u i)
  case (Cons d ds)
  obtain r1 t1 u1 i1 where s: "fleet_step p d (r, t, u, i) = (r1, t1, u1, i1)"
    by (cases "fleet_step p d (r, t, u, i)")
  then have r1: "dc_value (fr_usableDevices r1) = dc_value (fr_usableDevices r) + (if device_usable p d then 1 else 0)"
      "fr_usableDeviceIndices r1 = fr_usableDeviceIndices r @ (if device_usable p d then [i] else [])"
      "bc_nat t1 = min u64_cap (bc_nat t + bc_nat (dev_vramFree d))" "i1 = Suc i"
      "bc_nat u1 = (if device_usable p d
         then min u64_cap (bc_nat u + bc_nat (fr_usableForShape (analyzeDeviceMemory (dev_freeBlocks d) p))) else bc_nat u)"
    by (auto simp: fleet_step_def Let_def device_usable_def sat_add_nat)
  from Cons.prems s have "fold (fleet_step p) ds (r1, t1, u1, i1) = (r', t', u', i')" by simp
  from Cons.IH [OF this] show ?case
    by (cases "device_usable p d") (simp_all add: r1 min_def)
qed simp

lemma fleet_fold_ratio:
  "fold (fleet_step p) ds (r, t, u, i) = (r', t', u', i') \<Longrightarrow> fr_fragmentationRatio r' = fr_fragmentationRatio r"
proof (induction ds arbitrary: r t u i)
  case (Cons d ds)
  obtain r1 t1 u1 i1 where s: "fleet_step p d (r, t, u, i) = (r1, t1, u1, i1)"
    by (cases "fleet_step p d (r, t, u, i)")
  then have "fr_fragmentationRatio r1 = fr_fragmentationRatio r"
    by (auto simp: fleet_step_def Let_def)
  moreover from Cons.prems s have "fold (fleet_step p) ds (r1, t1, u1, i1) = (r', t', u', i')" by simp
  ultimately show ?case using Cons.IH by simp
qed simp

lemma zip_upt_nth: "zip [0 ..< length xs] xs = map (\<lambda>i. (i, xs ! i)) [0 ..< length xs]"
  by (rule nth_equalityI) simp_all

section \<open>Properties\<close>

text \<open>
  One device. The total is the sum of the blocks, saturated at the largest 64-bit value; a block
  reported as satisfying really exists; unless the sum overflows, satisfiability is exactly the
  existence of a block of the required size; usable and stranded memory add up to the total; and the
  ratio is between 0 and 1. When no block is large enough everything is stranded, yet the ratio stays 0.
\<close>

theorem deviceMemory_correct:
  defines "R \<equiv> \<lambda>bs req. analyzeDeviceMemory bs req"
  shows "bc_nat (fr_totalFreeMemory (R bs req)) = min u64_cap (\<Sum>b \<leftarrow> bs. bc_nat b) \<and>
     (fr_shapeSatisfiable (R bs req) \<longrightarrow> req = bc_zero \<or> (\<exists>b \<in> set bs. req \<le> b)) \<and>
     ((\<Sum>b \<leftarrow> bs. bc_nat b) \<le> u64_cap \<longrightarrow>
        (fr_shapeSatisfiable (R bs req) \<longleftrightarrow> req = bc_zero \<or> (\<exists>b \<in> set bs. req \<le> b))) \<and>
     bc_nat (fr_usableForShape (R bs req)) + bc_nat (fr_stranded (R bs req)) = bc_nat (fr_totalFreeMemory (R bs req)) \<and>
     unit_interval (fr_fragmentationRatio (R bs req)) \<and>
     (\<not> fr_shapeSatisfiable (R bs req) \<longrightarrow>
        fr_stranded (R bs req) = fr_totalFreeMemory (R bs req) \<and> fr_fragmentationRatio (R bs req) = d_zero)"
proof -
  obtain t l where tl: "sum_blocks bs bc_zero bc_zero = (t, l)" by (cases "sum_blocks bs bc_zero bc_zero")
  have t: "bc_nat t = min u64_cap (\<Sum>b \<leftarrow> bs. bc_nat b)" and l: "bc_nat l \<le> bc_nat t" "l \<in> insert bc_zero (set bs)"
    using sum_blocks_total [of bs bc_zero bc_zero] sum_blocks_largest_le [of bc_zero bc_zero bs]
      sum_blocks_mem [of bs bc_zero bc_zero] by (simp_all add: tl total_blocks_def)
  have req0: "bc_value req = 0 \<longleftrightarrow> req = bc_zero" by (cases req) (simp add: bc_zero_def)
  have sat: "fr_shapeSatisfiable (R bs req) \<longleftrightarrow> req = bc_zero \<or> req \<le> l"
    by (simp add: R_def analyzeDeviceMemory_def tl Let_def req0 less_eq_ByteCount_def split: prod.split)
  have some: "req \<le> l \<Longrightarrow> req = bc_zero \<or> (\<exists>b \<in> set bs. req \<le> b)"
    using l(2) by (auto simp: less_eq_ByteCount_def bc_zero_def ByteCount.expand)
  have all: "(\<exists>b \<in> set bs. req \<le> b) \<Longrightarrow> req \<le> l" if "(\<Sum>b \<leftarrow> bs. bc_nat b) \<le> u64_cap"
    using sum_blocks_largest [of bc_zero bs bc_zero] that fold_max_ge [of "bc_nat req" "map bc_nat bs" 0]
    by (auto simp: tl total_blocks_def bc_nat_le)
  have total: "fr_totalFreeMemory (R bs req) = t"
    by (simp add: R_def analyzeDeviceMemory_def tl Let_def split: prod.split)
  have sub: "bc_subtract t l bc_zero = (True, bc_of (bc_nat t - bc_nat l))"
    using l(1) by (simp add: bc_subtract_nat bc_of_def)
  have "bc_nat t - bc_nat l \<le> u64_cap" using bc_nat_simps(3) [of t] by linarith
  then have sum: "bc_nat (fr_usableForShape (R bs req)) + bc_nat (fr_stranded (R bs req)) = bc_nat t"
    using l(1) by (simp add: R_def analyzeDeviceMemory_def tl Let_def sub)
  have usable: "fr_usableForShape (R bs req) = (if req = bc_zero then t else if req \<le> l then l else bc_zero)"
    by (auto simp: R_def analyzeDeviceMemory_def tl Let_def sub req0 less_eq_ByteCount_def bc_value_zero)
  have "bc_value (fr_usableForShape (R bs req)) \<le> bc_value t"
    using l(1) by (simp add: usable bc_nat_def word_le_nat_alt bc_zero_def)
  then have u: "unit_interval (let ratio = d_sub (d_of_nat 1) (d_div (d_of_u64 (bc_value (fr_usableForShape (R bs req)))) (d_of_u64 (bc_value t)));
        ratio1 = (if d_lt ratio d_zero then d_zero else ratio)
      in if d_lt (d_of_nat 1) ratio1 then d_of_nat 1 else ratio1)" if "0 < bc_value t"
    unfolding Let_def by (intro complement_unit u64_fraction that)
  have "fr_fragmentationRatio (R bs req) =
      (if 0 < bc_value t \<and> 0 < bc_value (fr_usableForShape (R bs req))
       then let ratio = d_sub (d_of_nat 1) (d_div (d_of_u64 (bc_value (fr_usableForShape (R bs req)))) (d_of_u64 (bc_value t)));
                ratio1 = (if d_lt ratio d_zero then d_zero else ratio)
            in if d_lt (d_of_nat 1) ratio1 then d_of_nat 1 else ratio1
       else d_zero)"
    unfolding usable
    by (cases "bc_value req = 0"; cases "bc_value req \<le> bc_value l")
      (simp_all add: R_def analyzeDeviceMemory_def tl sub Let_def flip: req0 less_eq_ByteCount_def)
  then have ratio: "unit_interval (fr_fragmentationRatio (R bs req))" using u by simp
  have unsat: "\<not> fr_shapeSatisfiable (R bs req) \<Longrightarrow> fr_stranded (R bs req) = t \<and> fr_fragmentationRatio (R bs req) = d_zero"
    unfolding sat by (simp add: R_def analyzeDeviceMemory_def tl Let_def req0 less_eq_ByteCount_def bc_value_zero)
  show ?thesis using t sat some all sum ratio unsat by (auto simp: total)
qed

theorem deviceMemory_correct_witness:
  "fr_shapeSatisfiable (analyzeDeviceMemory [ByteCount 4, ByteCount 8] (ByteCount 6))"
proof -
  have "(\<Sum>b \<leftarrow> [ByteCount 4, ByteCount 8]. bc_nat b) \<le> u64_cap" by (simp add: bc_nat_def u64_cap_def)
  then show ?thesis
    using deviceMemory_correct [of "[ByteCount 4, ByteCount 8]" "ByteCount 6"] by (simp add: less_eq_ByteCount_def)
qed

text \<open>
  The fleet. The usable devices are counted and listed exactly; total, stranded and usable
  memory are saturated sums over all, the unusable and the usable devices, so stranded memory never
  exceeds the total; the group is satisfiable exactly when enough devices are usable; and the ratio is
  between 0 and 1.
\<close>

theorem fragmentation_correct:
  defines "R \<equiv> \<lambda>ds dem g. analyzeFragmentation ds dem g" and "ok \<equiv> \<lambda>dem. device_usable (dm_minContiguousVram dem)"
  assumes "length ds < 2 ^ 64"
  shows "unat (dc_value (fr_usableDevices (R ds dem g))) = length (filter (ok dem) ds) \<and>
     fr_usableDeviceIndices (R ds dem g) = filter (\<lambda>i. ok dem (ds ! i)) [0 ..< length ds] \<and>
     bc_nat (fr_totalFreeMemory (R ds dem g)) = min u64_cap (\<Sum>d \<leftarrow> ds. bc_nat (dev_vramFree d)) \<and>
     bc_nat (fr_stranded (R ds dem g)) = min u64_cap (\<Sum>d \<leftarrow> filter (\<lambda>d. \<not> ok dem d) ds. bc_nat (dev_vramFree d)) \<and>
     fr_stranded (R ds dem g) \<le> fr_totalFreeMemory (R ds dem g) \<and>
     (fr_groupSatisfiable (R ds dem g) \<longleftrightarrow>
        unat (dc_value (dm_minAccelerators dem)) \<le> length (filter (ok dem) ds) \<and> g \<le> length (filter (ok dem) ds)) \<and>
     unit_interval (fr_fragmentationRatio (R ds dem g))"
proof -
  let ?p = "dm_minContiguousVram dem"
  obtain r t u i where f: "fold (fleet_step ?p) ds (FragmentationReport_default, bc_zero, bc_zero, 0) = (r, t, u, i)"
    by (cases "fold (fleet_step ?p) ds (FragmentationReport_default, bc_zero, bc_zero, 0)")
  note ff = fleet_fold [OF f]
  have "length (filter (ok dem) ds) < 2 ^ 64"
    using assms(3) length_filter_le [of "ok dem" ds] by linarith
  then have count: "unat (dc_value (fr_usableDevices r)) = length (filter (ok dem) ds)"
    using ff by (simp add: FragmentationReport_default_def ok_def unat_u64_of_nat)
  have idx: "fr_usableDeviceIndices r = filter (\<lambda>i. ok dem (ds ! i)) [0 ..< length ds]"
    using ff by (simp add: FragmentationReport_default_def ok_def enumerate_eq_zip zip_upt_nth filter_map comp_def)
  have st: "bc_nat (stranded_memory ?p ds) = min u64_cap (\<Sum>d \<leftarrow> filter (\<lambda>d. \<not> ok dem d) ds. bc_nat (dev_vramFree d))"
    by (simp add: stranded_memory_nat ok_def)
  have t: "bc_nat t = min u64_cap (\<Sum>d \<leftarrow> ds. bc_nat (dev_vramFree d))" using ff by simp
  have "(\<Sum>d \<leftarrow> filter P xs. h d) \<le> (\<Sum>d \<leftarrow> xs. h d :: nat)" for P xs and h :: "DeviceInfo \<Rightarrow> nat"
    by (induction xs) (simp_all add: trans_le_add2)
  then have le: "stranded_memory ?p ds \<le> t" by (simp add: bc_nat_le st t min.coboundedI2)
  then have "unit_interval (fr_fragmentationRatio (R ds dem g))"
    if "0 < bc_value t \<and> 0 < bc_value ?p"
    using that clamp_unit [OF u64_fraction(1) [of "bc_value (stranded_memory ?p ds)" "bc_value t"]]
    by (simp add: R_def analyzeFragmentation_def f Let_def less_eq_ByteCount_def)
  moreover have "fr_fragmentationRatio (R ds dem g) = fr_fragmentationRatio r" if "\<not> (0 < bc_value t \<and> 0 < bc_value ?p)"
    using that by (auto simp: R_def analyzeFragmentation_def Let_def f)
  moreover have "fr_fragmentationRatio r = d_zero"
    using fleet_fold_ratio [OF f] by (simp add: FragmentationReport_default_def)
  ultimately have ratio: "unit_interval (fr_fragmentationRatio (R ds dem g))"
    by (cases "0 < bc_value t \<and> 0 < bc_value ?p") simp_all
  have fields: "fr_usableDevices (R ds dem g) = fr_usableDevices r"
      "fr_usableDeviceIndices (R ds dem g) = fr_usableDeviceIndices r"
      "fr_totalFreeMemory (R ds dem g) = t" "fr_stranded (R ds dem g) = stranded_memory ?p ds"
      "fr_groupSatisfiable (R ds dem g) \<longleftrightarrow> dc_value (dm_minAccelerators dem) \<le> dc_value (fr_usableDevices r) \<and>
         (g = 0 \<or> g \<le> unat (dc_value (fr_usableDevices r)))"
    by (simp_all add: R_def analyzeFragmentation_def f Let_def)
  show ?thesis
    using ratio by (auto simp: fields count idx t st le word_le_nat_alt)
qed

theorem fragmentation_correct_witness:
  "fr_usableDeviceIndices (analyzeFragmentation [DeviceInfo_default, DeviceInfo_default\<lparr>dev_health := Healthy\<rparr>]
     WorkloadDemand_default 0) = [1]"
proof -
  let ?ds = "[DeviceInfo_default, DeviceInfo_default\<lparr>dev_health := Healthy\<rparr>]"
  have "[0 ..< length ?ds] = [0, 1]" by (simp add: upt_rec)
  moreover have "\<not> device_usable bc_zero DeviceInfo_default"
      "device_usable bc_zero (DeviceInfo_default\<lparr>dev_health := Healthy\<rparr>)"
    by (simp_all add: device_usable_def DeviceInfo_default_def analyzeDeviceMemory_def bc_value_zero)
  ultimately show ?thesis
    using fragmentation_correct [of ?ds WorkloadDemand_default 0] by (simp add: WorkloadDemand_default_def)
qed

end
