(* ===== verification/Headroom.thy ===== *)
theory Headroom
  imports Capacity
begin

text \<open>
  Headroom (\<open>headroom/headroom.hpp\<close>): the raw capacity less use, commitments and a safety margin,
  clamped at zero in every dimension.
\<close>

record Headroom =
  hr_raw :: Capacity
  hr_used :: Capacity
  hr_committed :: Capacity
  hr_safetyMargin :: Capacity
  hr_failureMargin :: Capacity
  hr_maintenanceMargin :: Capacity
  hr_conservative :: Capacity
  hr_expected :: Capacity
  hr_workloadSpecific :: Capacity
  hr_capacityConstrained :: bool

definition has_nonpositive :: "Capacity \<Rightarrow> bool" where
  "has_nonpositive c \<longleftrightarrow> (\<exists>(d, v) \<in> set (om_entries c). d_le v d_zero)"

definition computeHeadroom :: "Capacity \<Rightarrow> Capacity \<Rightarrow> Capacity \<Rightarrow> Capacity \<Rightarrow> Headroom" where
  "computeHeadroom raw used committed safetyMargin =
     (let afterUsed = cap_subtractClamp raw used;
          afterCommitted = cap_subtractClamp afterUsed committed;
          conservative = cap_subtractClamp afterCommitted safetyMargin
      in \<lparr>hr_raw = raw, hr_used = used, hr_committed = committed, hr_safetyMargin = safetyMargin,
          hr_failureMargin = safetyMargin, hr_maintenanceMargin = safetyMargin,
          hr_conservative = conservative, hr_expected = conservative, hr_workloadSpecific = om_empty,
          hr_capacityConstrained = has_nonpositive conservative\<rparr>)"

definition headroomForDemand :: "Headroom \<Rightarrow> Capacity \<Rightarrow> Headroom" where
  "headroomForDemand base demandReq =
     base\<lparr>hr_workloadSpecific := cap_subtractClamp (hr_conservative base) demandReq\<rparr>"

lemma has_nonpositive_iff: "capacity_ok c \<Longrightarrow> has_nonpositive c \<longleftrightarrow> (\<exists>d. cap_has c d \<and> cap_amount c d = d_zero)"
proof -
  assume ok: "capacity_ok c"
  have "d_le (cap_amount c d) d_zero \<longleftrightarrow> cap_amount c d = d_zero" for d
    using capacity_okD [OF ok, of d] amount_ok_key [OF capacity_okD [OF ok, of d]]
    by (auto simp: d_cmp_finite intro!: amount_ok_eqI)
  then show ?thesis by (force simp: has_nonpositive_def cap_entry)
qed

lemma computeHeadroom_conservative:
  "hr_conservative (computeHeadroom raw used committed margin) =
     cap_subtractClamp (cap_subtractClamp (cap_subtractClamp raw used) committed) margin"
  by (simp add: computeHeadroom_def Let_def)

section \<open>Properties\<close>

text \<open>
  Headroom of whole amounts is truncated subtraction: the conservative headroom is raw minus
  used minus committed minus margin, never below zero; the remaining headroom for a demand subtracts
  the demand once more; and the constrained flag is set exactly when some dimension named by one of
  the four capacities has nothing left.
\<close>

theorem headroom_exact:
  assumes "cap_rep raw f" and "cap_rep used g" and "cap_rep committed h" and "cap_rep margin k" and "cap_rep req q"
  defines "H \<equiv> computeHeadroom raw used committed margin"
  shows "cap_rep (hr_conservative H) (\<lambda>d. f d - (g d + h d + k d)) \<and>
     cap_rep (hr_workloadSpecific (headroomForDemand H req)) (\<lambda>d. f d - (g d + h d + k d + q d)) \<and>
     (hr_capacityConstrained H \<longleftrightarrow>
        (\<exists>d. (cap_has raw d \<or> cap_has used d \<or> cap_has committed d \<or> cap_has margin d) \<and> f d \<le> g d + h d + k d))"
proof -
  have c: "cap_rep (hr_conservative H) (\<lambda>d. f d - (g d + h d + k d))"
    using cap_rep_subtractClamp [OF cap_rep_subtractClamp [OF cap_rep_subtractClamp [OF assms(1,2)] assms(3)] assms(4)]
    by (simp add: H_def computeHeadroom_conservative)
  then have w: "cap_rep (hr_workloadSpecific (headroomForDemand H req)) (\<lambda>d. f d - (g d + h d + k d + q d))"
    using cap_rep_subtractClamp [OF c assms(5)] by (simp add: headroomForDemand_def)
  have z: "cap_amount (hr_conservative H) d = d_zero \<longleftrightarrow> f d \<le> g d + h d + k d" for d
    using cap_repD [OF c, of d] d_of_nat_zero_iff [of "f d - (g d + h d + k d)"] by (auto simp: d_eq_def)
  have has: "cap_has (hr_conservative H) d \<longleftrightarrow> cap_has raw d \<or> cap_has used d \<or> cap_has committed d \<or> cap_has margin d" for d
    by (auto simp: H_def computeHeadroom_conservative cap_subtractClamp_has)
  have "hr_capacityConstrained H \<longleftrightarrow> has_nonpositive (hr_conservative H)"
    by (simp add: H_def computeHeadroom_def Let_def)
  then show ?thesis using c w z has has_nonpositive_iff [OF cap_rep_ok [OF c]] by simp
qed

theorem headroom_exact_witness:
  "cap_amount (hr_conservative (computeHeadroom (whole [(VramBytes, 10)]) (whole [(VramBytes, 3)])
     (whole [(VramBytes, 2)]) om_empty)) VramBytes = d_of_nat 5"
proof -
  have r: "cap_rep (whole [(VramBytes, n)]) ((\<lambda>_. 0)(VramBytes := n))" if "n < 2 ^ 53" for n
    using whole_rep [of "[(VramBytes, n)]"] that by simp
  show ?thesis
    using headroom_exact [OF r [of 10] r [of 3] r [of 2] cap_rep_empty cap_rep_empty] by (simp add: cap_rep_def)
qed

end
