(* ===== verification/Earliest_Fit.thy ===== *)
theory Earliest_Fit
  imports Fleet Forecast
begin

text \<open>
  Earliest fit (\<open>query/earliest_fit.hpp\<close>): the fast search over event boundaries and the slow
  reference search over a time grid. Instants are 64-bit; an addition or subtraction that overflows
  is undefined and ends in a fault.
\<close>

record EarliestFitResult =
  ef_found :: bool
  ef_start :: TimePoint
  ef_end :: TimePoint
  ef_conservativeStart :: TimePoint
  ef_capacityAtFit :: Capacity
  ef_candidatesChecked :: nat
  ef_modeConservative :: bool

definition EarliestFitResult_default :: EarliestFitResult where
  "EarliestFitResult_default = \<lparr>ef_found = False, ef_start = 0, ef_end = 0, ef_conservativeStart = 0,
     ef_capacityAtFit = om_empty, ef_candidatesChecked = 0, ef_modeConservative = False\<rparr>"

section \<open>The fast search\<close>

definition candidateStarts ::
  "Timeline \<Rightarrow> TimePoint \<Rightarrow> TimePoint \<Rightarrow> DurationNs \<Rightarrow> fault + TimePoint list" where
  "candidateStarts tml earliestStart horizon duration =
     bindR (sub64 horizon duration) (\<lambda>latestPossible.
       Inr (remdups_adj (sort (earliestStart #
         map ev_time (filter (\<lambda>e. earliestStart \<le> ev_time e \<and> ev_time e \<le> latestPossible) (tl_events tml))))))"

fun fit_scan :: "Timeline \<Rightarrow> Capacity \<Rightarrow> DurationNs \<Rightarrow> TimePoint list \<Rightarrow> EarliestFitResult \<Rightarrow> fault + EarliestFitResult"
where
  "fit_scan tml req duration [] r = Inr r"
| "fit_scan tml req duration (t # ts) r =
     (let r1 = r\<lparr>ef_candidatesChecked := ef_candidatesChecked r + 1\<rparr>
      in bindR (add64 t duration) (\<lambda>stop.
         bindR (rangeMin tml t stop) (\<lambda>win.
           if cap_satisfies win req
           then Inr (r1\<lparr>ef_found := True, ef_start := t, ef_end := stop, ef_capacityAtFit := win\<rparr>)
           else fit_scan tml req duration ts r1)))"

definition earliestFit ::
  "Timeline \<Rightarrow> WorkloadDemand \<Rightarrow> TimePoint \<Rightarrow> DurationNs \<Rightarrow> TimePoint \<Rightarrow> fault + EarliestFitResult" where
  "earliestFit tml demand earliestStart duration horizon =
     (if duration < 0 \<or> horizon \<le> earliestStart then Inr EarliestFitResult_default
      else bindR (candidateStarts tml earliestStart horizon duration) (\<lambda>starts.
        fit_scan tml (dm_requirements demand) duration starts EarliestFitResult_default))"

section \<open>The slow reference search\<close>

fun slow_walk :: "TimePoint \<Rightarrow> TimePoint \<Rightarrow> CapacityEvent list \<Rightarrow> Capacity \<Rightarrow> Capacity \<Rightarrow> Capacity \<times> Capacity" where
  "slow_walk t stop [] best cur = (best, cur)"
| "slow_walk t stop (e # es) best cur =
     (if ev_time e \<le> t then slow_walk t stop es best cur
      else if stop \<le> ev_time e then (best, cur)
      else let best1 = cap_min best cur; cur1 = applyDelta cur (ev_delta e); best2 = cap_min best1 cur1
           in slow_walk t stop es best2 cur1)"

text \<open>The grid loop. Its caller has checked that the step is positive, which is why it ends.\<close>

function slow_loop ::
  "Timeline \<Rightarrow> Capacity \<Rightarrow> DurationNs \<Rightarrow> TimePoint \<Rightarrow> TimePoint \<Rightarrow> TimePoint \<Rightarrow> fault + EarliestFitResult"
where
  "slow_loop tml req duration horizon step t =
     (if step \<le> 0 then Inr EarliestFitResult_default
      else bindR (add64 t duration) (\<lambda>stop.
        if \<not> stop \<le> horizon then Inr EarliestFitResult_default
        else bindR (capacityAt tml t) (\<lambda>c.
          let (best, cur) = slow_walk t stop (tl_events tml) c c; win = cap_min best cur
          in if cap_satisfies win req
             then Inr (EarliestFitResult_default\<lparr>ef_found := True, ef_start := t, ef_end := stop,
                         ef_capacityAtFit := win\<rparr>)
             else bindR (sub64 horizon duration) (\<lambda>latest.
               if latest < t then Inr EarliestFitResult_default
               else bindR (add64 t step) (slow_loop tml req duration horizon step)))))"
  by pat_completeness auto
termination
  by (relation "measure (\<lambda>(tml, req, duration, horizon, step, t). nat (horizon - duration - t + 1))") auto

declare slow_loop.simps [simp del]

definition slowReferenceEarliestFit ::
  "Timeline \<Rightarrow> WorkloadDemand \<Rightarrow> TimePoint \<Rightarrow> DurationNs \<Rightarrow> TimePoint \<Rightarrow> TimePoint \<Rightarrow> fault + EarliestFitResult"
where
  "slowReferenceEarliestFit tml demand earliestStart duration horizon step =
     (if duration < 0 \<or> horizon \<le> earliestStart \<or> step \<le> 0 then Inr EarliestFitResult_default
      else slow_loop tml (dm_requirements demand) duration horizon step earliestStart)"

section \<open>The window of a start\<close>

text \<open>
  The specification: a start fits when every capacity the window visits satisfies the requirement,
  the one at the start included.
\<close>

definition cap_of :: "Timeline \<Rightarrow> TimePoint \<Rightarrow> Capacity" where
  "cap_of tml t = curve (tl_base tml) (tl_events tml) t"

definition fits :: "Timeline \<Rightarrow> Capacity \<Rightarrow> DurationNs \<Rightarrow> TimePoint \<Rightarrow> bool" where
  "fits tml req duration t \<longleftrightarrow>
     (\<forall>x \<in> visited (cap_of tml t) (window (tl_events tml) t (t + duration)). cap_satisfies x req)"

definition window_min :: "Timeline \<Rightarrow> TimePoint \<Rightarrow> TimePoint \<Rightarrow> Capacity" where
  "window_min tml t stop = walk_result cap_min (window (tl_events tml) t stop) (cap_of tml t, cap_of tml t)"

definition req_ok :: "Capacity \<Rightarrow> bool" where
  "req_ok req \<longleftrightarrow> capacity_ok req \<and> (\<forall>d. cap_has req d \<longrightarrow> 0 < d_key (cap_amount req d))"

definition dims_present :: "Capacity \<Rightarrow> Capacity \<Rightarrow> bool" where
  "dims_present c req \<longleftrightarrow> (\<forall>d. cap_has req d \<longrightarrow> cap_has c d)"

lemma satisfies_key:
  "capacity_ok c \<Longrightarrow> capacity_ok req \<Longrightarrow>
     cap_satisfies c req \<longleftrightarrow> (\<forall>d. cap_has req d \<longrightarrow> d_key (cap_amount req d) \<le> d_key (cap_amount c d))"
  by (force simp: cap_satisfies_def cap_entry d_cmp_finite capacity_okD not_less)

lemma satisfies_present:
  assumes "req_ok req" and "capacity_ok c" and "cap_satisfies c req"
  shows "dims_present c req"
  unfolding dims_present_def
proof (intro allI impI)
  fix d
  assume d: "cap_has req d"
  have "capacity_ok req" using assms(1) by (simp add: req_ok_def)
  then have "d_key (cap_amount req d) \<le> d_key (cap_amount c d)"
    using d assms(3) satisfies_key [OF assms(2)] by blast
  moreover have "0 < d_key (cap_amount req d)" using assms(1) d by (simp add: req_ok_def)
  ultimately show "cap_has c d" using cap_not_has [of c d] by force
qed

lemma walk_result_ok: "capacity_ok best \<Longrightarrow> capacity_ok cur \<Longrightarrow> capacity_ok (walk_result cap_min es (best, cur))"
proof (induction es arbitrary: best cur)
  case (Cons e es)
  then show ?case by (simp add: walk_result_Cons visit_def Let_def applyDelta_ok cap_min_ok)
qed (simp add: walk_result_def cap_min_ok)

lemma walk_min_fits:
  assumes "capacity_ok c" and "req_ok req"
  shows "\<forall>x \<in> visited c es. cap_satisfies x req \<Longrightarrow> cap_satisfies (walk_result cap_min es (c, c)) req"
    and "dims_present c req \<Longrightarrow> cap_satisfies (walk_result cap_min es (c, c)) req \<Longrightarrow> \<forall>x \<in> visited c es. cap_satisfies x req"
proof -
  let ?w = "walk_result cap_min es (c, c)"
  have r: "capacity_ok req" and w: "capacity_ok ?w" using assms by (simp_all add: req_ok_def walk_result_ok)
  have v: "capacity_ok x" if "x \<in> visited c es" for x using visited_ok [OF assms(1) that] .
  show "cap_satisfies ?w req" if s: "\<forall>x \<in> visited c es. cap_satisfies x req"
    unfolding satisfies_key [OF w r]
  proof (intro allI impI)
    fix d
    assume d: "cap_has req d"
    obtain x where "x \<in> visited c es" "cap_amount ?w d = cap_amount x d"
      using walk_min_attained [of c c es d] by (auto simp: visited_def)
    then show "d_key (cap_amount req d) \<le> d_key (cap_amount ?w d)"
      using s d satisfies_key [OF v r] by force
  qed
  show "\<forall>x \<in> visited c es. cap_satisfies x req" if "dims_present c req" and s: "cap_satisfies ?w req"
  proof
    fix x
    assume x: "x \<in> visited c es"
    have "d_key (cap_amount req d) \<le> d_key (cap_amount x d)" if d: "cap_has req d" for d
    proof -
      have "cap_has c d" using that \<open>dims_present c req\<close> by (simp add: dims_present_def)
      then have "d_key (cap_amount ?w d) \<le> d_key (cap_amount x d)"
        using x by (intro walk_min_lower assms(1)) auto
      moreover have "d_key (cap_amount req d) \<le> d_key (cap_amount ?w d)"
        using s d satisfies_key [OF w r] by simp
      ultimately show ?thesis by simp
    qed
    then show "cap_satisfies x req" using satisfies_key [OF v [OF x] r] by simp
  qed
qed

lemma cap_of_ok: "capacity_ok (tl_base tml) \<Longrightarrow> capacity_ok (cap_of tml t)"
  by (simp add: cap_of_def curve_def cap_after_ok)

lemma fits_window_min:
  assumes "capacity_ok (tl_base tml)" and "req_ok req"
  shows "fits tml req duration t \<Longrightarrow> cap_satisfies (window_min tml t (t + duration)) req"
    and "dims_present (cap_of tml t) req \<Longrightarrow> cap_satisfies (window_min tml t (t + duration)) req \<Longrightarrow> fits tml req duration t"
  unfolding fits_def window_min_def using walk_min_fits [OF cap_of_ok [OF assms(1)] assms(2)] by blast+

lemma rangeMin_window:
  "frozen tml \<Longrightarrow> i64_min \<le> t \<Longrightarrow> rangeMin tml t stop = Inr (window_min tml t stop)"
  by (simp add: rangeMin_frozen window_min_def cap_of_def)

lemma slow_walk_window:
  assumes "frozen tml"
  shows "slow_walk t stop (tl_events tml) c c = fold (visit cap_min) (window (tl_events tml) t stop) (c, c)"
proof -
  have "slow_walk t stop es best cur = fold (visit cap_min) (window es t stop) (best, cur)"
    if "sorted (map ev_time es)" for es best cur
    using that
  proof (induction es arbitrary: best cur)
    case (Cons e es)
    show ?case
    proof (cases "stop \<le> ev_time e")
      case True
      with Cons.prems have "window es t stop = []" by (auto simp: window_def filter_empty_conv)
      then show ?thesis using True Cons by (simp add: window_def)
    next
      case False
      then show ?thesis using Cons by (simp add: window_def visit_def Let_def)
    qed
  qed (simp add: window_def)
  then show ?thesis using assms by (simp add: frozen_def)
qed

text \<open>Both searches look at the same window minimum.\<close>

lemma slow_window:
  assumes "frozen tml" and "i64_min \<le> t"
  shows "bindR (capacityAt tml t) (\<lambda>c. let (best, cur) = slow_walk t stop (tl_events tml) c c in Inr (cap_min best cur))
     = rangeMin tml t stop"
  using assms by (simp add: rangeMin_window capacityAt_frozen slow_walk_window window_min_def cap_of_def walk_result_def
      split: prod.split)

section \<open>Candidates suffice\<close>

lemma visited_filter:
  "sorted (map ev_time w) \<Longrightarrow> visited c (filter (\<lambda>e. ev_time e < a) w) \<subseteq> visited c w"
proof (induction w arbitrary: c)
  case (Cons e w)
  show ?case
  proof (cases "ev_time e < a")
    case False
    with Cons.prems have "filter (\<lambda>e. ev_time e < a) w = []" by (auto simp: filter_empty_conv)
    then show ?thesis using False by simp
  qed (use Cons in auto)
qed simp

text \<open>Between two events nothing changes, so a start may move back to the last event before it.\<close>

lemma fits_earlier:
  assumes "frozen tml" and "fits tml req duration t" and "s \<le> t" and "0 \<le> duration"
    and none: "\<forall>e \<in> set (tl_events tml). \<not> (s < ev_time e \<and> ev_time e \<le> t)"
  shows "fits tml req duration s"
proof -
  have cap: "cap_of tml s = cap_of tml t"
    using none assms(3) by (auto simp: cap_of_def curve_def not_less intro!: arg_cong2 [where f = cap_after] filter_cong)
  have win: "window (tl_events tml) s (s + duration) =
      filter (\<lambda>e. ev_time e < s + duration) (window (tl_events tml) t (t + duration))"
    using none assms(3) by (auto simp: window_def not_le intro!: filter_cong)
  have "sorted (map ev_time (window (tl_events tml) t (t + duration)))"
    using assms(1) by (simp add: frozen_def window_def sorted_filter)
  then show ?thesis
    using assms(2) visited_filter unfolding fits_def cap win by blast
qed

lemma fits_candidate:
  assumes "frozen tml" and "fits tml req duration t" and "es \<le> t" and "0 \<le> duration"
  obtains s where "s \<le> t" "fits tml req duration s" "s = es \<or> (es \<le> s \<and> s \<in> ev_time ` set (tl_events tml))"
proof -
  let ?E = "{x \<in> ev_time ` set (tl_events tml). es < x \<and> x \<le> t}"
  show ?thesis
  proof (cases "?E = {}")
    case True
    then have "fits tml req duration es" using fits_earlier [OF assms(1-4)] by blast
    then show ?thesis using that assms(3) by blast
  next
    case False
    have fin: "finite ?E" by simp
    have m: "Max ?E \<in> ?E" using Max_in [OF fin False] .
    have "\<not> (Max ?E < ev_time e \<and> ev_time e \<le> t)" if "e \<in> set (tl_events tml)" for e
    proof
      assume e: "Max ?E < ev_time e \<and> ev_time e \<le> t"
      then have "ev_time e \<in> ?E" using that m by auto
      then have "ev_time e \<le> Max ?E" using fin by (rule Max_ge [rotated])
      then show False using e by simp
    qed
    then have "fits tml req duration (Max ?E)" using fits_earlier [OF assms(1,2) _ assms(4)] m by blast
    then show ?thesis using that [of "Max ?E"] m by auto
  qed
qed

section \<open>What the scans return\<close>

lemma fit_scan_find:
  assumes "frozen tml" and "\<forall>t \<in> set ts. i64_min \<le> t \<and> in_i64 (t + duration)"
  shows "\<exists>r'. fit_scan tml req duration ts r = Inr r' \<and>
     (case find (\<lambda>t. cap_satisfies (window_min tml t (t + duration)) req) ts of
        None \<Rightarrow> ef_found r' = ef_found r
      | Some t \<Rightarrow> ef_found r' \<and> ef_start r' = t \<and> ef_end r' = t + duration \<and>
          ef_capacityAtFit r' = window_min tml t (t + duration))"
  using assms(2)
proof (induction ts arbitrary: r)
  case (Cons t ts)
  then show ?case
    using rangeMin_window [OF assms(1), of t] Cons.IH [of "r\<lparr>ef_candidatesChecked := ef_candidatesChecked r + 1\<rparr>"]
    by (simp add: add64_def Let_def cong: option.case_cong)
qed simp

lemma find_first:
  assumes "sorted ts" and "find P ts = Some t"
  shows "t \<in> set ts" and "P t" and "s \<in> set ts \<Longrightarrow> P s \<Longrightarrow> t \<le> s"
  using assms by (induction ts) (auto split: if_splits)

definition is_candidate :: "Timeline \<Rightarrow> TimePoint \<Rightarrow> TimePoint \<Rightarrow> TimePoint \<Rightarrow> bool" where
  "is_candidate tml es latest t \<longleftrightarrow> t = es \<or> (es \<le> t \<and> t \<le> latest \<and> t \<in> ev_time ` set (tl_events tml))"

lemma candidates:
  assumes "in_i64 (horizon - duration)"
  obtains ts where "candidateStarts tml es horizon duration = Inr ts" "sorted ts"
    "set ts = Collect (is_candidate tml es (horizon - duration))"
proof
  let ?ts = "remdups_adj (sort (es #
    map ev_time (filter (\<lambda>e. es \<le> ev_time e \<and> ev_time e \<le> horizon - duration) (tl_events tml))))"
  show "candidateStarts tml es horizon duration = Inr ?ts" using assms by (simp add: candidateStarts_def sub64_def)
  show "sorted ?ts" by (rule sorted_remdups_adj) (simp add: sorted_insort)
  show "set ?ts = Collect (is_candidate tml es (horizon - duration))"
    by (auto simp: set_insort_key is_candidate_def)
qed

definition search_domain :: "TimePoint \<Rightarrow> DurationNs \<Rightarrow> TimePoint \<Rightarrow> bool" where
  "search_domain es duration horizon \<longleftrightarrow> 0 \<le> duration \<and> es < horizon \<and> i64_min \<le> es \<and>
     in_i64 horizon \<and> in_i64 (es + duration) \<and> in_i64 (horizon - duration)"

text \<open>The outcome of the fast search: the least candidate whose window minimum satisfies the requirement.\<close>

definition sat_at :: "Timeline \<Rightarrow> Capacity \<Rightarrow> DurationNs \<Rightarrow> TimePoint \<Rightarrow> bool" where
  "sat_at tml req duration t \<longleftrightarrow> cap_satisfies (window_min tml t (t + duration)) req"

lemma earliestFit_result:
  assumes "frozen tml" and "search_domain es duration horizon"
  obtains r where "earliestFit tml demand es duration horizon = Inr r"
    "ef_found r \<longrightarrow> is_candidate tml es (horizon - duration) (ef_start r) \<and>
       sat_at tml (dm_requirements demand) duration (ef_start r) \<and> ef_end r = ef_start r + duration \<and>
       ef_capacityAtFit r = window_min tml (ef_start r) (ef_start r + duration)"
    "\<forall>t. is_candidate tml es (horizon - duration) t \<longrightarrow> sat_at tml (dm_requirements demand) duration t \<longrightarrow>
       ef_found r \<and> ef_start r \<le> t"
proof -
  let ?find = "find (\<lambda>t. cap_satisfies (window_min tml t (t + duration)) (dm_requirements demand))"
  have d: "0 \<le> duration" "es < horizon" "i64_min \<le> es" "in_i64 horizon" "in_i64 (es + duration)" "in_i64 (horizon - duration)"
    using assms(2) by (simp_all add: search_domain_def)
  obtain ts where ts: "candidateStarts tml es horizon duration = Inr ts" "sorted ts"
      "set ts = Collect (is_candidate tml es (horizon - duration))"
    using candidates [OF d(6), of tml es] .
  have "\<forall>t \<in> set ts. i64_min \<le> t \<and> in_i64 (t + duration)"
    using d by (auto simp: ts(3) is_candidate_def in_i64_def)
  from fit_scan_find [OF assms(1) this] obtain r where
    r: "fit_scan tml (dm_requirements demand) duration ts EarliestFitResult_default = Inr r"
    and f: "case ?find ts of
       None \<Rightarrow> ef_found r = ef_found EarliestFitResult_default
     | Some t \<Rightarrow> ef_found r \<and> ef_start r = t \<and> ef_end r = t + duration \<and>
         ef_capacityAtFit r = window_min tml t (t + duration)" by meson
  show ?thesis
  proof (rule that)
    show "earliestFit tml demand es duration horizon = Inr r"
      using r ts(1) d by (simp add: earliestFit_def)
    show "ef_found r \<longrightarrow> is_candidate tml es (horizon - duration) (ef_start r) \<and>
       sat_at tml (dm_requirements demand) duration (ef_start r) \<and> ef_end r = ef_start r + duration \<and>
       ef_capacityAtFit r = window_min tml (ef_start r) (ef_start r + duration)"
    proof (cases "?find ts")
      case None
      then show ?thesis using f by (simp add: EarliestFitResult_default_def)
    next
      case (Some u)
      then show ?thesis using f find_first(1,2) [OF ts(2) Some] by (simp add: sat_at_def ts(3))
    qed
    show "\<forall>t. is_candidate tml es (horizon - duration) t \<longrightarrow> sat_at tml (dm_requirements demand) duration t \<longrightarrow>
       ef_found r \<and> ef_start r \<le> t"
    proof (cases "?find ts")
      case None
      then show ?thesis by (simp add: find_None_iff ts(3) sat_at_def)
    next
      case (Some u)
      then show ?thesis using f find_first(3) [OF ts(2) Some] by (simp add: sat_at_def ts(3))
    qed
  qed
qed

lemma fits_sat:
  assumes "capacity_ok (tl_base tml)" and "req_ok req"
  shows "fits tml req duration t \<Longrightarrow> sat_at tml req duration t"
    and "dims_present (cap_of tml t) req \<Longrightarrow> sat_at tml req duration t \<Longrightarrow> fits tml req duration t"
  unfolding sat_at_def by (rule fits_window_min [OF assms]; assumption)+

text \<open>A fitting start within the horizon has a fitting candidate not after it.\<close>

lemma fits_has_candidate:
  assumes "frozen tml" and "fits tml req duration t" and "es \<le> t" and "0 \<le> duration" and "t \<le> latest"
  obtains s where "s \<le> t" "fits tml req duration s" "is_candidate tml es latest s"
proof -
  from fits_candidate [OF assms(1-4)] obtain s
    where "s \<le> t" "fits tml req duration s" "s = es \<or> (es \<le> s \<and> s \<in> ev_time ` set (tl_events tml))" .
  then show ?thesis using that [of s] assms(5) by (auto simp: is_candidate_def)
qed

text \<open>The grid search returns its first grid point whose window minimum satisfies the requirement.\<close>

definition first_grid_fit :: "Timeline \<Rightarrow> Capacity \<Rightarrow> int \<Rightarrow> int \<Rightarrow> int \<Rightarrow> int \<Rightarrow> EarliestFitResult \<Rightarrow> bool" where
  "first_grid_fit tml req duration horizon step t r \<longleftrightarrow>
     (ef_found r \<longrightarrow> (\<exists>k. ef_start r = t + int k * step \<and> ef_end r = ef_start r + duration \<and> ef_end r \<le> horizon \<and>
        sat_at tml req duration (ef_start r) \<and>
        ef_capacityAtFit r = window_min tml (ef_start r) (ef_end r) \<and>
        (\<forall>i < k. \<not> sat_at tml req duration (t + int i * step)))) \<and>
     (\<not> ef_found r \<longrightarrow> (\<forall>i. t + int i * step + duration \<le> horizon \<longrightarrow> \<not> sat_at tml req duration (t + int i * step)))"

lemma first_grid_fit_step:
  assumes "\<not> sat_at tml req duration t" and "first_grid_fit tml req duration horizon step (t + step) r"
  shows "first_grid_fit tml req duration horizon step t r"
proof -
  let ?P = "sat_at tml req duration"
  have shift: "(\<forall>i < Suc k. \<not> ?P (t + int i * step)) \<longleftrightarrow> (\<forall>i < k. \<not> ?P (t + step + int i * step))" for k
    using assms(1) by (simp add: All_less_Suc2 algebra_simps)
  have "\<exists>k. ef_start r = t + int k * step \<and> ef_end r = ef_start r + duration \<and> ef_end r \<le> horizon \<and>
      ?P (ef_start r) \<and> ef_capacityAtFit r = window_min tml (ef_start r) (ef_end r) \<and> (\<forall>i < k. \<not> ?P (t + int i * step))" if "ef_found r"
  proof -
    from assms(2) that obtain k where "ef_start r = t + step + int k * step" "ef_end r = ef_start r + duration" "ef_end r \<le> horizon"
        "?P (ef_start r)" "ef_capacityAtFit r = window_min tml (ef_start r) (ef_end r)" "\<forall>i < k. \<not> ?P (t + step + int i * step)"
      unfolding first_grid_fit_def by blast
    then show ?thesis using shift [of k] by (intro exI [of _ "Suc k"]) (simp add: algebra_simps)
  qed
  moreover have "\<not> ?P (t + int i * step)" if "\<not> ef_found r" "t + int i * step + duration \<le> horizon" for i
    using assms that by (cases i) (auto simp: first_grid_fit_def algebra_simps)
  ultimately show ?thesis by (auto simp: first_grid_fit_def)
qed

lemma slow_loop_first:
  assumes "frozen tml" and "0 < step" and "i64_min \<le> t" and "in_i64 (t + duration)"
    and "in_i64 (horizon + step)" and "in_i64 (horizon - duration)" and "0 \<le> duration"
  shows "\<exists>r. slow_loop tml req duration horizon step t = Inr r \<and> first_grid_fit tml req duration horizon step t r"
  using assms(3,4)
proof (induction "nat (horizon - duration - t + 1)" arbitrary: t rule: less_induct)
  case less
  note eq = slow_loop.simps [of tml req duration horizon step t]
  let ?P = "sat_at tml req duration"
  have beyond: "\<not> t + int i * step + duration \<le> horizon" if "horizon < t + duration" for i
    using that assms(2) mult_nonneg_nonneg [of "int i" step] by linarith
  have walk: "capacityAt tml t = Inr (cap_of tml t)"
      "(let (best, cur) = slow_walk t (t + duration) (tl_events tml) (cap_of tml t) (cap_of tml t) in cap_min best cur) =
       window_min tml t (t + duration)"
    using less.prems(1) assms(1)
    by (simp_all add: capacityAt_frozen cap_of_def slow_walk_window window_min_def walk_result_def split: prod.split)
  show ?case
  proof (cases "t + duration \<le> horizon \<and> \<not> ?P t")
    case False
    then show ?thesis
      using less.prems(2) assms(2) walk beyond
      by (cases "t + duration \<le> horizon")
        (auto simp: first_grid_fit_def sat_at_def eq add64_def EarliestFitResult_default_def Let_def split: prod.splits
          intro!: exI [of _ "0 :: nat"])
  next
    case True
    have t': "i64_min \<le> t + step" "in_i64 (t + step)" "in_i64 (t + step + duration)"
      using True less.prems assms(2,5,7) by (auto simp: in_i64_def)
    have "nat (horizon - duration - (t + step) + 1) < nat (horizon - duration - t + 1)"
      using True assms(2) by simp
    from less.hyps [OF this t'(1,3)] obtain r where r: "slow_loop tml req duration horizon step (t + step) = Inr r"
        and first: "first_grid_fit tml req duration horizon step (t + step) r"
      by blast
    have "slow_loop tml req duration horizon step t = Inr r"
      using True less.prems(2) assms(2,6) t' walk r
      by (simp add: sat_at_def eq add64_def sub64_def Let_def split: prod.splits)
    then show ?thesis using first_grid_fit_step [OF _ first] True by blast
  qed
qed

text \<open>What a start must meet: it is the requested one, or its window ends within the horizon.\<close>

definition allowed_start :: "TimePoint \<Rightarrow> DurationNs \<Rightarrow> TimePoint \<Rightarrow> TimePoint \<Rightarrow> bool" where
  "allowed_start es duration horizon s \<longleftrightarrow> s = es \<or> (es \<le> s \<and> s + duration \<le> horizon)"

lemma earliestFit_least:
  assumes "frozen tml" and "capacity_ok (tl_base tml)" and "req_ok (dm_requirements demand)"
    and "search_domain es duration horizon"
  shows "\<exists>r. earliestFit tml demand es duration horizon = Inr r \<and>
     (ef_found r \<longrightarrow> allowed_start es duration horizon (ef_start r) \<and>
        sat_at tml (dm_requirements demand) duration (ef_start r) \<and> ef_end r = ef_start r + duration \<and>
        ef_capacityAtFit r = window_min tml (ef_start r) (ef_start r + duration)) \<and>
     (\<forall>s. allowed_start es duration horizon s \<longrightarrow> fits tml (dm_requirements demand) duration s \<longrightarrow> ef_found r \<and> ef_start r \<le> s)"
proof -
  let ?req = "dm_requirements demand"
  have d: "0 \<le> duration" using assms(4) by (simp add: search_domain_def)
  obtain r where r: "earliestFit tml demand es duration horizon = Inr r"
    and found: "ef_found r \<longrightarrow> is_candidate tml es (horizon - duration) (ef_start r) \<and> sat_at tml ?req duration (ef_start r) \<and>
        ef_end r = ef_start r + duration \<and> ef_capacityAtFit r = window_min tml (ef_start r) (ef_start r + duration)"
    and least: "\<forall>t. is_candidate tml es (horizon - duration) t \<longrightarrow> sat_at tml ?req duration t \<longrightarrow> ef_found r \<and> ef_start r \<le> t"
    using earliestFit_result [OF assms(1,4), of demand] .
  have all: "ef_found r \<and> ef_start r \<le> s" if s: "allowed_start es duration horizon s" "fits tml ?req duration s" for s
  proof (cases "s = es")
    case True
    then show ?thesis
      using least [rule_format, OF _ fits_sat(1) [OF assms(2,3) s(2)]] by (simp add: is_candidate_def)
  next
    case False
    then have le: "es \<le> s" "s \<le> horizon - duration" using s(1) by (simp_all add: allowed_start_def)
    obtain c where c: "c \<le> s" "fits tml ?req duration c" "is_candidate tml es (horizon - duration) c"
      by (rule fits_has_candidate [OF assms(1) s(2) le(1) d le(2)])
    then show ?thesis using least [rule_format, OF c(3) fits_sat(1) [OF assms(2,3) c(2)]] by simp
  qed
  have "allowed_start es duration horizon (ef_start r)" if "ef_found r"
    using found that by (auto simp: allowed_start_def is_candidate_def)
  then show ?thesis using r all found by blast
qed

section \<open>A small instance\<close>

definition ex_tml :: Timeline where
  "ex_tml = tl_create (whole [(VramBytes, 10)])"

definition ex_demand :: WorkloadDemand where
  "ex_demand = WorkloadDemand_default\<lparr>dm_id := StrongId 1, dm_generation := Generation 1,
     dm_requirements := whole [(VramBytes, 2)]\<rparr>"

lemma whole_single: "0 < n \<Longrightarrow> n < 2 ^ 53 \<Longrightarrow> whole [(d, n)] = om_insert d (d_of_nat n) om_empty"
  by (simp add: whole_def cap_set_whole)

lemma req_ok_single: "0 < n \<Longrightarrow> n < 2 ^ 53 \<Longrightarrow> req_ok (whole [(d, n)])"
  using whole_ok [of "[(d, n)]"] by (auto simp: req_ok_def whole_single d_of_nat_pos)

lemma ex_simps:
  "tl_base ex_tml = whole [(VramBytes, 10)]" "tl_events ex_tml = []" "capacity_ok (tl_base ex_tml)"
  "dm_requirements ex_demand = whole [(VramBytes, 2)]" "req_ok (dm_requirements ex_demand)"
  "search_domain 0 5 100" "cap_of (freeze ex_tml) t = whole [(VramBytes, 10)]"
  by (simp_all add: ex_tml_def tl_create_def ex_demand_def whole_ok req_ok_single search_domain_def in_i64_def
      i64_min_def i64_max_def cap_of_def curve_def)

lemma ex_present: "dims_present (cap_of (freeze ex_tml) t) (dm_requirements ex_demand)"
  by (simp add: ex_simps dims_present_def whole_single)

lemma ex_fits: "fits (freeze ex_tml) (dm_requirements ex_demand) 5 t"
proof -
  have "cap_satisfies (whole [(VramBytes, 10)]) (whole [(VramBytes, 2)])"
    by (subst satisfies_key) (simp_all add: whole_ok, simp add: whole_single d_of_nat_mono)
  then show ?thesis by (simp add: fits_def ex_simps window_def)
qed

lemma ex_min: "sat_at (freeze ex_tml) (dm_requirements ex_demand) 5 t"
  by (rule fits_sat(1)) (simp_all add: ex_simps(3,5) ex_fits)

lemma ex_fast: "\<exists>r. earliestFit (freeze ex_tml) ex_demand 0 5 100 = Inr r \<and> ef_found r"
proof -
  obtain r where "earliestFit (freeze ex_tml) ex_demand 0 5 100 = Inr r"
    "ef_found r \<longrightarrow> is_candidate (freeze ex_tml) 0 (100 - 5) (ef_start r) \<and>
       sat_at (freeze ex_tml) (dm_requirements ex_demand) 5 (ef_start r) \<and> ef_end r = ef_start r + 5 \<and>
       ef_capacityAtFit r = window_min (freeze ex_tml) (ef_start r) (ef_start r + 5)"
    "\<forall>t. is_candidate (freeze ex_tml) 0 (100 - 5) t \<longrightarrow> sat_at (freeze ex_tml) (dm_requirements ex_demand) 5 t \<longrightarrow>
       ef_found r \<and> ef_start r \<le> t"
    using earliestFit_result [OF frozen_freeze ex_simps(6), of ex_tml ex_demand] .
  then show ?thesis using ex_min [of 0] by (auto simp: is_candidate_def)
qed

lemma ex_slow: "\<exists>s. slowReferenceEarliestFit (freeze ex_tml) ex_demand 0 5 100 1 = Inr s \<and> ef_found s"
proof -
  obtain s where s: "slow_loop (freeze ex_tml) (dm_requirements ex_demand) 5 100 1 0 = Inr s"
      "\<not> ef_found s \<longrightarrow> (\<forall>i. 0 + int i * 1 + 5 \<le> 100 \<longrightarrow> \<not> sat_at (freeze ex_tml) (dm_requirements ex_demand) 5 (0 + int i * 1))"
    using slow_loop_first [OF frozen_freeze, of 1 0 5 100 ex_tml "dm_requirements ex_demand"]
    by (auto simp: first_grid_fit_def in_i64_def i64_min_def i64_max_def)
  have "ef_found s" using s(2) ex_min [of 0] by force
  then show ?thesis using s(1) by (simp add: slowReferenceEarliestFit_def)
qed

section \<open>Properties\<close>

text \<open>
  Completeness of the fast search, for every sorting function. It returns without a fault, and whenever any start in the
  search window really fits (every capacity its window visits satisfies the requirement, and the end is
  within the horizon), the search succeeds with a start that is not later.
\<close>

theorem earliestFit_complete:
  assumes "\<And>es. mset (srt es) = mset es" and "\<And>es. sorted (map ev_time (srt es))"
    and "capacity_ok (tl_base tml)" and "req_ok (dm_requirements demand)" and "search_domain es duration horizon"
  shows "\<exists>r. earliestFit (freeze_with srt tml) demand es duration horizon = Inr r \<and>
     (\<forall>t. es \<le> t \<longrightarrow> t + duration \<le> horizon \<longrightarrow> fits (freeze_with srt tml) (dm_requirements demand) duration t \<longrightarrow>
        ef_found r \<and> ef_start r \<le> t)"
proof -
  from assms(1,2) have s: "event_sort srt" by unfold_locales
  note frozen = event_sort.frozen_freeze_with [OF s, of tml]
  let ?tml = "freeze_with srt tml" and ?req = "dm_requirements demand"
  have b: "capacity_ok (tl_base ?tml)" using assms(3) by (simp add: event_sort.freeze_with_simps [OF s])
  have d: "0 \<le> duration" using assms(5) by (simp add: search_domain_def)
  obtain r where r: "earliestFit ?tml demand es duration horizon = Inr r"
      "ef_found r \<longrightarrow> is_candidate ?tml es (horizon - duration) (ef_start r) \<and> sat_at ?tml ?req duration (ef_start r) \<and>
        ef_end r = ef_start r + duration \<and> ef_capacityAtFit r = window_min ?tml (ef_start r) (ef_start r + duration)"
      "\<forall>t. is_candidate ?tml es (horizon - duration) t \<longrightarrow> sat_at ?tml ?req duration t \<longrightarrow> ef_found r \<and> ef_start r \<le> t"
    using earliestFit_result [OF frozen assms(5), of demand] .
  have "ef_found r \<and> ef_start r \<le> t" if t: "es \<le> t" "t + duration \<le> horizon" "fits ?tml ?req duration t" for t
  proof -
    have "t \<le> horizon - duration" using t(2) by simp
    then obtain c where c: "c \<le> t" "fits ?tml ?req duration c" "is_candidate ?tml es (horizon - duration) c"
      by (rule fits_has_candidate [OF frozen t(3,1) d])
    then show ?thesis using r(3) [rule_format, OF c(3) fits_sat(1) [OF b assms(4) c(2)]] c(1) by simp
  qed
  then show ?thesis using r(1) by blast
qed

theorem earliestFit_complete_witness:
  "\<exists>r. earliestFit (freeze ex_tml) ex_demand 0 5 100 = Inr r \<and> ef_found r \<and> ef_start r \<le> 7"
proof -
  obtain r where "earliestFit (freeze ex_tml) ex_demand 0 5 100 = Inr r"
      "\<forall>t. 0 \<le> t \<longrightarrow> t + 5 \<le> 100 \<longrightarrow> fits (freeze ex_tml) (dm_requirements ex_demand) 5 t \<longrightarrow> ef_found r \<and> ef_start r \<le> t"
    using earliestFit_complete [OF stable.srt_mset stable.srt_sorted ex_simps(3,5,6), folded freeze_def] by blast
  then show ?thesis using ex_fits [of 7] by (auto dest: spec [of _ 7])
qed

text \<open>
  C10. Soundness of the fast search, for every sorting function: a reported start is the requested one or an event not before it
  whose window ends within the horizon, the end is start plus duration, the window minimum that is reported satisfies the
  requirement, and no earlier start fits. The reported start fits when the demanded dimensions are present there; without them it
  need not (\<open>earliestFit_absent_dimension\<close>). The requested start is tried without the check against the horizon.
\<close>

theorem earliestFit_sound:
  assumes "\<And>es. mset (srt es) = mset es" and "\<And>es. sorted (map ev_time (srt es))"
    and "capacity_ok (tl_base tml)" and "req_ok (dm_requirements demand)" and "search_domain es duration horizon"
    and "earliestFit (freeze_with srt tml) demand es duration horizon = Inr r" and "ef_found r"
  shows "(dims_present (cap_of (freeze_with srt tml) (ef_start r)) (dm_requirements demand) \<longrightarrow>
        fits (freeze_with srt tml) (dm_requirements demand) duration (ef_start r)) \<and>
     (ef_start r = es \<or> es \<le> ef_start r \<and> ef_end r \<le> horizon \<and> ef_start r \<in> ev_time ` set (tl_events tml)) \<and>
     ef_end r = ef_start r + duration \<and> cap_satisfies (ef_capacityAtFit r) (dm_requirements demand) \<and>
     rangeMin (freeze_with srt tml) (ef_start r) (ef_end r) = Inr (ef_capacityAtFit r) \<and>
     (\<forall>t. es \<le> t \<longrightarrow> t < ef_start r \<longrightarrow> \<not> fits (freeze_with srt tml) (dm_requirements demand) duration t)"
proof -
  from assms(1,2) have s: "event_sort srt" by unfold_locales
  note frozen = event_sort.frozen_freeze_with [OF s, of tml]
  let ?tml = "freeze_with srt tml" and ?req = "dm_requirements demand"
  have b: "capacity_ok (tl_base ?tml)" using assms(3) by (simp add: event_sort.freeze_with_simps [OF s])
  have d: "0 \<le> duration" "i64_min \<le> es" using assms(5) by (simp_all add: search_domain_def)
  obtain r' where r': "earliestFit ?tml demand es duration horizon = Inr r'"
      "ef_found r' \<longrightarrow> is_candidate ?tml es (horizon - duration) (ef_start r') \<and> sat_at ?tml ?req duration (ef_start r') \<and>
        ef_end r' = ef_start r' + duration \<and> ef_capacityAtFit r' = window_min ?tml (ef_start r') (ef_start r' + duration)"
      "\<forall>t. is_candidate ?tml es (horizon - duration) t \<longrightarrow> sat_at ?tml ?req duration t \<longrightarrow> ef_found r' \<and> ef_start r' \<le> t"
    using earliestFit_result [OF frozen assms(5), of demand] .
  have "r' = r" using r'(1) assms(6) by simp
  note r = r'(2) [unfolded this, rule_format, OF assms(7)] and least = r'(3) [unfolded this, rule_format]
  have start: "ef_start r = es \<or> es \<le> ef_start r \<and> ef_end r \<le> horizon \<and> ef_start r \<in> ev_time ` set (tl_events tml)"
    using r by (auto simp: is_candidate_def event_sort.freeze_with_simps [OF s] event_sort.set_srt [OF s])
  then have "i64_min \<le> ef_start r" using d(2) by auto
  then have "rangeMin ?tml (ef_start r) (ef_end r) = Inr (ef_capacityAtFit r)" using r rangeMin_window [OF frozen] by simp
  moreover have "cap_satisfies (ef_capacityAtFit r) ?req" using r by (simp add: sat_at_def)
  moreover have "\<not> fits ?tml ?req duration t" if t: "es \<le> t" "t < ef_start r" for t
  proof
    assume f: "fits ?tml ?req duration t"
    have "t \<le> horizon - duration" using r t by (auto simp: is_candidate_def)
    then obtain c where c: "c \<le> t" "fits ?tml ?req duration c" "is_candidate ?tml es (horizon - duration) c"
      by (rule fits_has_candidate [OF frozen f t(1) d(1)])
    then show False using least [OF c(3) fits_sat(1) [OF b assms(4) c(2)]] t(2) by simp
  qed
  ultimately show ?thesis using fits_sat(2) [OF b assms(4)] r start by blast
qed

theorem earliestFit_sound_witness:
  "\<exists>r. earliestFit (freeze ex_tml) ex_demand 0 5 100 = Inr r \<and> ef_end r = ef_start r + 5 \<and>
     fits (freeze ex_tml) (dm_requirements ex_demand) 5 (ef_start r)"
proof -
  obtain r where r: "earliestFit (freeze ex_tml) ex_demand 0 5 100 = Inr r" "ef_found r" using ex_fast by blast
  from earliestFit_sound [OF stable.srt_mset stable.srt_sorted ex_simps(3,5,6), folded freeze_def, OF r] ex_present r(1)
  show ?thesis by blast
qed

text \<open>
  C11. The fast search agrees with the slow reference on a unit grid, for every sorting function. Both return. Where no start is
  accepted without its demanded dimensions (the defect of \<open>earliestFit_absent_dimension\<close>) and the window of the requested start ends within the
  horizon, one search finds a start exactly when the other does, and then start, end and capacity are the same. When that
  window ends beyond the horizon the reference finds nothing, while the fast search tries the requested start all the same.
\<close>

theorem earliestFit_reference:
  assumes "\<And>es. mset (srt es) = mset es" and "\<And>es. sorted (map ev_time (srt es))"
    and "capacity_ok (tl_base tml)" and "req_ok (dm_requirements demand)" and "search_domain es duration horizon"
    and "in_i64 (horizon + 1)"
    and "\<And>t. allowed_start es duration horizon t \<Longrightarrow> sat_at (freeze_with srt tml) (dm_requirements demand) duration t \<Longrightarrow>
       dims_present (cap_of (freeze_with srt tml) t) (dm_requirements demand)"
  shows "\<exists>r s. earliestFit (freeze_with srt tml) demand es duration horizon = Inr r \<and>
     slowReferenceEarliestFit (freeze_with srt tml) demand es duration horizon 1 = Inr s \<and>
     (if es + duration \<le> horizon
      then (ef_found r \<longleftrightarrow> ef_found s) \<and>
        (ef_found r \<longrightarrow> ef_start r = ef_start s \<and> ef_end r = ef_end s \<and> ef_capacityAtFit r = ef_capacityAtFit s)
      else \<not> ef_found s \<and> (ef_found r \<longleftrightarrow> fits (freeze_with srt tml) (dm_requirements demand) duration es))"
proof -
  from assms(1,2) have so: "event_sort srt" by unfold_locales
  note frozen = event_sort.frozen_freeze_with [OF so, of tml]
  let ?tml = "freeze_with srt tml" and ?req = "dm_requirements demand"
  have b: "capacity_ok (tl_base ?tml)" using assms(3) by (simp add: event_sort.freeze_with_simps [OF so])
  have d: "0 \<le> duration" "es < horizon" "i64_min \<le> es" "in_i64 (es + duration)" "in_i64 (horizon - duration)"
    using assms(5) by (simp_all add: search_domain_def)
  obtain s where s: "slowReferenceEarliestFit ?tml demand es duration horizon 1 = Inr s"
      and first: "first_grid_fit ?tml ?req duration horizon 1 es s"
    using slow_loop_first [OF frozen zero_less_one d(3,4) assms(6) d(5,1), of ?req] d by (auto simp: slowReferenceEarliestFit_def)
  from earliestFit_least [OF frozen b assms(4,5)] obtain r where r: "earliestFit ?tml demand es duration horizon = Inr r"
    and found: "ef_found r \<longrightarrow> allowed_start es duration horizon (ef_start r) \<and> sat_at ?tml ?req duration (ef_start r) \<and>
        ef_end r = ef_start r + duration \<and> ef_capacityAtFit r = window_min ?tml (ef_start r) (ef_start r + duration)"
    and least: "\<forall>t. allowed_start es duration horizon t \<longrightarrow> fits ?tml ?req duration t \<longrightarrow> ef_found r \<and> ef_start r \<le> t"
    by blast
  have sat: "sat_at ?tml ?req duration t \<longleftrightarrow> fits ?tml ?req duration t" if "allowed_start es duration horizon t" for t
    using fits_sat [OF b assms(4)] assms(7) [OF that] by blast
  show ?thesis
  proof (cases "es + duration \<le> horizon")
    case False
    then have "\<not> ef_found s" using first by (auto simp: first_grid_fit_def)
    moreover have "ef_start r = es" if "ef_found r" using found that False by (auto simp: allowed_start_def)
    then have "ef_found r \<longleftrightarrow> fits ?tml ?req duration es"
      using found least sat [of es] by (auto simp: allowed_start_def)
    ultimately show ?thesis using r s False by auto
  next
    case True
    then have allowed: "allowed_start es duration horizon t \<longleftrightarrow> es \<le> t \<and> t + duration \<le> horizon" for t
      by (auto simp: allowed_start_def)
    have grid: "\<exists>i. t = es + int i * 1" if "es \<le> t" for t using that by (intro exI [of _ "nat (t - es)"]) simp
    have rs: "ef_found s \<and> ef_start s \<le> ef_start r" if f: "ef_found r"
    proof -
      obtain i where i: "ef_start r = es + int i * 1" using grid found f allowed by blast
      have w: "ef_start r + duration \<le> horizon" "sat_at ?tml ?req duration (ef_start r)" using found f allowed by blast+
      then have fs: "ef_found s" using first i unfolding first_grid_fit_def by metis
      then obtain k where "ef_start s = es + int k * 1" "\<forall>i < k. \<not> sat_at ?tml ?req duration (es + int i * 1)"
        using first unfolding first_grid_fit_def by blast
      then show ?thesis using fs w(2) i by (metis mult.right_neutral not_less of_nat_le_iff add_left_mono)
    qed
    have sr: "ef_found r \<and> ef_start r \<le> ef_start s \<and> ef_end s = ef_start s + duration \<and>
        ef_capacityAtFit s = window_min ?tml (ef_start s) (ef_end s)" if "ef_found s"
    proof -
      from first that obtain k where k: "ef_start s = es + int k * 1" "ef_end s = ef_start s + duration" "ef_end s \<le> horizon"
          "sat_at ?tml ?req duration (ef_start s)" "ef_capacityAtFit s = window_min ?tml (ef_start s) (ef_end s)"
        unfolding first_grid_fit_def by blast
      have a: "allowed_start es duration horizon (ef_start s)" using k(1-3) by (simp add: allowed)
      then show ?thesis using least sat [OF a] k(2,4,5) by blast
    qed
    then show ?thesis using r s True rs found by (intro exI [of _ r] exI [of _ s]) (auto dest: antisym)
  qed
qed

theorem earliestFit_reference_witness:
  "\<exists>r s. earliestFit (freeze ex_tml) ex_demand 0 5 100 = Inr r \<and>
     slowReferenceEarliestFit (freeze ex_tml) ex_demand 0 5 100 1 = Inr s \<and> ef_found r \<and> ef_found s \<and> ef_start r = ef_start s"
proof -
  have "in_i64 (100 + 1)" by (simp add: in_i64_def i64_min_def i64_max_def)
  from earliestFit_reference [OF stable.srt_mset stable.srt_sorted ex_simps(3,5,6) this, folded freeze_def, OF ex_present]
  show ?thesis using ex_fast by auto
qed

text \<open>
  A demanded dimension that is absent at a start is not counted as zero by the window minimum: on
  an empty base, a release of the demanded amount inside the window makes the search report the
  requested earliest start, although the capacity there is empty and does not satisfy the demand.
\<close>

theorem earliestFit_absent_dimension:
  assumes "0 < n" and "n < 2 ^ 53" and "es < at" and "at < es + duration" and "search_domain es duration horizon"
    and "dm_requirements demand = whole [(d, n)]"
  defines "tml \<equiv> freeze ((tl_create om_empty)\<lparr>tl_events := [mk_event at (whole [(d, n)])]\<rparr>)"
  shows "\<exists>r. earliestFit tml demand es duration horizon = Inr r \<and> ef_found r \<and> ef_start r = es \<and>
     capacityAt tml es = Inr om_empty \<and> \<not> cap_satisfies om_empty (dm_requirements demand) \<and>
     \<not> fits tml (dm_requirements demand) duration es"
proof -
  let ?q = "whole [(d, n)]"
  have f: "frozen tml" "tl_base tml = om_empty" "tl_events tml = [mk_event at ?q]"
    by (simp_all add: tml_def tl_create_def)
  have es: "i64_min \<le> es" using assms(5) by (simp add: search_domain_def)
  have rep: "cap_rep ?q ((\<lambda>_. 0)(d := n))" using whole_rep [of "[(d, n)]"] assms(2) by simp
  have q: "om_entries ?q = [(d, d_of_nat n)]" by (simp add: whole_single [OF assms(1,2)])
  have "cap_rep (applyDelta om_empty ?q) ((\<lambda>_. 0)(d := n))"
    using cap_rep_return [OF cap_rep_empty rep] cap_repD(2) [OF rep] by (simp add: fun_upd_def)
  then have a: "cap_amount (applyDelta om_empty ?q) d = d_of_nat n" by (simp add: cap_rep_def)
  have at_es: "cap_of tml es = om_empty" using assms(3) by (simp add: cap_of_def f curve_def)
  have min_empty: "cap_min om_empty c = c" for c
    by (rule cap_eqI) (simp_all add: cap_min_has cap_min_amount)
  have "window_min tml es (es + duration) = cap_min (applyDelta om_empty ?q) (applyDelta om_empty ?q)"
    using assms(3,4) by (simp add: window_min_def at_es f window_def walk_result_def visit_def Let_def mk_event_def min_empty)
  then have sat: "sat_at tml (dm_requirements demand) duration es"
    by (simp add: sat_at_def assms(6) cap_satisfies_def q cap_min_amount a d_lt_def)
  have unsat: "\<not> cap_satisfies om_empty (dm_requirements demand)"
    using d_of_nat_pos [OF assms(1)] d_of_nat_exact(2) [OF assms(2)]
    by (simp add: assms(6) cap_satisfies_def q d_cmp_finite)
  then have "\<not> fits tml (dm_requirements demand) duration es" by (auto simp: fits_def at_es visited_def)
  moreover obtain r where r: "earliestFit tml demand es duration horizon = Inr r"
      "ef_found r \<longrightarrow> is_candidate tml es (horizon - duration) (ef_start r) \<and> sat_at tml (dm_requirements demand) duration (ef_start r) \<and>
        ef_end r = ef_start r + duration \<and> ef_capacityAtFit r = window_min tml (ef_start r) (ef_start r + duration)"
      "\<forall>t. is_candidate tml es (horizon - duration) t \<longrightarrow> sat_at tml (dm_requirements demand) duration t \<longrightarrow>
        ef_found r \<and> ef_start r \<le> t"
    using earliestFit_result [OF f(1) assms(5), of demand] .
  moreover have "ef_found r" "ef_start r \<le> es" using r(3) sat by (auto simp: is_candidate_def)
  moreover have "es \<le> ef_start r" using r(2) \<open>ef_found r\<close> by (auto simp: is_candidate_def)
  moreover have "capacityAt tml es = Inr om_empty"
    using capacityAt_frozen [OF f(1) es] at_es by (simp add: cap_of_def)
  ultimately show ?thesis using unsat by auto
qed

theorem earliestFit_absent_dimension_witness:
  "\<exists>r. earliestFit (freeze ((tl_create om_empty)\<lparr>tl_events := [mk_event 3 (whole [(VramBytes, 2)])]\<rparr>)) ex_demand 0 5 100 = Inr r \<and>
     ef_found r \<and> ef_start r = 0"
  using earliestFit_absent_dimension [of 2 0 3 5 100 ex_demand VramBytes] ex_simps(4,6) by auto

end
