(* ===== verification/Text_Format.thy ===== *)
theory Text_Format
  imports Binary64
begin

text \<open>
  The text the sources build: \<open>std::to_string\<close> of unsigned integers and of doubles, and
  \<open>std::string::find\<close>.
\<close>

section \<open>Decimal numbers\<close>

definition digit_char :: "nat \<Rightarrow> char" where
  "digit_char d = char_of (48 + d)"

fun dec_digits :: "nat \<Rightarrow> string" where
  "dec_digits n = (if n < 10 then [digit_char n] else dec_digits (n div 10) @ [digit_char (n mod 10)])"

declare dec_digits.simps [simp del]

definition u64_to_string :: "u64 \<Rightarrow> string" where
  "u64_to_string w = dec_digits (unat w)"

definition i64_to_string :: "i64 \<Rightarrow> string" where
  "i64_to_string i = (if i < 0 then CHR ''-'' # dec_digits (nat (- i)) else dec_digits (nat i))"

text \<open>\<open>std::to_string(double)\<close> prints with \<open>%f\<close>: six decimals, rounded to nearest, ties to even.\<close>

definition double_to_string :: "double \<Rightarrow> string" where
  "double_to_string x =
     (let sgn_text = (if d_sign x then ''-'' else '''')
      in if isnan x then sgn_text @ ''nan''
         else if isinf x then sgn_text @ ''inf''
         else let n = rne (mag_val (d_mag x) * 1000000) one_units;
                  frac = dec_digits (n mod 1000000)
              in sgn_text @ dec_digits (n div 1000000) @ ''.'' @ replicate (6 - length frac) CHR ''0'' @ frac)"

text \<open>\<open>%.kf\<close> of \<open>printf\<close>: \<open>k\<close> decimals, rounded the same way.\<close>

definition printf_f :: "nat \<Rightarrow> double \<Rightarrow> string" where
  "printf_f k x =
     (let sgn_text = (if d_sign x then ''-'' else '''')
      in if isnan x then sgn_text @ ''nan''
         else if isinf x then sgn_text @ ''inf''
         else let n = rne (mag_val (d_mag x) * 10 ^ k) one_units;
                  frac = dec_digits (n mod 10 ^ k)
              in sgn_text @ dec_digits (n div 10 ^ k) @
                 (if k = 0 then '''' else ''.'' @ replicate (k - length frac) CHR ''0'' @ frac))"

lemma double_to_string_printf: "double_to_string x = printf_f 6 x"
  by (simp add: double_to_string_def printf_f_def Let_def)

section \<open>Substrings\<close>

fun str_find :: "string \<Rightarrow> string \<Rightarrow> bool" where
  "str_find [] needle \<longleftrightarrow> needle = []"
| "str_find (c # cs) needle \<longleftrightarrow> take (length needle) (c # cs) = needle \<or> str_find cs needle"

lemma str_find_iff: "str_find hay needle \<longleftrightarrow> (\<exists>pre post. hay = pre @ needle @ post)"
proof (induction hay)
  case (Cons c cs)
  have "take (length needle) (c # cs) = needle \<longleftrightarrow> (\<exists>post. c # cs = needle @ post)"
    by (metis append_eq_conv_conj append_take_drop_id)
  then show ?case
    using Cons.IH by (auto simp: Cons_eq_append_conv)
qed simp

section \<open>Decimal printing is injective\<close>

lemma digit_char_eq: "d < 10 \<Longrightarrow> e < 10 \<Longrightarrow> digit_char d = digit_char e \<longleftrightarrow> d = e"
  by (simp add: digit_char_def char_of_eq_iff take_bit_nat_eq_self of_char_of)

lemma digit_chars:
  "digit_char 0 = CHR ''0''" "digit_char 1 = CHR ''1''" "digit_char 2 = CHR ''2''" "digit_char 3 = CHR ''3''" "digit_char 4 = CHR ''4''"
  "digit_char 5 = CHR ''5''" "digit_char 6 = CHR ''6''" "digit_char 7 = CHR ''7''" "digit_char 8 = CHR ''8''" "digit_char 9 = CHR ''9''"
  by (simp_all add: digit_char_def char_of_def bit_iff_odd)

lemma dec_digits_not_Nil [simp]: "dec_digits n \<noteq> []" "[] \<noteq> dec_digits n"
  by (subst dec_digits.simps, simp)+

lemma dec_digits_inj: "dec_digits m = dec_digits n \<Longrightarrow> m = n"
proof (induction m arbitrary: n rule: dec_digits.induct)
  case (1 m)
  show ?case
  proof (cases "m < 10 \<and> n < 10")
    case True
    then show ?thesis using 1(2) by (simp add: dec_digits.simps digit_char_eq)
  next
    case False
    have "\<not> m < 10 \<and> \<not> n < 10"
    proof (rule ccontr)
      assume "\<not> (\<not> m < 10 \<and> \<not> n < 10)"
      then show False using False 1(2)
        by (auto simp: dec_digits.simps [of m] dec_digits.simps [of n])
    qed
    then have "dec_digits (m div 10) = dec_digits (n div 10)" "m mod 10 = n mod 10"
      using 1(2) by (simp_all add: dec_digits.simps [of m] dec_digits.simps [of n] digit_char_eq)
    then have "m div 10 = n div 10" using 1(1) \<open>\<not> m < 10 \<and> \<not> n < 10\<close> by blast
    then show ?thesis using \<open>m mod 10 = n mod 10\<close> by (metis div_mult_mod_eq)
  qed
qed

lemma slash_not_digit: "d < 10 \<Longrightarrow> digit_char d \<noteq> CHR ''/''"
proof
  assume d: "d < 10" and "digit_char d = CHR ''/''"
  then have "(of_char (digit_char d) :: nat) = 47" by simp
  then show False using d by (simp add: digit_char_def of_char_of)
qed

lemma slash_not_in_digits: "CHR ''/'' \<notin> set (dec_digits n)"
proof (induction n rule: dec_digits.induct)
  case (1 n)
  then show ?case
    using slash_not_digit [of n] slash_not_digit [of "n mod 10"] by (subst dec_digits.simps) auto
qed

lemma split_at_first:
  "x \<notin> set xs \<Longrightarrow> x \<notin> set ys \<Longrightarrow> xs @ x # us = ys @ x # vs \<Longrightarrow> xs = ys \<and> us = vs"
proof (induction xs arbitrary: ys)
  case (Cons a xs)
  then show ?case by (cases ys) auto
qed (auto simp: Cons_eq_append_conv)

text \<open>A label ends in the only number after its last slash.\<close>

lemma label_inj:
  assumes "a @ ''/'' @ dec_digits m = b @ ''/'' @ dec_digits n"
  shows "a = b \<and> m = n"
proof -
  have "rev (dec_digits m) @ CHR ''/'' # rev a = rev (dec_digits n) @ CHR ''/'' # rev b"
    using arg_cong [OF assms, of rev] by simp
  then have "rev (dec_digits m) = rev (dec_digits n) \<and> rev a = rev b"
    by (rule split_at_first [rotated 2]) (simp_all add: slash_not_in_digits)
  then show ?thesis using dec_digits_inj by simp
qed

end
