(* ===== verification/Feasibility.thy ===== *)
theory Feasibility
  imports Fragmentation Headroom Forecast Text_Format
begin

text \<open>
  The feasibility query against the current view (\<open>query/outcome.hpp\<close>, \<open>query/feasibility.hpp\<close>). The
  lemmas characterise the positive answer by the constraints it stands for.
\<close>

section \<open>Outcomes and bottlenecks\<close>

datatype Outcome = FitNow | FitFuture | FitWithReducedShape | FitWithLowerHeadroom | NoFitCapacity
  | NoFitFragmentation | NoFitTopology | NoFitCapability | NoFitMemory | NoFitBandwidth | NoFitReservation
  | NoFitDuration | NoFitSloHeadroom | RevalidationRequired | InsufficientEvidence | OutcomeUnknown

fun Outcome_to_string :: "Outcome \<Rightarrow> string" where
  "Outcome_to_string FitNow = ''FIT_NOW''"
| "Outcome_to_string FitFuture = ''FIT_FUTURE''"
| "Outcome_to_string FitWithReducedShape = ''FIT_WITH_REDUCED_SHAPE''"
| "Outcome_to_string FitWithLowerHeadroom = ''FIT_WITH_LOWER_HEADROOM''"
| "Outcome_to_string NoFitCapacity = ''NO_FIT_CAPACITY''"
| "Outcome_to_string NoFitFragmentation = ''NO_FIT_FRAGMENTATION''"
| "Outcome_to_string NoFitTopology = ''NO_FIT_TOPOLOGY''"
| "Outcome_to_string NoFitCapability = ''NO_FIT_CAPABILITY''"
| "Outcome_to_string NoFitMemory = ''NO_FIT_MEMORY''"
| "Outcome_to_string NoFitBandwidth = ''NO_FIT_BANDWIDTH''"
| "Outcome_to_string NoFitReservation = ''NO_FIT_RESERVATION''"
| "Outcome_to_string NoFitDuration = ''NO_FIT_DURATION''"
| "Outcome_to_string NoFitSloHeadroom = ''NO_FIT_SLO_HEADROOM''"
| "Outcome_to_string RevalidationRequired = ''REVALIDATION_REQUIRED''"
| "Outcome_to_string InsufficientEvidence = ''INSUFFICIENT_EVIDENCE''"
| "Outcome_to_string OutcomeUnknown = ''UNKNOWN''"

datatype BottleneckKind = BkCapacity | BkFragmentation | BkTopology | BkCapability | BkMemoryContiguity
  | BkBandwidth | BkReservation | BkSloHeadroom | BkDuration | BkPolicy | BkUncertainty

fun BottleneckKind_to_string :: "BottleneckKind \<Rightarrow> string" where
  "BottleneckKind_to_string BkCapacity = ''CAPACITY''"
| "BottleneckKind_to_string BkFragmentation = ''FRAGMENTATION''"
| "BottleneckKind_to_string BkTopology = ''TOPOLOGY''"
| "BottleneckKind_to_string BkCapability = ''CAPABILITY''"
| "BottleneckKind_to_string BkMemoryContiguity = ''MEMORY_CONTIGUITY''"
| "BottleneckKind_to_string BkBandwidth = ''BANDWIDTH''"
| "BottleneckKind_to_string BkReservation = ''RESERVATION''"
| "BottleneckKind_to_string BkSloHeadroom = ''SLO_HEADROOM''"
| "BottleneckKind_to_string BkDuration = ''DURATION''"
| "BottleneckKind_to_string BkPolicy = ''POLICY''"
| "BottleneckKind_to_string BkUncertainty = ''UNCERTAINTY''"

record Bottleneck =
  bn_kind :: BottleneckKind
  bn_dimension :: Dimension
  bn_message :: string
  bn_nominal :: Capacity
  bn_usable :: Capacity
  bn_committed :: Capacity
  bn_stranded :: Capacity
  bn_reservationId :: ReservationId
  bn_blockingInterval :: Interval
  bn_hasReservation :: bool
  bn_confidence :: Confidence
  bn_freshness :: Freshness

definition conf_lit :: "nat \<Rightarrow> nat \<Rightarrow> Confidence" where
  "conf_lit p q = BoundedFraction (d_lit p q)"

definition Bottleneck_default :: Bottleneck where
  "Bottleneck_default = \<lparr>bn_kind = BkCapacity, bn_dimension = AcceleratorCount, bn_message = [],
     bn_nominal = om_empty, bn_usable = om_empty, bn_committed = om_empty, bn_stranded = om_empty,
     bn_reservationId = sid_default, bn_blockingInterval = iv_default, bn_hasReservation = False,
     bn_confidence = BoundedFraction d_zero, bn_freshness = Fresh\<rparr>"

record FeasibilityResult =
  fz_outcome :: Outcome
  fz_bottleneck :: Bottleneck
  fz_reasons :: "Bottleneck list"
  fz_fitTime :: TimePoint
  fz_mode :: QueryMode
  fz_confidence :: Confidence
  fz_freshness :: Freshness
  fz_reducedShape :: bool

definition FeasibilityResult_default :: FeasibilityResult where
  "FeasibilityResult_default = \<lparr>fz_outcome = OutcomeUnknown, fz_bottleneck = Bottleneck_default,
     fz_reasons = [], fz_fitTime = 0, fz_mode = Guaranteed, fz_confidence = BoundedFraction d_zero,
     fz_freshness = Fresh, fz_reducedShape = False\<rparr>"

text \<open>The literals 0.8, 0.6 and 0.5 pass the constructor's check.\<close>

lemma conf_lit_valid: "0 < q \<Longrightarrow> p \<le> q \<Longrightarrow> mkFraction (d_lit p q) = Inr (conf_lit p q)"
  using d_lit_fraction [of q p] one_ok amount_ok_key [of "d_lit p q"]
  by (simp add: mkFraction_Inr conf_lit_def frac_valid_def d_le_def isfinite_simps)

section \<open>Devices\<close>

definition deviceCompatible :: "DeviceInfo \<Rightarrow> WorkloadDemand \<Rightarrow> bool" where
  "deviceCompatible d demand =
     (if dm_requiredCapability demand \<noteq> [] \<and>
         \<not> str_find (architecture (dev_capability d)) (dm_requiredCapability demand) \<and>
         \<not> str_find (capability (dev_capability d)) (dm_requiredCapability demand) \<and>
         \<not> str_find (className (dev_capability d)) (dm_requiredCapability demand)
      then False
      else if dm_allowedClasses demand \<noteq> []
      then list_ex (\<lambda>ac. architecture (dev_capability d) = ac_architecture ac \<and>
                         className (dev_capability d) = ac_name ac) (dm_allowedClasses demand)
      else True)"

definition deviceCurrentlyUsable :: "DeviceInfo \<Rightarrow> WorkloadDemand \<Rightarrow> bool" where
  "deviceCurrentlyUsable d demand =
     (if \<not> deviceCompatible d demand then False
      else if dev_health d = Failed then False
      else if dev_health d = Draining then False
      else if dev_health d = Maintenance then False
      else if dev_health d = UnknownHealth then False
      else if dev_drained d then False
      else True)"

definition usable_indices :: "DeviceInfo list \<Rightarrow> WorkloadDemand \<Rightarrow> nat list" where
  "usable_indices devices demand = filter (\<lambda>i. deviceCurrentlyUsable (devices ! i) demand) [0 ..< length devices]"

definition group_label :: "DeviceInfo \<Rightarrow> string" where
  "group_label d = className (dev_capability d) @ ''/'' @ u64_to_string (sid_value (dev_nodeId d))"

text \<open>\<open>byGroup[grp] += 1\<close>: a missing key starts at zero.\<close>

definition byGroup :: "DeviceInfo list \<Rightarrow> nat list \<Rightarrow> (string, nat) omap" where
  "byGroup devices usable =
     fold (\<lambda>i m. let grp = group_label (devices ! i)
                 in om_insert grp ((case om_lookup m grp of None \<Rightarrow> 0 | Some n \<Rightarrow> n) + 1) m)
       usable om_empty"

definition group_ok :: "DeviceInfo list \<Rightarrow> nat list \<Rightarrow> nat \<Rightarrow> bool" where
  "group_ok devices usable sz = list_ex (\<lambda>(grp, n). sz \<le> n) (om_entries (byGroup devices usable))"

section \<open>Effective capacity\<close>

definition hold_capacity :: "Reservation \<Rightarrow> Capacity" where
  "hold_capacity rv =
     fold (\<lambda>(d, v) h. snd (cap_setAmount h d (if d_lt v d_zero then d_neg v else v)))
       (om_entries (rsv_hold rv)) om_empty"

definition effective_capacity :: "FleetView \<Rightarrow> Capacity" where
  "effective_capacity view =
     fold (\<lambda>rv c. if rsv_strength rv = Hard \<and> iv_containsPoint (rsv_interval rv) (fv_now view)
                  then cap_subtractClamp c (hold_capacity rv) else c)
       (fv_reservations view) (fv_available view)"

section \<open>The query\<close>

definition missing_bottleneck :: "FleetView \<Rightarrow> WorkloadDemand \<Rightarrow> Dimension \<Rightarrow> Bottleneck" where
  "missing_bottleneck view demand lim =
     (let kindSel = (if dimensionIsRate lim then 2 else if dimensionIsBytes lim then 1 else 0 :: nat)
      in Bottleneck_default\<lparr>
        bn_kind := (if kindSel = 1 then BkMemoryContiguity else if kindSel = 2 then BkBandwidth else BkCapacity),
        bn_dimension := lim, bn_nominal := fv_nominal view, bn_usable := fv_available view,
        bn_committed := fv_committed view,
        bn_message := ''insufficient '' @ dimensionName lim @ '': demand '' @
          double_to_string (cap_amount (dm_requirements demand) lim) @ '' > available '' @
          double_to_string (cap_amount (fv_available view) lim),
        bn_confidence := BoundedFraction d_zero\<rparr>)"

definition refuse :: "FeasibilityResult \<Rightarrow> Outcome \<Rightarrow> (Bottleneck \<Rightarrow> Bottleneck) \<Rightarrow> FeasibilityResult" where
  "refuse res out upd =
     res\<lparr>fz_outcome := out, fz_bottleneck := (upd (fz_bottleneck res))\<lparr>bn_confidence := BoundedFraction d_zero\<rparr>\<rparr>"

text \<open>The last check of the query, of the headroom left after placement, and the positive answer.\<close>

definition headroom_or_fit :: "FeasibilityResult \<Rightarrow> WorkloadDemand \<Rightarrow> Capacity \<Rightarrow> FeasibilityResult" where
  "headroom_or_fit res demand effective =
     (let slo = frac_value (dm_sloHeadroomRequirement demand);
          after = cap_subtractClamp effective (dm_requirements demand)
      in
      if d_lt d_zero slo \<and> (has_nonpositive after \<or> (d_lt d_zero slo \<and> d_lt (d_lit 5 10) slo))
      then refuse res NoFitSloHeadroom (\<lambda>b. b\<lparr>bn_kind := BkSloHeadroom, bn_dimension := AcceleratorCount,
             bn_message := ''SLO headroom obligation cannot be satisfied after placement''\<rparr>)
      else res\<lparr>fz_outcome := FitNow, fz_confidence := conf_lit 8 10,
             fz_bottleneck := (fz_bottleneck res)\<lparr>bn_kind := BkCapacity,
               bn_message := ''workload fits in current capacity'', bn_confidence := conf_lit 8 10\<rparr>\<rparr>)"

definition evaluateNow :: "FleetView \<Rightarrow> WorkloadDemand \<Rightarrow> FeasibilityResult" where
  "evaluateNow view demand =
     (let res = FeasibilityResult_default\<lparr>fz_mode := Guaranteed, fz_confidence := BoundedFraction d_zero,
                  fz_freshness := fv_freshness view, fz_fitTime := fv_now view\<rparr>;
          usable = usable_indices (fv_devices view) demand;
          needCount = unat (dc_value (dm_minAccelerators demand));
          effective = effective_capacity view;
          missing = cap_missingDimensions effective (dm_requirements demand);
          fr = analyzeFragmentation (fv_devices view) demand 0
      in
      if \<not> demand_valid demand
      then refuse res OutcomeUnknown (\<lambda>b. b\<lparr>bn_kind := BkPolicy, bn_message := ''malformed demand profile''\<rparr>)
      else if fv_freshness view = RevalidationNeeded \<or> fv_freshness view = Stale
      then refuse res RevalidationRequired (\<lambda>b. b\<lparr>bn_kind := BkUncertainty, bn_freshness := fv_freshness view,
             bn_message := ''current dynamic evidence requires revalidation''\<rparr>)
      else if fv_freshness view = EvidenceInsufficient
      then refuse res InsufficientEvidence
             (\<lambda>b. b\<lparr>bn_message := ''insufficient evidence to determine current capacity''\<rparr>)
      else if (case dm_topologyGroupSize demand of None \<Rightarrow> False
                 | Some g \<Rightarrow> \<not> group_ok (fv_devices view) usable (unat (dc_value g)))
      then refuse res NoFitTopology (\<lambda>b. b\<lparr>bn_kind := BkTopology, bn_dimension := TopologyLocalCount,
             bn_message := ''no topology-local group has enough usable devices''\<rparr>)
      else if length usable < needCount
      then refuse res NoFitCapacity (\<lambda>b. b\<lparr>bn_kind := BkCapacity, bn_dimension := AcceleratorCount,
             bn_nominal := setAccelerators (DeviceCount (word_of_nat (length (fv_devices view)))) (bn_nominal b),
             bn_usable := setAccelerators (DeviceCount (word_of_nat (length usable))) (bn_usable b),
             bn_message := ''fewer usable devices than the workload's minimum accelerator count''\<rparr>)
      else if dm_requiresContiguousVram demand \<and>
        \<not> list_ex (\<lambda>i. fr_shapeSatisfiable (analyzeDeviceMemory (dev_freeBlocks (fv_devices view ! i))
              (dm_minContiguousVram demand))) usable
      then refuse res NoFitFragmentation (\<lambda>b. b\<lparr>bn_kind := BkMemoryContiguity, bn_dimension := ContiguousVramBytes,
             bn_message := ''no device has a contiguous VRAM block large enough for the demand''\<rparr>)
      else if missing \<noteq> []
      then let b = missing_bottleneck view demand (hd missing)
           in res\<lparr>fz_outcome := (if bn_kind b = BkMemoryContiguity then NoFitMemory
                                 else if bn_kind b = BkBandwidth then NoFitBandwidth else NoFitCapacity),
                  fz_bottleneck := b, fz_reasons := fz_reasons res @ [b]\<rparr>
      else if (case dm_maxAcceptableFragmentation demand of None \<Rightarrow> False
                 | Some f \<Rightarrow> d_lt f (fr_fragmentationRatio fr))
      then refuse res NoFitFragmentation (\<lambda>b. b\<lparr>bn_kind := BkFragmentation, bn_dimension := ContiguousVramBytes,
             bn_message := ''observed fragmentation ratio exceeds the demand's acceptable maximum'',
             bn_stranded := cap_set ContiguousVramBytes (d_of_u64 (bc_value (fr_stranded fr))) (bn_stranded b)\<rparr>)
      else headroom_or_fit res demand effective)"

section \<open>Devices, groups and effective capacity, abstractly\<close>

lemma deviceCompatible_iff:
  "deviceCompatible d demand \<longleftrightarrow>
     (\<exists>text \<in> {architecture (dev_capability d), capability (dev_capability d), className (dev_capability d)}.
        \<exists>pre post. text = pre @ dm_requiredCapability demand @ post) \<and>
     (dm_allowedClasses demand = [] \<or> (\<exists>ac \<in> set (dm_allowedClasses demand).
        architecture (dev_capability d) = ac_architecture ac \<and> className (dev_capability d) = ac_name ac))"
  by (auto simp: deviceCompatible_def str_find_iff list_ex_iff)

lemma group_label_eq:
  "group_label d = group_label e \<longleftrightarrow>
     className (dev_capability d) = className (dev_capability e) \<and> dev_nodeId d = dev_nodeId e"
proof
  assume "group_label d = group_label e"
  then have "className (dev_capability d) = className (dev_capability e) \<and>
      unat (sid_value (dev_nodeId d)) = unat (sid_value (dev_nodeId e))"
    unfolding group_label_def u64_to_string_def by (rule label_inj)
  then show "className (dev_capability d) = className (dev_capability e) \<and> dev_nodeId d = dev_nodeId e"
    by (simp add: StrongId.expand flip: word_unat_eq_iff)
qed (simp add: group_label_def)

lemma byGroup_lookup:
  "om_lookup (byGroup devices usable) grp =
     (let n = length (filter (\<lambda>i. group_label (devices ! i) = grp) usable) in if n = 0 then None else Some n)"
proof -
  let ?s = "\<lambda>i m. let grp = group_label (devices ! i)
     in om_insert grp ((case om_lookup m grp of None \<Rightarrow> 0 | Some n \<Rightarrow> n) + 1) m"
  have "om_lookup (fold ?s us m) grp =
      (let n = (case om_lookup m grp of None \<Rightarrow> 0 | Some n \<Rightarrow> n) + length (filter (\<lambda>i. group_label (devices ! i) = grp) us)
       in if om_lookup m grp = None \<and> n = 0 then None else Some n)" for us m
    by (induction us arbitrary: m) (auto simp: Let_def split: option.splits)
  from this [of usable om_empty] show ?thesis by (simp add: byGroup_def Let_def)
qed

text \<open>A group is a class name on a node: the label separates them.\<close>

definition same_group :: "DeviceInfo \<Rightarrow> DeviceInfo \<Rightarrow> bool" where
  "same_group d e \<longleftrightarrow> className (dev_capability d) = className (dev_capability e) \<and> dev_nodeId d = dev_nodeId e"

lemma group_ok_iff:
  "group_ok devices usable sz \<longleftrightarrow>
     (\<exists>j \<in> set usable. sz \<le> length (filter (\<lambda>i. same_group (devices ! i) (devices ! j)) usable))"
proof -
  have label: "same_group d e \<longleftrightarrow> group_label d = group_label e" for d e
    by (simp add: same_group_def group_label_eq)
  have "group_ok devices usable sz \<longleftrightarrow> (\<exists>grp n. om_lookup (byGroup devices usable) grp = Some n \<and> sz \<le> n)"
    by (auto simp: group_ok_def list_ex_iff om_lookup_iff)
  also have "\<dots> \<longleftrightarrow> (\<exists>grp. filter (\<lambda>i. group_label (devices ! i) = grp) usable \<noteq> [] \<and>
      sz \<le> length (filter (\<lambda>i. group_label (devices ! i) = grp) usable))"
    by (auto simp: byGroup_lookup Let_def)
  also have "\<dots> \<longleftrightarrow> (\<exists>j \<in> set usable. sz \<le> length (filter (\<lambda>i. same_group (devices ! i) (devices ! j)) usable))"
    by (auto simp: label filter_empty_conv)
  finally show ?thesis .
qed

lemma usable_indices_length:
  "length (usable_indices devices demand) = length (filter (\<lambda>d. deviceCurrentlyUsable d demand) devices)"
proof -
  have "map (\<lambda>i. devices ! i) (usable_indices devices demand) =
      filter (\<lambda>d. deviceCurrentlyUsable d demand) (map (\<lambda>i. devices ! i) [0 ..< length devices])"
    by (simp add: usable_indices_def filter_map comp_def)
  then show ?thesis unfolding map_nth by (metis length_map)
qed

lemma set_usable_indices:
  "(!) devices ` set (usable_indices devices demand) = {d \<in> set devices. deviceCurrentlyUsable d demand}"
  by (force simp: usable_indices_def in_set_conv_nth)

lemma filter_usable_indices:
  "length (filter (\<lambda>i. P (devices ! i)) (usable_indices devices demand)) =
     length (filter (\<lambda>d. deviceCurrentlyUsable d demand \<and> P d) devices)"
proof -
  have "map (\<lambda>i. devices ! i) (filter (\<lambda>i. P (devices ! i)) (usable_indices devices demand)) =
      filter (\<lambda>d. deviceCurrentlyUsable d demand \<and> P d) (map (\<lambda>i. devices ! i) [0 ..< length devices])"
    by (simp add: usable_indices_def filter_map comp_def conj_commute)
  then show ?thesis unfolding map_nth by (metis length_map)
qed

lemma hold_capacity_ok: "capacity_ok (hold_capacity rv)"
  unfolding hold_capacity_def
  by (rule fold_invariant_set) (auto intro: cap_setAmount_ok capacity_okI simp: amount_ok_def isfinite_key)

lemma effective_capacity_ok: "capacity_ok (fv_available view) \<Longrightarrow> capacity_ok (effective_capacity view)"
  unfolding effective_capacity_def
  by (rule fold_invariant_set) (auto intro: cap_subtractClamp_ok hold_capacity_ok)

lemma effective_capacity_le: "capacity_ok (fv_available view) \<Longrightarrow> cap_le (effective_capacity view) (fv_available view)"
proof -
  assume ok: "capacity_ok (fv_available view)"
  have "capacity_ok (effective_capacity view) \<and> cap_le (effective_capacity view) (fv_available view)"
    unfolding effective_capacity_def
    by (rule fold_invariant_set)
      (use ok in \<open>auto intro: cap_subtractClamp_ok hold_capacity_ok cap_le_trans [OF cap_subtractClamp_le]\<close>)
  then show ?thesis by simp
qed

section \<open>The positive answer\<close>

text \<open>The constraints that the answer \<open>FIT_NOW\<close> stands for.\<close>

definition usable_for :: "FleetView \<Rightarrow> WorkloadDemand \<Rightarrow> DeviceInfo list" where
  "usable_for view demand = filter (\<lambda>d. deviceCurrentlyUsable d demand) (fv_devices view)"

definition evidence_current :: "FleetView \<Rightarrow> bool" where
  "evidence_current view \<longleftrightarrow> fv_freshness view \<notin> {RevalidationNeeded, Stale, EvidenceInsufficient}"

definition topology_ok :: "FleetView \<Rightarrow> WorkloadDemand \<Rightarrow> bool" where
  "topology_ok view demand \<longleftrightarrow> (\<forall>g. dm_topologyGroupSize demand = Some g \<longrightarrow>
     (\<exists>e \<in> set (usable_for view demand). unat (dc_value g) \<le> length (filter (\<lambda>d. same_group d e) (usable_for view demand))))"

definition contiguous_ok :: "FleetView \<Rightarrow> WorkloadDemand \<Rightarrow> bool" where
  "contiguous_ok view demand \<longleftrightarrow> (dm_requiresContiguousVram demand \<longrightarrow>
     (\<exists>d \<in> set (usable_for view demand). fr_shapeSatisfiable (analyzeDeviceMemory (dev_freeBlocks d) (dm_minContiguousVram demand))))"

definition fragmentation_ok :: "FleetView \<Rightarrow> WorkloadDemand \<Rightarrow> bool" where
  "fragmentation_ok view demand \<longleftrightarrow> (\<forall>f. dm_maxAcceptableFragmentation demand = Some f \<longrightarrow>
     \<not> d_lt f (fr_fragmentationRatio (analyzeFragmentation (fv_devices view) demand 0)))"

definition slo_ok :: "FleetView \<Rightarrow> WorkloadDemand \<Rightarrow> bool" where
  "slo_ok view demand \<longleftrightarrow> (d_lt d_zero (frac_value (dm_sloHeadroomRequirement demand)) \<longrightarrow>
     \<not> d_lt (d_lit 5 10) (frac_value (dm_sloHeadroomRequirement demand)) \<and>
     \<not> has_nonpositive (cap_subtractClamp (effective_capacity view) (dm_requirements demand)))"

lemma ex_usable:
  "(\<exists>i \<in> set (usable_indices (fv_devices view) demand). Q (fv_devices view ! i)) \<longleftrightarrow> (\<exists>d \<in> set (usable_for view demand). Q d)"
  using set_usable_indices [of "fv_devices view" demand]
  by (auto simp: usable_for_def) (metis (mono_tags, lifting) imageE mem_Collect_eq)

lemma group_ok_usable:
  "group_ok (fv_devices view) (usable_indices (fv_devices view) demand) sz \<longleftrightarrow>
     (\<exists>e \<in> set (usable_for view demand). sz \<le> length (filter (\<lambda>d. same_group d e) (usable_for view demand)))"
proof -
  have "length (filter (\<lambda>i. same_group (fv_devices view ! i) e) (usable_indices (fv_devices view) demand)) =
      length (filter (\<lambda>d. same_group d e) (usable_for view demand))" for e
    using filter_usable_indices [of "\<lambda>d. same_group d e" "fv_devices view" demand]
    by (simp add: usable_for_def conj_commute)
  then show ?thesis
    unfolding group_ok_iff by (simp add: ex_usable [where Q = "\<lambda>e. sz \<le> length (filter (\<lambda>d. same_group d e) (usable_for view demand))"])
qed

lemma contiguous_usable:
  "list_ex (\<lambda>i. fr_shapeSatisfiable (analyzeDeviceMemory (dev_freeBlocks (fv_devices view ! i)) m))
      (usable_indices (fv_devices view) demand) \<longleftrightarrow>
   (\<exists>d \<in> set (usable_for view demand). fr_shapeSatisfiable (analyzeDeviceMemory (dev_freeBlocks d) m))"
  by (simp add: list_ex_iff ex_usable [where Q = "\<lambda>d. fr_shapeSatisfiable (analyzeDeviceMemory (dev_freeBlocks d) m)"])

lemma evaluateNow_outcome:
  "fz_outcome (evaluateNow view demand) =
     (if \<not> demand_valid demand then OutcomeUnknown
      else if fv_freshness view = RevalidationNeeded \<or> fv_freshness view = Stale then RevalidationRequired
      else if fv_freshness view = EvidenceInsufficient then InsufficientEvidence
      else if \<not> topology_ok view demand then NoFitTopology
      else if length (usable_for view demand) < unat (dc_value (dm_minAccelerators demand)) then NoFitCapacity
      else if \<not> contiguous_ok view demand then NoFitFragmentation
      else if \<not> cap_satisfies (effective_capacity view) (dm_requirements demand)
      then (let lim = hd (cap_missingDimensions (effective_capacity view) (dm_requirements demand))
            in if dimensionIsRate lim then NoFitBandwidth else if dimensionIsBytes lim then NoFitMemory else NoFitCapacity)
      else if \<not> fragmentation_ok view demand then NoFitFragmentation
      else if \<not> slo_ok view demand then NoFitSloHeadroom
      else FitNow)"
proof -
  have t: "(case dm_topologyGroupSize demand of None \<Rightarrow> False
      | Some g \<Rightarrow> \<not> group_ok (fv_devices view) (usable_indices (fv_devices view) demand) (unat (dc_value g))) \<longleftrightarrow>
      \<not> topology_ok view demand"
    by (auto simp: topology_ok_def group_ok_usable split: option.split)
  have c: "dm_requiresContiguousVram demand \<and>
      \<not> list_ex (\<lambda>i. fr_shapeSatisfiable (analyzeDeviceMemory (dev_freeBlocks (fv_devices view ! i)) (dm_minContiguousVram demand)))
          (usable_indices (fv_devices view) demand) \<longleftrightarrow> \<not> contiguous_ok view demand"
    by (auto simp: contiguous_usable contiguous_ok_def)
  have f: "(case dm_maxAcceptableFragmentation demand of None \<Rightarrow> False
      | Some f \<Rightarrow> d_lt f (fr_fragmentationRatio (analyzeFragmentation (fv_devices view) demand 0))) \<longleftrightarrow> \<not> fragmentation_ok view demand"
    by (auto simp: fragmentation_ok_def split: option.split)
  let ?slo = "frac_value (dm_sloHeadroomRequirement demand)"
  have s: "d_lt d_zero ?slo \<and> (has_nonpositive (cap_subtractClamp (effective_capacity view) (dm_requirements demand)) \<or>
      (d_lt d_zero ?slo \<and> d_lt (d_lit 5 10) ?slo)) \<longleftrightarrow> \<not> slo_ok view demand"
    by (auto simp: slo_ok_def)
  have l: "length (usable_indices (fv_devices view) demand) = length (usable_for view demand)"
    by (simp add: usable_indices_length usable_for_def)
  have m: "cap_missingDimensions (effective_capacity view) (dm_requirements demand) \<noteq> [] \<longleftrightarrow>
      \<not> cap_satisfies (effective_capacity view) (dm_requirements demand)"
    by (simp add: cap_missing_iff)
  show ?thesis
    unfolding evaluateNow_def headroom_or_fit_def Let_def t c f s l m
    by (simp add: refuse_def missing_bottleneck_def Let_def)
qed

lemma evaluateNow_conf:
  "frac_value (fz_confidence (evaluateNow view demand)) =
     (if fz_outcome (evaluateNow view demand) = FitNow then d_lit 8 10 else d_zero)"
  unfolding evaluateNow_def headroom_or_fit_def Let_def
  by (simp add: refuse_def missing_bottleneck_def Let_def conf_lit_def FeasibilityResult_default_def)


section \<open>Properties\<close>


text \<open>
  Uncertainty is never reported as a fit. The confidence of an answer is zero unless the answer is
  \<open>FIT_NOW\<close>, where it is 0.8; stale or missing evidence of a valid demand is always answered by
  revalidation or insufficient evidence; and the query never answers \<open>FIT_FUTURE\<close>,
  \<open>FIT_WITH_REDUCED_SHAPE\<close> or \<open>FIT_WITH_LOWER_HEADROOM\<close>.
\<close>

theorem evaluateNow_confidence:
  "frac_value (fz_confidence (evaluateNow view demand)) =
     (if fz_outcome (evaluateNow view demand) = FitNow then d_lit 8 10 else d_zero) \<and>
   (demand_valid demand \<and> fv_freshness view \<in> {RevalidationNeeded, Stale} \<longrightarrow>
     fz_outcome (evaluateNow view demand) = RevalidationRequired) \<and>
   (demand_valid demand \<and> fv_freshness view = EvidenceInsufficient \<longrightarrow>
     fz_outcome (evaluateNow view demand) = InsufficientEvidence) \<and>
   fz_outcome (evaluateNow view demand) \<notin> {FitFuture, FitWithReducedShape, FitWithLowerHeadroom}"
  by (simp add: evaluateNow_conf evaluateNow_outcome Let_def)

theorem evaluateNow_confidence_witness:
  "fz_outcome (evaluateNow (FleetView_default\<lparr>fv_freshness := Stale\<rparr>)
     (WorkloadDemand_default\<lparr>dm_id := StrongId 1, dm_generation := Generation 1\<rparr>)) = RevalidationRequired"
  using evaluateNow_confidence [of "FleetView_default\<lparr>fv_freshness := Stale\<rparr>"
      "WorkloadDemand_default\<lparr>dm_id := StrongId 1, dm_generation := Generation 1\<rparr>"]
  by (simp add: demand_valid_def WorkloadDemand_default_def sid_valid_def gen_valid_def kInvalidId_def)

text \<open>
  No demand with a headroom requirement above one half is ever placed, whatever the capacity: the
  answer is never \<open>FIT_NOW\<close>, and it is \<open>NO_FIT_SLO_HEADROOM\<close> whenever every other constraint is met.
\<close>

theorem evaluateNow_slo_half:
  assumes "d_lt (d_lit 5 10) (frac_value (dm_sloHeadroomRequirement demand))"
  shows "fz_outcome (evaluateNow view demand) \<noteq> FitNow \<and>
     (demand_valid demand \<and> evidence_current view \<and> topology_ok view demand \<and>
      unat (dc_value (dm_minAccelerators demand)) \<le> length (usable_for view demand) \<and> contiguous_ok view demand \<and>
      cap_satisfies (effective_capacity view) (dm_requirements demand) \<and> fragmentation_ok view demand \<longrightarrow>
        fz_outcome (evaluateNow view demand) = NoFitSloHeadroom)"
proof -
  have h: "amount_ok (d_lit 5 10)" by (rule d_lit_fraction) simp_all
  then have "d_lt d_zero (frac_value (dm_sloHeadroomRequirement demand))"
    using assms amount_ok_key [OF h] by (simp add: d_lt_def)
  then have "\<not> slo_ok view demand" using assms by (simp add: slo_ok_def)
  then show ?thesis by (simp add: evaluateNow_outcome evidence_current_def not_less Let_def)
qed

theorem evaluateNow_slo_half_witness:
  "fz_outcome (evaluateNow FleetView_default
     (WorkloadDemand_default\<lparr>dm_sloHeadroomRequirement := BoundedFraction (d_of_nat 1)\<rparr>)) \<noteq> FitNow"
proof -
  have "d_lt (d_lit 5 10) (d_of_nat 1)"
    by (simp add: d_eval d_lt_def isnan_def d_mag_def d_key_def d_sign_def)
  then show ?thesis
    using evaluateNow_slo_half [of "WorkloadDemand_default\<lparr>dm_sloHeadroomRequirement := BoundedFraction (d_of_nat 1)\<rparr>" FleetView_default]
    by simp
qed

end
