(* ===== verification/Scenario.thy ===== *)
theory Scenario
  imports Feasibility
begin

text \<open>
  What-if overlays (\<open>scenario/scenario.hpp\<close>): the actions on a copy of a view, and the re-aggregation
  that follows them. Adding capacities may throw, reading a VRAM amount back as an integer and shifting
  an instant may be undefined, so the result is a fault or a view.
\<close>

datatype ActionKind = RemoveResource | AddResource | CancelReservation | AddReservation | DelayRelease
  | DegradeDevice | SetHeadroom | MoveMaintenance

record ScenarioAction =
  sa_kind :: ActionKind
  sa_resource :: ResourceId
  sa_added :: ResourceInfo
  sa_reservation :: ReservationId
  sa_addReservation :: Reservation
  sa_source :: ForecastSourceId
  sa_delay :: DurationNs
  sa_sloHeadroom :: CapacityFraction
  sa_maintenance :: Interval

definition ScenarioAction_default :: ScenarioAction where
  "ScenarioAction_default = \<lparr>sa_kind = RemoveResource, sa_resource = sid_default, sa_added = ResourceInfo_default,
     sa_reservation = sid_default, sa_addReservation = Reservation_default, sa_source = sid_default, sa_delay = 0,
     sa_sloHeadroom = frac_default, sa_maintenance = iv_default\<rparr>"

record Scenario =
  sc_id :: ScenarioId
  sc_generation :: ScenarioGeneration
  sc_actions :: "ScenarioAction list"
  sc_provenance :: Provenance
  sc_authoritative :: bool

definition scenario_valid :: "Scenario \<Rightarrow> bool" where
  "scenario_valid s \<longleftrightarrow> sid_valid (sc_id s) \<and> gen_valid (sc_generation s) \<and> \<not> sc_authoritative s"

section \<open>Actions\<close>

definition delay_release :: "ForecastSourceId \<Rightarrow> DurationNs \<Rightarrow> ReleaseEvent \<Rightarrow> fault + ReleaseEvent" where
  "delay_release src delay e =
     (if rel_sourceId e = src
      then bindR (add64 (rel_time e) delay) (\<lambda>t.
           bindR (add64 (rel_earliest e) delay) (\<lambda>ear.
           bindR (add64 (rel_latest e) delay) (\<lambda>lat.
             Inr (e\<lparr>rel_time := t, rel_earliest := ear, rel_latest := lat\<rparr>))))
      else Inr e)"

text \<open>The inner loop for one device: it and every resource on it become failed.\<close>

definition degrade_step ::
  "DeviceInfo \<Rightarrow> DeviceInfo list \<times> ResourceInfo list \<Rightarrow> DeviceInfo list \<times> ResourceInfo list" where
  "degrade_step d acc =
     (let (done, rs) = acc
      in if sid_valid (dev_id d)
         then (done @ [if list_ex (\<lambda>r. res_deviceId r = dev_id d) rs then d\<lparr>dev_health := Failed\<rparr> else d],
               map (\<lambda>r. if res_deviceId r = dev_id d then r\<lparr>res_health := Failed\<rparr> else r) rs)
         else (done @ [d], rs))"

definition apply_action :: "ScenarioAction \<Rightarrow> FleetView \<Rightarrow> fault + FleetView" where
  "apply_action a v =
     (case sa_kind a of
        RemoveResource \<Rightarrow>
          let owned = map res_deviceId (filter (\<lambda>r. res_id r = sa_resource a) (fv_resources v))
          in Inr (v\<lparr>fv_resources := filter (\<lambda>r. res_id r \<noteq> sa_resource a) (fv_resources v),
                   fv_devices := filter (\<lambda>d. dev_id d \<notin> set owned) (fv_devices v)\<rparr>)
      | AddResource \<Rightarrow> Inr (v\<lparr>fv_resources := fv_resources v @ [sa_added a]\<rparr>)
      | CancelReservation \<Rightarrow>
          Inr (v\<lparr>fv_reservations := filter (\<lambda>r. rsv_id r \<noteq> sa_reservation a) (fv_reservations v)\<rparr>)
      | AddReservation \<Rightarrow> Inr (v\<lparr>fv_reservations := fv_reservations v @ [sa_addReservation a]\<rparr>)
      | DelayRelease \<Rightarrow>
          bindR (foldR (\<lambda>e out. bindR (delay_release (sa_source a) (sa_delay a) e) (\<lambda>e'. Inr (out @ [e'])))
                   (fv_releases v) [])
            (\<lambda>rels. Inr (v\<lparr>fv_releases := rels\<rparr>))
      | DegradeDevice \<Rightarrow>
          let (ds, rs) = fold degrade_step (fv_devices v) ([], fv_resources v)
          in Inr (v\<lparr>fv_devices := ds, fv_resources := rs\<rparr>)
      | SetHeadroom \<Rightarrow> Inr v
      | MoveMaintenance \<Rightarrow>
          Inr (v\<lparr>fv_maintenance := fv_maintenance v @
                 [\<lparr>mw_interval = sa_maintenance a, mw_unavailable = om_empty, mw_knownFuture = True\<rparr>]\<rparr>))"

section \<open>Re-aggregation\<close>

definition resource_usable :: "ResourceInfo \<Rightarrow> bool" where
  "resource_usable r \<longleftrightarrow> res_health r \<noteq> Failed \<and> \<not> res_drained r \<and> \<not> res_maintenance r \<and> res_health r \<noteq> UnknownHealth"

definition resource_device :: "ResourceInfo \<Rightarrow> fault + DeviceInfo" where
  "resource_device r =
     bindR (cap_vram (res_nominal r)) (\<lambda>tot.
     bindR (cap_vram (res_free r)) (\<lambda>free.
       Inr (DeviceInfo_default\<lparr>dev_id := res_deviceId r, dev_nodeId := res_nodeId r,
         dev_capability := res_capability r, dev_vramTotal := tot, dev_vramFree := free,
         dev_health := res_health r, dev_provenance := res_provenance r, dev_drained := res_drained r,
         dev_maintenance := res_maintenance r, dev_freeBlocks := res_freeBlocks r\<rparr>)))"

definition aggregate_step :: "ResourceInfo \<Rightarrow> FleetView \<Rightarrow> fault + FleetView" where
  "aggregate_step r v =
     bindR (cap_add (fv_nominal v) (res_nominal r)) (\<lambda>nom.
     bindR (cap_add (fv_committed v) (res_committed r)) (\<lambda>com.
     bindR (cap_add (fv_unavailable v) (res_unavailable r)) (\<lambda>una.
     bindR (resource_device r) (\<lambda>d.
     bindR (if resource_usable r then cap_add (fv_available v) (res_free r) else Inr (fv_available v)) (\<lambda>ava.
       Inr (v\<lparr>fv_nominal := nom, fv_committed := com, fv_unavailable := una,
              fv_devices := fv_devices v @ [d], fv_available := ava\<rparr>))))))"

definition current_use :: "FleetView \<Rightarrow> Capacity" where
  "current_use v = cap_subtractClamp (cap_subtractClamp (cap_subtractClamp (fv_nominal v) (fv_available v))
     (fv_committed v)) (fv_unavailable v)"

definition applyScenario :: "FleetView \<Rightarrow> Scenario \<Rightarrow> fault + FleetView" where
  "applyScenario base s =
     bindR (foldR apply_action (sc_actions s) base) (\<lambda>v.
     let v0 = v\<lparr>fv_provenance := Synthetic, fv_devices := [], fv_available := om_empty, fv_nominal := om_empty,
                fv_committed := om_empty, fv_unavailable := om_empty\<rparr>
     in bindR (foldR aggregate_step (fv_resources v) v0) (\<lambda>v1.
        Inr (v1\<lparr>fv_currentUse := current_use v1\<rparr>)))"

section \<open>Lemmas\<close>

lemma cap_add_rep: "cap_rep c f \<Longrightarrow> cap_rep q g \<Longrightarrow> (\<And>d. f d + g d < 2 ^ 53) \<Longrightarrow> cap_add c q = Inr r \<Longrightarrow> cap_rep r (\<lambda>d. f d + g d)"
  using cap_rep_add [of c f q g] by auto

text \<open>What re-aggregation leaves alone, and the devices and usable sums it builds.\<close>

lemma aggregate_step_frame:
  assumes "aggregate_step r v = Inr w"
  shows "fv_resources w = fv_resources v \<and> fv_reservations w = fv_reservations v \<and> fv_releases w = fv_releases v \<and>
     fv_maintenance w = fv_maintenance v \<and> fv_freshness w = fv_freshness v \<and> fv_now w = fv_now v \<and>
     fv_provenance w = fv_provenance v"
  using assms by (auto simp: aggregate_step_def)

lemma aggregate_frame:
  "foldR aggregate_step rs v = Inr w \<Longrightarrow>
     fv_resources w = fv_resources v \<and> fv_reservations w = fv_reservations v \<and> fv_releases w = fv_releases v \<and>
     fv_maintenance w = fv_maintenance v \<and> fv_freshness w = fv_freshness v \<and> fv_now w = fv_now v \<and>
     fv_provenance w = fv_provenance v"
proof (induction rs arbitrary: v)
  case (Cons r rs)
  then obtain u where u: "aggregate_step r v = Inr u" "foldR aggregate_step rs u = Inr w" by auto
  show ?case using Cons.IH [OF u(2)] aggregate_step_frame [OF u(1)] by simp
qed simp

lemma aggregate_devices:
  "foldR aggregate_step rs v = Inr w \<Longrightarrow>
     length (fv_devices w) = length (fv_devices v) + length rs \<and>
     map dev_id (fv_devices w) = map dev_id (fv_devices v) @ map res_deviceId rs \<and>
     map dev_health (fv_devices w) = map dev_health (fv_devices v) @ map res_health rs \<and>
     map dev_drained (fv_devices w) = map dev_drained (fv_devices v) @ map res_drained rs"
proof (induction rs arbitrary: v)
  case (Cons r rs)
  then obtain u where u: "aggregate_step r v = Inr u" "foldR aggregate_step rs u = Inr w" by auto
  then obtain d where "resource_device r = Inr d" "fv_devices u = fv_devices v @ [d]"
    by (auto simp: aggregate_step_def)
  then have "dev_id d = res_deviceId r" "dev_health d = res_health r" "dev_drained d = res_drained r" "fv_devices u = fv_devices v @ [d]"
    by (auto simp: resource_device_def)
  then show ?case using Cons.IH [OF u(2)] by simp
qed simp

lemma aggregate_available:
  assumes "foldR aggregate_step rs v = Inr w" and "cap_rep (fv_available v) f"
    and "\<forall>r \<in> set rs. cap_rep (res_free r) (F r)"
    and "\<And>d. f d + (\<Sum>r \<leftarrow> filter resource_usable rs. F r d) < 2 ^ 53"
  shows "cap_rep (fv_available w) (\<lambda>d. f d + (\<Sum>r \<leftarrow> filter resource_usable rs. F r d))"
  using assms
proof (induction rs arbitrary: v f)
  case (Cons r rs)
  then obtain u where u: "aggregate_step r v = Inr u" "foldR aggregate_step rs u = Inr w" by auto
  let ?f = "if resource_usable r then (\<lambda>d. f d + F r d) else f"
  have "cap_rep (fv_available u) ?f"
  proof (cases "resource_usable r")
    case True
    have b: "f d + F r d < 2 ^ 53" for d using Cons.prems(4) [of d] True by simp
    obtain c where "cap_add (fv_available v) (res_free r) = Inr c" "fv_available u = c"
      using u(1) True by (auto simp: aggregate_step_def)
    moreover have "cap_rep (res_free r) (F r)" using Cons.prems(3) by simp
    ultimately show ?thesis using cap_add_rep [OF Cons.prems(2) _ b] True by simp
  next
    case False
    then show ?thesis using u(1) Cons.prems(2) by (auto simp: aggregate_step_def)
  qed
  moreover have "?f d + (\<Sum>r \<leftarrow> filter resource_usable rs. F r d) < 2 ^ 53" for d
    using Cons.prems(4) [of d] by (cases "resource_usable r") (simp_all add: add.assoc)
  ultimately have "cap_rep (fv_available w) (\<lambda>d. ?f d + (\<Sum>r \<leftarrow> filter resource_usable rs. F r d))"
    using Cons.IH [OF u(2)] Cons.prems(3) by auto
  then show ?case by (cases "resource_usable r") (simp_all add: add.assoc)
qed simp

text \<open>The sums over all resources, for any aggregate that each step adds a part of the resource to.\<close>

lemma aggregate_sum:
  assumes "\<And>r u u'. aggregate_step r u = Inr u' \<Longrightarrow> cap_add (get u) (part r) = Inr (get u')"
    and "foldR aggregate_step rs v = Inr w" and "cap_rep (get v) f" and "\<forall>r \<in> set rs. cap_rep (part r) (P r)"
    and "\<And>d. f d + (\<Sum>r \<leftarrow> rs. P r d) < 2 ^ 53"
  shows "cap_rep (get w) (\<lambda>d. f d + (\<Sum>r \<leftarrow> rs. P r d))"
  using assms(2-)
proof (induction rs arbitrary: v f)
  case (Cons r rs)
  then obtain u where u: "aggregate_step r v = Inr u" "foldR aggregate_step rs u = Inr w" by auto
  have b: "f d + P r d < 2 ^ 53" for d using Cons.prems(4) [of d] by simp
  have "cap_rep (get u) (\<lambda>d. f d + P r d)"
    using cap_add_rep [OF Cons.prems(2) _ b assms(1) [OF u(1)]] Cons.prems(3) by simp
  from Cons.IH [OF u(2) this] show ?case using Cons.prems(3,4) by (simp add: add.assoc)
qed simp

lemma aggregate_step_sums:
  assumes "aggregate_step r u = Inr u'"
  shows "cap_add (fv_nominal u) (res_nominal r) = Inr (fv_nominal u')"
    and "cap_add (fv_committed u) (res_committed r) = Inr (fv_committed u')"
    and "cap_add (fv_unavailable u) (res_unavailable r) = Inr (fv_unavailable u')"
  using assms by (auto simp: aggregate_step_def)

text \<open>Evidence in whole amounts, whose sums stay below the bound.\<close>

definition whole_resources :: "(ResourceInfo \<Rightarrow> Dimension \<Rightarrow> nat) \<Rightarrow> (ResourceInfo \<Rightarrow> Dimension \<Rightarrow> nat) \<Rightarrow>
    (ResourceInfo \<Rightarrow> Dimension \<Rightarrow> nat) \<Rightarrow> (ResourceInfo \<Rightarrow> Dimension \<Rightarrow> nat) \<Rightarrow> ResourceInfo list \<Rightarrow> bool" where
  "whole_resources N F C U rs \<longleftrightarrow>
     (\<forall>r \<in> set rs. cap_rep (res_nominal r) (N r) \<and> cap_rep (res_free r) (F r) \<and> cap_rep (res_committed r) (C r) \<and>
        cap_rep (res_unavailable r) (U r)) \<and>
     (\<forall>d. (\<Sum>r \<leftarrow> rs. N r d) < 2 ^ 53) \<and> (\<forall>d. (\<Sum>r \<leftarrow> rs. F r d) < 2 ^ 53) \<and>
     (\<forall>d. (\<Sum>r \<leftarrow> rs. C r d) < 2 ^ 53) \<and> (\<forall>d. (\<Sum>r \<leftarrow> rs. U r d) < 2 ^ 53)"

lemma sum_filter_le: "(\<Sum>r \<leftarrow> filter P rs. f r) \<le> (\<Sum>r \<leftarrow> rs. f r :: nat)"
  by (induction rs) auto

lemma aggregate_all:
  assumes "foldR aggregate_step rs v = Inr w" and "whole_resources N F C U rs"
    and "fv_nominal v = om_empty" "fv_available v = om_empty" "fv_committed v = om_empty" "fv_unavailable v = om_empty"
  shows "cap_rep (fv_nominal w) (\<lambda>d. \<Sum>r \<leftarrow> rs. N r d)" "cap_rep (fv_committed w) (\<lambda>d. \<Sum>r \<leftarrow> rs. C r d)"
    and "cap_rep (fv_unavailable w) (\<lambda>d. \<Sum>r \<leftarrow> rs. U r d)"
    and "cap_rep (fv_available w) (\<lambda>d. \<Sum>r \<leftarrow> filter resource_usable rs. F r d)"
proof -
  note whole = assms(2) [unfolded whole_resources_def]
  have e: "cap_rep (fv_nominal v) (\<lambda>_. 0)" "cap_rep (fv_committed v) (\<lambda>_. 0)" "cap_rep (fv_unavailable v) (\<lambda>_. 0)"
      "cap_rep (fv_available v) (\<lambda>_. 0)"
    by (simp_all add: assms(3-6) cap_rep_empty)
  show "cap_rep (fv_nominal w) (\<lambda>d. \<Sum>r \<leftarrow> rs. N r d)"
    using aggregate_sum [where get = fv_nominal and P = N, OF aggregate_step_sums(1) assms(1) e(1)] whole by simp
  show "cap_rep (fv_committed w) (\<lambda>d. \<Sum>r \<leftarrow> rs. C r d)"
    using aggregate_sum [where get = fv_committed and P = C, OF aggregate_step_sums(2) assms(1) e(2)] whole by simp
  show "cap_rep (fv_unavailable w) (\<lambda>d. \<Sum>r \<leftarrow> rs. U r d)"
    using aggregate_sum [where get = fv_unavailable and P = U, OF aggregate_step_sums(3) assms(1) e(3)] whole by simp
  have "(\<Sum>r \<leftarrow> filter resource_usable rs. F r d) < 2 ^ 53" for d
    using sum_filter_le [where P = resource_usable and f = "\<lambda>r. F r d" and rs = rs] whole by (metis le_less_trans)
  then show "cap_rep (fv_available w) (\<lambda>d. \<Sum>r \<leftarrow> filter resource_usable rs. F r d)"
    using aggregate_available [where F = F, OF assms(1) e(4)] whole by simp
qed

text \<open>Whole amounts below the bound can always be aggregated.\<close>

lemma aggregate_total:
  assumes "\<forall>r \<in> set rs. cap_rep (res_nominal r) (N r) \<and> cap_rep (res_free r) (F r) \<and> cap_rep (res_committed r) (C r) \<and> cap_rep (res_unavailable r) (U r)"
    and "cap_rep (fv_nominal v) n" "cap_rep (fv_available v) f" "cap_rep (fv_committed v) c" "cap_rep (fv_unavailable v) u"
    and "\<And>d. n d + (\<Sum>r \<leftarrow> rs. N r d) < 2 ^ 53" "\<And>d. f d + (\<Sum>r \<leftarrow> rs. F r d) < 2 ^ 53"
      "\<And>d. c d + (\<Sum>r \<leftarrow> rs. C r d) < 2 ^ 53" "\<And>d. u d + (\<Sum>r \<leftarrow> rs. U r d) < 2 ^ 53"
  shows "\<exists>w. foldR aggregate_step rs v = Inr w"
  using assms
proof (induction rs arbitrary: v n f c u)
  case (Cons r rs)
  have b: "n d + N r d < 2 ^ 53" "f d + F r d < 2 ^ 53" "c d + C r d < 2 ^ 53" "u d + U r d < 2 ^ 53" for d
    using Cons.prems(6-9) [of d] by simp_all
  have reps: "cap_rep (res_nominal r) (N r)" "cap_rep (res_free r) (F r)" "cap_rep (res_committed r) (C r)" "cap_rep (res_unavailable r) (U r)"
    using Cons.prems(1) by simp_all
  obtain nom ava com una where add:
      "cap_add (fv_nominal v) (res_nominal r) = Inr nom" "cap_rep nom (\<lambda>d. n d + N r d)"
      "cap_add (fv_available v) (res_free r) = Inr ava" "cap_rep ava (\<lambda>d. f d + F r d)"
      "cap_add (fv_committed v) (res_committed r) = Inr com" "cap_rep com (\<lambda>d. c d + C r d)"
      "cap_add (fv_unavailable v) (res_unavailable r) = Inr una" "cap_rep una (\<lambda>d. u d + U r d)"
    using cap_rep_add [OF Cons.prems(2) reps(1) b(1)] cap_rep_add [OF Cons.prems(3) reps(2) b(2)]
      cap_rep_add [OF Cons.prems(4) reps(3) b(3)] cap_rep_add [OF Cons.prems(5) reps(4) b(4)] by blast
  obtain dev where dev: "resource_device r = Inr dev"
    by (simp add: resource_device_def cap_rep_vram [OF reps(1)] cap_rep_vram [OF reps(2)])
  let ?w = "v\<lparr>fv_nominal := nom, fv_committed := com, fv_unavailable := una, fv_devices := fv_devices v @ [dev],
      fv_available := (if resource_usable r then ava else fv_available v)\<rparr>"
  let ?f = "if resource_usable r then (\<lambda>d. f d + F r d) else f"
  have "aggregate_step r v = Inr ?w" using add dev by (simp add: aggregate_step_def)
  moreover have "\<exists>w. foldR aggregate_step rs ?w = Inr w"
  proof (rule Cons.IH)
    show "cap_rep (fv_available ?w) ?f" using add(4) Cons.prems(3) by simp
    show "?f d + (\<Sum>r \<leftarrow> rs. F r d) < 2 ^ 53" for d using Cons.prems(7) [of d] by simp
    show "n d + N r d + (\<Sum>r \<leftarrow> rs. N r d) < 2 ^ 53" "c d + C r d + (\<Sum>r \<leftarrow> rs. C r d) < 2 ^ 53"
        "u d + U r d + (\<Sum>r \<leftarrow> rs. U r d) < 2 ^ 53" for d
      using Cons.prems(6,8,9) [of d] by (simp_all add: add.assoc)
  qed (use Cons.prems(1) add in simp_all)
  ultimately show ?case by simp
qed simp

lemma applyScenario_cases:
  assumes "applyScenario base s = Inr w"
  obtains v w1 where "foldR apply_action (sc_actions s) base = Inr v"
    "foldR aggregate_step (fv_resources v) (v\<lparr>fv_provenance := Synthetic, fv_devices := [], fv_available := om_empty,
       fv_nominal := om_empty, fv_committed := om_empty, fv_unavailable := om_empty\<rparr>) = Inr w1"
    "w = w1\<lparr>fv_currentUse := current_use w1\<rparr>"
  using assms by (auto simp: applyScenario_def Let_def)

text \<open>Every resource on a listed device is failed by a degradation, whatever resource the action names.\<close>

definition fail_on :: "DeviceId set \<Rightarrow> ResourceInfo \<Rightarrow> ResourceInfo" where
  "fail_on ids r = (if res_deviceId r \<in> ids then r\<lparr>res_health := Failed\<rparr> else r)"

lemma degrade_resources:
  "snd (fold degrade_step ds (done, rs)) = map (fail_on (dev_id ` {d \<in> set ds. sid_valid (dev_id d)})) rs"
proof (induction ds arbitrary: "done" rs)
  case Nil
  then show ?case by (simp add: fail_on_def map_idI)
next
  case (Cons d ds)
  let ?rs = "if sid_valid (dev_id d) then map (fail_on {dev_id d}) rs else rs"
  have s: "degrade_step d (done, rs) = (fst (degrade_step d (done, rs)), ?rs)"
    by (auto simp: degrade_step_def fail_on_def)
  have "snd (fold degrade_step (d # ds) (done, rs)) = map (fail_on (dev_id ` {d \<in> set ds. sid_valid (dev_id d)})) ?rs"
    using Cons.IH [of "fst (degrade_step d (done, rs))" ?rs] s by (metis fold_simps(2))
  also have "\<dots> = map (fail_on (dev_id ` {x \<in> set (d # ds). sid_valid (dev_id x)})) rs"
    by (auto simp: fail_on_def)
  finally show ?case .
qed

lemma apply_DegradeDevice:
  assumes "sa_kind a = DegradeDevice" and "apply_action a v = Inr w"
  shows "fv_resources w = map (fail_on (dev_id ` {d \<in> set (fv_devices v). sid_valid (dev_id d)})) (fv_resources v)"
  using assms degrade_resources [of "fv_devices v" "[]" "fv_resources v"]
  by (auto simp: apply_action_def split: prod.splits)

section \<open>A small instance\<close>

definition ex_resource :: ResourceInfo where
  "ex_resource = ResourceInfo_default\<lparr>res_id := StrongId 1, res_deviceId := StrongId 7, res_health := Healthy,
     res_free := whole [(AcceleratorCount, 2)]\<rparr>"

definition ex_view :: FleetView where
  "ex_view = FleetView_default\<lparr>fv_nominal := whole [(AcceleratorCount, 9)], fv_resources := [ex_resource], fv_devices := [DeviceInfo_default\<lparr>dev_id := StrongId 7\<rparr>]\<rparr>"

definition ex_scenario :: "ScenarioAction list \<Rightarrow> Scenario" where
  "ex_scenario as = \<lparr>sc_id = StrongId 1, sc_generation = Generation 1, sc_actions = as, sc_provenance = Synthetic,
     sc_authoritative = False\<rparr>"

lemma ex_free_rep: "cap_rep (whole [(AcceleratorCount, 2)]) ((\<lambda>_. 0)(AcceleratorCount := 2))"
  using whole_rep [of "[(AcceleratorCount, 2)]"] by simp

lemma ex_aggregate:
  assumes "res_nominal r = om_empty" "res_committed r = om_empty" "res_unavailable r = om_empty"
    and "res_free r = whole [(AcceleratorCount, 2)]" and "fv_available v = om_empty"
  shows "\<exists>w. aggregate_step r v = Inr w"
proof -
  have e: "cap_add c om_empty = Inr c" for c by (simp add: cap_add_def)
  have "capacity_ok (whole [(AcceleratorCount, 2)])" by (rule whole_ok) simp
  then show ?thesis
    using assms by (simp add: aggregate_step_def e cap_add_empty resource_device_def cap_rep_vram [OF cap_rep_empty]
        cap_rep_vram [OF ex_free_rep])
qed

section \<open>Properties\<close>

text \<open>
  C40. A scenario view is synthetic and stands on its resources alone. Its resources, reservations, releases and
  maintenance are those the actions leave; there is one device per resource, with that resource's identity and health; nominal,
  committed and unavailable capacity are the sums over these resources whatever the base view said, the available capacity is the
  sum over the usable ones only, and the current use is the nominal capacity less these three, cut off at zero. The
  freshness and the instant are those of the base view. The amounts are whole, with sums below \<open>2 ^ 53\<close>.
\<close>

theorem applyScenario_view:
  assumes "applyScenario base s = Inr w" and "whole_resources N F C U (fv_resources w)"
  shows "(\<exists>v. foldR apply_action (sc_actions s) base = Inr v \<and> fv_resources w = fv_resources v \<and>
        fv_reservations w = fv_reservations v \<and> fv_releases w = fv_releases v \<and> fv_maintenance w = fv_maintenance v) \<and>
     fv_provenance w = Synthetic \<and> map dev_id (fv_devices w) = map res_deviceId (fv_resources w) \<and>
     map dev_health (fv_devices w) = map res_health (fv_resources w) \<and>
     cap_rep (fv_nominal w) (\<lambda>d. \<Sum>r \<leftarrow> fv_resources w. N r d) \<and>
     cap_rep (fv_committed w) (\<lambda>d. \<Sum>r \<leftarrow> fv_resources w. C r d) \<and>
     cap_rep (fv_unavailable w) (\<lambda>d. \<Sum>r \<leftarrow> fv_resources w. U r d) \<and>
     cap_rep (fv_available w) (\<lambda>d. \<Sum>r \<leftarrow> filter resource_usable (fv_resources w). F r d) \<and>
     cap_rep (fv_currentUse w) (\<lambda>d. (\<Sum>r \<leftarrow> fv_resources w. N r d) - (\<Sum>r \<leftarrow> filter resource_usable (fv_resources w). F r d) -
        (\<Sum>r \<leftarrow> fv_resources w. C r d) - (\<Sum>r \<leftarrow> fv_resources w. U r d)) \<and>
     fv_freshness w = fv_freshness base \<and> fv_now w = fv_now base"
proof -
  obtain v w1 where v: "foldR apply_action (sc_actions s) base = Inr v"
    and w1: "foldR aggregate_step (fv_resources v) (v\<lparr>fv_provenance := Synthetic, fv_devices := [], fv_available := om_empty,
       fv_nominal := om_empty, fv_committed := om_empty, fv_unavailable := om_empty\<rparr>) = Inr w1"
    and w: "w = w1\<lparr>fv_currentUse := current_use w1\<rparr>"
    using applyScenario_cases [OF assms(1)] .
  have "fv_freshness u' = fv_freshness u \<and> fv_now u' = fv_now u" if "apply_action a u = Inr u'" for a u u'
    using that by (auto simp: apply_action_def Let_def split: ActionKind.splits prod.splits)
  then have base: "fv_freshness v = fv_freshness base \<and> fv_now v = fv_now base"
    using foldR_invariant [OF v, of "\<lambda>u. fv_freshness u = fv_freshness base \<and> fv_now u = fv_now base"] by simp
  have res: "fv_resources w = fv_resources v" using aggregate_frame [OF w1] by (simp add: w)
  note sums = aggregate_all [OF w1 assms(2) [unfolded res], simplified]
  have "fv_currentUse w = cap_subtractClamp (cap_subtractClamp (cap_subtractClamp (fv_nominal w1) (fv_available w1)) (fv_committed w1)) (fv_unavailable w1)"
    by (simp add: w current_use_def)
  then have "cap_rep (fv_currentUse w) (\<lambda>d. (\<Sum>r \<leftarrow> fv_resources v. N r d) - (\<Sum>r \<leftarrow> filter resource_usable (fv_resources v). F r d) -
      (\<Sum>r \<leftarrow> fv_resources v. C r d) - (\<Sum>r \<leftarrow> fv_resources v. U r d))"
    by (simp only:) (intro cap_rep_subtractClamp sums)
  then show ?thesis
    using v base aggregate_frame [OF w1] aggregate_devices [OF w1] sums by (simp add: w diff_diff_left)
qed

text \<open>The view of the instance claims nine nominal accelerators; its scenario view has none, as its only resource says.\<close>

theorem applyScenario_view_witness:
  "\<exists>w. applyScenario ex_view (ex_scenario []) = Inr w \<and> cap_amount (fv_available w) AcceleratorCount = d_of_nat 2 \<and>
     cap_amount (fv_nominal ex_view) AcceleratorCount = d_of_nat 9 \<and> cap_amount (fv_nominal w) AcceleratorCount = d_of_nat 0"
proof -
  have e: "res_nominal ex_resource = om_empty" "res_committed ex_resource = om_empty" "res_unavailable ex_resource = om_empty"
      "res_free ex_resource = whole [(AcceleratorCount, 2)]" and u: "resource_usable ex_resource"
    by (simp_all add: ex_resource_def ResourceInfo_default_def resource_usable_def)
  then obtain w where w: "applyScenario ex_view (ex_scenario []) = Inr w"
    using ex_aggregate [of ex_resource] by (fastforce simp: applyScenario_def ex_scenario_def ex_view_def Let_def)
  obtain w1 where w1: "foldR aggregate_step (fv_resources ex_view) (ex_view\<lparr>fv_provenance := Synthetic, fv_devices := [], fv_available := om_empty,
       fv_nominal := om_empty, fv_committed := om_empty, fv_unavailable := om_empty\<rparr>) = Inr w1"
    and w': "w = w1\<lparr>fv_currentUse := current_use w1\<rparr>"
    using applyScenario_cases [OF w] by (auto simp: ex_scenario_def)
  have r: "fv_resources w = [ex_resource]" using aggregate_frame [OF w1] by (simp add: w' ex_view_def)
  have "whole_resources (\<lambda>_ _. 0) (\<lambda>_. (\<lambda>_. 0)(AcceleratorCount := 2)) (\<lambda>_ _. 0) (\<lambda>_ _. 0) (fv_resources w)"
    unfolding whole_resources_def r by (simp add: e cap_rep_empty ex_free_rep)
  from applyScenario_view [OF w this] have "cap_amount (fv_available w) AcceleratorCount = d_of_nat 2"
      "cap_amount (fv_nominal w) AcceleratorCount = d_of_nat 0"
    using u by (simp_all add: r cap_rep_def)
  moreover have "cap_amount (fv_nominal ex_view) AcceleratorCount = d_of_nat 9"
    using whole_rep [of "[(AcceleratorCount, 9)]"] by (simp add: ex_view_def cap_rep_def)
  ultimately show ?thesis using w by blast
qed

text \<open>
  Degrading one device degrades the fleet: the action ignores the resource it names, so the only
  action \<open>DegradeDevice\<close> leaves every resource on a listed valid device failed and the scenario view
  without any availability from them.
\<close>

theorem degrade_fails_all:
  assumes "applyScenario base s = Inr w" and "sc_actions s = [a]" and "sa_kind a = DegradeDevice"
    and "\<forall>r \<in> set (fv_resources base). \<exists>d \<in> set (fv_devices base). sid_valid (dev_id d) \<and> dev_id d = res_deviceId r"
  shows "(\<forall>r \<in> set (fv_resources w). res_health r = Failed) \<and> fv_available w = om_empty"
proof -
  obtain v w1 where v: "foldR apply_action (sc_actions s) base = Inr v"
    and w1: "foldR aggregate_step (fv_resources v) (v\<lparr>fv_provenance := Synthetic, fv_devices := [], fv_available := om_empty,
       fv_nominal := om_empty, fv_committed := om_empty, fv_unavailable := om_empty\<rparr>) = Inr w1"
    and w: "w = w1\<lparr>fv_currentUse := current_use w1\<rparr>"
    using applyScenario_cases [OF assms(1)] .
  have "fv_resources v = map (fail_on (dev_id ` {d \<in> set (fv_devices base). sid_valid (dev_id d)})) (fv_resources base)"
    using v assms(2) apply_DegradeDevice [OF assms(3)] by auto
  then have f: "\<forall>r \<in> set (fv_resources v). res_health r = Failed"
    using assms(4) by (fastforce simp: fail_on_def image_iff)
  then have all: "\<forall>r \<in> set (fv_resources w). res_health r = Failed"
    using aggregate_frame [OF w1] by (simp add: w)
  have "fv_available u' = fv_available u" if "foldR aggregate_step rs u = Inr u'" "\<forall>r \<in> set rs. res_health r = Failed" for rs u u'
    using that by (induction rs arbitrary: u) (auto simp: aggregate_step_def resource_usable_def)
  from this [OF w1 f] all show ?thesis by (simp add: w)
qed

theorem degrade_fails_all_witness:
  "\<exists>w. applyScenario ex_view (ex_scenario [ScenarioAction_default\<lparr>sa_kind := DegradeDevice, sa_resource := StrongId 9\<rparr>]) = Inr w \<and>
     fv_available w = om_empty"
proof -
  let ?a = "ScenarioAction_default\<lparr>sa_kind := DegradeDevice, sa_resource := StrongId 9\<rparr>"
  obtain v where v: "apply_action ?a ex_view = Inr v"
    by (cases "fold degrade_step (fv_devices ex_view) ([], fv_resources ex_view)") (simp add: apply_action_def)
  have "fv_resources v = [ex_resource\<lparr>res_health := Failed\<rparr>]"
    using apply_DegradeDevice [OF _ v] by (simp add: ex_view_def fail_on_def ex_resource_def sid_valid_def kInvalidId_def image_iff)
  then obtain w where w: "applyScenario ex_view (ex_scenario [?a]) = Inr w"
    using v ex_aggregate [of "ex_resource\<lparr>res_health := Failed\<rparr>"]
    by (fastforce simp: applyScenario_def ex_scenario_def Let_def ex_resource_def ResourceInfo_default_def)
  have "fv_available w = om_empty"
    using degrade_fails_all [OF w, of ?a]
    by (simp add: ex_scenario_def ex_view_def ex_resource_def sid_valid_def kInvalidId_def)
  then show ?thesis using w by blast
qed

end
