(* ===== verification/Model.thy ===== *)
theory Model
  imports Scenario Earliest_Fit
begin

text \<open>
  The capacity model (\<open>model/model.hpp\<close>, \<open>model/model.cpp\<close>): the authoritative state, the operations
  that publish evidence, the view built from it, and the queries. Every operation but \<open>load\<close>, \<open>setEpoch\<close>,
  \<open>epoch\<close> and \<open>recovered\<close> holds the model's mutex for the whole of its access to the state, so the operations
  are atomic and a run is a sequence of them; these four are taken as atomic too. Saving and loading are in the theory \<open>Persistence\<close>.
\<close>

section \<open>State\<close>

record SourceState =
  src_bootId :: WorkerBootId
  src_alive :: bool

record CapacityModel =
  m_epoch :: CoordinatorEpoch
  m_recovered :: bool
  m_resources :: "(ResourceId, ResourceInfo) omap"
  m_devices :: "(DeviceId, DeviceInfo) omap"
  m_nodes :: "(NodeId, NodeInfo) omap"
  m_links :: "(LinkId, LinkInfo) omap"
  m_resourceGen :: "(ResourceTag, ResourceTag) GenerationTracker"
  m_reservationGen :: "(ReservationTag, ReservationTag) GenerationTracker"
  m_topologyGen :: "(TopologyTag, TopologyTag) GenerationTracker"
  m_healthGen :: "(DeviceTag, HealthTag) GenerationTracker"
  m_sources :: "(WorkerId, SourceState) omap"
  m_demands :: "(WorkloadDemandId, WorkloadDemand) omap"
  m_reservations :: "Reservation list"
  m_releases :: "ReleaseEvent list"
  m_maintenance :: "MaintenanceWindow list"
  m_topoGen :: TopologyGeneration
  m_forecastHistory :: "(TimePoint \<times> Capacity \<times> Capacity) list"

definition setEpoch :: "CapacityModel \<Rightarrow> CoordinatorEpoch \<Rightarrow> CapacityModel" where
  "setEpoch m e = m\<lparr>m_epoch := e\<rparr>"

definition CapacityModel_new :: CapacityModel where
  "CapacityModel_new = setEpoch \<lparr>m_epoch = gen_default, m_recovered = False, m_resources = om_empty,
     m_devices = om_empty, m_nodes = om_empty, m_links = om_empty, m_resourceGen = om_empty,
     m_reservationGen = om_empty, m_topologyGen = om_empty, m_healthGen = om_empty, m_sources = om_empty,
     m_demands = om_empty, m_reservations = [], m_releases = [], m_maintenance = [], m_topoGen = gen_default,
     m_forecastHistory = []\<rparr> (Generation 1)"

section \<open>Authority\<close>

definition registerWorker :: "CapacityModel \<Rightarrow> WorkerId \<Rightarrow> WorkerBootId \<Rightarrow> bool \<times> CapacityModel" where
  "registerWorker m w b =
     (if \<not> sid_valid w \<or> \<not> sid_valid b then (False, m)
      else if (case om_lookup (m_sources m) w of None \<Rightarrow> False | Some s \<Rightarrow> src_alive s \<and> src_bootId s \<noteq> b)
      then (False, m)
      else (True, m\<lparr>m_sources := om_insert w \<lparr>src_bootId = b, src_alive = True\<rparr> (m_sources m)\<rparr>))"

definition unregisterWorker :: "CapacityModel \<Rightarrow> WorkerId \<Rightarrow> bool \<times> CapacityModel" where
  "unregisterWorker m w =
     (case om_lookup (m_sources m) w of None \<Rightarrow> (False, m)
      | Some s \<Rightarrow> (True, m\<lparr>m_sources := om_insert w (s\<lparr>src_alive := False\<rparr>) (m_sources m)\<rparr>))"

definition markWorkerDead :: "CapacityModel \<Rightarrow> WorkerId \<Rightarrow> CapacityModel" where
  "markWorkerDead m w =
     (case om_lookup (m_sources m) w of None \<Rightarrow> m
      | Some s \<Rightarrow> m\<lparr>m_sources := om_insert w (s\<lparr>src_alive := False\<rparr>) (m_sources m)\<rparr>)"

definition workerAlive :: "CapacityModel \<Rightarrow> WorkerId \<Rightarrow> bool" where
  "workerAlive m w = (case om_lookup (m_sources m) w of None \<Rightarrow> False | Some s \<Rightarrow> src_alive s)"

definition isFreshBoot :: "CapacityModel \<Rightarrow> WorkerId \<Rightarrow> WorkerBootId \<Rightarrow> bool" where
  "isFreshBoot m w b =
     (case om_lookup (m_sources m) w of None \<Rightarrow> False | Some s \<Rightarrow> src_alive s \<and> src_bootId s = b)"

section \<open>Publication\<close>

text \<open>The device record a publication derives; reading VRAM amounts back as integers may be undefined.\<close>

definition published_device :: "ResourceInfo \<Rightarrow> fault + DeviceInfo" where
  "published_device r =
     bindR (cap_vram (res_nominal r)) (\<lambda>tot.
     bindR (cap_vram (res_free r)) (\<lambda>free.
       Inr (DeviceInfo_default\<lparr>dev_id := res_deviceId r, dev_generation := Generation (gen_value (res_generation r)),
         dev_nodeId := res_nodeId r, dev_capability := res_capability r, dev_vramTotal := tot,
         dev_vramFree := free, dev_health := res_health r, dev_provenance := res_provenance r,
         dev_poolGoverned := True\<rparr>)))"

definition publishResource :: "CapacityModel \<Rightarrow> ResourceInfo \<Rightarrow> fault + bool \<times> CapacityModel" where
  "publishResource m r =
     (if \<not> isFreshBoot m (res_worker r) (res_bootId r) then Inr (False, m)
      else
        let cur = tracker_current (m_resourceGen m) (res_id r)
        in if gen_valid cur \<and> gen_value (res_generation r) < gen_value cur then Inr (False, m)
           else
             let m1 = m\<lparr>m_resourceGen := snd (tracker_advance (m_resourceGen m) (res_id r) (res_generation r)),
                        m_resources := om_insert (res_id r) r (m_resources m)\<rparr>
             in bindR (published_device r) (\<lambda>d.
                  Inr (True, m1\<lparr>m_devices := om_insert (dev_id d) d (m_devices m1)\<rparr>)))"

definition advanceResourceGeneration :: "CapacityModel \<Rightarrow> ResourceId \<Rightarrow> bool \<times> CapacityModel" where
  "advanceResourceGeneration m i =
     (case om_lookup (m_resources m) i of None \<Rightarrow> (False, m)
      | Some r \<Rightarrow>
        let nxt = gen_advance (tracker_current (m_resourceGen m) i);
            (ok, t) = tracker_advance (m_resourceGen m) i nxt
        in if \<not> ok then (False, m\<lparr>m_resourceGen := t\<rparr>)
           else (True, m\<lparr>m_resourceGen := t,
                  m_resources := om_insert i (r\<lparr>res_generation := nxt\<rparr>) (m_resources m),
                  m_devices := (case om_lookup (m_devices m) (res_deviceId r) of None \<Rightarrow> m_devices m
                    | Some d \<Rightarrow> om_insert (res_deviceId r) (d\<lparr>dev_generation := Generation (gen_value nxt)\<rparr>) (m_devices m))\<rparr>))"

definition publishReservation :: "CapacityModel \<Rightarrow> Reservation \<Rightarrow> bool \<times> CapacityModel" where
  "publishReservation m res =
     (let cur = tracker_current (m_reservationGen m) (rsv_id res)
      in if gen_valid cur \<and> gen_value (rsv_generation res) < gen_value cur then (False, m)
         else (True, m\<lparr>
           m_reservationGen := snd (tracker_advance (m_reservationGen m) (rsv_id res) (rsv_generation res)),
           m_reservations := upsert rsv_id res (m_reservations m)\<rparr>))"

definition publishRelease :: "CapacityModel \<Rightarrow> ReleaseEvent \<Rightarrow> bool \<times> CapacityModel" where
  "publishRelease m rel = (True, m\<lparr>m_releases := upsert rel_sourceId rel (m_releases m)\<rparr>)"

definition registerDemand :: "CapacityModel \<Rightarrow> WorkloadDemand \<Rightarrow> bool \<times> CapacityModel" where
  "registerDemand m d =
     (let cur = (case om_lookup (m_demands m) (dm_id d) of None \<Rightarrow> gen_default | Some old \<Rightarrow> dm_generation old)
      in if gen_valid cur \<and> gen_value (dm_generation d) < gen_value cur then (False, m)
         else (True, m\<lparr>m_demands := om_insert (dm_id d) d (m_demands m)\<rparr>))"

definition fleetTopology :: TopologyId where "fleetTopology = StrongId 1"

definition registerTopology :: "CapacityModel \<Rightarrow> LinkInfo list \<Rightarrow> TopologyGeneration \<Rightarrow> bool \<times> CapacityModel" where
  "registerTopology m links gen =
     (let cur = tracker_current (m_topologyGen m) fleetTopology
      in if gen_valid cur \<and> gen_value gen < gen_value cur then (False, m)
         else (True, m\<lparr>m_topologyGen := snd (tracker_advance (m_topologyGen m) fleetTopology gen),
                       m_topoGen := gen,
                       m_links := fold (\<lambda>l. om_insert (link_id l) l) links (m_links m)\<rparr>))"

definition setHealth :: "CapacityModel \<Rightarrow> DeviceId \<Rightarrow> HealthState \<Rightarrow> HealthGeneration \<Rightarrow> bool \<times> CapacityModel" where
  "setHealth m i h gen =
     (let cur = tracker_current (m_healthGen m) i
      in if gen_valid cur \<and> gen_value gen < gen_value cur then (False, m)
         else (True, m\<lparr>m_healthGen := snd (tracker_advance (m_healthGen m) i gen),
                       m_devices := (case om_lookup (m_devices m) i of None \<Rightarrow> m_devices m
                         | Some d \<Rightarrow> om_insert i (d\<lparr>dev_health := h\<rparr>) (m_devices m))\<rparr>))"

definition recordForecast :: "CapacityModel \<Rightarrow> CapacityForecastId \<Rightarrow> TimePoint \<Rightarrow> Capacity \<Rightarrow> CapacityModel" where
  "recordForecast m fid at expected = m\<lparr>m_forecastHistory := m_forecastHistory m @ [(at, expected, om_empty)]\<rparr>"

fun observe_first :: "TimePoint \<Rightarrow> Capacity \<Rightarrow> (TimePoint \<times> Capacity \<times> Capacity) list \<Rightarrow>
    (TimePoint \<times> Capacity \<times> Capacity) list" where
  "observe_first at observed [] = []"
| "observe_first at observed ((t, e, ob) # hist) =
     (if t = at then (t, e, observed) # hist else (t, e, ob) # observe_first at observed hist)"

definition recordObserved :: "CapacityModel \<Rightarrow> TimePoint \<Rightarrow> Capacity \<Rightarrow> CapacityModel" where
  "recordObserved m at observed = m\<lparr>m_forecastHistory := observe_first at observed (m_forecastHistory m)\<rparr>"

definition currentResources :: "CapacityModel \<Rightarrow> ResourceInfo list" where
  "currentResources m = map snd (om_entries (m_resources m))"

definition currentReservations :: "CapacityModel \<Rightarrow> Reservation list" where
  "currentReservations m = m_reservations m"

definition currentReleases :: "CapacityModel \<Rightarrow> ReleaseEvent list" where
  "currentReleases m = m_releases m"

definition forecastHistory :: "CapacityModel \<Rightarrow> (TimePoint \<times> Capacity \<times> Capacity) list" where
  "forecastHistory m = m_forecastHistory m"

definition resourceGenerations :: "CapacityModel \<Rightarrow> (ResourceId, ResourceGeneration) omap" where
  "resourceGenerations m = fold (\<lambda>(i, r). om_insert i (res_generation r)) (om_entries (m_resources m)) om_empty"

definition describe :: "CapacityModel \<Rightarrow> string" where
  "describe m = ''epoch='' @ u64_to_string (gen_value (m_epoch m)) @ '' resources='' @ dec_digits (om_size (m_resources m)) @
     '' reservations='' @ dec_digits (length (m_reservations m)) @ '' releases='' @ dec_digits (length (m_releases m))"

section \<open>The view\<close>

definition resource_current :: "CapacityModel \<Rightarrow> ResourceInfo \<Rightarrow> bool" where
  "resource_current m r \<longleftrightarrow> isCurrentDynamic r \<and> isFreshBoot m (res_worker r) (res_bootId r)"

definition view_device :: "CapacityModel \<Rightarrow> ResourceInfo \<Rightarrow> fault + DeviceInfo" where
  "view_device m r =
     (let d = (case om_lookup (m_devices m) (res_deviceId r) of None \<Rightarrow> DeviceInfo_default | Some d \<Rightarrow> d)
      in bindR (cap_vram (res_nominal r)) (\<lambda>tot.
         bindR (cap_vram (res_free r)) (\<lambda>free.
           Inr (d\<lparr>dev_id := res_deviceId r, dev_generation := Generation (gen_value (res_generation r)),
             dev_nodeId := res_nodeId r, dev_capability := res_capability r, dev_vramTotal := tot,
             dev_vramFree := free, dev_health := res_health r, dev_provenance := res_provenance r,
             dev_freeBlocks := res_freeBlocks r\<rparr>))))"

text \<open>The loop over the resources; its state is the view, the device index and \<open>anyCurrent\<close>, \<open>anyStale\<close>.\<close>

definition view_step :: "CapacityModel \<Rightarrow> ResourceInfo \<Rightarrow> FleetView \<times> (DeviceId, DeviceInfo) omap \<times> bool \<times> bool \<Rightarrow>
    fault + FleetView \<times> (DeviceId, DeviceInfo) omap \<times> bool \<times> bool" where
  "view_step m r acc =
     (let (v, devIndex, anyCurrent, anyStale) = acc; current = resource_current m r
      in bindR (view_device m r) (\<lambda>d.
         bindR (cap_add (fv_nominal v) (res_nominal r)) (\<lambda>nom.
         bindR (cap_add (fv_committed v) (res_committed r)) (\<lambda>com.
         bindR (cap_add (fv_unavailable v) (res_unavailable r)) (\<lambda>una.
         bindR (if current then cap_add (fv_available v) (res_free r) else Inr (fv_available v)) (\<lambda>ava.
           Inr (v\<lparr>fv_resources := fv_resources v @ [r], fv_nominal := nom, fv_committed := com,
                  fv_unavailable := una, fv_available := ava\<rparr>,
                om_insert (dev_id d) d devIndex, anyCurrent \<or> current, anyStale \<or> \<not> current)))))))"

definition view_freshness :: "bool \<Rightarrow> bool \<Rightarrow> bool \<Rightarrow> Freshness" where
  "view_freshness none anyCurrent anyStale =
     (if none \<or> \<not> anyCurrent
      then (if anyStale \<and> \<not> anyCurrent then RevalidationNeeded
            else if none then EvidenceInsufficient else RevalidationNeeded)
      else Fresh)"

definition buildView :: "CapacityModel \<Rightarrow> TimePoint \<Rightarrow> fault + FleetView" where
  "buildView m now =
     bindR (foldR (view_step m) (currentResources m) (FleetView_default\<lparr>fv_now := now\<rparr>, om_empty, False, False))
       (\<lambda>(v, devIndex, anyCurrent, anyStale).
          let v1 = v\<lparr>fv_devices := map snd (om_entries devIndex), fv_reservations := m_reservations m,
                     fv_releases := m_releases m, fv_maintenance := m_maintenance m, fv_staleDynamic := anyStale,
                     fv_freshness := view_freshness (om_size (m_resources m) = 0) anyCurrent anyStale,
                     fv_provenance := Derived\<rparr>
          in Inr (v1\<lparr>fv_currentUse := current_use v1\<rparr>))"

section \<open>Queries\<close>

definition queryFeasibilityNow :: "CapacityModel \<Rightarrow> WorkloadDemand \<Rightarrow> fault + FeasibilityResult" where
  "queryFeasibilityNow m d = bindR (buildView m 0) (\<lambda>view. Inr (evaluateNow view d))"

text \<open>
  A query about the future builds the timeline of the view. As \<open>std::sort\<close> leaves the order of coinciding events open, each
  of these queries is given for any sorting function, and the query of the model is its instance for \<open>std_sort\<close>.
\<close>

definition view_timeline_with :: "(CapacityEvent list \<Rightarrow> CapacityEvent list) \<Rightarrow> FleetView \<Rightarrow> QueryMode \<Rightarrow> Timeline" where
  "view_timeline_with srt view mode =
     buildTimeline_with srt (fv_available view) (fv_reservations view) (fv_releases view) mode"

definition queryFeasibility_with :: "(CapacityEvent list \<Rightarrow> CapacityEvent list) \<Rightarrow> CapacityModel \<Rightarrow>
    WorkloadDemand \<Rightarrow> QueryMode \<Rightarrow> TimePoint \<Rightarrow> fault + FeasibilityResult" where
  "queryFeasibility_with srt m d mode time =
     bindR (buildView m time) (\<lambda>view.
       if time \<le> 0 then Inr ((evaluateNow view d)\<lparr>fz_mode := mode\<rparr>)
       else
         let res = FeasibilityResult_default\<lparr>fz_mode := mode, fz_fitTime := time\<rparr>;
             b = fz_bottleneck res
         in if fv_freshness view \<noteq> Fresh
            then Inr (res\<lparr>fz_outcome := RevalidationRequired,
                   fz_bottleneck := b\<lparr>bn_freshness := fv_freshness view, bn_confidence := BoundedFraction d_zero\<rparr>\<rparr>)
            else
              bindR (capacityAt (view_timeline_with srt view mode) time)
                (\<lambda>cap.
                  if cap_satisfies cap (dm_requirements d)
                  then Inr (res\<lparr>fz_outcome := FitFuture,
                         fz_confidence := (if mode = Guaranteed then conf_lit 6 10 else conf_lit 5 10),
                         fz_bottleneck := b\<lparr>bn_message := ''demand fits at the requested future time''\<rparr>\<rparr>)
                  else
                    let missing = cap_missingDimensions cap (dm_requirements d)
                    in Inr (res\<lparr>fz_outcome := NoFitCapacity,
                         fz_bottleneck := b\<lparr>bn_kind := BkCapacity,
                           bn_dimension := (if missing \<noteq> [] then hd missing else bn_dimension b),
                           bn_message := ''no usable capacity at the requested future time'',
                           bn_confidence := BoundedFraction d_zero\<rparr>\<rparr>)))"

definition queryEarliestFit_with :: "(CapacityEvent list \<Rightarrow> CapacityEvent list) \<Rightarrow> CapacityModel \<Rightarrow> WorkloadDemand \<Rightarrow>
    QueryMode \<Rightarrow> TimePoint \<Rightarrow> DurationNs \<Rightarrow> TimePoint \<Rightarrow> fault + EarliestFitResult" where
  "queryEarliestFit_with srt m d mode earliestStart duration horizon =
     bindR (buildView m 0) (\<lambda>view. earliestFit (view_timeline_with srt view mode) d earliestStart duration horizon)"

definition queryCapacity_with ::
  "(CapacityEvent list \<Rightarrow> CapacityEvent list) \<Rightarrow> CapacityModel \<Rightarrow> QueryMode \<Rightarrow> TimePoint \<Rightarrow> fault + Capacity" where
  "queryCapacity_with srt m mode time = bindR (buildView m 0) (\<lambda>view. capacityAt (view_timeline_with srt view mode) time)"

definition view_timeline :: "FleetView \<Rightarrow> QueryMode \<Rightarrow> Timeline" where
  "view_timeline = view_timeline_with std_sort"

definition queryFeasibility ::
  "CapacityModel \<Rightarrow> WorkloadDemand \<Rightarrow> QueryMode \<Rightarrow> TimePoint \<Rightarrow> fault + FeasibilityResult" where
  "queryFeasibility = queryFeasibility_with std_sort"

definition queryEarliestFit :: "CapacityModel \<Rightarrow> WorkloadDemand \<Rightarrow> QueryMode \<Rightarrow> TimePoint \<Rightarrow> DurationNs \<Rightarrow>
    TimePoint \<Rightarrow> fault + EarliestFitResult" where
  "queryEarliestFit = queryEarliestFit_with std_sort"

definition queryCapacity :: "CapacityModel \<Rightarrow> QueryMode \<Rightarrow> TimePoint \<Rightarrow> fault + Capacity" where
  "queryCapacity = queryCapacity_with std_sort"

lemmas queryFeasibility_body = queryFeasibility_with_def [of std_sort, folded queryFeasibility_def view_timeline_def]
  and queryEarliestFit_body = queryEarliestFit_with_def [of std_sort, folded queryEarliestFit_def view_timeline_def]
  and queryCapacity_body = queryCapacity_with_def [of std_sort, folded queryCapacity_def view_timeline_def]
  and view_timeline_body = view_timeline_with_def [of std_sort, folded buildTimeline_def view_timeline_def]

definition queryProjectedCapacity :: "CapacityModel \<Rightarrow> QueryMode \<Rightarrow> TimePoint \<Rightarrow> fault + Capacity" where
  "queryProjectedCapacity m mode time = queryCapacity m mode time"

definition queryHeadroom :: "CapacityModel \<Rightarrow> WorkloadDemand \<Rightarrow> QueryMode \<Rightarrow> fault + Headroom" where
  "queryHeadroom m d mode =
     bindR (buildView m 0) (\<lambda>view.
       let sloCap = (if d_lt d_zero (frac_value (dm_sloHeadroomRequirement d)) then dm_requirements d else om_empty)
       in Inr (computeHeadroom (fv_available view) (fv_currentUse view) (fv_committed view) sloCap))"

definition explain :: "CapacityModel \<Rightarrow> WorkloadDemand \<Rightarrow> QueryMode \<Rightarrow> TimePoint \<Rightarrow> fault + Bottleneck list" where
  "explain m d mode time =
     bindR (queryFeasibility m d mode time) (\<lambda>r. Inr (fz_bottleneck r # fz_reasons r))"

definition aggregateAvailable :: "FleetView \<Rightarrow> Capacity" where
  "aggregateAvailable v = fv_available v"

definition createScenario :: "ScenarioAction list \<Rightarrow> Scenario" where
  "createScenario actions =
     \<lparr>sc_id = StrongId 1, sc_generation = Generation 1, sc_actions = actions, sc_provenance = Synthetic,
      sc_authoritative = False\<rparr>"

definition evaluateScenario :: "CapacityModel \<Rightarrow> Scenario \<Rightarrow> WorkloadDemand \<Rightarrow> QueryMode \<Rightarrow> TimePoint \<Rightarrow>
    fault + FeasibilityResult" where
  "evaluateScenario m s d mode time =
     bindR (buildView m 0) (\<lambda>base.
     bindR (applyScenario base s) (\<lambda>modified.
       let r = (evaluateNow modified d)\<lparr>fz_mode := WhatIf\<rparr>
       in Inr (if fz_outcome r = FitNow
               then r\<lparr>fz_bottleneck := (fz_bottleneck r)\<lparr>bn_message := ''WHAT_IF: '' @ bn_message (fz_bottleneck r)\<rparr>\<rparr>
               else r)))"

end
