(* ===== verification/Codec.thy ===== *)
theory Codec
  imports Fleet
begin

text \<open>
  The binary codec (\<open>persistence/binary.hpp\<close>): little-endian writers, bounds-checked readers and the
  FNV-1a checksum. A writer operation is the bytes it appends. A reader is a function of the unread rest
  of its data: it fails (\<open>Inr None\<close>, the sources' \<open>false\<close> or \<open>nullopt\<close>), throws (\<open>Inl\<close>), or returns a
  value and what is left unread. The locale \<open>codec\<close> is the contract of a writer and its reader.
\<close>

type_synonym bytes = "u8 list"

section \<open>Writers\<close>

unbundle bit_operations_syntax

definition le_bytes :: "nat \<Rightarrow> 'a::len word \<Rightarrow> bytes" where
  "le_bytes n v = map (\<lambda>i. ucast (drop_bit (8 * i) v AND 255)) [0 ..< n]"

definition writeU8 :: "u8 \<Rightarrow> bytes" where "writeU8 v = [v]"
definition writeU32 :: "u32 \<Rightarrow> bytes" where "writeU32 v = le_bytes 4 v"
definition writeU64 :: "u64 \<Rightarrow> bytes" where "writeU64 v = le_bytes 8 v"

definition writeI64 :: "i64 \<Rightarrow> bytes" where "writeI64 v = writeU64 (word_of_int v)"
definition writeF64 :: "double \<Rightarrow> bytes" where "writeF64 v = writeU64 (bits v)"
definition writeBool :: "bool \<Rightarrow> bytes" where "writeBool b = writeU8 (if b then 1 else 0)"

text \<open>The length is truncated to 32 bits, as the \<open>static_cast\<close> does.\<close>

definition writeBytes :: "bytes \<Rightarrow> bytes" where
  "writeBytes b = writeU32 (word_of_nat (length b)) @ b"

definition char_byte :: "char \<Rightarrow> u8" where "char_byte c = word_of_nat (of_char c)"
definition byte_char :: "u8 \<Rightarrow> char" where "byte_char b = char_of (unat b)"

definition writeString :: "string \<Rightarrow> bytes" where
  "writeString s = writeBytes (map char_byte s)"

section \<open>Readers\<close>

type_synonym 'a reader = "bytes \<Rightarrow> fault + ('a \<times> bytes) option"

definition rd_return :: "'a \<Rightarrow> 'a reader" where "rd_return x bs = Inr (Some (x, bs))"
definition rd_fail :: "'a reader" where "rd_fail bs = Inr None"

definition rd_bind :: "'a reader \<Rightarrow> ('a \<Rightarrow> 'b reader) \<Rightarrow> 'b reader" where
  "rd_bind m f bs = bindR (m bs) (\<lambda>r. case r of None \<Rightarrow> Inr None | Some (x, rest) \<Rightarrow> f x rest)"

definition rd_lift :: "fault + 'a \<Rightarrow> 'a reader" where
  "rd_lift m bs = bindR m (\<lambda>x. Inr (Some (x, bs)))"

definition rd_guard :: "bool \<Rightarrow> 'a reader \<Rightarrow> 'a reader" where
  "rd_guard b m = (if b then m else rd_fail)"

definition le_word :: "nat \<Rightarrow> bytes \<Rightarrow> 'a::len word" where
  "le_word n bs = fold (\<lambda>i v. v OR push_bit (8 * i) (ucast (bs ! i))) [0 ..< n] 0"

definition readU8 :: "u8 reader" where
  "readU8 bs = (if length bs < 1 then Inr None else Inr (Some (bs ! 0, drop 1 bs)))"

definition readU32 :: "u32 reader" where
  "readU32 bs = (if length bs < 4 then Inr None else Inr (Some (le_word 4 bs, drop 4 bs)))"

definition readU64 :: "u64 reader" where
  "readU64 bs = (if length bs < 8 then Inr None else Inr (Some (le_word 8 bs, drop 8 bs)))"

definition readI64 :: "i64 reader" where
  "readI64 = rd_bind readU64 (\<lambda>u. rd_return (sint u))"

definition readF64 :: "double reader" where
  "readF64 = rd_bind readU64 (\<lambda>u. rd_return (Double u))"

definition readBool :: "bool reader" where
  "readBool = rd_bind readU8 (\<lambda>b. rd_return (b \<noteq> 0))"

definition readBytes :: "bytes reader" where
  "readBytes = rd_bind readU32 (\<lambda>len bs.
     if length bs < unat len then Inr None else Inr (Some (take (unat len) bs, drop (unat len) bs)))"

definition readString :: "string reader" where
  "readString = rd_bind readBytes (\<lambda>b. rd_return (map byte_char b))"

definition remaining :: "bytes \<Rightarrow> nat" where "remaining bs = length bs"

definition atEnd :: "bytes \<Rightarrow> bool" where "atEnd bs \<longleftrightarrow> bs = []"

text \<open>A counted loop that pushes each item read.\<close>

fun rd_many :: "nat \<Rightarrow> 'a reader \<Rightarrow> 'a list reader" where
  "rd_many 0 m = rd_return []"
| "rd_many (Suc n) m = rd_bind m (\<lambda>x. rd_bind (rd_many n m) (\<lambda>xs. rd_return (x # xs)))"

section \<open>The checksum\<close>

definition fnv_step :: "u8 \<Rightarrow> u64 \<Rightarrow> u64" where
  "fnv_step b h = (h XOR ucast b) * 1099511628211"

definition fnv_seed :: u64 where "fnv_seed = 14695981039346656037"

definition fnv1a :: "bytes \<Rightarrow> u64" where
  "fnv1a data = fold fnv_step data fnv_seed"

section \<open>The reader monad\<close>

lemma rd_bind_simps [simp]:
  "rd_bind (rd_return x) f = f x"
  "rd_bind rd_fail f = rd_fail"
  "rd_bind (rd_bind m f) g = rd_bind m (\<lambda>x. rd_bind (f x) g)"
  by (auto simp: rd_bind_def rd_return_def rd_fail_def fun_eq_iff bindR_def split: sum.splits option.splits)

lemma rd_bind_app:
  "m bs = Inr (Some (x, rest)) \<Longrightarrow> rd_bind m f bs = f x rest"
  by (simp add: rd_bind_def)

lemma rd_bind_Some:
  "rd_bind m f bs = Inr (Some (y, rest')) \<longleftrightarrow> (\<exists>x rest. m bs = Inr (Some (x, rest)) \<and> f x rest = Inr (Some (y, rest')))"
  by (auto simp: rd_bind_def bindR_def split: sum.splits option.splits)

lemma rd_return_app [simp]: "rd_return x bs = Inr (Some (x, bs))"
  and rd_fail_app [simp]: "rd_fail bs = Inr None"
  and rd_lift_app [simp]: "rd_lift (Inr x) bs = Inr (Some (x, bs))"
  and rd_guard_simps [simp]: "rd_guard True m = m" "rd_guard False m = rd_fail"
  by (simp_all add: rd_return_def rd_fail_def rd_lift_def rd_guard_def)

section \<open>The contract of a codec\<close>

locale codec =
  fixes wr :: "'a \<Rightarrow> bytes" and rd :: "'a reader" and ok :: "'a \<Rightarrow> bool"
  assumes read_write: "ok x \<Longrightarrow> rd (wr x @ rest) = Inr (Some (x, rest))"
begin

text \<open>What is written can be told apart, whatever follows it.\<close>

lemma prefix_free:
  assumes "ok x" "ok y" and "wr x @ r = wr y @ s"
  shows "x = y \<and> r = s"
proof -
  have "rd (wr x @ r) = Inr (Some (y, s))"
    unfolding assms(3) by (rule read_write [OF assms(2)])
  then show ?thesis using read_write [OF assms(1), of r] by simp
qed

lemma bind_write: "ok x \<Longrightarrow> rd_bind rd f (wr x @ rest) = f x rest"
  by (simp add: rd_bind_def read_write)

lemma many_write: "list_all ok xs \<Longrightarrow> rd_many (length xs) rd (concat (map wr xs) @ rest) = Inr (Some (xs, rest))"
proof (induction xs)
  case (Cons x xs)
  then have "rd_many (length xs) rd (concat (map wr xs) @ rest) = Inr (Some (xs, rest))" by simp
  moreover have "rd_many (length (x # xs)) rd (concat (map wr (x # xs)) @ rest) =
      rd_bind (rd_many (length xs) rd) (\<lambda>ys. rd_return (x # ys)) (concat (map wr xs) @ rest)"
    using Cons.prems by (simp add: bind_write)
  ultimately show ?case by (simp add: rd_bind_def)
qed simp

lemma bind_many:
  assumes "list_all ok xs" and "n = length xs"
  shows "rd_bind (rd_many n rd) f (concat (map wr xs) @ rest) = f xs rest"
  by (simp add: rd_bind_def assms(2) many_write [OF assms(1)])

lemma write_inj_on: "inj_on wr {x. ok x}"
  using prefix_free [of _ _ "[]" "[]"] by (auto intro!: inj_onI)

end

text \<open>
  A wire format may carry only part of a record: what is read back is then the \<open>image\<close> of what was
  written. A codec is the wire format that carries everything.
\<close>

locale wire_format =
  fixes wr :: "'a \<Rightarrow> bytes" and rd :: "'b reader" and ok :: "'a \<Rightarrow> bool" and image :: "'a \<Rightarrow> 'b"
  assumes read_image: "ok x \<Longrightarrow> rd (wr x @ rest) = Inr (Some (image x, rest))"
begin

lemma bind_image: "ok x \<Longrightarrow> rd_bind rd f (wr x @ rest) = f (image x) rest"
  by (simp add: rd_bind_def read_image)

text \<open>Records with the same bytes have the same image.\<close>

lemma same_image:
  assumes "ok x" "ok y" and "wr x = wr y"
  shows "image x = image y"
  using read_image [OF assms(1), of "[]"] read_image [OF assms(2), of "[]"] assms(3) by simp

end

sublocale codec \<subseteq> exact: wire_format wr rd ok "\<lambda>x. x"
  by unfold_locales (rule read_write)

text \<open>Reading through a constructor: a codec of the wrapped values.\<close>

locale wrapped_codec = codec wr rd ok
  for wr :: "'a \<Rightarrow> bytes" and rd :: "'a reader" and ok :: "'a \<Rightarrow> bool" +
  fixes wrap :: "'a \<Rightarrow> 'b" and unwrap :: "'b \<Rightarrow> 'a"
  assumes wrap_unwrap: "wrap (unwrap y) = y"
begin

lemma bind_wrapped: "ok (unwrap y) \<Longrightarrow> rd_bind rd (\<lambda>x. f (wrap x)) (wr (unwrap y) @ rest) = f y rest"
  using bind_write [of "unwrap y" "\<lambda>x. f (wrap x)" rest] by (simp add: wrap_unwrap)

end

sublocale wrapped_codec \<subseteq> wrapped: codec "\<lambda>y. wr (unwrap y)" "rd_bind rd (\<lambda>x. rd_return (wrap x))" "\<lambda>y. ok (unwrap y)"
  by unfold_locales (simp add: bind_write wrap_unwrap)

section \<open>Little-endian words\<close>

lemma length_le_bytes [simp]: "length (le_bytes n v) = n"
  by (simp add: le_bytes_def)

lemma bit_le_bytes: "i < n \<Longrightarrow> bit (le_bytes n v ! i) k \<longleftrightarrow> k < 8 \<and> bit v (8 * i + k)"
proof -
  have m: "bit (255 :: 'a word) k \<longleftrightarrow> k < LENGTH('a) \<and> k < 8" for k
  proof -
    have "(255 :: 'a word) = mask 8" by (simp add: mask_eq_exp_minus_1)
    then have "bit (255 :: 'a word) k \<longleftrightarrow> bit (mask 8 :: 'a word) k" by (simp only:)
    also have "\<dots> \<longleftrightarrow> k < LENGTH('a) \<and> k < 8" by (auto simp only: bit_mask_iff possible_bit_word min_less_iff_conj)
    finally show ?thesis .
  qed
  assume "i < n"
  then have "bit (le_bytes n v ! i) k \<longleftrightarrow> bit (ucast (drop_bit (8 * i) v AND 255) :: u8) k"
    by (simp only: le_bytes_def nth_map length_upt nth_upt add_0 minus_nat.diff_0)
  also have "\<dots> \<longleftrightarrow> k < 8 \<and> bit v (8 * i + k)"
    unfolding bit_unsigned_iff bit_and_iff bit_drop_bit_eq m by (auto dest: bit_imp_le_length)
  finally show "bit (le_bytes n v ! i) k \<longleftrightarrow> k < 8 \<and> bit v (8 * i + k)" .
qed

lemma bit_le_word:
  "bit (le_word n bs :: 'a::len word) k \<longleftrightarrow> k < LENGTH('a) \<and> k < 8 * n \<and> bit (bs ! (k div 8)) (k mod 8)"
proof (induction n)
  case 0
  then show ?case by (simp add: le_word_def)
next
  case (Suc n)
  have s: "le_word (Suc n) bs = (le_word n bs :: 'a word) OR push_bit (8 * n) (ucast (bs ! n))"
    by (simp add: le_word_def)
  have "8 * n \<le> k \<and> bit (bs ! n) (k - 8 * n) \<longleftrightarrow> 8 * n \<le> k \<and> k < 8 * Suc n \<and> bit (bs ! (k div 8)) (k mod 8)"
  proof (cases "8 * n \<le> k \<and> k < 8 * Suc n")
    case True
    then have "k div 8 = n" by (simp add: div_nat_eqI)
    then show ?thesis using True by (simp add: modulo_nat_def mult.commute)
  next
    case False
    then show ?thesis by (auto dest: bit_imp_le_length)
  qed
  then show ?case
    unfolding s by (auto simp: bit_simps Suc.IH)
qed

lemma le_word_bytes: "8 * n = LENGTH('a) \<Longrightarrow> le_word n (le_bytes n v @ rest) = (v :: 'a::len word)"
  by (rule bit_word_eqI) (auto simp: bit_le_word nth_append bit_le_bytes)

lemma le_bytes_word:
  assumes "length bs = n" "8 * n = LENGTH('a)"
  shows "le_bytes n (le_word n bs :: 'a::len word) = bs"
proof (rule nth_equalityI)
  fix i assume i: "i < length (le_bytes n (le_word n bs :: 'a word))"
  show "le_bytes n (le_word n bs :: 'a word) ! i = bs ! i"
  proof (rule bit_word_eqI)
    fix k assume k: "k < LENGTH(8)"
    have "8 * i + k < 8 * n" using i k by simp
    moreover have "(8 * i + k) div 8 = i" "(8 * i + k) mod 8 = k" using k by (simp_all add: div_nat_eqI)
    ultimately show "bit (le_bytes n (le_word n bs :: 'a word) ! i) k \<longleftrightarrow> bit (bs ! i) k"
      using i k assms(2) by (simp add: bit_le_bytes bit_le_word)
  qed
qed (simp add: assms)

lemma le_word_take: "n \<le> length bs \<Longrightarrow> le_word n bs = le_word n (take n bs)"
  by (rule bit_word_eqI) (auto simp: bit_le_word)

section \<open>The codecs of the scalar types\<close>

interpretation u8_codec: codec writeU8 readU8 "\<lambda>_. True"
  by unfold_locales (simp add: writeU8_def readU8_def)

interpretation u32_codec: codec writeU32 readU32 "\<lambda>_. True"
  by unfold_locales (simp add: writeU32_def readU32_def le_word_bytes)

interpretation u64_codec: codec writeU64 readU64 "\<lambda>_. True"
  by unfold_locales (simp add: writeU64_def readU64_def le_word_bytes)

lemma sint_word_of_int: "in_i64 i \<Longrightarrow> sint (word_of_int i :: u64) = i"
  by (simp add: signed_of_int signed_take_bit_int_eq_self_iff in_i64_def i64_min_def i64_max_def)

lemma sint_in_i64: "in_i64 (sint (w :: u64))"
  using sint_lt [of w] sint_ge [of w] by (simp add: in_i64_def i64_min_def i64_max_def)

interpretation i64_codec: codec writeI64 readI64 in_i64
  by unfold_locales (simp add: writeI64_def readI64_def u64_codec.bind_write sint_word_of_int)

interpretation f64_codec: wrapped_codec writeU64 readU64 "\<lambda>_. True" Double bits
  by unfold_locales simp

lemma f64_codec: "codec writeF64 readF64 (\<lambda>_. True)"
  using f64_codec.wrapped.codec_axioms unfolding writeF64_def [abs_def] readF64_def .

interpretation f64: codec writeF64 readF64 "\<lambda>_. True" by (rule f64_codec)

interpretation bool_codec: codec writeBool readBool "\<lambda>_. True"
  by unfold_locales (simp add: writeBool_def readBool_def u8_codec.bind_write)

definition short :: "'a list \<Rightarrow> bool" where "short xs \<longleftrightarrow> length xs < 2 ^ 32"

lemma unat_u32_of_nat: "n < 2 ^ 32 \<Longrightarrow> unat (word_of_nat n :: u32) = n"
  by (simp add: unat_of_nat)

interpretation bytes_codec: codec writeBytes readBytes short
  by unfold_locales
    (simp add: writeBytes_def readBytes_def u32_codec.bind_write short_def unat_u32_of_nat)

lemma byte_char_byte [simp]: "byte_char (char_byte c) = c"
  by (simp add: byte_char_def char_byte_def unat_of_nat)

lemma char_byte_char [simp]: "char_byte (byte_char b) = b"
proof -
  have "unat b < 256" using unsigned_less [of b, where ?'a = nat] by simp
  then show ?thesis by (simp add: byte_char_def char_byte_def of_char_of)
qed

interpretation string_codec: codec writeString readString short
proof unfold_locales
  fix s rest assume "short (s :: string)"
  then have "short (map char_byte s)" by (simp add: short_def)
  then show "readString (writeString s @ rest) = Inr (Some (s, rest))"
    by (simp add: readString_def writeString_def bytes_codec.bind_write comp_def)
qed

text \<open>The bytes of a writer, counted.\<close>

lemma length_writes [simp]:
  "length (writeU8 b) = 1" "length (writeU32 w) = 4" "length (writeU64 v) = 8" "length (writeI64 i) = 8"
  "length (writeF64 x) = 8" "length (writeBytes bs) = 4 + length bs"
  by (simp_all add: writeU8_def writeU32_def writeU64_def writeI64_def writeF64_def writeBytes_def)

section \<open>FNV-1a detects a changed byte\<close>

text \<open>The prime is odd, so it has an inverse modulo \<open>2 ^ 64\<close> and every step is injective in both arguments.\<close>

lemma fnv_prime_inverse: "(1099511628211 :: u64) * 14886173955864302971 = 1"
  by simp

lemma fnv_mult_inj: "(x :: u64) * 1099511628211 = y * 1099511628211 \<Longrightarrow> x = y"
proof -
  assume "x * 1099511628211 = y * 1099511628211"
  then have "x * (1099511628211 * 14886173955864302971) = y * (1099511628211 * 14886173955864302971)"
    by (simp only: mult.assoc [symmetric])
  then show "x = y" by (simp only: fnv_prime_inverse mult_1_right)
qed

lemma xor_cancel: "(x :: 'a::len word) XOR y = z XOR y \<longleftrightarrow> x = z" "y XOR x = y XOR z \<longleftrightarrow> x = z"
  by (auto simp: bit_eq_iff bit_xor_iff)

lemma ucast_u8_inj: "(ucast (a :: u8) :: u64) = ucast b \<longleftrightarrow> a = b"
proof
  assume e: "(ucast a :: u64) = ucast b"
  show "a = b"
  proof (rule bit_word_eqI)
    fix n assume "n < LENGTH(8)"
    then have "bit a n \<longleftrightarrow> bit (ucast a :: u64) n" "bit b n \<longleftrightarrow> bit (ucast b :: u64) n"
      by (simp_all add: bit_unsigned_iff)
    then show "bit a n \<longleftrightarrow> bit b n" unfolding e by simp
  qed
qed simp

lemma fnv_step_inj: "fnv_step b h = fnv_step b h' \<longleftrightarrow> h = h'" "fnv_step a h = fnv_step b h \<longleftrightarrow> a = b"
  using fnv_mult_inj [of "h XOR ucast b" "h' XOR ucast b"] fnv_mult_inj [of "h XOR ucast a" "h XOR ucast b"]
  unfolding fnv_step_def xor_cancel ucast_u8_inj by blast+

lemma fnv_fold_inj: "fold fnv_step bs h = fold fnv_step bs h' \<longleftrightarrow> h = h'"
  by (induction bs arbitrary: h h') (simp_all add: fnv_step_inj)

lemma fnv1a_change: "a \<noteq> b \<Longrightarrow> fnv1a (pre @ a # post) \<noteq> fnv1a (pre @ b # post)"
  by (simp add: fnv1a_def fnv_fold_inj fnv_step_inj)

lemma fnv1a_update:
  assumes "i < length bs" and "b \<noteq> bs ! i"
  shows "fnv1a (bs[i := b]) \<noteq> fnv1a bs"
  using fnv1a_change [OF assms(2), of "take i bs" "drop (Suc i) bs"] assms(1)
  by (simp add: upd_conv_take_nth_drop flip: id_take_nth_drop)

end
