(* ===== verification/Payload.thy ===== *)
theory Payload
  imports Codec
begin

text \<open>
  The payloads of protocol frames (\<open>protocol/payload.hpp\<close>). The writers and readers are composed as the
  source composes them; a reader that runs a throwing constructor unguarded ends in its fault. The lemmas
  say what survives the wire.
\<close>

section \<open>Capacities\<close>

definition writeCapacity :: "Capacity \<Rightarrow> bytes" where
  "writeCapacity c = writeU32 (word_of_nat (om_size c)) @
     concat (map (\<lambda>(d, v). writeU8 (dim_code d) @ writeF64 v) (om_entries c))"

fun read_entries :: "nat \<Rightarrow> Capacity \<Rightarrow> Capacity reader" where
  "read_entries 0 c = rd_return c"
| "read_entries (Suc n) c =
     rd_bind readU8 (\<lambda>d. rd_bind readF64 (\<lambda>v.
       let (ok, c') = cap_setAmount c (Dimension d) v
       in if \<not> ok then rd_fail else read_entries n c'))"

definition readCapacity :: "Capacity reader" where
  "readCapacity = rd_bind readU32 (\<lambda>n. rd_guard (\<not> 256 < n) (read_entries (unat n) om_empty))"

section \<open>Resources\<close>

definition writeResource :: "ResourceInfo \<Rightarrow> bytes" where
  "writeResource r =
     writeU64 (sid_value (res_id r)) @
     writeU64 (gen_value (res_generation r)) @
     writeU64 (sid_value (res_fleetId r)) @
     writeU64 (sid_value (res_nodeId r)) @
     writeU64 (sid_value (res_deviceId r)) @
     writeU64 (sid_value (res_worker r)) @
     writeU64 (sid_value (res_bootId r)) @
     writeU8 (kind_code (res_kind r)) @
     writeU8 (health_code (res_health r)) @
     writeString (architecture (res_capability r)) @
     writeString (className (res_capability r)) @
     writeString (capability (res_capability r)) @
     writeCapacity (res_nominal r) @
     writeCapacity (res_free r) @
     writeCapacity (res_committed r) @
     writeCapacity (res_unavailable r) @
     writeU8 (if res_drained r then 1 else 0) @
     writeU8 (if res_maintenance r then 1 else 0) @
     writeU8 (prov_code (res_provenance r)) @
     writeU32 (word_of_nat (length (res_freeBlocks r))) @
     concat (map (\<lambda>b. writeU64 (bc_value b)) (res_freeBlocks r))"

text \<open>
  The source reads all four capacities before it tests whether any failed; the reads after a failure
  have no effect that survives, so the reader stops at the first.
\<close>

definition readResource :: "ResourceInfo reader" where
  "readResource =
     rd_bind readU64 (\<lambda>a. rd_bind readU64 (\<lambda>b. rd_bind readU64 (\<lambda>c. rd_bind readU64 (\<lambda>d.
     rd_bind readU64 (\<lambda>e. rd_bind readU64 (\<lambda>f. rd_bind readU64 (\<lambda>g.
     rd_bind readU8 (\<lambda>kind. rd_bind readU8 (\<lambda>health.
     rd_bind readString (\<lambda>arch. rd_bind readString (\<lambda>cls. rd_bind readString (\<lambda>cpb.
     rd_bind readCapacity (\<lambda>n. rd_bind readCapacity (\<lambda>fr. rd_bind readCapacity (\<lambda>cm. rd_bind readCapacity (\<lambda>un.
     rd_bind readU8 (\<lambda>dr. rd_bind readU8 (\<lambda>ma. rd_bind readU8 (\<lambda>pr.
     rd_bind readU32 (\<lambda>nb. rd_guard (\<not> 1000000 < nb)
       (rd_bind (rd_many (unat nb) (rd_bind readU64 (\<lambda>blk. rd_return (ByteCount blk)))) (\<lambda>blocks.
         rd_return (ResourceInfo_default\<lparr>
           res_id := StrongId a, res_generation := Generation b, res_fleetId := StrongId c,
           res_nodeId := StrongId d, res_deviceId := StrongId e, res_kind := ResourceKind kind,
           res_capability := DeviceCapability_default\<lparr>architecture := arch, className := cls, capability := cpb\<rparr>,
           res_nominal := n, res_free := fr, res_freeBlocks := blocks, res_committed := cm, res_unavailable := un,
           res_health := HealthState health, res_drained := dr \<noteq> 0, res_maintenance := ma \<noteq> 0,
           res_worker := StrongId f, res_bootId := StrongId g, res_provenance := Provenance pr\<rparr>)))))))))))))))))))))))"

section \<open>Reservations and releases\<close>

definition writeReservation :: "Reservation \<Rightarrow> bytes" where
  "writeReservation r =
     writeU64 (sid_value (rsv_id r)) @
     writeU64 (gen_value (rsv_generation r)) @
     writeI64 (iv_start (rsv_interval r)) @
     writeI64 (iv_end (rsv_interval r)) @
     writeU8 (strength_code (rsv_strength r)) @
     writeF64 (delta_at (rsv_hold r) AcceleratorCount)"

definition readReservation :: "Reservation reader" where
  "readReservation =
     rd_bind readU64 (\<lambda>idv. rd_bind readU64 (\<lambda>gv. rd_bind readI64 (\<lambda>s0. rd_bind readI64 (\<lambda>e0.
     rd_bind readU8 (\<lambda>st. rd_bind readF64 (\<lambda>hold.
       case mkInterval s0 e0 of Inl _ \<Rightarrow> rd_fail
       | Inr iv \<Rightarrow>
         rd_bind (rd_lift (delta_change om_empty AcceleratorCount hold)) (\<lambda>h.
           rd_return (Reservation_default\<lparr>rsv_id := StrongId idv, rsv_generation := Generation gv,
             rsv_interval := iv, rsv_strength := ReservationStrength st, rsv_hold := h\<rparr>))))))))"

definition writeRelease :: "ReleaseEvent \<Rightarrow> bytes" where
  "writeRelease e =
     writeU64 (sid_value (rel_sourceId e)) @
     writeI64 (rel_time e) @
     writeI64 (rel_earliest e) @
     writeI64 (rel_latest e) @
     writeF64 (frac_value (rel_confidence e)) @
     writeF64 (delta_at (rel_release e) AcceleratorCount)"

text \<open>The two unguarded constructions, of the confidence and of the change, throw in this order.\<close>

definition readRelease :: "ReleaseEvent reader" where
  "readRelease =
     rd_bind readU64 (\<lambda>src. rd_bind readI64 (\<lambda>t. rd_bind readI64 (\<lambda>ear. rd_bind readI64 (\<lambda>lat.
     rd_bind readF64 (\<lambda>conf. rd_bind readF64 (\<lambda>rel.
     rd_bind (rd_lift (mkFraction conf)) (\<lambda>c.
     rd_bind (rd_lift (delta_change om_empty AcceleratorCount rel)) (\<lambda>h.
       rd_return \<lparr>rel_sourceId = StrongId src, rel_time = t, rel_earliest = ear, rel_latest = lat,
         rel_release = h, rel_confidence = c, rel_provenance = ForecastP\<rparr>))))))))"

section \<open>Demands\<close>

definition writeDemand :: "WorkloadDemand \<Rightarrow> bytes" where
  "writeDemand d =
     writeU64 (sid_value (dm_id d)) @
     writeU64 (gen_value (dm_generation d)) @
     writeCapacity (dm_requirements d) @
     writeU64 (dc_value (dm_minAccelerators d)) @
     writeU8 (if dm_requiresContiguousVram d then 1 else 0) @
     writeU64 (bc_value (dm_minContiguousVram d))"

definition readDemand :: "WorkloadDemand reader" where
  "readDemand =
     rd_bind readU64 (\<lambda>idv. rd_bind readU64 (\<lambda>gv. rd_bind readCapacity (\<lambda>req.
     rd_bind readU64 (\<lambda>minacc. rd_bind readU8 (\<lambda>reqc. rd_bind readU64 (\<lambda>minc.
       rd_return (WorkloadDemand_default\<lparr>dm_id := StrongId idv, dm_generation := Generation gv,
         dm_requirements := req, dm_minAccelerators := DeviceCount minacc,
         dm_requiresContiguousVram := reqc \<noteq> 0, dm_minContiguousVram := ByteCount minc\<rparr>)))))))"

lemma rd_bind_lift [simp]: "rd_bind (rd_lift (Inr x)) f = f x" "rd_bind (rd_lift (Inl e)) f = (\<lambda>bs. Inl e)"
  by (simp_all add: rd_bind_def rd_lift_def fun_eq_iff)

section \<open>The capacity codec\<close>

text \<open>A capacity as \<open>setAmount\<close> leaves it: every stored amount is finite and positive.\<close>

definition capacity_wire :: "Capacity \<Rightarrow> bool" where
  "capacity_wire c \<longleftrightarrow> (\<forall>(d, v) \<in> set (om_entries c). isfinite v \<and> \<not> d_lt v d_zero \<and> \<not> d_eq v d_zero)"

lemma om_size_Dimension: "om_size (c :: Capacity) \<le> 256"
proof -
  have "om_size c = card (fst ` set (om_entries c))"
    using distinct_card [OF om_entries_distinct, of c] by (simp add: om_size_def)
  also have "\<dots> \<le> card (range Dimension)"
    by (rule card_mono) (auto intro: Dimension.exhaust)
  also have "\<dots> \<le> card (UNIV :: u8 set)" by (rule card_image_le) simp
  also have "\<dots> = 256" by (simp add: card_word)
  finally show ?thesis .
qed

lemma read_entries_write:
  assumes "\<forall>(d, v) \<in> set xs. isfinite v \<and> \<not> d_lt v d_zero \<and> \<not> d_eq v d_zero"
  shows "read_entries (length xs) c (concat (map (\<lambda>(d, v). writeU8 (dim_code d) @ writeF64 v) xs) @ rest) =
    Inr (Some (fold (\<lambda>(d, v). om_insert d v) xs c, rest))"
  using assms
proof (induction xs arbitrary: c)
  case (Cons x xs)
  obtain d v where x: "x = (d, v)" by (cases x)
  have "cap_setAmount c (Dimension (dim_code d)) v = (True, om_insert d v c)"
    using Cons.prems by (simp add: x cap_setAmount_def)
  then show ?case
    using Cons by (simp add: x u8_codec.bind_write f64.bind_write)
qed simp

interpretation capacity_codec: codec writeCapacity readCapacity capacity_wire
proof unfold_locales
  fix c rest assume c: "capacity_wire c"
  let ?n = "word_of_nat (om_size c) :: u32"
  have n: "unat ?n = length (om_entries c)"
    using om_size_Dimension [of c] unat_u32_of_nat [of "om_size c"] by (simp add: om_size_def)
  then have "\<not> 256 < ?n" using om_size_Dimension [of c] by (simp add: word_less_nat_alt om_size_def)
  then show "readCapacity (writeCapacity c @ rest) = Inr (Some (c, rest))"
    using c read_entries_write [of "om_entries c" om_empty rest]
    by (simp add: readCapacity_def writeCapacity_def u32_codec.bind_write n capacity_wire_def om_rebuild)
qed

section \<open>What survives the wire\<close>

definition resource_wire :: "ResourceInfo \<Rightarrow> bool" where
  "resource_wire r \<longleftrightarrow> short (architecture (res_capability r)) \<and> short (className (res_capability r)) \<and>
     short (capability (res_capability r)) \<and> capacity_wire (res_nominal r) \<and> capacity_wire (res_free r) \<and>
     capacity_wire (res_committed r) \<and> capacity_wire (res_unavailable r) \<and> length (res_freeBlocks r) \<le> 1000000"

definition resource_image :: "ResourceInfo \<Rightarrow> ResourceInfo" where
  "resource_image r = r\<lparr>res_capability := (res_capability r)\<lparr>markers := []\<rparr>, res_observedAt := 0\<rparr>"

interpretation block_codec: wrapped_codec writeU64 readU64 "\<lambda>_. True" ByteCount bc_value
  by unfold_locales simp

lemma resource_eq:
  "ResourceInfo_default\<lparr>
     res_id := StrongId (sid_value (res_id r)), res_generation := Generation (gen_value (res_generation r)),
     res_fleetId := StrongId (sid_value (res_fleetId r)), res_nodeId := StrongId (sid_value (res_nodeId r)),
     res_deviceId := StrongId (sid_value (res_deviceId r)), res_kind := ResourceKind (kind_code (res_kind r)),
     res_capability := DeviceCapability_default\<lparr>architecture := architecture (res_capability r),
       className := className (res_capability r), capability := capability (res_capability r)\<rparr>,
     res_nominal := res_nominal r, res_free := res_free r, res_freeBlocks := res_freeBlocks r,
     res_committed := res_committed r, res_unavailable := res_unavailable r,
     res_health := HealthState (health_code (res_health r)),
     res_drained := (if res_drained r then 1 else 0) \<noteq> (0 :: u8),
     res_maintenance := (if res_maintenance r then 1 else 0) \<noteq> (0 :: u8),
     res_worker := StrongId (sid_value (res_worker r)), res_bootId := StrongId (sid_value (res_bootId r)),
     res_provenance := Provenance (prov_code (res_provenance r))\<rparr> = resource_image r"
  by (simp add: resource_image_def ResourceInfo_default_def DeviceCapability_default_def)

interpretation resource_format: wire_format writeResource readResource resource_wire resource_image
proof unfold_locales
  fix r rest assume r: "resource_wire r"
  let ?n = "word_of_nat (length (res_freeBlocks r)) :: u32"
  have n: "unat ?n = length (res_freeBlocks r)"
    using r by (simp add: resource_wire_def unat_u32_of_nat)
  then have "\<not> 1000000 < ?n" using r by (simp add: word_less_nat_alt resource_wire_def)
  then show "readResource (writeResource r @ rest) = Inr (Some (resource_image r, rest))"
    using r unfolding resource_wire_def writeResource_def readResource_def append_assoc
    by (simp only: u64_codec.bind_write u8_codec.bind_write string_codec.bind_write capacity_codec.bind_write
        u32_codec.bind_write rd_guard_simps n block_codec.wrapped.bind_many list.pred_True list_all_length
        resource_eq [symmetric]) (simp add: block_codec.wrapped.bind_many list_all_length)
qed

definition single_amount :: "CapacityDelta \<Rightarrow> CapacityDelta" where
  "single_amount dl = om_insert AcceleratorCount (delta_at dl AcceleratorCount) om_empty"

lemma change_new: "amount_ok v \<Longrightarrow> delta_change om_empty AcceleratorCount v = Inr (om_insert AcceleratorCount v om_empty)"
  by (simp add: delta_change_def delta_at_def d_add_zero_left)

definition reservation_wire :: "Reservation \<Rightarrow> bool" where
  "reservation_wire r \<longleftrightarrow> in_i64 (iv_start (rsv_interval r)) \<and> in_i64 (iv_end (rsv_interval r)) \<and>
     iv_valid (rsv_interval r) \<and> amount_ok (delta_at (rsv_hold r) AcceleratorCount)"

definition reservation_image :: "Reservation \<Rightarrow> Reservation" where
  "reservation_image r = r\<lparr>rsv_hold := single_amount (rsv_hold r), rsv_provenance := Reported\<rparr>"

interpretation reservation_format: wire_format writeReservation readReservation reservation_wire reservation_image
proof unfold_locales
  fix r rest assume r: "reservation_wire r"
  then have m: "mkInterval (iv_start (rsv_interval r)) (iv_end (rsv_interval r)) = Inr (rsv_interval r)"
    by (simp add: reservation_wire_def iv_valid_def)
  then show "readReservation (writeReservation r @ rest) = Inr (Some (reservation_image r, rest))"
    using r unfolding reservation_wire_def
    by (simp add: readReservation_def writeReservation_def u64_codec.bind_write i64_codec.bind_write
        u8_codec.bind_write f64.bind_write change_new m reservation_image_def single_amount_def
        Reservation_default_def)
qed

definition release_wire :: "ReleaseEvent \<Rightarrow> bool" where
  "release_wire e \<longleftrightarrow> in_i64 (rel_time e) \<and> in_i64 (rel_earliest e) \<and> in_i64 (rel_latest e) \<and>
     frac_valid (rel_confidence e) \<and> amount_ok (delta_at (rel_release e) AcceleratorCount)"

definition release_image :: "ReleaseEvent \<Rightarrow> ReleaseEvent" where
  "release_image e = e\<lparr>rel_release := single_amount (rel_release e), rel_provenance := ForecastP\<rparr>"

interpretation release_format: wire_format writeRelease readRelease release_wire release_image
proof unfold_locales
  fix e rest assume e: "release_wire e"
  then have m: "mkFraction (frac_value (rel_confidence e)) = Inr (rel_confidence e)"
    by (simp add: release_wire_def mkFraction_Inr)
  then show "readRelease (writeRelease e @ rest) = Inr (Some (release_image e, rest))"
    using e unfolding release_wire_def
    by (simp add: readRelease_def writeRelease_def u64_codec.bind_write i64_codec.bind_write f64.bind_write
        change_new m release_image_def single_amount_def)
qed

definition demand_image :: "WorkloadDemand \<Rightarrow> WorkloadDemand" where
  "demand_image d = WorkloadDemand_default\<lparr>dm_id := dm_id d, dm_generation := dm_generation d,
     dm_requirements := dm_requirements d, dm_minAccelerators := dm_minAccelerators d,
     dm_requiresContiguousVram := dm_requiresContiguousVram d, dm_minContiguousVram := dm_minContiguousVram d\<rparr>"

interpretation demand_format: wire_format writeDemand readDemand "\<lambda>d :: WorkloadDemand. capacity_wire (dm_requirements d)" demand_image
proof unfold_locales
  fix d :: WorkloadDemand and rest assume "capacity_wire (dm_requirements d)"
  then show "readDemand (writeDemand d @ rest) = Inr (Some (demand_image d, rest))"
    by (simp add: readDemand_def writeDemand_def u64_codec.bind_write u8_codec.bind_write capacity_codec.bind_write
        demand_image_def)
qed

section \<open>Readers on arbitrary bytes\<close>

text \<open>
  A reader is safe with a postcondition when, on any bytes whatever, it does not throw, what it leaves
  unread is a suffix of its input, and any value it returns satisfies the postcondition.
\<close>

definition safe_reader :: "'a reader \<Rightarrow> ('a \<Rightarrow> bool) \<Rightarrow> bool" where
  "safe_reader m P \<longleftrightarrow> (\<forall>bs. \<exists>res. m bs = Inr res \<and>
     (case res of None \<Rightarrow> True | Some (x, rest) \<Rightarrow> P x \<and> (\<exists>pre. bs = pre @ rest)))"

named_theorems safe_intros

lemma safe_return [safe_intros]: "P x \<Longrightarrow> safe_reader (rd_return x) P"
  and safe_fail [safe_intros]: "safe_reader rd_fail P"
  by (simp_all add: safe_reader_def)

lemma safe_guard [safe_intros]: "(b \<Longrightarrow> safe_reader m P) \<Longrightarrow> safe_reader (rd_guard b m) P"
  by (cases b) (simp_all add: safe_fail)

lemma safe_bind [safe_intros]:
  assumes m: "safe_reader m P" and f: "\<And>x. P x \<Longrightarrow> safe_reader (f x) Q"
  shows "safe_reader (rd_bind m f) Q"
  unfolding safe_reader_def
proof
  fix bs
  obtain r where r: "m bs = Inr r" "case r of None \<Rightarrow> True | Some (x, rest) \<Rightarrow> P x \<and> (\<exists>pre. bs = pre @ rest)"
    using m unfolding safe_reader_def by blast
  show "\<exists>res. rd_bind m f bs = Inr res \<and> (case res of None \<Rightarrow> True | Some (x, rest) \<Rightarrow> Q x \<and> (\<exists>pre. bs = pre @ rest))"
  proof (cases r)
    case None
    then show ?thesis using r(1) by (simp add: rd_bind_def)
  next
    case (Some y)
    then obtain x rest pre where y: "r = Some (x, rest)" "P x" "bs = pre @ rest" using r(2) by (cases y) auto
    obtain q where q: "f x rest = Inr q" "case q of None \<Rightarrow> True | Some (z, u) \<Rightarrow> Q z \<and> (\<exists>pre. rest = pre @ u)"
      using f [OF y(2)] unfolding safe_reader_def by blast
    have "case q of None \<Rightarrow> True | Some (z, u) \<Rightarrow> Q z \<and> (\<exists>pre. bs = pre @ u)"
      using q(2) y(3) by (auto split: option.splits)
    then show ?thesis using r(1) y(1) q(1) by (auto simp: rd_bind_def)
  qed
qed

lemma safe_weaken:
  assumes "safe_reader m P" and "\<And>x. P x \<Longrightarrow> Q x"
  shows "safe_reader m Q"
  unfolding safe_reader_def
proof
  fix bs
  obtain r where "m bs = Inr r" "case r of None \<Rightarrow> True | Some (x, rest) \<Rightarrow> P x \<and> (\<exists>pre. bs = pre @ rest)"
    using assms(1) unfolding safe_reader_def by blast
  then show "\<exists>res. m bs = Inr res \<and> (case res of None \<Rightarrow> True | Some (x, rest) \<Rightarrow> Q x \<and> (\<exists>pre. bs = pre @ rest))"
    by (cases r) (auto intro: assms(2))
qed

lemma drop_suffix: "\<exists>pre. bs = pre @ drop n bs"
  by (rule exI [of _ "take n bs"]) simp

lemma safe_u8 [safe_intros]: "safe_reader readU8 (\<lambda>_. True)"
  and safe_u32 [safe_intros]: "safe_reader readU32 (\<lambda>_. True)"
  and safe_u64 [safe_intros]: "safe_reader readU64 (\<lambda>_. True)"
  by (simp_all add: safe_reader_def readU8_def readU32_def readU64_def drop_suffix)

lemma safe_i64 [safe_intros]: "safe_reader readI64 in_i64"
  unfolding readI64_def by (intro safe_bind [OF safe_u64] safe_return sint_in_i64)

lemma safe_f64 [safe_intros]: "safe_reader readF64 (\<lambda>_. True)"
  unfolding readF64_def by (intro safe_bind [OF safe_u64] safe_return TrueI)

lemma safe_bytes: "safe_reader readBytes (\<lambda>_. True)"
  unfolding readBytes_def by (intro safe_bind [OF safe_u32]) (auto simp: safe_reader_def drop_suffix)

lemma safe_string [safe_intros]: "safe_reader readString (\<lambda>_. True)"
  unfolding readString_def by (intro safe_bind [OF safe_bytes] safe_return TrueI)

lemma safe_many [safe_intros]: "safe_reader m P \<Longrightarrow> safe_reader (rd_many n m) (\<lambda>xs. length xs = n \<and> list_all P xs)"
  by (induction n) (auto intro!: safe_intros)

lemma setAmount_true: "cap_setAmount c d v = (True, c') \<Longrightarrow> capacity_ok c \<Longrightarrow> capacity_ok c'"
  using cap_setAmount_ok [of c d v] by simp

lemma safe_entries: "capacity_ok c \<Longrightarrow> safe_reader (read_entries n c) capacity_ok"
proof (induction n arbitrary: c)
  case (Suc n)
  have "safe_reader (let (ok, c') = cap_setAmount c (Dimension d) v in if \<not> ok then rd_fail else read_entries n c') capacity_ok"
    for d v
    using Suc.IH setAmount_true Suc.prems by (cases "cap_setAmount c (Dimension d) v") (auto simp: safe_fail)
  then show ?case by (simp only: read_entries.simps) (intro safe_bind [OF safe_u8] safe_bind [OF safe_f64])
qed (simp add: safe_return)

lemma safe_capacity: "safe_reader readCapacity capacity_ok"
  unfolding readCapacity_def by (intro safe_bind [OF safe_u32] safe_guard safe_entries capacity_ok_empty)

definition resource_clean :: "ResourceInfo \<Rightarrow> bool" where
  "resource_clean r \<longleftrightarrow> capacity_ok (res_nominal r) \<and> capacity_ok (res_free r) \<and> capacity_ok (res_committed r) \<and>
     capacity_ok (res_unavailable r) \<and> length (res_freeBlocks r) \<le> 1000000 \<and>
     markers (res_capability r) = [] \<and> res_observedAt r = 0"

lemma safe_resource: "safe_reader readResource resource_clean"
proof -
  have n: "unat nb \<le> 1000000" if "\<not> 1000000 < nb" for nb :: u32
    using that by (simp add: word_less_nat_alt)
  have blk: "safe_reader (rd_bind readU64 (\<lambda>blk. rd_return (ByteCount blk))) (\<lambda>_. True)"
    by (intro safe_bind [OF safe_u64] safe_return TrueI)
  show ?thesis
    unfolding readResource_def
    by (intro safe_bind [OF safe_u64] safe_bind [OF safe_u8] safe_bind [OF safe_string] safe_bind [OF safe_capacity]
        safe_bind [OF safe_u32] safe_guard safe_bind [OF safe_many [OF blk]] safe_return)
      (auto simp: resource_clean_def ResourceInfo_default_def DeviceCapability_default_def dest: n)
qed

lemma safe_demand: "safe_reader readDemand (\<lambda>d. capacity_ok (dm_requirements d) \<and> d = demand_image d)"
  unfolding readDemand_def
  by (intro safe_bind [OF safe_u64] safe_bind [OF safe_u8] safe_bind [OF safe_capacity] safe_return)
    (auto simp: demand_image_def)

section \<open>Properties\<close>

text \<open>
  A resource survives the wire. Reading what was written returns the same resource, with the rest of the
  input unread, whenever its strings, blocks and capacities are within the format's bounds; only the
  capability markers and the observation time are not carried.
\<close>

theorem resource_roundtrip:
  assumes "resource_wire r"
  shows "readResource (writeResource r @ rest) =
     Inr (Some (r\<lparr>res_capability := (res_capability r)\<lparr>markers := []\<rparr>, res_observedAt := 0\<rparr>, rest))"
  using resource_format.read_image [OF assms] by (simp add: resource_image_def)

theorem resource_roundtrip_witness:
  "readResource (writeResource (ResourceInfo_default\<lparr>res_id := StrongId 5, res_freeBlocks := [ByteCount 7]\<rparr>) @ [1]) =
     Inr (Some (ResourceInfo_default\<lparr>res_id := StrongId 5, res_freeBlocks := [ByteCount 7]\<rparr>, [1]))"
  using resource_roundtrip [of "ResourceInfo_default\<lparr>res_id := StrongId 5, res_freeBlocks := [ByteCount 7]\<rparr>" "[1]"]
  by (simp add: resource_wire_def ResourceInfo_default_def DeviceCapability_default_def capacity_wire_def short_def)

text \<open>
  What the other payloads carry. A reservation comes back with its accelerator hold alone and a release
  with its accelerator amount alone; a demand comes back with its identity, requirements, minimum
  accelerators and contiguity, and every other constraint of it (topology group, classes, capability,
  headroom, fragmentation, duration) replaced by the default, which is no constraint.
\<close>

theorem payloads_carry:
  "(reservation_wire r \<longrightarrow> readReservation (writeReservation r @ rest) =
      Inr (Some (r\<lparr>rsv_hold := single_amount (rsv_hold r), rsv_provenance := Reported\<rparr>, rest))) \<and>
   (release_wire e \<longrightarrow> readRelease (writeRelease e @ rest) =
      Inr (Some (e\<lparr>rel_release := single_amount (rel_release e), rel_provenance := ForecastP\<rparr>, rest))) \<and>
   (capacity_wire (dm_requirements d) \<longrightarrow> readDemand (writeDemand d @ rest) =
      Inr (Some (WorkloadDemand_default\<lparr>dm_id := dm_id d, dm_generation := dm_generation d,
        dm_requirements := dm_requirements d, dm_minAccelerators := dm_minAccelerators d,
        dm_requiresContiguousVram := dm_requiresContiguousVram d, dm_minContiguousVram := dm_minContiguousVram d\<rparr>, rest)))"
  using reservation_format.read_image release_format.read_image demand_format.read_image
  by (simp add: reservation_image_def release_image_def demand_image_def)

theorem payloads_carry_witness:
  "readDemand (writeDemand (WorkloadDemand_default\<lparr>dm_topologyGroupSize := Some (DeviceCount 8)\<rparr>) @ []) =
     Inr (Some (WorkloadDemand_default, []))"
proof -
  have "capacity_wire (dm_requirements (WorkloadDemand_default\<lparr>dm_topologyGroupSize := Some (DeviceCount 8)\<rparr>))"
    by (simp add: WorkloadDemand_default_def capacity_wire_def)
  then show ?thesis
    using payloads_carry [where d = "WorkloadDemand_default\<lparr>dm_topologyGroupSize := Some (DeviceCount 8)\<rparr>"
        and rest = "[]", THEN conjunct2, THEN conjunct2] by (simp add: WorkloadDemand_default_def)
qed

text \<open>
  C38. Malformed resources and demands are rejected, never thrown: on any bytes whatever the two readers
  return, leave a suffix of the input unread, and what they accept is clean: every amount finite and not
  negative, at most a million free blocks, no constraint the format does not carry.
\<close>

theorem readers_safe:
  "(\<exists>res. readResource bs = Inr res \<and> (case res of None \<Rightarrow> True
      | Some (r, rest) \<Rightarrow> resource_clean r \<and> (\<exists>pre. bs = pre @ rest))) \<and>
   (\<exists>res. readDemand bs = Inr res \<and> (case res of None \<Rightarrow> True
      | Some (d, rest) \<Rightarrow> (capacity_ok (dm_requirements d) \<and> d = demand_image d) \<and> (\<exists>pre. bs = pre @ rest)))"
  using safe_resource safe_demand unfolding safe_reader_def by blast

text \<open>
  A hostile release throws. If the confidence in the payload is not a fraction (or, after a valid
  confidence, the amount is not finite), the reader neither fails nor returns: it ends in an exception
  nothing in it catches; and so does the reservation reader on a hold that is not finite.
\<close>

lemma hostile_payload_throws:
  "(in_i64 (rel_time e) \<and> in_i64 (rel_earliest e) \<and> in_i64 (rel_latest e) \<and>
      (\<not> frac_valid (rel_confidence e) \<or> \<not> isfinite (delta_at (rel_release e) AcceleratorCount)) \<longrightarrow>
      readRelease (writeRelease e @ rest) = Inl Invalid_argument) \<and>
   (in_i64 (iv_start (rsv_interval r)) \<and> in_i64 (iv_end (rsv_interval r)) \<and> iv_valid (rsv_interval r) \<and>
      \<not> isfinite (delta_at (rsv_hold r) AcceleratorCount) \<longrightarrow>
      readReservation (writeReservation r @ rest) = Inl Invalid_argument)"
proof (intro conjI impI)
  assume e: "in_i64 (rel_time e) \<and> in_i64 (rel_earliest e) \<and> in_i64 (rel_latest e) \<and>
      (\<not> frac_valid (rel_confidence e) \<or> \<not> isfinite (delta_at (rel_release e) AcceleratorCount))"
  let ?m = "mkFraction (frac_value (rel_confidence e)) :: fault + Confidence"
  have "?m = Inl Invalid_argument \<or>
      (\<exists>c. ?m = Inr c) \<and> delta_change om_empty AcceleratorCount (delta_at (rel_release e) AcceleratorCount) = Inl Invalid_argument"
    using e by (cases "frac_valid (rel_confidence e)") (auto simp: mkFraction_Inl mkFraction_Inr delta_change_def)
  then show "readRelease (writeRelease e @ rest) = Inl Invalid_argument"
    using e by (auto simp: readRelease_def writeRelease_def u64_codec.bind_write i64_codec.bind_write f64.bind_write)
next
  assume r: "in_i64 (iv_start (rsv_interval r)) \<and> in_i64 (iv_end (rsv_interval r)) \<and> iv_valid (rsv_interval r) \<and>
      \<not> isfinite (delta_at (rsv_hold r) AcceleratorCount)"
  then have m: "mkInterval (iv_start (rsv_interval r)) (iv_end (rsv_interval r)) = Inr (rsv_interval r)"
    by (simp add: iv_valid_def)
  show "readReservation (writeReservation r @ rest) = Inl Invalid_argument"
    using r by (simp add: readReservation_def writeReservation_def u64_codec.bind_write i64_codec.bind_write
        u8_codec.bind_write f64.bind_write m delta_change_def)
qed

end
