(* ===== verification/Persistence.thy ===== *)
theory Persistence
  imports Model Payload
begin

text \<open>
  Durable state (\<open>persistence/store.cpp\<close> and the \<open>save\<close>, \<open>load\<close> and \<open>digest\<close> of \<open>model/model.cpp\<close>). The file
  system is a map from paths to contents; whether the operating system lets a file be opened and how much
  of a write reaches it is an argument. A failing \<open>load\<close> leaves behind what it has changed so far, so it
  returns the model with its answer.
\<close>

section \<open>Files\<close>

type_synonym files = "string \<Rightarrow> bytes option"

text \<open>
  The file cannot be opened; it is truncated, a prefix of the bytes is written and the stream reports the failure; the stream
  takes all bytes into its buffer, and the failure to write the rest of them comes when it is closed, after its state was
  returned; or all is written.
\<close>

datatype WriteEnv = OpenFails | WriteFails nat | FlushFails nat | WriteOk

definition writeFileBytes :: "WriteEnv \<Rightarrow> string \<Rightarrow> bytes \<Rightarrow> files \<Rightarrow> bool \<times> files" where
  "writeFileBytes env path bs fs =
     (case env of
        OpenFails \<Rightarrow> (False, fs)
      | WriteFails n \<Rightarrow> (False, fs(path \<mapsto> take n bs))
      | FlushFails n \<Rightarrow> (True, fs(path \<mapsto> take n bs))
      | WriteOk \<Rightarrow> (True, fs(path \<mapsto> bs)))"

definition kMaxFileBytes :: nat where "kMaxFileBytes = 64 * 1024 * 1024"

text \<open>\<open>readable\<close> says whether the file, when it exists, can be opened and read.\<close>

definition readFileBytes :: "bool \<Rightarrow> string \<Rightarrow> nat \<Rightarrow> files \<Rightarrow> bytes option" where
  "readFileBytes readable path maxBytes fs =
     (case fs path of None \<Rightarrow> None
      | Some bs \<Rightarrow> if \<not> readable then None else if maxBytes < length bs then None else Some bs)"

section \<open>Saving\<close>

definition kPersistMagic :: u32 where "kPersistMagic = 1128677937"
definition kPersistVersion :: u32 where "kPersistVersion = 1"

text \<open>Reading the nominal amounts back as integers may be undefined.\<close>

definition save_resource :: "ResourceId \<times> ResourceInfo \<Rightarrow> fault + bytes" where
  "save_resource p =
     (let (rid, r) = p in
      bindR (cap_vram (res_nominal r)) (\<lambda>vram.
      bindR (cap_accelerators (res_nominal r)) (\<lambda>acc.
        Inr (writeU64 (sid_value rid) @
          writeU64 (gen_value (res_generation r)) @
          writeU64 (sid_value (res_fleetId r)) @
          writeU64 (sid_value (res_nodeId r)) @
          writeU64 (sid_value (res_deviceId r)) @
          writeString (architecture (res_capability r)) @
          writeString (className (res_capability r)) @
          writeString (capability (res_capability r)) @
          writeU64 (bc_value vram) @
          writeU64 (dc_value acc) @
          writeU8 (health_code (res_health r)) @
          writeU8 (kind_code (res_kind r))))))"

definition save_reservation :: "Reservation \<Rightarrow> bytes" where
  "save_reservation r =
     writeU64 (sid_value (rsv_id r)) @ writeU64 (gen_value (rsv_generation r)) @
     writeI64 (iv_start (rsv_interval r)) @ writeI64 (iv_end (rsv_interval r)) @
     writeU8 (strength_code (rsv_strength r)) @ writeF64 (delta_at (rsv_hold r) AcceleratorCount)"

definition save_release :: "ReleaseEvent \<Rightarrow> bytes" where
  "save_release e =
     writeU64 (sid_value (rel_sourceId e)) @ writeI64 (rel_time e) @ writeI64 (rel_earliest e) @
     writeI64 (rel_latest e) @ writeF64 (frac_value (rel_confidence e)) @
     writeF64 (delta_at (rel_release e) AcceleratorCount)"

definition save_forecast :: "TimePoint \<times> Capacity \<times> Capacity \<Rightarrow> bytes" where
  "save_forecast p = (let (at, ex, ob) = p in
     writeI64 at @ writeF64 (cap_amount ex AcceleratorCount) @ writeF64 (cap_amount ob AcceleratorCount))"

definition write_count :: "'a list \<Rightarrow> bytes" where
  "write_count xs = writeU32 (word_of_nat (length xs))"

definition save_body :: "CapacityModel \<Rightarrow> fault + bytes" where
  "save_body m =
     bindR (foldR (\<lambda>p out. bindR (save_resource p) (\<lambda>b. Inr (out @ b))) (om_entries (m_resources m))
              (writeU64 (gen_value (m_epoch m)) @ write_count (om_entries (m_resources m)))) (\<lambda>out.
       Inr (out @
         write_count (m_reservations m) @ concat (map save_reservation (m_reservations m)) @
         write_count (m_releases m) @ concat (map save_release (m_releases m)) @
         write_count (m_forecastHistory m) @ concat (map save_forecast (m_forecastHistory m))))"

definition seal :: "bytes \<Rightarrow> bytes" where
  "seal body = writeU32 kPersistMagic @ writeU32 kPersistVersion @ writeU32 (word_of_nat (length body + 8)) @
     body @ writeU64 (fnv1a body)"

definition save :: "WriteEnv \<Rightarrow> CapacityModel \<Rightarrow> string \<Rightarrow> files \<Rightarrow> fault + bool \<times> files" where
  "save env m path fs = bindR (save_body m) (\<lambda>body. Inr (writeFileBytes env path (seal body) fs))"

text \<open>The digest: the checksum of the epoch and three counts, in decimal.\<close>

definition digest :: "CapacityModel \<Rightarrow> string" where
  "digest m = u64_to_string (fnv1a (writeU64 (gen_value (m_epoch m)) @ write_count (om_entries (m_resources m)) @
     write_count (m_reservations m) @ write_count (m_forecastHistory m)))"

section \<open>Loading\<close>

definition load_resource :: "ResourceInfo reader" where
  "load_resource =
     rd_bind readU64 (\<lambda>idv. rd_bind readU64 (\<lambda>gv. rd_bind readU64 (\<lambda>fv. rd_bind readU64 (\<lambda>nv. rd_bind readU64 (\<lambda>dv.
     rd_bind readString (\<lambda>arch. rd_bind readString (\<lambda>cls. rd_bind readString (\<lambda>cpb.
     rd_bind readU64 (\<lambda>vramv. rd_bind readU64 (\<lambda>accv. rd_bind readU8 (\<lambda>health. rd_bind readU8 (\<lambda>kind.
       rd_return (ResourceInfo_default\<lparr>
         res_id := StrongId idv, res_generation := Generation gv, res_fleetId := StrongId fv,
         res_nodeId := StrongId nv, res_deviceId := StrongId dv, res_kind := ResourceKind kind,
         res_capability := DeviceCapability_default\<lparr>architecture := arch, className := cls, capability := cpb\<rparr>,
         res_nominal := setAccelerators (DeviceCount accv) (setVram (ByteCount vramv) om_empty),
         res_health := HealthState health, res_worker := sid_default, res_bootId := sid_default\<rparr>)))))))))))))"

definition load_reservation :: "Reservation reader" where
  "load_reservation =
     rd_bind readU64 (\<lambda>idv. rd_bind readU64 (\<lambda>gv. rd_bind readI64 (\<lambda>s0. rd_bind readI64 (\<lambda>e0.
     rd_bind readU8 (\<lambda>st. rd_bind readF64 (\<lambda>hold.
       case mkInterval s0 e0 of Inl _ \<Rightarrow> rd_fail
       | Inr iv \<Rightarrow>
         rd_bind (rd_lift (delta_change om_empty AcceleratorCount hold)) (\<lambda>h.
           rd_return (Reservation_default\<lparr>rsv_id := StrongId idv, rsv_generation := Generation gv,
             rsv_interval := iv, rsv_strength := ReservationStrength st, rsv_hold := h\<rparr>))))))))"

definition load_release :: "ReleaseEvent reader" where
  "load_release =
     rd_bind readU64 (\<lambda>src. rd_bind readI64 (\<lambda>t. rd_bind readI64 (\<lambda>ear. rd_bind readI64 (\<lambda>lat.
     rd_bind readF64 (\<lambda>conf. rd_bind readF64 (\<lambda>rel.
     rd_bind (rd_lift (mkFraction conf)) (\<lambda>c.
     rd_bind (rd_lift (delta_change om_empty AcceleratorCount rel)) (\<lambda>h.
       rd_return \<lparr>rel_sourceId = StrongId src, rel_time = t, rel_earliest = ear, rel_latest = lat,
         rel_release = h, rel_confidence = c, rel_provenance = ForecastP\<rparr>))))))))"

text \<open>The cast of the stored double to an integer is undefined outside the range of \<open>uint64_t\<close>.\<close>

definition load_count :: "double \<Rightarrow> fault + Capacity" where
  "load_count x = (case d_to_u64 x of None \<Rightarrow> Inl Undefined | Some w \<Rightarrow> Inr (setAccelerators (DeviceCount w) om_empty))"

definition load_forecast :: "(TimePoint \<times> Capacity \<times> Capacity) reader" where
  "load_forecast =
     rd_bind readI64 (\<lambda>at. rd_bind readF64 (\<lambda>ex. rd_bind readF64 (\<lambda>ob.
     rd_bind (rd_lift (load_count ex)) (\<lambda>e. rd_bind (rd_lift (load_count ob)) (\<lambda>o'. rd_return (at, e, o'))))))"

text \<open>A counted section: the count, the clearing of the old records, and one record at a time.\<close>

fun load_items :: "'a reader \<Rightarrow> ('a \<Rightarrow> CapacityModel \<Rightarrow> CapacityModel) \<Rightarrow> nat \<Rightarrow> CapacityModel \<Rightarrow> bytes \<Rightarrow>
    fault + bool \<times> CapacityModel \<times> bytes" where
  "load_items rd add 0 m bs = Inr (True, m, bs)"
| "load_items rd add (Suc n) m bs =
     bindR (rd bs) (\<lambda>r. case r of None \<Rightarrow> Inr (False, m, bs)
       | Some (x, rest) \<Rightarrow> load_items rd add n (add x m) rest)"

definition load_section :: "'a reader \<Rightarrow> (CapacityModel \<Rightarrow> CapacityModel) \<Rightarrow> ('a \<Rightarrow> CapacityModel \<Rightarrow> CapacityModel) \<Rightarrow>
    CapacityModel \<Rightarrow> bytes \<Rightarrow> (CapacityModel \<Rightarrow> bytes \<Rightarrow> fault + bool \<times> CapacityModel) \<Rightarrow> fault + bool \<times> CapacityModel" where
  "load_section rd clear add m bs k =
     bindR (readU32 bs) (\<lambda>c. case c of None \<Rightarrow> Inr (False, m)
       | Some (n, rest) \<Rightarrow>
           if 1000000 < n then Inr (False, m)
           else bindR (load_items rd add (unat n) (clear m) rest) (\<lambda>(ok, m', rest').
                  if ok then k m' rest' else Inr (False, m')))"

definition add_resource :: "ResourceInfo \<Rightarrow> CapacityModel \<Rightarrow> CapacityModel" where
  "add_resource r m = m\<lparr>m_resources := om_insert (res_id r) r (m_resources m)\<rparr>"

definition add_reservation :: "Reservation \<Rightarrow> CapacityModel \<Rightarrow> CapacityModel" where
  "add_reservation r m = m\<lparr>m_reservationGen := snd (tracker_advance (m_reservationGen m) (rsv_id r) (rsv_generation r)),
     m_reservations := m_reservations m @ [r]\<rparr>"

definition load_body :: "CapacityModel \<Rightarrow> bytes \<Rightarrow> fault + bool \<times> CapacityModel" where
  "load_body m body =
     bindR (readU64 body) (\<lambda>e. case e of None \<Rightarrow> Inr (False, m)
     | Some (epochV, b0) \<Rightarrow>
       load_section load_resource (\<lambda>m. m\<lparr>m_resources := om_empty\<rparr>) add_resource (setEpoch m (Generation epochV)) b0 (\<lambda>m1 b1.
       load_section load_reservation (\<lambda>m. m\<lparr>m_reservations := []\<rparr>) add_reservation m1 b1 (\<lambda>m2 b2.
       load_section load_release (\<lambda>m. m\<lparr>m_releases := []\<rparr>) (\<lambda>e m. m\<lparr>m_releases := m_releases m @ [e]\<rparr>) m2 b2 (\<lambda>m3 b3.
       load_section load_forecast (\<lambda>m. m\<lparr>m_forecastHistory := []\<rparr>)
         (\<lambda>h m. m\<lparr>m_forecastHistory := m_forecastHistory m @ [h]\<rparr>) m3 b3 (\<lambda>m4 b4.
       if \<not> atEnd b4 then Inr (False, m4) else Inr (True, m4\<lparr>m_recovered := True\<rparr>))))))"

text \<open>Unwrapping a file: its checks come before any change to the model.\<close>

definition unseal :: "bytes \<Rightarrow> bytes option" where
  "unseal bs =
     (if length bs < 4 \<or> le_word 4 bs \<noteq> kPersistMagic then None
      else if length bs < 8 \<or> le_word 4 (drop 4 bs) \<noteq> kPersistVersion then None
      else if length bs < 12 then None
      else
        let len = le_word 4 (drop 8 bs) :: u32
        in if length bs < unat len then None
        else if length bs - 12 < unat len then None
        else if length bs \<noteq> unat (12 + len) then None
        else
          let payload = take (unat len) (drop 12 bs)
          in if length payload < 8 then None
          else
            let expected = le_word 8 (drop (length payload - 8) payload); body = take (length payload - 8) payload
            in if fnv1a body \<noteq> expected then None else Some body)"

definition load :: "bool \<Rightarrow> CapacityModel \<Rightarrow> string \<Rightarrow> files \<Rightarrow> fault + bool \<times> CapacityModel" where
  "load readable m path fs =
     (case readFileBytes readable path kMaxFileBytes fs of None \<Rightarrow> Inr (False, m)
      | Some bs \<Rightarrow> (case unseal bs of None \<Rightarrow> Inr (False, m) | Some body \<Rightarrow> load_body m body))"

section \<open>Sealed files\<close>

definition sealable :: "bytes \<Rightarrow> bool" where
  "sealable body \<longleftrightarrow> length body + 20 \<le> kMaxFileBytes"

lemma length_seal [simp]: "length (seal body) = length body + 20"
  by (simp add: seal_def)

lemma seal_len: "sealable body \<Longrightarrow> unat (word_of_nat (length body + 8) :: u32) = length body + 8"
  by (rule unat_u32_of_nat) (simp add: sealable_def kMaxFileBytes_def)

lemma unseal_seal:
  assumes "sealable body"
  shows "unseal (seal body) = Some body"
proof -
  let ?l = "word_of_nat (length body + 8) :: u32"
  have len: "unat ?l = length body + 8" by (rule seal_len [OF assms])
  have sz: "unat (12 + ?l) = length body + 20"
  proof -
    have "12 + ?l = word_of_nat (length body + 20)" by simp
    then show ?thesis
      using assms unat_u32_of_nat [of "length body + 20"] by (simp only:) (simp add: sealable_def kMaxFileBytes_def)
  qed
  have w: "le_word 4 (writeU32 w @ rest) = w" "le_word 8 (writeU64 v) = v" for w v rest
    using le_word_bytes [of 8 v "[]"] by (simp_all add: writeU32_def writeU64_def le_word_bytes)
  show ?thesis
    using len sz by (simp add: unseal_def seal_def w Let_def)
qed

text \<open>What unseals is a sealed file, byte for byte.\<close>

lemma write_le_word: "a + 4 \<le> length bs \<Longrightarrow> writeU32 (le_word 4 (drop a bs)) = take 4 (drop a bs)"
  "a + 8 \<le> length bs \<Longrightarrow> writeU64 (le_word 8 (drop a bs)) = take 8 (drop a bs)"
  using le_bytes_word [of "take 4 (drop a bs)" 4, where ?'a = 32] le_word_take [of 4 "drop a bs", where ?'a = 32]
    le_bytes_word [of "take 8 (drop a bs)" 8, where ?'a = 64] le_word_take [of 8 "drop a bs", where ?'a = 64]
  by (simp_all add: writeU32_def writeU64_def)

lemma unseal_canonical:
  assumes "unseal bs = Some body" and "length bs \<le> kMaxFileBytes"
  shows "bs = seal body"
proof -
  define len where "len = (le_word 4 (drop 8 bs) :: u32)"
  define n where "n = unat len"
  define pl where "pl = take n (drop 12 bs)"
  have hd: "12 \<le> length bs" "le_word 4 bs = kPersistMagic" "le_word 4 (drop 4 bs) = kPersistVersion"
      "n \<le> length bs - 12" "length bs = unat (12 + len)" "8 \<le> length pl"
    and body: "body = take (length pl - 8) pl" and sum: "fnv1a body = le_word 8 (drop (length pl - 8) pl)"
    using assms(1) unfolding unseal_def Let_def len_def [symmetric] n_def [symmetric] pl_def [symmetric]
    by (simp_all only: split: if_split_asm) (simp_all only: not_less de_Morgan_disj not_not option.distinct option.inject)
  have t12: "take 4 bs @ take 4 (drop 4 bs) @ take 4 (drop 8 bs) = take 12 bs"
    using take_add [of "4 + 4" 4 bs] take_add [of 4 4 bs] by simp
  have lpl: "length pl = n" using hd by (simp add: pl_def)
  have "unat (12 + len) = 12 + n"
    using hd assms(2) by (subst unat_add_lem [THEN iffD1]) (simp_all add: n_def kMaxFileBytes_def)
  then have full: "length bs = 12 + n" using hd by simp
  then have pl: "pl = drop 12 bs" by (simp add: pl_def)
  have lb: "length body + 8 = n" using lpl hd by (simp add: body)
  have "len = word_of_nat (length body + 8)" using lb by (simp only: lb n_def) simp
  then have "writeU32 (word_of_nat (length body + 8)) = take 4 (drop 8 bs)"
    using write_le_word(1) [of 8 bs] hd by (simp add: len_def)
  moreover have "writeU32 kPersistMagic = take 4 bs" "writeU32 kPersistVersion = take 4 (drop 4 bs)"
    using write_le_word(1) [of 0 bs] write_le_word(1) [of 4 bs] hd by simp_all
  moreover have "writeU64 (fnv1a body) = drop (n - 8) pl"
    using write_le_word(2) [of "n - 8" pl] hd lpl by (simp add: sum)
  ultimately have "seal body = take 4 bs @ take 4 (drop 4 bs) @ take 4 (drop 8 bs) @ take (n - 8) pl @ drop (n - 8) pl"
    unfolding seal_def using body lpl by (simp only:)
  also have "\<dots> = take 12 bs @ pl"
    using t12 by (simp only: append_take_drop_id flip: append_assoc)
  finally show ?thesis by (simp only: pl append_take_drop_id)
qed

section \<open>Sections\<close>

context wire_format
begin

lemma items_write:
  "list_all ok xs \<Longrightarrow> load_items rd add (length xs) m (concat (map wr xs) @ rest) =
     Inr (True, fold add (map image xs) m, rest)"
  by (induction xs arbitrary: m) (simp_all add: read_image)

lemma section_write:
  assumes "list_all ok xs" and "length xs \<le> 1000000"
  shows "load_section rd clear add m (write_count xs @ concat (map wr xs) @ rest) k =
     k (fold add (map image xs) (clear m)) rest"
proof -
  let ?n = "word_of_nat (length xs) :: u32"
  have n: "unat ?n = length xs" using assms(2) by (intro unat_u32_of_nat) simp
  then have "\<not> 1000000 < ?n" using assms(2) by (simp add: word_less_nat_alt)
  then show ?thesis
    using u32_codec.read_write [of ?n "concat (map wr xs) @ rest"] n items_write [OF assms(1)]
    by (simp add: load_section_def write_count_def)
qed

end

section \<open>The record formats\<close>

definition saveable_resource :: "ResourceId \<times> ResourceInfo \<Rightarrow> bool" where
  "saveable_resource p \<longleftrightarrow> short (architecture (res_capability (snd p))) \<and> short (className (res_capability (snd p))) \<and>
     short (capability (res_capability (snd p))) \<and>
     (\<exists>v a. cap_vram (res_nominal (snd p)) = Inr v \<and> cap_accelerators (res_nominal (snd p)) = Inr a)"

definition saved_bytes :: "ResourceId \<times> ResourceInfo \<Rightarrow> bytes" where
  "saved_bytes p = (case save_resource p of Inl f \<Rightarrow> [] | Inr b \<Rightarrow> b)"

text \<open>
  The durable part of a resource: identity, placement, capability, health, kind and two nominal amounts.
  Free, committed and unavailable capacity, the free blocks and the publisher are not saved.
\<close>

definition durable_nominal :: "Capacity \<Rightarrow> Capacity" where
  "durable_nominal c =
     (case (cap_vram c, cap_accelerators c) of
        (Inr v, Inr a) \<Rightarrow> setAccelerators a (setVram v om_empty)
      | _ \<Rightarrow> om_empty)"

definition durable_resource :: "ResourceId \<times> ResourceInfo \<Rightarrow> ResourceInfo" where
  "durable_resource p =
     (let (i, r) = p in ResourceInfo_default\<lparr>
         res_id := i, res_generation := res_generation r, res_fleetId := res_fleetId r,
         res_nodeId := res_nodeId r, res_deviceId := res_deviceId r, res_kind := res_kind r,
         res_capability := (res_capability r)\<lparr>markers := []\<rparr>,
         res_nominal := durable_nominal (res_nominal r), res_health := res_health r\<rparr>)"

lemma save_resource_saved: "saveable_resource p \<Longrightarrow> save_resource p = Inr (saved_bytes p)"
  by (cases p) (auto simp: saved_bytes_def save_resource_def saveable_resource_def)

interpretation saved_resource: wire_format saved_bytes load_resource saveable_resource durable_resource
proof unfold_locales
  fix p rest assume p: "saveable_resource p"
  obtain i r where ir: "p = (i, r)" by (cases p)
  obtain v a where va: "cap_vram (res_nominal r) = Inr v" "cap_accelerators (res_nominal r) = Inr a"
    using p by (auto simp: saveable_resource_def ir)
  have sh: "short (architecture (res_capability r))" "short (className (res_capability r))" "short (capability (res_capability r))"
    using p by (simp_all add: saveable_resource_def ir)
  have "DeviceCapability_default\<lparr>architecture := architecture (res_capability r), className := className (res_capability r),
      capability := capability (res_capability r)\<rparr> = (res_capability r)\<lparr>markers := []\<rparr>"
    by (simp add: DeviceCapability_default_def)
  then show "load_resource (saved_bytes p @ rest) = Inr (Some (durable_resource p, rest))"
    by (simp add: ir saved_bytes_def save_resource_def va load_resource_def u64_codec.bind_write u8_codec.bind_write
        string_codec.bind_write sh durable_resource_def durable_nominal_def ResourceInfo_default_def)
qed

interpretation saved_reservation: wire_format save_reservation load_reservation reservation_wire reservation_image
proof unfold_locales
  fix r rest assume "reservation_wire r"
  then show "load_reservation (save_reservation r @ rest) = Inr (Some (reservation_image r, rest))"
    using reservation_format.read_image [of r rest]
    by (simp add: load_reservation_def save_reservation_def readReservation_def writeReservation_def)
qed

interpretation saved_release: wire_format save_release load_release release_wire release_image
proof unfold_locales
  fix e rest assume "release_wire e"
  then show "load_release (save_release e @ rest) = Inr (Some (release_image e, rest))"
    using release_format.read_image [of e rest]
    by (simp add: load_release_def save_release_def readRelease_def writeRelease_def)
qed

definition saveable_forecast :: "TimePoint \<times> Capacity \<times> Capacity \<Rightarrow> bool" where
  "saveable_forecast p = (let (at, ex, ob) = p in in_i64 at \<and>
     d_to_u64 (cap_amount ex AcceleratorCount) \<noteq> None \<and> d_to_u64 (cap_amount ob AcceleratorCount) \<noteq> None)"

text \<open>A forecast keeps its instant and its two accelerator counts, truncated to whole numbers.\<close>

definition durable_count :: "Capacity \<Rightarrow> Capacity" where
  "durable_count c = (case d_to_u64 (cap_amount c AcceleratorCount) of None \<Rightarrow> om_empty
     | Some w \<Rightarrow> setAccelerators (DeviceCount w) om_empty)"

definition durable_forecast :: "TimePoint \<times> Capacity \<times> Capacity \<Rightarrow> TimePoint \<times> Capacity \<times> Capacity" where
  "durable_forecast p = (let (at, ex, ob) = p in (at, durable_count ex, durable_count ob))"

interpretation saved_forecast: wire_format save_forecast load_forecast saveable_forecast durable_forecast
proof unfold_locales
  fix p rest assume "saveable_forecast p"
  moreover obtain at ex ob where "p = (at, ex, ob)" by (cases p)
  ultimately show "load_forecast (save_forecast p @ rest) = Inr (Some (durable_forecast p, rest))"
    by (auto simp: saveable_forecast_def save_forecast_def load_forecast_def durable_forecast_def durable_count_def
        load_count_def i64_codec.bind_write f64.bind_write)
qed

section \<open>Saving and restoring a model\<close>

definition saveable :: "CapacityModel \<Rightarrow> bool" where
  "saveable m \<longleftrightarrow> list_all saveable_resource (om_entries (m_resources m)) \<and>
     list_all reservation_wire (m_reservations m) \<and> list_all release_wire (m_releases m) \<and>
     list_all saveable_forecast (m_forecastHistory m) \<and>
     om_size (m_resources m) \<le> 1000000 \<and> length (m_reservations m) \<le> 1000000 \<and> length (m_releases m) \<le> 1000000 \<and>
     length (m_forecastHistory m) \<le> 1000000 \<and> (\<forall>body. save_body m = Inr body \<longrightarrow> sealable body)"

lemma save_body_bytes:
  assumes "list_all saveable_resource (om_entries (m_resources m))"
  shows "save_body m = Inr (writeU64 (gen_value (m_epoch m)) @
     write_count (om_entries (m_resources m)) @ concat (map saved_bytes (om_entries (m_resources m))) @
     write_count (m_reservations m) @ concat (map save_reservation (m_reservations m)) @
     write_count (m_releases m) @ concat (map save_release (m_releases m)) @
     write_count (m_forecastHistory m) @ concat (map save_forecast (m_forecastHistory m)))"
proof -
  have "foldR (\<lambda>p out. bindR (save_resource p) (\<lambda>b. Inr (out @ b))) (om_entries (m_resources m)) out =
      Inr (fold (\<lambda>p out. out @ saved_bytes p) (om_entries (m_resources m)) out)" for out
    using assms by (intro foldR_total) (simp add: save_resource_saved list_all_iff)
  moreover have "fold (\<lambda>p out. out @ saved_bytes p) xs out = out @ concat (map saved_bytes xs)" for xs out
    by (induction xs arbitrary: out) simp_all
  ultimately show ?thesis by (simp add: save_body_def)
qed

text \<open>The model after loading the durable state of \<open>m\<close> into \<open>m0\<close>.\<close>

definition restored :: "CapacityModel \<Rightarrow> CapacityModel \<Rightarrow> CapacityModel" where
  "restored m0 m = m0\<lparr>m_epoch := m_epoch m, m_recovered := True,
     m_resources := fold (\<lambda>r. om_insert (res_id r) r) (map durable_resource (om_entries (m_resources m))) om_empty,
     m_reservationGen := fold (\<lambda>r t. snd (tracker_advance t (rsv_id r) (rsv_generation r))) (m_reservations m) (m_reservationGen m0),
     m_reservations := map reservation_image (m_reservations m),
     m_releases := map release_image (m_releases m),
     m_forecastHistory := map durable_forecast (m_forecastHistory m)\<rparr>"

lemma fold_add_resource:
  "fold add_resource rs m = m\<lparr>m_resources := fold (\<lambda>r. om_insert (res_id r) r) rs (m_resources m)\<rparr>"
  by (induction rs arbitrary: m) (simp_all add: add_resource_def)

lemma fold_add_reservation:
  "fold add_reservation rs m = m\<lparr>m_reservationGen := fold (\<lambda>r t. snd (tracker_advance t (rsv_id r) (rsv_generation r))) rs (m_reservationGen m),
     m_reservations := m_reservations m @ rs\<rparr>"
  by (induction rs arbitrary: m) (simp_all add: add_reservation_def)

lemma fold_add_release: "fold (\<lambda>e m. m\<lparr>m_releases := m_releases m @ [e]\<rparr>) es m = m\<lparr>m_releases := m_releases m @ es\<rparr>"
  for m :: CapacityModel
  by (induction es arbitrary: m) simp_all

lemma fold_add_forecast:
  "fold (\<lambda>h m. m\<lparr>m_forecastHistory := m_forecastHistory m @ [h]\<rparr>) hs m = m\<lparr>m_forecastHistory := m_forecastHistory m @ hs\<rparr>"
  for m :: CapacityModel
  by (induction hs arbitrary: m) simp_all

lemma load_body_saved:
  assumes "saveable m" and "save_body m = Inr body"
  shows "load_body m0 body = Inr (True, restored m0 m)"
proof -
  have ok: "list_all saveable_resource (om_entries (m_resources m))" "list_all reservation_wire (m_reservations m)"
      "list_all release_wire (m_releases m)" "list_all saveable_forecast (m_forecastHistory m)"
      "length (om_entries (m_resources m)) \<le> 1000000" "length (m_reservations m) \<le> 1000000"
      "length (m_releases m) \<le> 1000000" "length (m_forecastHistory m) \<le> 1000000"
    using assms(1) by (simp_all add: saveable_def om_size_def)
  have g: "fold (\<lambda>r t. snd (tracker_advance t (rsv_id r) (rsv_generation r))) (map reservation_image rs) t =
      fold (\<lambda>r t. snd (tracker_advance t (rsv_id r) (rsv_generation r))) rs t" for rs t
    by (induction rs arbitrary: t) (simp_all add: reservation_image_def)
  have "body = writeU64 (gen_value (m_epoch m)) @
     write_count (om_entries (m_resources m)) @ concat (map saved_bytes (om_entries (m_resources m))) @
     write_count (m_reservations m) @ concat (map save_reservation (m_reservations m)) @
     write_count (m_releases m) @ concat (map save_release (m_releases m)) @
     write_count (m_forecastHistory m) @ concat (map save_forecast (m_forecastHistory m)) @ []"
    using save_body_bytes [OF ok(1)] assms(2) by simp
  then show ?thesis
    by (simp only: load_body_def u64_codec.read_write [OF TrueI] bindR_Inr option.case prod.case
        saved_resource.section_write [OF ok(1,5)] saved_reservation.section_write [OF ok(2,6)]
        saved_release.section_write [OF ok(3,7)] saved_forecast.section_write [OF ok(4,8)]
        fold_add_resource fold_add_reservation fold_add_release fold_add_forecast)
      (simp add: atEnd_def restored_def setEpoch_def g)
qed

lemma restored_resources:
  "om_lookup (m_resources (restored m0 m)) i = map_option (\<lambda>r. durable_resource (i, r)) (om_lookup (m_resources m) i)"
proof -
  have f: "fold (\<lambda>r. om_insert (res_id r) r) (map durable_resource ps) t =
      fold (\<lambda>(k, v). om_insert k v) (map (\<lambda>(k, r). (k, durable_resource (k, r))) ps) t" for ps t
    by (induction ps arbitrary: t) (auto simp: durable_resource_def)
  let ?f = "\<lambda>(k, r). (k, durable_resource (k, r))"
  have d: "distinct (map fst (map ?f (om_entries (m_resources m))))"
    using om_entries_distinct [of "m_resources m"] by (simp add: comp_def case_prod_beta')
  have r: "map_of (rev (map ?f (om_entries (m_resources m)))) = map_of (map ?f (om_entries (m_resources m)))"
    by (rule map_of_inject_set [THEN iffD2]) (use d in \<open>simp_all add: rev_map [symmetric]\<close>)
  have m: "map_of (map ?f xs) i = map_option (\<lambda>r. durable_resource (i, r)) (map_of xs i)" for xs
    by (induction xs) auto
  show ?thesis
    by (simp add: restored_def f om_lookup_fold_insert r m) (simp add: om_lookup_def split: option.split)
qed

section \<open>What a load changes\<close>

lemma load_items_inv:
  assumes "\<And>x m bs rest. P m \<Longrightarrow> rd bs = Inr (Some (x, rest)) \<Longrightarrow> P (add x m)"
  shows "P m \<Longrightarrow> load_items rd add n m bs = Inr (ok, m', rest') \<Longrightarrow> P m'"
proof (induction n arbitrary: m bs)
  case (Suc n)
  from Suc.prems(2) obtain x rest where r: "rd bs = Inr (Some (x, rest)) \<and> load_items rd add n (add x m) rest = Inr (ok, m', rest')
      \<or> m' = m"
    by (auto split: sum.splits option.splits prod.splits)
  then show ?case using Suc.IH [OF assms [OF Suc.prems(1)]] Suc.prems(1) by blast
qed simp

lemma load_section_elim:
  assumes "load_section rd clear add m bs k = Inr (True, m')" and "P (clear m)"
    and "\<And>x m bs rest. P m \<Longrightarrow> rd bs = Inr (Some (x, rest)) \<Longrightarrow> P (add x m)"
    and "\<And>m1 b1. k m1 b1 = Inr (True, m') \<Longrightarrow> P m1 \<Longrightarrow> thesis"
  shows thesis
proof -
  obtain res where r: "readU32 bs = Inr res" using safe_u32 by (auto simp: safe_reader_def)
  with assms(1) obtain n rest where "res = Some (n, rest)" by (cases res) (auto simp: load_section_def)
  then obtain ok m1 b1 where i: "load_items rd add (unat n) (clear m) rest = Inr (ok, m1, b1)"
      and k: "if ok then k m1 b1 = Inr (True, m') else Inr (False, m1) = (Inr (True, m') :: fault + bool \<times> CapacityModel)"
    using assms(1) r by (cases "load_items rd add (unat n) (clear m) rest") (auto simp: load_section_def split: if_splits)
  then have "k m1 b1 = Inr (True, m')" by (simp split: if_splits)
  moreover have "P m1" using assms(2) i by (rule load_items_inv [where P = P, rotated 1]) (rule assms(3))
  ultimately show thesis using assms(4) by blast
qed

lemma load_resource_unpublished:
  "load_resource bs = Inr (Some (r, rest)) \<Longrightarrow> res_worker r = sid_default \<and> res_bootId r = sid_default"
proof -
  have "safe_reader load_resource (\<lambda>r. res_worker r = sid_default \<and> res_bootId r = sid_default)"
    unfolding load_resource_def by (intro safe_bind [OF safe_u64] safe_bind [OF safe_u8] safe_bind [OF safe_string] safe_return) simp
  then show "load_resource bs = Inr (Some (r, rest)) \<Longrightarrow> res_worker r = sid_default \<and> res_bootId r = sid_default"
    by (auto simp: safe_reader_def dest: spec [of _ bs])
qed

text \<open>A property that every single change of a load keeps, whether the load succeeds or fails on the way.\<close>

lemma load_section_inv:
  assumes "load_section rd clear add m bs k = Inr (ok, m')" and "P m" and "\<And>m. P m \<Longrightarrow> P (clear m)"
    and "\<And>x m bs rest. P m \<Longrightarrow> rd bs = Inr (Some (x, rest)) \<Longrightarrow> P (add x m)"
    and "\<And>m1 b1. P m1 \<Longrightarrow> k m1 b1 = Inr (ok, m') \<Longrightarrow> P m'"
  shows "P m'"
proof -
  obtain res where r: "readU32 bs = Inr res" using safe_u32 by (auto simp: safe_reader_def)
  show ?thesis
  proof (cases "res = None \<or> (\<exists>n rest. res = Some (n, rest) \<and> 1000000 < n)")
    case True
    then show ?thesis using assms(1,2) r by (auto simp: load_section_def)
  next
    case False
    then obtain n rest where n: "res = Some (n, rest)" "\<not> 1000000 < n" by auto
    then obtain ok1 m1 b1 where i: "load_items rd add (unat n) (clear m) rest = Inr (ok1, m1, b1)"
        and k: "if ok1 then k m1 b1 = Inr (ok, m') else m' = m1"
      using assms(1) r by (cases "load_items rd add (unat n) (clear m) rest") (auto simp: load_section_def split: if_splits)
    have "P m1" using assms(3) [OF assms(2)] i by (rule load_items_inv [where P = P, rotated 1]) (rule assms(4))
    then show ?thesis using k assms(5) by (auto split: if_splits)
  qed
qed

lemma load_inv:
  assumes "load readable m path fs = Inr (ok, m')" and "P m"
    and upd: "\<And>m e. P m \<Longrightarrow> P (m\<lparr>m_epoch := e\<rparr>)" "\<And>m. P m \<Longrightarrow> P (m\<lparr>m_recovered := True\<rparr>)"
      "\<And>m. P m \<Longrightarrow> P (m\<lparr>m_resources := om_empty\<rparr>)" "\<And>m. P m \<Longrightarrow> P (m\<lparr>m_reservations := []\<rparr>)"
      "\<And>m es. P m \<Longrightarrow> P (m\<lparr>m_releases := es\<rparr>)" "\<And>m hs. P m \<Longrightarrow> P (m\<lparr>m_forecastHistory := hs\<rparr>)"
    and res: "\<And>m r. P m \<Longrightarrow> res_worker r = sid_default \<and> res_bootId r = sid_default \<Longrightarrow> P (add_resource r m)"
    and rsv: "\<And>m r. P m \<Longrightarrow> P (add_reservation r m)"
  shows "P m'"
proof (cases "\<exists>body. load_body m body = Inr (ok, m')")
  case True
  then obtain body where b: "load_body m body = Inr (ok, m')" by blast
  show ?thesis
    using b assms(2) unfolding load_body_def setEpoch_def
    by (auto split: option.splits if_splits elim!: load_section_inv [where P = P] intro!: upd rsv res dest: load_resource_unpublished)
qed (use assms(1,2) in \<open>auto simp: load_def split: option.splits\<close>)

end
