(* ===== verification/Model_Runs.thy ===== *)
theory Model_Runs
  imports Persistence
begin

text \<open>
  Runs of the capacity model: the operations of \<open>model/model.cpp\<close> that change its state as a labelled step relation,
  loading a file of any contents included; the invariant of the reachable states, and the stronger one of the states reached
  without loading; the generation guards as interpretations of \<open>guarded_system\<close>, and the authority of worker incarnations along
  runs. An operation that throws, or whose behaviour is undefined, ends the run.
\<close>

section \<open>Steps and reachable states\<close>

datatype ModelOp =
    OpRegister WorkerId WorkerBootId
  | OpUnregister WorkerId
  | OpMarkDead WorkerId
  | OpResource ResourceInfo
  | OpAdvance ResourceId
  | OpReservation Reservation
  | OpRelease ReleaseEvent
  | OpDemand WorkloadDemand
  | OpTopology "LinkInfo list" TopologyGeneration
  | OpHealth DeviceId HealthState HealthGeneration
  | OpForecast CapacityForecastId TimePoint Capacity
  | OpObserved TimePoint Capacity
  | OpEpoch CoordinatorEpoch
  | is_load: OpLoad bool string files

inductive model_step :: "CapacityModel \<Rightarrow> ModelOp \<Rightarrow> bool \<Rightarrow> CapacityModel \<Rightarrow> bool" where
  step_register: "registerWorker m w b = (ok, m') \<Longrightarrow> model_step m (OpRegister w b) ok m'"
| step_unregister: "unregisterWorker m w = (ok, m') \<Longrightarrow> model_step m (OpUnregister w) ok m'"
| step_dead: "model_step m (OpMarkDead w) True (markWorkerDead m w)"
| step_resource: "publishResource m r = Inr (ok, m') \<Longrightarrow> model_step m (OpResource r) ok m'"
| step_advance: "advanceResourceGeneration m i = (ok, m') \<Longrightarrow> model_step m (OpAdvance i) ok m'"
| step_reservation: "publishReservation m res = (ok, m') \<Longrightarrow> model_step m (OpReservation res) ok m'"
| step_release: "publishRelease m rel = (ok, m') \<Longrightarrow> model_step m (OpRelease rel) ok m'"
| step_demand: "registerDemand m d = (ok, m') \<Longrightarrow> model_step m (OpDemand d) ok m'"
| step_topology: "registerTopology m links gen = (ok, m') \<Longrightarrow> model_step m (OpTopology links gen) ok m'"
| step_health: "setHealth m i h gen' = (ok, m') \<Longrightarrow> model_step m (OpHealth i h gen') ok m'"
| step_forecast: "model_step m (OpForecast fid at c) True (recordForecast m fid at c)"
| step_observed: "model_step m (OpObserved at c) True (recordObserved m at c)"
| step_epoch: "model_step m (OpEpoch e) True (setEpoch m e)"
| step_load: "load readable m path fs = Inr (ok, m') \<Longrightarrow> model_step m (OpLoad readable path fs) ok m'"

inductive_cases model_stepE: "model_step m op ok m'"

inductive_simps model_step_simps:
  "model_step m (OpRegister w b) ok m'"
  "model_step m (OpResource r) ok m'"
  "model_step m (OpReservation res) ok m'"

inductive model_reachable :: "CapacityModel \<Rightarrow> bool" where
  reach_init: "model_reachable CapacityModel_new"
| reach_step: "model_reachable m \<Longrightarrow> model_step m op ok m' \<Longrightarrow> model_reachable m'"

definition some_step :: "CapacityModel \<Rightarrow> CapacityModel \<Rightarrow> bool" where
  "some_step m m' \<longleftrightarrow> (\<exists>op ok. model_step m op ok m')"

text \<open>Steps that are not a \<open>load\<close>, and the states they reach: those of a model that is never loaded.\<close>

definition unloaded_step :: "CapacityModel \<Rightarrow> CapacityModel \<Rightarrow> bool" where
  "unloaded_step m m' \<longleftrightarrow> (\<exists>op ok. model_step m op ok m' \<and> \<not> is_load op)"

definition unloaded_reachable :: "CapacityModel \<Rightarrow> bool" where
  "unloaded_reachable m \<longleftrightarrow> unloaded_step\<^sup>*\<^sup>* CapacityModel_new m"

lemma unloaded_runs: "unloaded_step\<^sup>*\<^sup>* m m' \<Longrightarrow> some_step\<^sup>*\<^sup>* m m'"
  by (erule rtranclp_mono [THEN predicate2D, rotated]) (auto 0 4 simp: unloaded_step_def some_step_def)

lemma unloaded_next: "unloaded_reachable m \<Longrightarrow> unloaded_step\<^sup>*\<^sup>* m m' \<Longrightarrow> unloaded_reachable m'"
  unfolding unloaded_reachable_def by (rule rtranclp_trans)

lemma some_run_reachable: "some_step\<^sup>*\<^sup>* m m' \<Longrightarrow> model_reachable m \<Longrightarrow> model_reachable m'"
  by (induction rule: rtranclp_induct) (auto simp: some_step_def intro: reach_step)

lemma unloaded_is_reachable: "unloaded_reachable m \<Longrightarrow> model_reachable m"
  unfolding unloaded_reachable_def by (rule some_run_reachable [OF unloaded_runs reach_init])

lemmas op_defs = registerWorker_def unregisterWorker_def markWorkerDead_def publishResource_def
  advanceResourceGeneration_def publishReservation_def publishRelease_def registerDemand_def
  registerTopology_def setHealth_def recordForecast_def recordObserved_def setEpoch_def

section \<open>The generation guard in its operational form\<close>

lemma guard_iff: "gen_valid cur \<and> gen_value g < gen_value cur \<longleftrightarrow> gen_regresses cur g"
  by (simp add: gen_regresses_def)

lemma advance_guarded [simp]:
  "\<not> gen_regresses (tracker_current t i) g \<Longrightarrow> snd (tracker_advance t i g) = om_insert i g t"
  by (simp add: tracker_advance_guarded)

lemma gen_advance_ge: "gen_value g \<le> gen_value (gen_advance g)"
  using word_less_Suc [of "gen_value g"] by (auto simp: gen_advance_def kInvalidId_def)

lemma gen_advance_not_regresses: "\<not> gen_regresses g (gen_advance g)"
  using gen_advance_ge [of g] by (auto simp: gen_regresses_def)

lemma advance_always: "tracker_advance t i (gen_advance (tracker_current t i)) =
    (True, om_insert i (gen_advance (tracker_current t i)) t)"
  by (rule tracker_advance_guarded) (rule gen_advance_not_regresses)

text \<open>What one step does to each part of the state.\<close>

lemma publishResource_cases:
  assumes "publishResource m r = Inr (ok, m')"
  shows "ok \<longrightarrow> isFreshBoot m (res_worker r) (res_bootId r) \<and>
           \<not> gen_regresses (tracker_current (m_resourceGen m) (res_id r)) (res_generation r) \<and>
           (\<exists>d. published_device r = Inr d \<and>
              m' = m\<lparr>m_resourceGen := om_insert (res_id r) (res_generation r) (m_resourceGen m),
                     m_resources := om_insert (res_id r) r (m_resources m),
                     m_devices := om_insert (res_deviceId r) d (m_devices m)\<rparr>)"
    and "\<not> ok \<longrightarrow> m' = m"
proof -
  have "dev_id d = res_deviceId r" if "published_device r = Inr d" for d
    using that by (auto simp: published_device_def)
  then show "ok \<longrightarrow> isFreshBoot m (res_worker r) (res_bootId r) \<and>
           \<not> gen_regresses (tracker_current (m_resourceGen m) (res_id r)) (res_generation r) \<and>
           (\<exists>d. published_device r = Inr d \<and>
              m' = m\<lparr>m_resourceGen := om_insert (res_id r) (res_generation r) (m_resourceGen m),
                     m_resources := om_insert (res_id r) r (m_resources m),
                     m_devices := om_insert (res_deviceId r) d (m_devices m)\<rparr>)"
    and "\<not> ok \<longrightarrow> m' = m"
    using assms by (auto simp: publishResource_def Let_def guard_iff split: if_splits)
qed

lemma advance_cases:
  assumes "advanceResourceGeneration m i = (ok, m')"
  shows "(case om_lookup (m_resources m) i of None \<Rightarrow> \<not> ok \<and> m' = m
     | Some r \<Rightarrow> ok \<and>
        (let nxt = gen_advance (tracker_current (m_resourceGen m) i)
         in m' = m\<lparr>m_resourceGen := om_insert i nxt (m_resourceGen m),
                  m_resources := om_insert i (r\<lparr>res_generation := nxt\<rparr>) (m_resources m),
                  m_devices := (case om_lookup (m_devices m) (res_deviceId r) of None \<Rightarrow> m_devices m
                    | Some d \<Rightarrow> om_insert (res_deviceId r) (d\<lparr>dev_generation := Generation (gen_value nxt)\<rparr>) (m_devices m))\<rparr>))"
  using assms by (auto simp: advanceResourceGeneration_def advance_always Let_def split: option.splits)

text \<open>A load touches neither the authority nor the devices, and no guard but the one of the reservations.\<close>

lemma load_frame:
  assumes "load readable m path fs = Inr (ok, m')"
  shows "m_sources m' = m_sources m" "m_devices m' = m_devices m" "m_demands m' = m_demands m" "m_links m' = m_links m"
    "m_resourceGen m' = m_resourceGen m" "m_topologyGen m' = m_topologyGen m" "m_healthGen m' = m_healthGen m"
    "m_topoGen m' = m_topoGen m"
proof -
  let ?P = "\<lambda>m'. m_sources m' = m_sources m \<and> m_devices m' = m_devices m \<and> m_demands m' = m_demands m \<and>
     m_links m' = m_links m \<and> m_resourceGen m' = m_resourceGen m \<and> m_topologyGen m' = m_topologyGen m \<and>
     m_healthGen m' = m_healthGen m \<and> m_topoGen m' = m_topoGen m"
  have "?P m'" by (rule load_inv [OF assms, where P = ?P]) (simp_all add: add_resource_def add_reservation_def)
  then show "m_sources m' = m_sources m" "m_devices m' = m_devices m" "m_demands m' = m_demands m" "m_links m' = m_links m"
    "m_resourceGen m' = m_resourceGen m" "m_topologyGen m' = m_topologyGen m" "m_healthGen m' = m_healthGen m"
    "m_topoGen m' = m_topoGen m" by simp_all
qed

section \<open>The invariant\<close>

text \<open>
  What holds of every stored resource: it lies under its identity and, unless it is exempt, carries the recorded generation,
  a valid boot, a listed device and a known source.
\<close>

definition resources_inv :: "(ResourceInfo \<Rightarrow> bool) \<Rightarrow> CapacityModel \<Rightarrow> bool" where
  "resources_inv exempt m \<longleftrightarrow> (\<forall>i r. om_lookup (m_resources m) i = Some r \<longrightarrow>
     res_id r = i \<and> (\<not> exempt r \<longrightarrow> res_generation r = tracker_current (m_resourceGen m) i \<and> sid_valid (res_bootId r) \<and>
     om_contains (m_devices m) (res_deviceId r) \<and> om_contains (m_sources m) (res_worker r)))"

definition keys_inv :: "CapacityModel \<Rightarrow> bool" where
  "keys_inv m \<longleftrightarrow> (\<forall>i d. om_lookup (m_devices m) i = Some d \<longrightarrow> dev_id d = i) \<and>
     (\<forall>i d. om_lookup (m_demands m) i = Some d \<longrightarrow> dm_id d = i) \<and>
     (\<forall>i l. om_lookup (m_links m) i = Some l \<longrightarrow> link_id l = i)"

definition authority_inv :: "CapacityModel \<Rightarrow> bool" where
  "authority_inv m \<longleftrightarrow>
     (\<forall>w s. om_lookup (m_sources m) w = Some s \<longrightarrow> sid_valid w \<and> sid_valid (src_bootId s)) \<and>
     m_topoGen m = tracker_current (m_topologyGen m) fleetTopology"

definition core_inv :: "(ResourceInfo \<Rightarrow> bool) \<Rightarrow> CapacityModel \<Rightarrow> bool" where
  "core_inv exempt m \<longleftrightarrow> resources_inv exempt m \<and> keys_inv m \<and> authority_inv m"

definition records_inv :: "CapacityModel \<Rightarrow> bool" where
  "records_inv m \<longleftrightarrow> distinct (map rsv_id (m_reservations m)) \<and>
     (\<forall>r \<in> set (m_reservations m). rsv_generation r = tracker_current (m_reservationGen m) (rsv_id r)) \<and>
     distinct (map rel_sourceId (m_releases m))"

text \<open>The invariant of a model that was never loaded, and the one of any model: a resource read from a file has no publisher.\<close>

definition model_inv :: "CapacityModel \<Rightarrow> bool" where
  "model_inv m \<longleftrightarrow> core_inv (\<lambda>_. False) m \<and> records_inv m"

definition loaded_resource :: "ResourceInfo \<Rightarrow> bool" where
  "loaded_resource r \<longleftrightarrow> res_worker r = sid_default \<and> res_bootId r = sid_default"

definition state_inv :: "CapacityModel \<Rightarrow> bool" where
  "state_inv m \<longleftrightarrow> core_inv loaded_resource m"

lemmas inv_defs = core_inv_def resources_inv_def keys_inv_def authority_inv_def

lemma model_inv_new: "model_inv CapacityModel_new"
  by (simp add: model_inv_def records_inv_def inv_defs CapacityModel_new_def setEpoch_def)

lemma core_weaken: "core_inv (\<lambda>_. False) m \<Longrightarrow> core_inv exempt m"
  by (simp add: inv_defs)

lemma fresh_source: "isFreshBoot m w b \<Longrightarrow> \<exists>s. om_lookup (m_sources m) w = Some s \<and> src_alive s \<and> src_bootId s = b"
  by (auto simp: isFreshBoot_def split: option.splits)

lemma fold_links:
  "(\<forall>i l. om_lookup m i = Some l \<longrightarrow> link_id l = i) \<Longrightarrow>
   om_lookup (fold (\<lambda>l. om_insert (link_id l) l) ls m) i = Some l \<Longrightarrow> link_id l = i"
proof (induction ls arbitrary: m)
  case (Cons a ls)
  have "\<forall>i l. om_lookup (om_insert (link_id a) a m) i = Some l \<longrightarrow> link_id l = i"
    using Cons.prems(1) by (auto split: if_splits)
  from Cons.IH [OF this] Cons.prems(2) show ?case by (simp only: fold_simps)
qed simp

lemma inv_publishResource:
  assumes "core_inv ex m" and "publishResource m r = Inr (ok, m')"
  shows "core_inv ex m'"
proof (cases ok)
  case True
  obtain d where fresh: "isFreshBoot m (res_worker r) (res_bootId r)" and d: "published_device r = Inr d"
    and m': "m' = m\<lparr>m_resourceGen := om_insert (res_id r) (res_generation r) (m_resourceGen m),
                     m_resources := om_insert (res_id r) r (m_resources m),
                     m_devices := om_insert (res_deviceId r) d (m_devices m)\<rparr>"
    using publishResource_cases(1) [OF assms(2)] True by blast
  obtain s where s: "om_lookup (m_sources m) (res_worker r) = Some s" "src_bootId s = res_bootId r"
    using fresh_source [OF fresh] by blast
  have "dev_id d = res_deviceId r" using d by (auto simp: published_device_def)
  moreover have "sid_valid (res_bootId r)"
    using assms(1) s unfolding core_inv_def authority_inv_def by metis
  moreover have "om_contains (m_sources m) (res_worker r)" using s(1) by (simp add: om_contains_def)
  ultimately show ?thesis
    using assms(1) by (auto simp: inv_defs m' split: if_splits)
qed (use assms publishResource_cases(2) [OF assms(2)] in simp)

lemma inv_advance:
  assumes "core_inv ex m" and "advanceResourceGeneration m i = (ok, m')" and "\<And>r g. ex r \<Longrightarrow> ex (r\<lparr>res_generation := g\<rparr>)"
  shows "core_inv ex m'"
  using advance_cases [OF assms(2)] assms(1,3)
  by (auto simp: inv_defs Let_def split: option.splits if_splits)

lemma inv_sources:
  assumes "core_inv ex m" and "sid_valid w" "sid_valid (src_bootId s)"
  shows "core_inv ex (m\<lparr>m_sources := om_insert w s (m_sources m)\<rparr>)"
  using assms by (auto simp: inv_defs)

lemma inv_dead:
  assumes "core_inv ex m" and "om_lookup (m_sources m) w = Some s"
  shows "core_inv ex (m\<lparr>m_sources := om_insert w (s\<lparr>src_alive := False\<rparr>) (m_sources m)\<rparr>)"
  by (rule inv_sources) (use assms in \<open>auto simp: core_inv_def authority_inv_def\<close>)

lemma inv_topology:
  assumes "core_inv ex m" and "registerTopology m links gen = (ok, m')"
  shows "core_inv ex m'"
proof -
  have "\<forall>i l. om_lookup (fold (\<lambda>l. om_insert (link_id l) l) links (m_links m)) i = Some l \<longrightarrow> link_id l = i"
    using assms(1) fold_links [of "m_links m" links] unfolding core_inv_def keys_inv_def by blast
  then show ?thesis
    using assms by (auto simp: inv_defs registerTopology_def Let_def guard_iff split: if_splits)
qed

lemma inv_health:
  assumes "core_inv ex m" and "setHealth m i h gen = (ok, m')"
  shows "core_inv ex m'"
  using assms
  by (auto simp: inv_defs setHealth_def Let_def guard_iff om_contains_def split: if_splits option.splits)

lemma inv_load:
  assumes "core_inv ex m" and "load readable m path fs = Inr (ok, m')" and "\<And>r. loaded_resource r \<Longrightarrow> ex r"
  shows "core_inv ex m'"
  by (rule load_inv [OF assms(2), where P = "core_inv ex"])
    (use assms(1,3) in \<open>auto simp: inv_defs add_resource_def add_reservation_def loaded_resource_def\<close>)

lemma core_cong:
  assumes "m_resources m' = m_resources m" "m_resourceGen m' = m_resourceGen m" "m_devices m' = m_devices m"
    "m_sources m' = m_sources m" "m_demands m' = m_demands m" "m_links m' = m_links m" "m_topologyGen m' = m_topologyGen m"
    "m_topoGen m' = m_topoGen m"
  shows "core_inv ex m' = core_inv ex m"
  by (simp add: inv_defs assms)

lemma core_step:
  assumes "model_step m op ok m'" and "core_inv ex m" and "\<And>r g. ex r \<Longrightarrow> ex (r\<lparr>res_generation := g\<rparr>)"
    and "\<And>r. is_load op \<Longrightarrow> loaded_resource r \<Longrightarrow> ex r"
  shows "core_inv ex m'"
  using assms
proof (induction rule: model_step.induct)
  case (step_register m w b ok m')
  then show ?case using inv_sources [of ex m w "\<lparr>src_bootId = b, src_alive = True\<rparr>"]
    by (auto simp: registerWorker_def split: if_splits)
next
  case (step_unregister m w ok m')
  then show ?case by (auto simp: unregisterWorker_def inv_dead split: option.splits)
next
  case (step_dead m w)
  then show ?case by (auto simp: markWorkerDead_def inv_dead split: option.splits)
next
  case (step_release m rel ok m')
  then show ?case using core_cong [of m' m ex] by (auto simp: publishRelease_def)
next
  case (step_demand m d ok m')
  then have "m' = m \<or> m' = m\<lparr>m_demands := om_insert (dm_id d) d (m_demands m)\<rparr>"
    by (auto simp: registerDemand_def Let_def split: if_splits)
  moreover have "core_inv ex (m\<lparr>m_demands := om_insert (dm_id d) d (m_demands m)\<rparr>)"
    using step_demand(2) by (simp add: inv_defs)
  ultimately show ?case using step_demand(2) by auto
next
  case (step_resource m r ok m')
  then show ?case using inv_publishResource by blast
next
  case (step_advance m i ok m')
  then show ?case using inv_advance by blast
next
  case (step_reservation m res ok m')
  then show ?case using core_cong [of m' m ex] by (auto simp: publishReservation_def Let_def split: if_splits)
next
  case (step_topology m links gen ok m')
  then show ?case using inv_topology by blast
next
  case (step_health m i h gen' ok m')
  then show ?case using inv_health by blast
next
  case (step_load readable m path fs ok m')
  then show ?case using inv_load by simp
qed (simp_all add: inv_defs recordForecast_def recordObserved_def setEpoch_def)

text \<open>The records that are kept in lists stay distinct as long as nothing is loaded.\<close>

lemma records_step:
  assumes "model_step m op ok m'" and "\<not> is_load op" and "records_inv m"
  shows "records_inv m'"
  using assms
proof (induction rule: model_step.induct)
  case (step_reservation m res ok m')
  then show ?case
    by (auto simp: records_inv_def publishReservation_def Let_def guard_iff set_upsert upsert_distinct split: if_splits)
next
  case (step_resource m r ok m')
  then show ?case using publishResource_cases [OF step_resource(1)] by (cases ok) (auto simp: records_inv_def)
qed (auto simp: records_inv_def registerWorker_def unregisterWorker_def markWorkerDead_def advanceResourceGeneration_def
      publishRelease_def registerDemand_def registerTopology_def setHealth_def recordForecast_def recordObserved_def
      setEpoch_def Let_def upsert_distinct split: if_splits option.splits prod.splits)

lemma model_step_inv: "model_step m op ok m' \<Longrightarrow> \<not> is_load op \<Longrightarrow> model_inv m \<Longrightarrow> model_inv m'"
  unfolding model_inv_def using core_step [of m op ok m' "\<lambda>_. False"] records_step by blast

lemma unloaded_model_inv: "unloaded_step\<^sup>*\<^sup>* m m' \<Longrightarrow> model_inv m \<Longrightarrow> model_inv m'"
  by (induction rule: rtranclp_induct) (auto simp: unloaded_step_def intro: model_step_inv)

lemma unloaded_reachable_inv: "unloaded_reachable m \<Longrightarrow> model_inv m"
  unfolding unloaded_reachable_def by (rule unloaded_model_inv [OF _ model_inv_new])

lemma reachable_state_inv: "model_reachable m \<Longrightarrow> state_inv m"
proof (induction rule: model_reachable.induct)
  case reach_init
  then show ?case using model_inv_new core_weaken unfolding state_inv_def model_inv_def by blast
next
  case (reach_step m op ok m')
  then show ?case unfolding state_inv_def by (intro core_step [OF reach_step(2)]) (simp_all add: loaded_resource_def)
qed

section \<open>Generation guards\<close>

interpretation resource_guard: generation_guard "\<lambda>m :: CapacityModel. tracker_current (m_resourceGen m)" "res_id :: ResourceInfo \<Rightarrow> _"
    res_generation publishResource
proof unfold_locales
  fix m :: CapacityModel and r :: ResourceInfo
  assume "gen_regresses (tracker_current (m_resourceGen m) (res_id r)) (res_generation r)"
  then show "publishResource m r = Inr (False, m)" by (simp add: publishResource_def Let_def gen_regresses_def)
next
  fix m m' :: CapacityModel and r :: ResourceInfo
  assume "publishResource m r = Inr (False, m')"
  then show "m' = m" using publishResource_cases(2) by blast
next
  fix m m' :: CapacityModel and r :: ResourceInfo and i
  assume "publishResource m r = Inr (True, m')"
  then show "tracker_current (m_resourceGen m') i =
      (if i = res_id r then res_generation r else tracker_current (m_resourceGen m) i)"
    using publishResource_cases(1) by fastforce
qed

interpretation reservation_guard: generation_guard "\<lambda>m :: CapacityModel. tracker_current (m_reservationGen m)" "rsv_id :: Reservation \<Rightarrow> _"
    rsv_generation    "\<lambda>m r. Inr (publishReservation m r)"
  by unfold_locales (auto simp: publishReservation_def Let_def guard_iff split: if_splits)

definition demand_recorded :: "CapacityModel \<Rightarrow> WorkloadDemandId \<Rightarrow> WorkloadDemandGeneration" where
  "demand_recorded m i = (case om_lookup (m_demands m) i of None \<Rightarrow> gen_default | Some d \<Rightarrow> dm_generation d)"

interpretation demand_guard: generation_guard demand_recorded "dm_id :: WorkloadDemand \<Rightarrow> _" dm_generation "\<lambda>m d. Inr (registerDemand m d)"
  by unfold_locales
    (auto simp: registerDemand_def demand_recorded_def Let_def guard_iff split: if_splits option.splits)

interpretation topology_guard: generation_guard "\<lambda>m :: CapacityModel. tracker_current (m_topologyGen m)" "\<lambda>_. fleetTopology" snd
    "\<lambda>m (links, gen). Inr (registerTopology m links gen)"
  by unfold_locales (auto simp: registerTopology_def Let_def guard_iff split: if_splits)

interpretation health_guard: generation_guard "\<lambda>m :: CapacityModel. tracker_current (m_healthGen m)" "\<lambda>(i, h, gen). i" "\<lambda>(i, h, gen). gen"
    "\<lambda>m (i, h, gen). Inr (setHealth m i h gen)"
  by unfold_locales (auto simp: setHealth_def Let_def guard_iff split: if_splits)

text \<open>No step lowers any of the recorded generations.\<close>

lemmas other_op_defs = registerWorker_def unregisterWorker_def markWorkerDead_def advanceResourceGeneration_def
  publishRelease_def recordForecast_def recordObserved_def setEpoch_def

lemma publishResource_frame:
  assumes "publishResource m r = Inr (ok, m')"
  shows "m_reservationGen m' = m_reservationGen m" "m_demands m' = m_demands m" "m_topologyGen m' = m_topologyGen m"
    "m_healthGen m' = m_healthGen m" "m_sources m' = m_sources m"
  using publishResource_cases [OF assms] by auto

lemma step_resource_gen:
  assumes "model_step m op ok m'"
  shows "gen_value (tracker_current (m_resourceGen m) i) \<le> gen_value (tracker_current (m_resourceGen m') i)"
  using assms
proof cases
  case (step_resource r)
  then show ?thesis using resource_guard.publish_monotone by blast
next
  case (step_advance i)
  then show ?thesis using advance_cases by (fastforce simp: Let_def gen_advance_ge split: option.splits)
qed (auto simp: other_op_defs load_frame publishReservation_def registerDemand_def registerTopology_def setHealth_def Let_def
      split: if_splits option.splits)

lemma step_reservation_gen:
  assumes "model_step m op ok m'" and "\<not> is_load op"
  shows "gen_value (tracker_current (m_reservationGen m) i) \<le> gen_value (tracker_current (m_reservationGen m') i)"
  using assms
proof cases
  case (step_reservation res)
  then show ?thesis using reservation_guard.publish_monotone by blast
qed (auto simp: other_op_defs publishResource_frame load_frame registerDemand_def registerTopology_def setHealth_def Let_def
      split: if_splits option.splits prod.splits)

lemma step_demand_gen:
  assumes "model_step m op ok m'"
  shows "gen_value (demand_recorded m i) \<le> gen_value (demand_recorded m' i)"
  using assms
proof cases
  case (step_demand d)
  then show ?thesis using demand_guard.publish_monotone by blast
qed (auto simp: demand_recorded_def other_op_defs publishResource_frame load_frame publishReservation_def registerTopology_def
      setHealth_def Let_def split: if_splits option.splits prod.splits)

lemma step_topology_gen:
  assumes "model_step m op ok m'"
  shows "gen_value (tracker_current (m_topologyGen m) i) \<le> gen_value (tracker_current (m_topologyGen m') i)"
  using assms
proof cases
  case (step_topology links gen)
  then show ?thesis using topology_guard.publish_monotone [of m "(links, gen)"] by simp
qed (auto simp: other_op_defs publishResource_frame load_frame publishReservation_def registerDemand_def setHealth_def Let_def
      split: if_splits option.splits prod.splits)

lemma step_health_gen:
  assumes "model_step m op ok m'"
  shows "gen_value (tracker_current (m_healthGen m) i) \<le> gen_value (tracker_current (m_healthGen m') i)"
  using assms
proof cases
  case (step_health i h gen)
  then show ?thesis using health_guard.publish_monotone [of m "(i, h, gen)"] by simp
qed (auto simp: other_op_defs publishResource_frame load_frame publishReservation_def registerDemand_def registerTopology_def Let_def
      split: if_splits option.splits prod.splits)

interpretation resource_gen: guarded_system "\<lambda>m :: CapacityModel. tracker_current (m_resourceGen m)"
    "res_id :: ResourceInfo \<Rightarrow> _" res_generation publishResource some_step
  by unfold_locales (auto simp: some_step_def dest: step_resource_gen)

interpretation reservation_gen: guarded_system "\<lambda>m :: CapacityModel. tracker_current (m_reservationGen m)"
    "rsv_id :: Reservation \<Rightarrow> _" rsv_generation "\<lambda>m r. Inr (publishReservation m r)" unloaded_step
  by unfold_locales (auto simp: unloaded_step_def dest: step_reservation_gen)

interpretation demand_gen: guarded_system demand_recorded "dm_id :: WorkloadDemand \<Rightarrow> _" dm_generation
    "\<lambda>m d. Inr (registerDemand m d)" some_step
  by unfold_locales (auto simp: some_step_def dest: step_demand_gen)

interpretation topology_gen: guarded_system "\<lambda>m :: CapacityModel. tracker_current (m_topologyGen m)"
    "\<lambda>_. fleetTopology" snd "\<lambda>m (links, gen). Inr (registerTopology m links gen)" some_step
  by unfold_locales (auto simp: some_step_def dest: step_topology_gen)

interpretation health_gen: guarded_system "\<lambda>m :: CapacityModel. tracker_current (m_healthGen m)"
    "\<lambda>(i, h, gen). i" "\<lambda>(i, h, gen). gen" "\<lambda>m (i, h, gen). Inr (setHealth m i h gen)" some_step
  by unfold_locales (auto simp: some_step_def dest: step_health_gen)

section \<open>Authority of worker incarnations\<close>

text \<open>A run in which one worker neither dies nor leaves, and a run in which it does not register.\<close>

definition step_keeping :: "WorkerId \<Rightarrow> CapacityModel \<Rightarrow> CapacityModel \<Rightarrow> bool" where
  "step_keeping w m m' \<longleftrightarrow> (\<exists>op ok. model_step m op ok m' \<and> op \<noteq> OpUnregister w \<and> op \<noteq> OpMarkDead w)"

definition step_without_register :: "WorkerId \<Rightarrow> CapacityModel \<Rightarrow> CapacityModel \<Rightarrow> bool" where
  "step_without_register w m m' \<longleftrightarrow> (\<exists>op ok. model_step m op ok m' \<and> (\<forall>b. op \<noteq> OpRegister w b))"

lemma step_fresh:
  assumes "model_step m op ok m'"
  shows "op \<noteq> OpUnregister w \<and> op \<noteq> OpMarkDead w \<and> isFreshBoot m w b \<longrightarrow> isFreshBoot m' w b"
  using assms
  by cases (auto simp: isFreshBoot_def workerAlive_def other_op_defs publishResource_frame load_frame publishReservation_def
      registerDemand_def registerTopology_def setHealth_def Let_def split: if_splits option.splits prod.splits)

lemma step_dead_stays:
  assumes "model_step m op ok m'"
  shows "(\<forall>b. op \<noteq> OpRegister w b) \<and> \<not> workerAlive m w \<longrightarrow> \<not> workerAlive m' w"
  using assms
  by cases (auto simp: isFreshBoot_def workerAlive_def other_op_defs publishResource_frame load_frame publishReservation_def
      registerDemand_def registerTopology_def setHealth_def Let_def split: if_splits option.splits prod.splits)

lemma fresh_kept: "(step_keeping w)\<^sup>*\<^sup>* m t \<Longrightarrow> isFreshBoot m w b \<Longrightarrow> isFreshBoot t w b"
  by (induction rule: rtranclp_induct) (auto simp: step_keeping_def dest: step_fresh)

lemma dead_kept: "(step_without_register w)\<^sup>*\<^sup>* m t \<Longrightarrow> \<not> workerAlive m w \<Longrightarrow> \<not> workerAlive t w"
  by (induction rule: rtranclp_induct) (auto simp: step_without_register_def dest: step_dead_stays)

lemma fresh_alive: "isFreshBoot m w b \<Longrightarrow> workerAlive m w"
  by (auto simp: isFreshBoot_def workerAlive_def split: option.splits)

lemma fresh_unique: "isFreshBoot m w b \<Longrightarrow> isFreshBoot m w c \<Longrightarrow> b = c"
  by (auto simp: isFreshBoot_def split: option.splits)

lemma register_effect:
  "registerWorker m w b = (True, m') \<Longrightarrow> isFreshBoot m' w b"
  by (auto simp: registerWorker_def isFreshBoot_def split: if_splits)

lemma dead_not_alive: "\<not> workerAlive (markWorkerDead m w) w"
  by (auto simp: workerAlive_def markWorkerDead_def split: option.splits)

section \<open>A small instance\<close>

definition ex_model :: CapacityModel where
  "ex_model = snd (registerWorker CapacityModel_new (StrongId 3) (StrongId 7))"

definition ex_published :: "u64 \<Rightarrow> ResourceInfo" where
  "ex_published g = ResourceInfo_default\<lparr>res_id := StrongId 5, res_generation := Generation g,
     res_worker := StrongId 3, res_bootId := StrongId 7\<rparr>"

lemma ex_model_sources: "om_lookup (m_sources ex_model) (StrongId 3) = Some \<lparr>src_bootId = StrongId 7, src_alive = True\<rparr>"
  by (simp add: ex_model_def registerWorker_def CapacityModel_new_def setEpoch_def sid_valid_def kInvalidId_def)

lemma ex_publish: "\<exists>t. publishResource ex_model (ex_published g) = Inr (True, t)"
proof -
  have "tracker_current (m_resourceGen ex_model) i = gen_default" for i
    by (simp add: ex_model_def registerWorker_def CapacityModel_new_def setEpoch_def)
  then show ?thesis
    by (simp add: publishResource_def isFreshBoot_def ex_model_sources ex_published_def ResourceInfo_default_def
        published_device_def cap_rep_vram [OF cap_rep_empty] gen_valid_def gen_default_def Let_def)
qed

section \<open>Properties\<close>

text \<open>
  C2. Every reachable state satisfies the invariant, whatever was loaded: resources, devices, demands and links lie under their
  own identities; a stored resource either was read from a file, and then names no worker and no boot, or carries the
  recorded generation, a valid boot and a listed device and source; every source has a valid worker and boot; the topology
  generation is the recorded one. In a state reached without loading no resource is of the first kind, reservations and release
  sources are unique, and a stored reservation carries the recorded generation.
\<close>

theorem reachable_inv:
  assumes "model_reachable m"
  shows "state_inv m \<and> (unloaded_reachable m \<longrightarrow> model_inv m)"
  using reachable_state_inv [OF assms] unloaded_reachable_inv by blast

theorem reachable_inv_witness: "model_inv (setEpoch (snd (registerWorker CapacityModel_new (StrongId 3) (StrongId 7))) (Generation 2))"
proof -
  let ?m = "snd (registerWorker CapacityModel_new (StrongId 3) (StrongId 7))"
  have "unloaded_step CapacityModel_new ?m" "unloaded_step ?m (setEpoch ?m (Generation 2))"
    using step_register [OF prod.collapse [symmetric]] step_epoch by (fastforce simp: unloaded_step_def)+
  then have "unloaded_reachable (setEpoch ?m (Generation 2))" by (auto simp: unloaded_reachable_def)
  then show ?thesis using reachable_inv [OF unloaded_is_reachable] by blast
qed

text \<open>
  A stale generation is never let back in: once a resource publication has been accepted, no run of
  operations, whatever they are, makes the model accept a publication of the same resource with a lower
  generation, and the rejection leaves the model as it was.
\<close>

theorem stale_resource_rejected:
  assumes "publishResource m r = Inr (True, m')" and "some_step\<^sup>*\<^sup>* m' t"
    and "res_id old = res_id r" and "gen_value (res_generation old) < gen_value (res_generation r)"
  shows "publishResource t old = Inr (False, t)"
  by (rule resource_gen.stale_forever [OF assms])

theorem stale_resource_rejected_witness:
  "\<exists>t. publishResource ex_model (ex_published 3) = Inr (True, t) \<and> publishResource t (ex_published 2) = Inr (False, t)"
proof -
  obtain t where t: "publishResource ex_model (ex_published 3) = Inr (True, t)"
    using ex_publish by blast
  from stale_resource_rejected [OF t rtranclp.rtrancl_refl, of "ex_published 2"] t show ?thesis
    by (auto simp: ex_published_def)
qed

text \<open>
  The same holds of demands, topologies and device health: after an accepted record, a lower generation of the same identity
  is rejected for ever. For reservations it holds as long as nothing is loaded: a load can lower their recorded generations.
\<close>

theorem stale_records_rejected:
  assumes "some_step\<^sup>*\<^sup>* m' t"
  shows "(unloaded_step\<^sup>*\<^sup>* m' t \<and> publishReservation m res = (True, m') \<and> rsv_id old = rsv_id res \<and>
            gen_value (rsv_generation old) < gen_value (rsv_generation res) \<longrightarrow> publishReservation t old = (False, t)) \<and>
     (registerDemand m d = (True, m') \<and> dm_id oldd = dm_id d \<and>
            gen_value (dm_generation oldd) < gen_value (dm_generation d) \<longrightarrow> registerDemand t oldd = (False, t)) \<and>
     (registerTopology m links g = (True, m') \<and> gen_value oldg < gen_value g \<longrightarrow>
            registerTopology t oldlinks oldg = (False, t)) \<and>
     (setHealth m i h hg = (True, m') \<and> gen_value oldhg < gen_value hg \<longrightarrow> setHealth t i oldh oldhg = (False, t))"
  using reservation_gen.stale_forever [of m res m' t old] demand_gen.stale_forever [of m d m' t oldd]
    topology_gen.stale_forever [of m "(links, g)" m' t "(oldlinks, oldg)"]
    health_gen.stale_forever [of m "(i, h, hg)" m' t "(i, oldh, oldhg)"] assms
  by simp

theorem stale_records_rejected_witness:
  "publishReservation (snd (publishReservation CapacityModel_new
       (Reservation_default\<lparr>rsv_id := StrongId 4, rsv_generation := Generation 3\<rparr>)))
     (Reservation_default\<lparr>rsv_id := StrongId 4, rsv_generation := Generation 2\<rparr>) =
   (False, snd (publishReservation CapacityModel_new
       (Reservation_default\<lparr>rsv_id := StrongId 4, rsv_generation := Generation 3\<rparr>)))"
proof -
  let ?r = "Reservation_default\<lparr>rsv_id := StrongId 4, rsv_generation := Generation 3\<rparr>"
  have "publishReservation CapacityModel_new ?r = (True, snd (publishReservation CapacityModel_new ?r))"
    by (simp add: publishReservation_def CapacityModel_new_def setEpoch_def gen_valid_def gen_default_def Let_def)
  then show ?thesis
    using stale_records_rejected [OF rtranclp.rtrancl_refl [of some_step "snd (publishReservation CapacityModel_new ?r)"],
        of CapacityModel_new ?r "Reservation_default\<lparr>rsv_id := StrongId 4, rsv_generation := Generation 2\<rparr>"]
    by (simp only: Reservation.simps Generation.sel) simp
qed

text \<open>
  C20. A live incarnation cannot be displaced: from the registration of a worker's boot on, as long as the
  worker neither leaves nor is marked dead, that boot is the live one; another boot of the worker cannot
  register, and evidence published under another boot is rejected without effect.
\<close>

theorem live_incarnation_protected:
  assumes "registerWorker m w b = (True, m')" and "(step_keeping w)\<^sup>*\<^sup>* m' t"
  shows "isFreshBoot t w b \<and>
     (\<forall>c. c \<noteq> b \<longrightarrow> registerWorker t w c = (False, t)) \<and>
     (\<forall>r. res_worker r = w \<and> res_bootId r \<noteq> b \<longrightarrow> publishResource t r = Inr (False, t))"
proof -
  have f: "isFreshBoot t w b" using fresh_kept [OF assms(2) register_effect [OF assms(1)]] .
  then have "registerWorker t w c = (False, t)" if "c \<noteq> b" for c
    using that by (auto simp: registerWorker_def isFreshBoot_def split: option.splits)
  moreover have "publishResource t r = Inr (False, t)" if "res_worker r = w" "res_bootId r \<noteq> b" for r
    using that f fresh_unique by (auto simp: publishResource_def)
  ultimately show ?thesis using f by blast
qed

theorem live_incarnation_protected_witness:
  "registerWorker (snd (registerWorker CapacityModel_new (StrongId 3) (StrongId 7))) (StrongId 3) (StrongId 8) =
     (False, snd (registerWorker CapacityModel_new (StrongId 3) (StrongId 7)))"
proof -
  have "registerWorker CapacityModel_new (StrongId 3) (StrongId 7) =
      (True, snd (registerWorker CapacityModel_new (StrongId 3) (StrongId 7)))"
    by (simp add: registerWorker_def CapacityModel_new_def setEpoch_def sid_valid_def kInvalidId_def)
  from live_incarnation_protected [OF this rtranclp.rtrancl_refl] show ?thesis by simp
qed

text \<open>
  C21. A dead worker is silent until it registers again: after it is marked dead, no run without a
  registration of that worker lets a resource publication of it in, and none of its resources counts as
  current evidence.
\<close>

theorem dead_worker_silent:
  assumes "(step_without_register w)\<^sup>*\<^sup>* (markWorkerDead m w) t" and "res_worker r = w"
  shows "publishResource t r = Inr (False, t) \<and> \<not> resource_current t r"
  using dead_kept [OF assms(1) dead_not_alive] fresh_alive assms(2)
  by (auto simp: publishResource_def resource_current_def)

theorem dead_worker_silent_witness:
  "publishResource (markWorkerDead CapacityModel_new (StrongId 3)) (ResourceInfo_default\<lparr>res_worker := StrongId 3\<rparr>) =
     Inr (False, markWorkerDead CapacityModel_new (StrongId 3))"
  using dead_worker_silent [OF rtranclp.rtrancl_refl, of "ResourceInfo_default\<lparr>res_worker := StrongId 3\<rparr>" "StrongId 3"]
  by simp

text \<open>
  Death does not retire a boot identity: after a worker is marked dead, a registration with any valid
  boot is accepted, the boot that died included, and makes that boot the live one.
\<close>

theorem dead_boot_accepted_again:
  assumes "sid_valid w" and "sid_valid b"
  shows "\<exists>t. registerWorker (markWorkerDead m w) w b = (True, t) \<and> isFreshBoot t w b"
proof -
  have "fst (registerWorker (markWorkerDead m w) w b)"
    using assms dead_not_alive [of m w] by (auto simp: registerWorker_def workerAlive_def split: option.splits)
  then show ?thesis
    using register_effect [of "markWorkerDead m w" w b] by (cases "registerWorker (markWorkerDead m w) w b") auto
qed

theorem dead_boot_accepted_again_witness:
  "\<exists>t. registerWorker (markWorkerDead (snd (registerWorker CapacityModel_new (StrongId 3) (StrongId 7))) (StrongId 3))
     (StrongId 3) (StrongId 7) = (True, t) \<and> isFreshBoot t (StrongId 3) (StrongId 7)"
  by (rule dead_boot_accepted_again) (simp_all add: sid_valid_def kInvalidId_def)

end
