(* ===== verification/Model_View.thy ===== *)
theory Model_View
  imports Model_Runs
begin

text \<open>
  What the view and the queries of the capacity model say about the fleet: the aggregates of
  \<open>buildView\<close> as sums over the resources, current and stale, and the answers of the queries in terms of
  the published evidence.
\<close>

section \<open>Sums of capacities\<close>

definition cap_sum :: "('a \<Rightarrow> Capacity) \<Rightarrow> 'a list \<Rightarrow> Capacity \<Rightarrow> fault + Capacity" where
  "cap_sum g xs = foldR (\<lambda>x c. cap_add c (g x)) xs"

lemma cap_sum_simps [simp]:
  "cap_sum g [] c = Inr c" "cap_sum g (x # xs) c = bindR (cap_add c (g x)) (cap_sum g xs)"
  by (simp_all add: cap_sum_def)

lemma cap_sum_append: "cap_sum g (xs @ ys) c = bindR (cap_sum g xs c) (cap_sum g ys)"
  by (simp add: cap_sum_def foldR_append)

lemma cap_sum_rep:
  assumes "cap_rep c f" and "\<forall>x \<in> set xs. cap_rep (g x) (G x)" and "\<And>d. f d + (\<Sum>x \<leftarrow> xs. G x d) < 2 ^ 53"
  shows "\<exists>r. cap_sum g xs c = Inr r \<and> cap_rep r (\<lambda>d. f d + (\<Sum>x \<leftarrow> xs. G x d))"
  using assms
proof (induction xs arbitrary: c f)
  case (Cons x xs)
  have "f d + G x d < 2 ^ 53" for d using Cons.prems(3) [of d] by simp
  then obtain r where r: "cap_add c (g x) = Inr r" "cap_rep r (\<lambda>d. f d + G x d)"
    using cap_rep_add [OF Cons.prems(1), of "g x" "G x"] Cons.prems(2) by auto
  have "f d + G x d + (\<Sum>x \<leftarrow> xs. G x d) < 2 ^ 53" for d using Cons.prems(3) [of d] by (simp add: add.assoc)
  from Cons.IH [OF r(2) _ this] Cons.prems(2) r(1) show ?case by (simp add: add.assoc)
qed auto

section \<open>The loop of the view\<close>

text \<open>The device index after the loop: the last resource of a device decides its entry.\<close>

definition device_entry :: "CapacityModel \<Rightarrow> ResourceInfo \<Rightarrow> DeviceInfo option" where
  "device_entry m r = (case view_device m r of Inl f \<Rightarrow> None | Inr d \<Rightarrow> Some d)"

definition index_of :: "CapacityModel \<Rightarrow> ResourceInfo list \<Rightarrow> DeviceId \<Rightarrow> DeviceInfo option" where
  "index_of m rs i = (case find (\<lambda>r. res_deviceId r = i) (rev rs) of None \<Rightarrow> None | Some r \<Rightarrow> device_entry m r)"

lemma view_device_id: "view_device m r = Inr d \<Longrightarrow> dev_id d = res_deviceId r"
  by (auto simp: view_device_def Let_def)

lemma index_of_snoc: "index_of m (rs @ [r]) i = (if res_deviceId r = i then device_entry m r else index_of m rs i)"
  by (simp add: index_of_def)

definition view_loop :: "CapacityModel \<Rightarrow> TimePoint \<Rightarrow> ResourceInfo list \<Rightarrow>
    fault + FleetView \<times> (DeviceId, DeviceInfo) omap \<times> bool \<times> bool" where
  "view_loop m now rs = foldR (view_step m) rs (FleetView_default\<lparr>fv_now := now\<rparr>, om_empty, False, False)"

lemma view_loop_effect:
  assumes "view_loop m now rs = Inr (v, idx, cur, stale)"
  shows "fv_resources v = rs \<and> fv_now v = now \<and> fv_reservations v = [] \<and>
     cap_sum res_nominal rs om_empty = Inr (fv_nominal v) \<and>
     cap_sum res_committed rs om_empty = Inr (fv_committed v) \<and>
     cap_sum res_unavailable rs om_empty = Inr (fv_unavailable v) \<and>
     cap_sum res_free (filter (resource_current m) rs) om_empty = Inr (fv_available v) \<and>
     (\<forall>i. om_lookup idx i = index_of m rs i) \<and> (\<forall>r \<in> set rs. \<exists>d. view_device m r = Inr d) \<and>
     cur = (\<exists>r \<in> set rs. resource_current m r) \<and> stale = (\<exists>r \<in> set rs. \<not> resource_current m r)"
  using assms
proof (induction rs arbitrary: v idx cur stale rule: rev_induct)
  case Nil
  then show ?case by (auto simp: view_loop_def FleetView_default_def index_of_def)
next
  case (snoc r rs)
  then obtain v0 idx0 cur0 stale0 where l: "view_loop m now rs = Inr (v0, idx0, cur0, stale0)"
    and st: "view_step m r (v0, idx0, cur0, stale0) = Inr (v, idx, cur, stale)"
    by (auto simp: view_loop_def foldR_append)
  obtain d where d: "view_device m r = Inr d" and idx: "idx = om_insert (dev_id d) d idx0"
    using st by (auto simp: view_step_def Let_def)
  have "om_lookup idx i = index_of m (rs @ [r]) i" for i
    using snoc.IH [OF l] view_device_id [OF d] d by (simp add: idx index_of_snoc device_entry_def)
  then show ?case
    using snoc.IH [OF l] st d by (auto simp: view_step_def Let_def cap_sum_append split: if_splits)
qed

lemma view_loop_total:
  assumes "\<forall>r \<in> set rs. \<exists>d. view_device m r = Inr d"
    and "\<exists>c. cap_sum res_nominal rs om_empty = Inr c" "\<exists>c. cap_sum res_committed rs om_empty = Inr c"
    and "\<exists>c. cap_sum res_unavailable rs om_empty = Inr c"
    and "\<exists>c. cap_sum res_free (filter (resource_current m) rs) om_empty = Inr c"
  shows "\<exists>x. view_loop m now rs = Inr x"
  using assms
proof (induction rs rule: rev_induct)
  case Nil
  then show ?case by (simp add: view_loop_def del: split_paired_Ex)
next
  case (snoc r rs)
  have "\<exists>x. view_loop m now rs = Inr x"
    using snoc.prems by (intro snoc.IH) (auto simp: cap_sum_append split: if_splits)
  then obtain v idx cur stale where l: "view_loop m now rs = Inr (v, idx, cur, stale)" by (metis prod.exhaust)
  obtain d where "view_device m r = Inr d" using snoc.prems(1) by auto
  moreover have "\<exists>c. cap_add (fv_nominal v) (res_nominal r) = Inr c" "\<exists>c. cap_add (fv_committed v) (res_committed r) = Inr c"
      "\<exists>c. cap_add (fv_unavailable v) (res_unavailable r) = Inr c"
      "resource_current m r \<longrightarrow> (\<exists>c. cap_add (fv_available v) (res_free r) = Inr c)"
    using snoc.prems(2-5) view_loop_effect [OF l] by (auto simp: cap_sum_append)
  ultimately have "\<exists>x. view_step m r (v, idx, cur, stale) = Inr x"
    by (cases "resource_current m r") (auto simp: view_step_def Let_def)
  then show ?case using l by (auto simp: view_loop_def foldR_append)
qed

section \<open>Whole-number fleets\<close>

text \<open>
  Published amounts are whole numbers (bytes, counts) below \<open>2 ^ 53\<close>, where doubles are exact: \<open>N\<close>,
  \<open>F\<close>, \<open>C\<close> and \<open>U\<close> give the nominal, free, committed and unavailable amounts of a resource.
\<close>

definition whole_fleet :: "(ResourceInfo \<Rightarrow> Dimension \<Rightarrow> nat) \<Rightarrow> (ResourceInfo \<Rightarrow> Dimension \<Rightarrow> nat) \<Rightarrow>
    (ResourceInfo \<Rightarrow> Dimension \<Rightarrow> nat) \<Rightarrow> (ResourceInfo \<Rightarrow> Dimension \<Rightarrow> nat) \<Rightarrow> CapacityModel \<Rightarrow> bool" where
  "whole_fleet N F C U m \<longleftrightarrow>
     (\<forall>r \<in> set (currentResources m). cap_rep (res_nominal r) (N r) \<and> cap_rep (res_free r) (F r) \<and>
        cap_rep (res_committed r) (C r) \<and> cap_rep (res_unavailable r) (U r)) \<and>
     (\<forall>d. (\<Sum>r \<leftarrow> currentResources m. N r d + F r d + C r d + U r d) < 2 ^ 53)"

definition fleet_total :: "(ResourceInfo \<Rightarrow> Dimension \<Rightarrow> nat) \<Rightarrow> CapacityModel \<Rightarrow> Dimension \<Rightarrow> nat" where
  "fleet_total N m = (\<lambda>d. \<Sum>r \<leftarrow> currentResources m. N r d)"

definition fleet_free :: "(ResourceInfo \<Rightarrow> Dimension \<Rightarrow> nat) \<Rightarrow> CapacityModel \<Rightarrow> Dimension \<Rightarrow> nat" where
  "fleet_free F m = (\<lambda>d. \<Sum>r \<leftarrow> filter (resource_current m) (currentResources m). F r d)"

lemma sum_list_filter_le: "(\<Sum>x \<leftarrow> filter P xs. h x) \<le> (\<Sum>x \<leftarrow> xs. h x :: nat)"
  by (induction xs) auto

lemma whole_fleet_bounds:
  assumes "whole_fleet N F C U m"
  shows "fleet_total N m d < 2 ^ 53" "fleet_total C m d < 2 ^ 53" "fleet_total U m d < 2 ^ 53" "fleet_free F m d < 2 ^ 53"
proof -
  have "fleet_total N m d + fleet_total F m d + fleet_total C m d + fleet_total U m d < 2 ^ 53"
    using assms by (simp add: whole_fleet_def fleet_total_def sum_list_addf)
  moreover have "fleet_free F m d \<le> fleet_total F m d"
    by (simp add: fleet_free_def fleet_total_def sum_list_filter_le)
  ultimately show "fleet_total N m d < 2 ^ 53" "fleet_total C m d < 2 ^ 53" "fleet_total U m d < 2 ^ 53" "fleet_free F m d < 2 ^ 53"
    by linarith+
qed

lemma whole_fleet_sums:
  assumes "whole_fleet N F C U m"
  shows "\<exists>c. cap_sum res_nominal (currentResources m) om_empty = Inr c \<and> cap_rep c (fleet_total N m)"
    and "\<exists>c. cap_sum res_committed (currentResources m) om_empty = Inr c \<and> cap_rep c (fleet_total C m)"
    and "\<exists>c. cap_sum res_unavailable (currentResources m) om_empty = Inr c \<and> cap_rep c (fleet_total U m)"
    and "\<exists>c. cap_sum res_free (filter (resource_current m) (currentResources m)) om_empty = Inr c \<and> cap_rep c (fleet_free F m)"
  using cap_sum_rep [OF cap_rep_empty, of "currentResources m" res_nominal N]
    cap_sum_rep [OF cap_rep_empty, of "currentResources m" res_committed C]
    cap_sum_rep [OF cap_rep_empty, of "currentResources m" res_unavailable U]
    cap_sum_rep [OF cap_rep_empty, of "filter (resource_current m) (currentResources m)" res_free F]
    whole_fleet_bounds [OF assms] assms
  by (simp_all add: fleet_total_def fleet_free_def whole_fleet_def)

lemma whole_fleet_devices: "whole_fleet N F C U m \<Longrightarrow> r \<in> set (currentResources m) \<Longrightarrow> \<exists>d. view_device m r = Inr d"
  by (auto simp: whole_fleet_def view_device_def Let_def cap_rep_vram)

text \<open>The view of a whole-number fleet.\<close>

lemma buildView_rep:
  assumes w: "whole_fleet N F C U m"
  shows "\<exists>v. buildView m now = Inr v \<and> cap_rep (fv_available v) (fleet_free F m) \<and>
     cap_rep (fv_nominal v) (fleet_total N m) \<and> cap_rep (fv_committed v) (fleet_total C m) \<and>
     cap_rep (fv_unavailable v) (fleet_total U m) \<and>
     cap_rep (fv_currentUse v) (\<lambda>d. fleet_total N m d - fleet_free F m d - fleet_total C m d - fleet_total U m d)"
proof -
  let ?rs = "currentResources m"
  have "\<exists>x. view_loop m now ?rs = Inr x"
    using whole_fleet_devices [OF w] whole_fleet_sums [OF w] by (intro view_loop_total) blast+
  then obtain v idx cur stale where l: "view_loop m now ?rs = Inr (v, idx, cur, stale)" by (metis prod.exhaust)
  note e = view_loop_effect [OF l]
  have reps: "cap_rep (fv_nominal v) (fleet_total N m)" "cap_rep (fv_committed v) (fleet_total C m)"
      "cap_rep (fv_unavailable v) (fleet_total U m)" "cap_rep (fv_available v) (fleet_free F m)"
    using e whole_fleet_sums [OF w] by auto
  then have "cap_rep (current_use v) (\<lambda>d. fleet_total N m d - fleet_free F m d - fleet_total C m d - fleet_total U m d)"
    unfolding current_use_def by (intro cap_rep_subtractClamp)
  then show ?thesis
    using reps l by (simp add: buildView_def view_loop_def current_use_def Let_def)
qed

lemma buildView_effect:
  assumes "buildView m now = Inr v"
  shows "fv_resources v = currentResources m \<and> fv_now v = now \<and> fv_reservations v = m_reservations m \<and>
     fv_releases v = m_releases m \<and> fv_maintenance v = m_maintenance m \<and> fv_provenance v = Derived \<and>
     (fv_staleDynamic v \<longleftrightarrow> (\<exists>r \<in> set (currentResources m). \<not> resource_current m r)) \<and>
     fv_freshness v = (if \<exists>r \<in> set (currentResources m). resource_current m r then Fresh
        else if currentResources m = [] then EvidenceInsufficient else RevalidationNeeded) \<and>
     distinct (map dev_id (fv_devices v)) \<and> (\<forall>r \<in> set (currentResources m). \<exists>d. view_device m r = Inr d) \<and>
     (\<forall>i. find_by dev_id (fv_devices v) i = index_of m (currentResources m) i)"
proof -
  obtain w idx cur stale where l: "view_loop m now (currentResources m) = Inr (w, idx, cur, stale)"
    and v: "v = (let v1 = w\<lparr>fv_devices := map snd (om_entries idx), fv_reservations := m_reservations m,
                     fv_releases := m_releases m, fv_maintenance := m_maintenance m, fv_staleDynamic := stale,
                     fv_freshness := view_freshness (om_size (m_resources m) = 0) cur stale,
                     fv_provenance := Derived\<rparr> in v1\<lparr>fv_currentUse := current_use v1\<rparr>)"
    using assms by (auto simp: buildView_def view_loop_def Let_def)
  note e = view_loop_effect [OF l]
  have key: "dev_id d = i" if "om_lookup idx i = Some d" for i d
    using e that view_device_id
    by (fastforce simp: index_of_def device_entry_def find_Some_iff split: option.splits sum.splits)
  have find: "find (\<lambda>d. dev_id d = i) (map snd xs) = map_of xs i" if "\<forall>(k, d) \<in> set xs. dev_id d = k" for xs i
    using that by (induction xs) auto
  have "\<forall>(k, d) \<in> set (om_entries idx). dev_id d = k" using key by (auto simp: om_lookup_iff)
  then have "find_by dev_id (map snd (om_entries idx)) i = om_lookup idx i" for i
    by (simp add: find_by_def find om_lookup_def)
  moreover have "map dev_id (map snd (om_entries idx)) = map fst (om_entries idx)"
    using key by (auto simp: om_lookup_iff)
  then have "distinct (map dev_id (map snd (om_entries idx)))" by (simp only: om_entries_distinct)
  moreover have "om_size (m_resources m) = 0 \<longleftrightarrow> currentResources m = []"
    by (simp add: om_size_def currentResources_def)
  ultimately show ?thesis
    using e by (auto simp: v Let_def view_freshness_def)
qed

text \<open>Health is overwritten in every view: the device table supplies none of the fields a query reads.\<close>

lemma view_step_health:
  "view_step (m\<lparr>m_healthGen := hg, m_devices := om_insert i (d\<lparr>dev_health := h\<rparr>) (m_devices m)\<rparr>) r acc = view_step m r acc"
  if "om_lookup (m_devices m) i = Some d" for m :: CapacityModel
proof -
  have "view_device (m\<lparr>m_healthGen := hg, m_devices := om_insert i (d\<lparr>dev_health := h\<rparr>) (m_devices m)\<rparr>) r = view_device m r"
    using that by (auto simp: view_device_def Let_def split: option.split)
  then show ?thesis by (simp add: view_step_def resource_current_def isFreshBoot_def)
qed

section \<open>Projections\<close>

definition projected :: "(ResourceInfo \<Rightarrow> Dimension \<Rightarrow> nat) \<Rightarrow> (Reservation \<Rightarrow> Dimension \<Rightarrow> nat) \<Rightarrow>
    (ReleaseEvent \<Rightarrow> Dimension \<Rightarrow> nat) \<Rightarrow> CapacityModel \<Rightarrow> QueryMode \<Rightarrow> TimePoint \<Rightarrow> Dimension \<Rightarrow> nat" where
  "projected F H R m mode t =
     (\<lambda>d. fleet_free F m d + credited_at R (m_releases m) mode t d - held_at H (m_reservations m) mode t d)"

text \<open>
  Whole-number evidence whose calendar is never overbooked, with totals a double holds exactly: the conditions under which a
  mode's timeline accounts exactly for the fleet.
\<close>

definition exact_calendar :: "(ResourceInfo \<Rightarrow> Dimension \<Rightarrow> nat) \<Rightarrow> (Reservation \<Rightarrow> Dimension \<Rightarrow> nat) \<Rightarrow>
    (ReleaseEvent \<Rightarrow> Dimension \<Rightarrow> nat) \<Rightarrow> CapacityModel \<Rightarrow> QueryMode \<Rightarrow> bool" where
  "exact_calendar F H R m mode \<longleftrightarrow>
     whole_evidence H R (m_reservations m) (m_releases m) \<and>
     never_overbooked H R (fleet_free F m) (m_reservations m) (m_releases m) mode \<and>
     (\<forall>d. fleet_free F m d + (\<Sum>r \<leftarrow> filter (counts_in mode) (m_reservations m). H r d) +
        (\<Sum>e \<leftarrow> m_releases m. R e d) < 2 ^ 53)"

lemma project_rep:
  assumes "event_sort srt" and "buildView m now = Inr v" and "cap_rep (fv_available v) (fleet_free F m)"
    and e: "exact_calendar F H R m mode" and "i64_min \<le> t"
  shows "\<exists>c. capacityAt (view_timeline_with srt v mode) t = Inr c \<and> cap_rep c (projected F H R m mode t)"
proof -
  note e = e [unfolded exact_calendar_def]
  have o: "never_overbooked H R (fleet_free F m) (m_reservations m) (m_releases m) mode" using e by blast
  have "nat (int (fleet_free F m d) + (int (credited_at R (m_releases m) mode t d) - int (held_at H (m_reservations m) mode t d))) =
      projected F H R m mode t d" for d
    using never_overbooked_held [OF o, where t = t and d = d] by (simp add: projected_def)
  then show ?thesis
    using mode_timeline_rep [OF assms(1,5,3), of H R "m_reservations m" "m_releases m" mode] e buildView_effect [OF assms(2)]
    by (simp add: view_timeline_with_def)
qed

lemma queryFeasibility_later:
  assumes "event_sort srt" and "whole_fleet N F C U m" and "exact_calendar F H R m mode" and "0 < t"
    and "cap_rep (dm_requirements dem) Q"
  shows "\<exists>res. queryFeasibility_with srt m dem mode t = Inr res \<and> fz_fitTime res = t \<and> fz_mode res = mode \<and>
     fz_outcome res =
       (if \<forall>r \<in> set (currentResources m). \<not> resource_current m r then RevalidationRequired
        else if \<forall>d. Q d \<le> projected F H R m mode t d then FitFuture else NoFitCapacity)"
proof -
  obtain v where v: "buildView m t = Inr v" "cap_rep (fv_available v) (fleet_free F m)"
    using buildView_rep [OF assms(2), of t] by blast
  have t: "i64_min \<le> t" using assms(4) by (simp add: i64_min_def)
  obtain c where c: "capacityAt (view_timeline_with srt v mode) t = Inr c" "cap_rep c (projected F H R m mode t)"
    using project_rep [OF assms(1) v assms(3) t] by blast
  have "cap_satisfies c (dm_requirements dem) \<longleftrightarrow> (\<forall>d. Q d \<le> projected F H R m mode t d)"
    by (rule cap_rep_satisfies [OF c(2) assms(5)])
  moreover have "fv_freshness v \<noteq> Fresh \<longleftrightarrow> (\<forall>r \<in> set (currentResources m). \<not> resource_current m r)"
    using buildView_effect [OF v(1)] by auto
  ultimately show ?thesis
    using v(1) c(1) assms(4) by (simp add: queryFeasibility_with_def Let_def FeasibilityResult_default_def)
qed

section \<open>A small instance\<close>

definition ex_free_resource :: ResourceInfo where
  "ex_free_resource = (ex_published 3)\<lparr>res_free := whole [(AcceleratorCount, 2)]\<rparr>"

definition ex_fleet :: CapacityModel where
  "ex_fleet = ex_model\<lparr>m_resources := om_insert (StrongId 5) ex_free_resource om_empty\<rparr>"

definition ex_F :: "ResourceInfo \<Rightarrow> Dimension \<Rightarrow> nat" where
  "ex_F r d = (if d = AcceleratorCount then 2 else 0)"

lemma ex_fleet_resources [simp]: "currentResources ex_fleet = [ex_free_resource]"
  by (simp add: ex_fleet_def currentResources_def)

lemma ex_fleet_current: "resource_current ex_fleet ex_free_resource"
  by (simp add: resource_current_def isCurrentDynamic_def isFreshBoot_def ex_fleet_def ex_model_sources ex_free_resource_def
      ex_published_def sid_valid_def kInvalidId_def)

lemma ex_whole_fleet: "whole_fleet (\<lambda>_ _. 0) ex_F (\<lambda>_ _. 0) (\<lambda>_ _. 0) ex_fleet"
  using ex_free_rep cap_rep_empty
  by (simp add: whole_fleet_def ex_free_resource_def ex_published_def ResourceInfo_default_def ex_F_def [abs_def] fun_upd_def)

text \<open>The answers when no evidence is current.\<close>

lemma no_current_outcome:
  assumes "\<forall>r \<in> set (currentResources m). \<not> resource_current m r" and "queryFeasibility_with srt m d mode time = Inr res"
  shows "fz_outcome res \<in> {RevalidationRequired, InsufficientEvidence, OutcomeUnknown} \<and>
     (demand_valid d \<longrightarrow> fz_outcome res \<noteq> OutcomeUnknown) \<and>
     frac_value (fz_confidence res) = d_zero"
proof -
  obtain v where v: "buildView m time = Inr v" using assms(2) by (auto simp: queryFeasibility_with_def)
  have f: "fv_freshness v \<in> {RevalidationNeeded, EvidenceInsufficient}"
    using buildView_effect [OF v] assms(1) by auto
  show ?thesis
  proof (cases "time \<le> 0")
    case True
    then have "fz_outcome res = fz_outcome (evaluateNow v d)" "fz_confidence res = fz_confidence (evaluateNow v d)"
      using assms(2) v by (auto simp: queryFeasibility_with_def)
    then show ?thesis
      using f by (auto simp: evaluateNow_outcome evaluateNow_conf)
  next
    case False
    then show ?thesis
      using assms(2) v f by (auto simp: queryFeasibility_with_def Let_def FeasibilityResult_default_def)
  qed
qed

lemma no_current_available:
  assumes "\<forall>r \<in> set (currentResources m). \<not> resource_current m r" and "buildView m now = Inr v"
  shows "fv_available v = om_empty"
proof -
  obtain w idx cur stale where l: "view_loop m now (currentResources m) = Inr (w, idx, cur, stale)"
    and v: "fv_available v = fv_available w"
    using assms(2) by (auto simp: buildView_def view_loop_def Let_def)
  have "filter (resource_current m) (currentResources m) = []" using assms(1) by (simp add: filter_empty_conv)
  then show ?thesis using view_loop_effect [OF l] v by simp
qed

lemma no_current_timeline:
  assumes "\<forall>r \<in> set (currentResources m). \<not> resource_current m r" and "buildView m 0 = Inr v"
  shows "queryEarliestFit_with srt m d mode es duration horizon =
     earliestFit (buildTimeline_with srt om_empty (m_reservations m) (m_releases m) mode) d es duration horizon"
  using assms no_current_available [OF assms] buildView_effect [OF assms(2)]
  by (simp add: queryEarliestFit_with_def view_timeline_with_def)

section \<open>Properties\<close>



text \<open>
  Evidence and freshness. Any view the model builds lists every resource, is fresh exactly when some
  resource is current, asks for revalidation when there are resources but none is current, and reports
  insufficient evidence when there are none; its devices are those of the resources, one entry per
  device, with the health, node and free blocks of the last resource on it.
\<close>

theorem buildView_evidence:
  assumes "buildView m now = Inr v"
  shows "fv_resources v = currentResources m \<and>
     (fv_freshness v = Fresh \<longleftrightarrow> (\<exists>r \<in> set (currentResources m). resource_current m r)) \<and>
     (fv_freshness v = EvidenceInsufficient \<longleftrightarrow> currentResources m = []) \<and>
     (fv_freshness v \<in> {Fresh, EvidenceInsufficient} \<or> fv_freshness v = RevalidationNeeded) \<and>
     distinct (map dev_id (fv_devices v)) \<and> dev_id ` set (fv_devices v) = res_deviceId ` set (currentResources m) \<and>
     (\<forall>d \<in> set (fv_devices v). \<exists>r. find (\<lambda>r. res_deviceId r = dev_id d) (rev (currentResources m)) = Some r \<and>
        dev_health d = res_health r \<and> dev_nodeId d = res_nodeId r \<and> dev_freeBlocks d = res_freeBlocks r)"
proof -
  note e = buildView_effect [OF assms]
  have look: "find_by dev_id (fv_devices v) (dev_id d) = Some d" if "d \<in> set (fv_devices v)" for d
    using e that by (intro find_by_distinct) auto
  have idx: "find_by dev_id (fv_devices v) i = Some d \<longleftrightarrow>
      (\<exists>r. find (\<lambda>r. res_deviceId r = i) (rev (currentResources m)) = Some r \<and> view_device m r = Inr d)" for i d
    using e by (auto simp: index_of_def device_entry_def split: option.splits sum.splits)
  have all: "\<exists>d. view_device m r = Inr d" if "find P (rev (currentResources m)) = Some r" for P r
    using find_in_set [OF that] e by auto
  have dev: "dev_health d = res_health r \<and> dev_nodeId d = res_nodeId r \<and> dev_freeBlocks d = res_freeBlocks r"
    if "view_device m r = Inr d" for r d
    using that by (auto simp: view_device_def Let_def)
  have "i \<in> dev_id ` set (fv_devices v) \<longleftrightarrow> i \<in> res_deviceId ` set (currentResources m)" for i
  proof -
    have "i \<in> dev_id ` set (fv_devices v) \<longleftrightarrow> (\<exists>d. find_by dev_id (fv_devices v) i = Some d)"
      using look by (auto simp: find_by_def find_Some_iff)
    also have "\<dots> \<longleftrightarrow> (\<exists>r. find (\<lambda>r. res_deviceId r = i) (rev (currentResources m)) = Some r)"
      unfolding idx using all by blast
    also have "\<dots> \<longleftrightarrow> i \<in> res_deviceId ` set (currentResources m)"
      by (auto simp: find_None_iff simp flip: not_None_eq)
    finally show ?thesis .
  qed
  then have ids: "dev_id ` set (fv_devices v) = res_deviceId ` set (currentResources m)" by (simp add: set_eq_iff)
  have entries: "\<forall>d \<in> set (fv_devices v). \<exists>r. find (\<lambda>r. res_deviceId r = dev_id d) (rev (currentResources m)) = Some r \<and>
      dev_health d = res_health r \<and> dev_nodeId d = res_nodeId r \<and> dev_freeBlocks d = res_freeBlocks r"
    using look idx dev by meson
  have fresh: "fv_freshness v = (if \<exists>r \<in> set (currentResources m). resource_current m r then Fresh
        else if currentResources m = [] then EvidenceInsufficient else RevalidationNeeded)"
    using e by blast
  then have "fv_freshness v = Fresh \<longleftrightarrow> (\<exists>r \<in> set (currentResources m). resource_current m r)"
    and "fv_freshness v = EvidenceInsufficient \<longleftrightarrow> currentResources m = []"
    and "fv_freshness v \<in> {Fresh, EvidenceInsufficient} \<or> fv_freshness v = RevalidationNeeded"
    unfolding fresh by auto
  then show ?thesis using e ids entries by (intro conjI) (simp_all only:)
qed

theorem buildView_evidence_witness: "\<exists>v. buildView ex_fleet 0 = Inr v \<and> fv_freshness v = Fresh"
proof -
  obtain v where v: "buildView ex_fleet 0 = Inr v"
    using buildView_rep [OF ex_whole_fleet, of 0] by blast
  then show ?thesis using buildView_evidence [OF v] ex_fleet_current by simp
qed

text \<open>
  C22. No current evidence, no feasible answer. When no resource is current (every publisher died, left, or came back
  under another boot), no feasibility query about any demand reports a fit, now or in the future: a valid demand is
  answered by revalidation, or by insufficient evidence when there are no resources at all. The earliest-fit query looks at no
  freshness: it searches the reservations and releases over an empty fleet, and one release is enough for it to report a start
  (\<open>release_alone_fits\<close>).
\<close>

theorem no_current_no_fit:
  assumes "\<forall>r \<in> set (currentResources m). \<not> resource_current m r" and "buildView m 0 = Inr v"
  shows "(\<forall>res. queryFeasibility_with srt m d mode time = Inr res \<longrightarrow>
        fz_outcome res \<in> {RevalidationRequired, InsufficientEvidence, OutcomeUnknown} \<and>
        (demand_valid d \<longrightarrow> fz_outcome res \<noteq> OutcomeUnknown) \<and> frac_value (fz_confidence res) = d_zero) \<and>
     queryEarliestFit_with srt m d mode es duration horizon =
        earliestFit (buildTimeline_with srt om_empty (m_reservations m) (m_releases m) mode) d es duration horizon"
  using no_current_outcome [OF assms(1)] no_current_timeline [OF assms] by blast

theorem no_current_no_fit_witness:
  "\<exists>res. queryFeasibility (markWorkerDead ex_fleet (StrongId 3)) WorkloadDemand_default Guaranteed 0 = Inr res \<and>
     frac_value (fz_confidence res) = d_zero"
proof -
  let ?m = "markWorkerDead ex_fleet (StrongId 3)"
  have r: "currentResources ?m = [ex_free_resource]"
    by (simp add: markWorkerDead_def currentResources_def ex_fleet_def split: option.split)
  have "whole_fleet (\<lambda>_ _. 0) ex_F (\<lambda>_ _. 0) (\<lambda>_ _. 0) ?m"
    using ex_whole_fleet by (simp add: whole_fleet_def r)
  then obtain v where v: "buildView ?m 0 = Inr v" using buildView_rep by blast
  then obtain res where q: "queryFeasibility ?m WorkloadDemand_default Guaranteed 0 = Inr res"
    by (simp add: queryFeasibility_body)
  have "\<forall>r \<in> set (currentResources ?m). \<not> resource_current ?m r"
    using dead_not_alive [of ex_fleet "StrongId 3"] fresh_alive
    by (auto simp: r resource_current_def ex_free_resource_def ex_published_def)
  from no_current_no_fit [OF this v, where srt = std_sort, folded queryFeasibility_def] show ?thesis using q by blast
qed

text \<open>
  Projected capacity of the fleet, for every sorting function. With whole-number evidence, totals below \<open>2 ^ 53\<close> and a calendar
  that is never overbooked, \<open>queryCapacity\<close> returns, in every dimension, the free capacity of the current resources, plus the
  releases whose boundary for the mode has passed, less the holds of the counted reservations in force at the instant.
\<close>

theorem queryCapacity_exact:
  assumes "\<And>es. mset (srt es) = mset es" and "\<And>es. sorted (map ev_time (srt es))"
    and "whole_fleet N F C U m" and "whole_evidence H R (m_reservations m) (m_releases m)" and "i64_min \<le> t"
    and "never_overbooked H R (fleet_free F m) (m_reservations m) (m_releases m) mode"
    and "\<And>d. fleet_free F m d + (\<Sum>r \<leftarrow> filter (counts_in mode) (m_reservations m). H r d) +
          (\<Sum>e \<leftarrow> m_releases m. R e d) < 2 ^ 53"
  shows "\<exists>c. queryCapacity_with srt m mode t = Inr c \<and>
     cap_rep c (\<lambda>d. (\<Sum>r \<leftarrow> filter (resource_current m) (currentResources m). F r d) +
        credited_at R (m_releases m) mode t d - held_at H (m_reservations m) mode t d)"
proof -
  from assms(1,2) have s: "event_sort srt" by unfold_locales
  have e: "exact_calendar F H R m mode" using assms(4,6,7) by (simp add: exact_calendar_def)
  obtain v where v: "buildView m 0 = Inr v" "cap_rep (fv_available v) (fleet_free F m)"
    using buildView_rep [OF assms(3), of 0] by blast
  obtain c where c: "capacityAt (view_timeline_with srt v mode) t = Inr c" "cap_rep c (projected F H R m mode t)"
    using project_rep [OF s v e assms(5)] by blast
  then show ?thesis
    using v by (simp add: queryCapacity_with_def projected_def fleet_free_def)
qed

theorem queryCapacity_exact_witness:
  "\<exists>c. queryCapacity ex_fleet Expected 15 = Inr c \<and> cap_amount c AcceleratorCount = d_of_nat 2"
proof -
  have e: "m_reservations ex_fleet = []" "m_releases ex_fleet = []"
    by (simp_all add: ex_fleet_def ex_model_def registerWorker_def CapacityModel_new_def setEpoch_def)
  have b: "fleet_free ex_F ex_fleet d < 2 ^ 53" for d using whole_fleet_bounds(4) [OF ex_whole_fleet] .
  obtain c where "queryCapacity ex_fleet Expected 15 = Inr c"
      "cap_rep c (\<lambda>d. (\<Sum>r \<leftarrow> filter (resource_current ex_fleet) (currentResources ex_fleet). ex_F r d) +
        credited_at (\<lambda>_ _. 0) [] Expected 15 d - held_at (\<lambda>_ _. 0) [] Expected 15 d)"
    using queryCapacity_exact [OF stable.srt_mset stable.srt_sorted ex_whole_fleet, of "\<lambda>_ _. 0" "\<lambda>_ _. 0" 15 Expected,
        folded queryCapacity_def] b
    by (auto simp: e whole_evidence_def i64_min_def never_overbooked_def claimed_at_def)
  then show ?thesis using ex_fleet_current by (auto simp: cap_rep_def ex_F_def held_at_def credited_at_def)
qed

text \<open>
  C7. A fit in the future means exactly that the projection satisfies the requirement, for every sorting function. With
  whole-number evidence, totals below \<open>2 ^ 53\<close> and a calendar that is never overbooked (at every instant the counted holds that
  touch it, those ending there included, are covered by the free capacity and the earlier releases), for an instant after the
  origin and a whole-number requirement, \<open>queryFeasibility\<close> asks for revalidation when no resource is current, answers
  \<open>FIT_FUTURE\<close> if the requirement is at most the projected amount in every dimension, and that there is no capacity otherwise;
  the demand's validity and its device constraints are not consulted. (After an overbooked interval the projection is too
  high: see \<open>single_reservation\<close>.)
\<close>

theorem queryFeasibility_future_iff:
  assumes "\<And>es. mset (srt es) = mset es" and "\<And>es. sorted (map ev_time (srt es))"
    and "whole_fleet N F C U m" and "whole_evidence H R (m_reservations m) (m_releases m)" and "0 < t"
    and "never_overbooked H R (fleet_free F m) (m_reservations m) (m_releases m) mode"
    and "\<And>d. fleet_free F m d + (\<Sum>r \<leftarrow> filter (counts_in mode) (m_reservations m). H r d) +
          (\<Sum>e \<leftarrow> m_releases m. R e d) < 2 ^ 53"
    and "cap_rep (dm_requirements dem) Q"
  shows "\<exists>res. queryFeasibility_with srt m dem mode t = Inr res \<and> fz_fitTime res = t \<and> fz_mode res = mode \<and>
     fz_outcome res =
       (if \<forall>r \<in> set (currentResources m). \<not> resource_current m r then RevalidationRequired
        else if \<forall>d. Q d \<le> (\<Sum>r \<leftarrow> filter (resource_current m) (currentResources m). F r d) +
            credited_at R (m_releases m) mode t d - held_at H (m_reservations m) mode t d
        then FitFuture else NoFitCapacity)"
proof -
  from assms(1,2) have s: "event_sort srt" by unfold_locales
  have "exact_calendar F H R m mode" using assms(4,6,7) by (simp add: exact_calendar_def)
  then show ?thesis
    using queryFeasibility_later [OF s assms(3) _ assms(5,8)] unfolding projected_def fleet_free_def by blast
qed

definition ex_release :: ReleaseEvent where
  "ex_release = \<lparr>rel_sourceId = StrongId 9, rel_time = 25, rel_earliest = 25, rel_latest = 25,
     rel_release = whole [(AcceleratorCount, 1)], rel_confidence = frac_default, rel_provenance = Derived\<rparr>"

text \<open>
  A fleet with two accelerators, both held from 10 to 20 and again from 30 to 40, and one more released at 25: a demand for
  three fits at 25, when the first hold is over, and not at 30.
\<close>

definition ex_busy :: CapacityModel where
  "ex_busy = ex_fleet\<lparr>
     m_reservations := [Reservation_default\<lparr>rsv_id := StrongId 1, rsv_interval := Interval 10 20, rsv_hold := whole [(AcceleratorCount, 2)]\<rparr>,
                        Reservation_default\<lparr>rsv_id := StrongId 2, rsv_interval := Interval 30 40, rsv_hold := whole [(AcceleratorCount, 2)]\<rparr>],
     m_releases := [ex_release]\<rparr>"

definition ex_triple :: WorkloadDemand where
  "ex_triple = WorkloadDemand_default\<lparr>dm_requirements := whole [(AcceleratorCount, 3)]\<rparr>"

theorem queryFeasibility_future_iff_witness:
  "\<exists>res res'. queryFeasibility ex_busy ex_triple Expected 25 = Inr res \<and> fz_outcome res = FitFuture \<and>
     queryFeasibility ex_busy ex_triple Expected 30 = Inr res' \<and> fz_outcome res' = NoFitCapacity"
proof -
  let ?H = "\<lambda>_ d. if d = AcceleratorCount then 2 else 0 :: nat" and ?R = "\<lambda>_ d. if d = AcceleratorCount then 1 else 0 :: nat"
    and ?Q = "\<lambda>d. if d = AcceleratorCount then 3 else 0 :: nat"
  have r: "cap_rep (whole [(AcceleratorCount, n)]) (\<lambda>d. if d = AcceleratorCount then n else 0)" if "n < 2 ^ 53" for n
    using whole_rep [of "[(AcceleratorCount, n)]"] that by (simp add: fun_upd_def)
  have cur: "currentResources ex_busy = [ex_free_resource]" "resource_current ex_busy ex_free_resource"
    using ex_fleet_resources ex_fleet_current
    by (simp_all add: ex_busy_def currentResources_def resource_current_def isFreshBoot_def)
  have free: "fleet_free ex_F ex_busy d = (if d = AcceleratorCount then 2 else 0)" for d
    by (simp add: fleet_free_def cur ex_F_def)
  have w: "whole_fleet (\<lambda>_ _. 0) ex_F (\<lambda>_ _. 0) (\<lambda>_ _. 0) ex_busy"
    using ex_whole_fleet by (simp add: whole_fleet_def cur)
  have ev: "whole_evidence ?H ?R (m_reservations ex_busy) (m_releases ex_busy)"
    using r [of 1] r [of 2] by (simp add: whole_evidence_def ex_busy_def ex_release_def)
  have n: "never_overbooked ?H ?R (fleet_free ex_F ex_busy) (m_reservations ex_busy) (m_releases ex_busy) Expected"
    by (simp add: never_overbooked_def claimed_at_def credited_before_def free) (simp add: ex_busy_def ex_release_def)
  have tot: "fleet_free ex_F ex_busy d + (\<Sum>r \<leftarrow> filter (counts_in Expected) (m_reservations ex_busy). ?H r d) +
      (\<Sum>e \<leftarrow> m_releases ex_busy. ?R e d) < 2 ^ 53" for d
    by (simp add: free) (simp add: ex_busy_def ex_release_def)
  have q: "cap_rep (dm_requirements ex_triple) ?Q" using r [of 3] by (simp add: ex_triple_def)
  have c: "filter (counts_in Expected) (m_reservations ex_busy) = m_reservations ex_busy"
    by (simp add: ex_busy_def counts_in_def delta_empty_def om_size_def whole_def cap_set_whole)
  note at = queryFeasibility_future_iff [OF stable.srt_mset stable.srt_sorted w ev _ n tot q, folded queryFeasibility_def]
  from at [of 25] at [of 30] show ?thesis
    by (auto simp: cur ex_F_def held_at_def credited_at_def filter_filter [symmetric] c simp del: filter_filter)
      (auto simp: ex_busy_def iv_containsPoint_def releaseTime_def ex_release_def)
qed

text \<open>
  Setting the health of a device has no effect on any query: every view is the same before and after.
\<close>

theorem setHealth_invisible: "buildView (snd (setHealth m i h gen)) now = buildView m now"
proof -
  let ?m = "snd (setHealth m i h gen)"
  have f: "m_resources ?m = m_resources m" "m_reservations ?m = m_reservations m" "m_releases ?m = m_releases m"
      "m_maintenance ?m = m_maintenance m"
    by (simp_all add: setHealth_def Let_def)
  have "view_step ?m r acc = view_step m r acc" for r acc
    using view_step_health
    by (auto simp: setHealth_def Let_def view_step_def view_device_def resource_current_def isFreshBoot_def
        split: option.splits)
  then have "view_step ?m = view_step m" by (simp add: fun_eq_iff)
  then show ?thesis by (simp add: buildView_def f currentResources_def)
qed

end
