(* ===== verification/Model_Search.thy ===== *)
theory Model_Search
  imports Model_View Earliest_Fit
begin

text \<open>
  The earliest-fit query of the capacity model in terms of the published evidence: the window of a start
  is read instant by instant, and the amount at an instant is the projection of the fleet.
\<close>

section \<open>The states of a window are its instants\<close>

lemma visited_boundary:
  assumes "sorted_wrt (<) (map ev_time w)" and "x \<in> visited c w"
  shows "x = c \<or> (\<exists>e \<in> set w. x = cap_after c (filter (\<lambda>f. ev_time f \<le> ev_time e) w))"
  using assms
proof (induction w arbitrary: c)
  case (Cons e w)
  have later: "\<forall>f \<in> set w. ev_time e < ev_time f" and w: "sorted_wrt (<) (map ev_time w)"
    using Cons.prems(1) by auto
  let ?c = "applyDelta c (ev_delta e)"
  consider "x = c" | "x = ?c" | f where "f \<in> set w" "x = cap_after ?c (filter (\<lambda>g. ev_time g \<le> ev_time f) w)"
    using Cons.prems(2) Cons.IH [OF w, of ?c] by auto
  then show ?case
  proof cases
    case 2
    have "filter (\<lambda>g. ev_time g \<le> ev_time e) w = []" using later by (auto simp: filter_empty_conv not_le)
    then show ?thesis using 2 by simp
  next
    case (3 f)
    have "ev_time e \<le> ev_time f" using later 3(1) by (simp add: less_imp_le)
    then have "x = cap_after c (filter (\<lambda>g. ev_time g \<le> ev_time f) (e # w))" using 3(2) by simp
    moreover have "f \<in> set (e # w)" using 3(1) by simp
    ultimately show ?thesis by blast
  qed simp
qed simp

text \<open>
  When no two boundaries coincide, a capacity visited in the window of a start is the capacity at one of
  its instants; events at one instant are applied one by one, and the search sees the states between them.
\<close>

lemma visited_instants:
  assumes "frozen tml" and "distinct (map ev_time (tl_events tml))"
    and "x \<in> visited (cap_of tml s) (window (tl_events tml) s stop)"
  obtains u where "u = s \<or> s < u \<and> u < stop" "x = cap_of tml u"
proof -
  let ?es = "tl_events tml" and ?w = "window (tl_events tml) s stop"
  have sorted: "sorted (map ev_time ?es)" using assms(1) by (simp add: frozen_def)
  then have "sorted (map ev_time ?w)" "distinct (map ev_time ?w)"
    using assms(2) by (simp_all add: window_def sorted_filter distinct_map_filter)
  then have "sorted_wrt (<) (map ev_time ?w)" by (simp add: strict_sorted_iff)
  from visited_boundary [OF this assms(3)] show ?thesis
  proof
    assume "x = cap_of tml s"
    then show ?thesis using that by blast
  next
    assume "\<exists>e \<in> set ?w. x = cap_after (cap_of tml s) (filter (\<lambda>f. ev_time f \<le> ev_time e) ?w)"
    then obtain e where e: "e \<in> set ?w" "x = cap_after (cap_of tml s) (filter (\<lambda>f. ev_time f \<le> ev_time e) ?w)" by blast
    have t: "s < ev_time e" "ev_time e < stop" using e(1) by (simp_all add: window_def)
    have "filter (\<lambda>f. ev_time f \<le> ev_time e) ?w = filter (\<lambda>f. s < ev_time f \<and> ev_time f \<le> ev_time e) ?es"
      using t(2) by (auto simp: window_def intro!: filter_cong)
    then have "x = cap_of tml (ev_time e)"
      using e(2) filter_upto_split [OF sorted less_imp_le [OF t(1)]] by (simp add: cap_of_def curve_def)
    then show ?thesis using that t by blast
  qed
qed

lemma fits_instants:
  assumes "frozen tml" and "fits tml req duration s" and "u = s \<or> s < u \<and> u < s + duration"
  shows "cap_satisfies (cap_of tml u) req"
proof (cases "u = s")
  case True
  then show ?thesis using assms(2) by (auto simp: fits_def visited_def)
next
  case False
  have "sorted (map ev_time (tl_events tml))" using assms(1) by (simp add: frozen_def)
  then have "cap_of tml u \<in> visited (cap_of tml s) (window (tl_events tml) s (s + duration))"
    using assms(3) False unfolding cap_of_def by (intro curve_visited) auto
  then show ?thesis using assms(2) by (simp add: fits_def)
qed

lemma fits_iff_instants:
  assumes "frozen tml" and "distinct (map ev_time (tl_events tml))"
  shows "fits tml req duration s \<longleftrightarrow>
     (\<forall>u. u = s \<or> s < u \<and> u < s + duration \<longrightarrow> cap_satisfies (cap_of tml u) req)"
proof
  assume a: "\<forall>u. u = s \<or> s < u \<and> u < s + duration \<longrightarrow> cap_satisfies (cap_of tml u) req"
  show "fits tml req duration s"
    unfolding fits_def
  proof
    fix x
    assume "x \<in> visited (cap_of tml s) (window (tl_events tml) s (s + duration))"
    then obtain u where "u = s \<or> s < u \<and> u < s + duration" "x = cap_of tml u"
      by (rule visited_instants [OF assms])
    then show "cap_satisfies x req" using a by blast
  qed
qed (use fits_instants [OF assms(1)] in blast)

section \<open>The projections of a fleet\<close>

lemma projection_curve:
  assumes "event_sort srt" and "whole_fleet N F C U m" and "exact_calendar F H R m mode"
  obtains v where "buildView m now = Inr v" "frozen (view_timeline_with srt v mode)"
    "capacity_ok (tl_base (view_timeline_with srt v mode))"
    "distinct (map ev_time (tl_events (view_timeline_with srt v mode))) \<longleftrightarrow>
       distinct (map ev_time (mode_events (m_reservations m) (m_releases m) mode))"
    "\<forall>t. i64_min \<le> t \<longrightarrow> cap_rep (cap_of (view_timeline_with srt v mode) t) (projected F H R m mode t)"
proof -
  obtain v where v: "buildView m now = Inr v" "cap_rep (fv_available v) (fleet_free F m)"
    using buildView_rep [OF assms(2), of now] by blast
  let ?tml = "view_timeline_with srt v mode"
  have ev: "tl_events ?tml = srt (mode_events (m_reservations m) (m_releases m) mode)" "frozen ?tml"
      "tl_base ?tml = fv_available v"
    using buildView_effect [OF v(1)]
    by (simp_all add: view_timeline_with_def buildTimeline_events tl_create_def event_sort.frozen_freeze_with [OF assms(1)]
        event_sort.freeze_with_simps [OF assms(1)])
  have "cap_rep (cap_of ?tml t) (projected F H R m mode t)" if t: "i64_min \<le> t" for t
    using project_rep [OF assms(1) v assms(3) t] capacityAt_frozen [OF ev(2) t] by (simp add: cap_of_def)
  moreover have "distinct (map ev_time (tl_events ?tml)) \<longleftrightarrow> distinct (map ev_time (mode_events (m_reservations m) (m_releases m) mode))"
    by (intro mset_eq_imp_distinct_iff) (simp add: ev(1) event_sort.srt_mset [OF assms(1)])
  ultimately show ?thesis using that [of v] v ev cap_rep_ok by metis
qed

text \<open>A requirement held by the projection at a start and throughout its window.\<close>

definition covers :: "(TimePoint \<Rightarrow> Dimension \<Rightarrow> nat) \<Rightarrow> (Dimension \<Rightarrow> nat) \<Rightarrow> TimePoint \<Rightarrow> TimePoint \<Rightarrow> bool" where
  "covers P Q s stop \<longleftrightarrow> (\<forall>u d. u = s \<or> s < u \<and> u < stop \<longrightarrow> Q d \<le> P u d)"

lemma fits_covers:
  assumes "frozen tml" and "cap_rep req Q" and "i64_min \<le> s" and "\<And>t. i64_min \<le> t \<Longrightarrow> cap_rep (cap_of tml t) (P t)"
  shows "fits tml req duration s \<Longrightarrow> covers P Q s (s + duration)"
    and "distinct (map ev_time (tl_events tml)) \<Longrightarrow> covers P Q s (s + duration) \<Longrightarrow> fits tml req duration s"
proof -
  have sat: "cap_satisfies (cap_of tml u) req \<longleftrightarrow> (\<forall>d. Q d \<le> P u d)" if "u = s \<or> s < u" for u
    using that assms(3) by (intro cap_rep_satisfies [OF assms(4) assms(2)]) auto
  show "covers P Q s (s + duration)" if "fits tml req duration s"
    using fits_instants [OF assms(1) that] sat unfolding covers_def by blast
  show "fits tml req duration s" if "distinct (map ev_time (tl_events tml))" "covers P Q s (s + duration)"
    using that(2) sat unfolding fits_iff_instants [OF assms(1) that(1)] covers_def by blast
qed

lemma dims_present_rep:
  assumes "cap_rep c f" and "cap_rep req Q" and "req_ok req" and "\<And>d. 0 < Q d \<Longrightarrow> 0 < f d"
  shows "dims_present c req"
  unfolding dims_present_def
proof (intro allI impI)
  fix d
  assume "cap_has req d"
  then have "0 < d_key (cap_amount req d)" using assms(3) by (simp add: req_ok_def)
  then have "0 < Q d" using cap_repD(1) [OF assms(2), of d] by (cases "Q d") auto
  then have "0 < d_key (cap_amount c d)" using assms(4) by (simp add: cap_repD(1) [OF assms(1)] d_of_nat_pos)
  then show "cap_has c d" using cap_not_has [of c d] by force
qed

text \<open>The search of the model: its starts cover, and without coinciding instants the first covering start is found.\<close>

definition covering_start :: "(TimePoint \<Rightarrow> Dimension \<Rightarrow> nat) \<Rightarrow> (Dimension \<Rightarrow> nat) \<Rightarrow> TimePoint \<Rightarrow> DurationNs \<Rightarrow> TimePoint \<Rightarrow> TimePoint \<Rightarrow> bool" where
  "covering_start P Q es duration horizon s \<longleftrightarrow> allowed_start es duration horizon s \<and> covers P Q s (s + duration)"

lemma queryEarliestFit_covers:
  assumes "event_sort srt" and "whole_fleet N F C U m" and "exact_calendar F H R m mode"
    and "cap_rep (dm_requirements dem) Q" and "req_ok (dm_requirements dem)" and "search_domain es duration horizon"
  shows "\<exists>r. queryEarliestFit_with srt m dem mode es duration horizon = Inr r \<and>
     (ef_found r \<longrightarrow> allowed_start es duration horizon (ef_start r) \<and> ef_end r = ef_start r + duration \<and>
        ((\<forall>d. 0 < Q d \<longrightarrow> 0 < projected F H R m mode (ef_start r) d) \<longrightarrow>
           covers (projected F H R m mode) Q (ef_start r) (ef_end r))) \<and>
     (distinct (map ev_time (mode_events (m_reservations m) (m_releases m) mode)) \<longrightarrow>
        (\<forall>s. covering_start (projected F H R m mode) Q es duration horizon s \<longrightarrow> ef_found r \<and> ef_start r \<le> s))"
proof -
  obtain v where v: "buildView m 0 = Inr v" "frozen (view_timeline_with srt v mode)"
    "capacity_ok (tl_base (view_timeline_with srt v mode))"
    "distinct (map ev_time (tl_events (view_timeline_with srt v mode))) \<longleftrightarrow> distinct (map ev_time (mode_events (m_reservations m) (m_releases m) mode))"
    and rep: "\<forall>t. i64_min \<le> t \<longrightarrow> cap_rep (cap_of (view_timeline_with srt v mode) t) (projected F H R m mode t)"
    by (rule projection_curve [OF assms(1-3), of 0])
  let ?tml = "view_timeline_with srt v mode" and ?req = "dm_requirements dem"
  have low: "i64_min \<le> s" if "allowed_start es duration horizon s" for s
    using that assms(6) by (auto simp: allowed_start_def search_domain_def)
  from earliestFit_least [OF v(2,3) assms(5,6)] obtain r where
    r: "earliestFit ?tml dem es duration horizon = Inr r"
    and found: "ef_found r \<longrightarrow> allowed_start es duration horizon (ef_start r) \<and> sat_at ?tml ?req duration (ef_start r) \<and>
        ef_end r = ef_start r + duration"
    and least: "\<forall>s. allowed_start es duration horizon s \<longrightarrow> fits ?tml ?req duration s \<longrightarrow> ef_found r \<and> ef_start r \<le> s"
    by blast
  note cov = fits_covers [OF v(2) assms(4) low rep [rule_format]]
  have "covers (projected F H R m mode) Q (ef_start r) (ef_end r)"
    if "ef_found r" "\<forall>d. 0 < Q d \<longrightarrow> 0 < projected F H R m mode (ef_start r) d"
  proof -
    have a: "allowed_start es duration horizon (ef_start r)" using found that(1) by blast
    have "dims_present (cap_of ?tml (ef_start r)) ?req"
      using rep low [OF a] that(2) by (intro dims_present_rep [OF _ assms(4,5)]) blast+
    then have "fits ?tml ?req duration (ef_start r)"
      using fits_sat(2) [OF v(3) assms(5)] found that(1) by blast
    then show ?thesis using cov(1) [OF a] found that(1) by auto
  qed
  moreover have "queryEarliestFit_with srt m dem mode es duration horizon = Inr r"
    using v(1) r by (simp add: queryEarliestFit_with_def)
  ultimately show ?thesis using found least cov(2) v(4) unfolding covering_start_def by (intro exI [of _ r]) blast
qed

text \<open>Where no demanded dimension is ever used up, a reported start covers.\<close>

lemma queryEarliestFit_covering:
  assumes "whole_fleet N F C U m" and "exact_calendar F H R m mode"
    and "cap_rep (dm_requirements dem) Q" and "req_ok (dm_requirements dem)" and "search_domain es duration horizon"
    and "\<And>s d. allowed_start es duration horizon s \<Longrightarrow> 0 < Q d \<Longrightarrow> 0 < projected F H R m mode s d"
  shows "\<exists>r. queryEarliestFit m dem mode es duration horizon = Inr r \<and>
     (ef_found r \<longrightarrow> covering_start (projected F H R m mode) Q es duration horizon (ef_start r) \<and> ef_end r = ef_start r + duration) \<and>
     (distinct (map ev_time (mode_events (m_reservations m) (m_releases m) mode)) \<longrightarrow>
        (\<forall>s. covering_start (projected F H R m mode) Q es duration horizon s \<longrightarrow> ef_found r \<and> ef_start r \<le> s))"
  using queryEarliestFit_covers [OF stable.event_sort_axioms assms(1-5), folded queryEarliestFit_def] assms(6)
  unfolding covering_start_def by metis

section \<open>A small instance\<close>

text \<open>Two accelerators, one of them held from 10 to 20, and a demand for both.\<close>

definition ex_hold :: Reservation where
  "ex_hold = Reservation_default\<lparr>rsv_interval := Interval 10 20, rsv_hold := whole [(AcceleratorCount, 1)]\<rparr>"

definition ex_held_fleet :: CapacityModel where
  "ex_held_fleet = ex_fleet\<lparr>m_reservations := [ex_hold]\<rparr>"

definition ex_pair_demand :: WorkloadDemand where
  "ex_pair_demand = WorkloadDemand_default\<lparr>dm_requirements := whole [(AcceleratorCount, 2)]\<rparr>"

definition ex_H :: "Reservation \<Rightarrow> Dimension \<Rightarrow> nat" where
  "ex_H r d = (if d = AcceleratorCount then 1 else 0)"

lemma ex_held_fleet_simps [simp]:
  "currentResources ex_held_fleet = [ex_free_resource]" "m_reservations ex_held_fleet = [ex_hold]"
  "m_releases ex_held_fleet = []" "resource_current ex_held_fleet ex_free_resource"
  using ex_fleet_resources ex_fleet_current
  by (simp_all add: ex_held_fleet_def currentResources_def resource_current_def isFreshBoot_def)
    (simp add: ex_fleet_def ex_model_def registerWorker_def CapacityModel_new_def setEpoch_def)

lemma ex_held_fleet_whole: "whole_fleet (\<lambda>_ _. 0) ex_F (\<lambda>_ _. 0) (\<lambda>_ _. 0) ex_held_fleet"
  using ex_whole_fleet by (simp add: whole_fleet_def)

lemma ex_hold_evidence: "whole_evidence ex_H (\<lambda>_ _. 0) [ex_hold] []" "counts_in Expected ex_hold"
  using whole_rep [of "[(AcceleratorCount, 1)]"]
  by (simp_all add: whole_evidence_def ex_hold_def ex_H_def [abs_def] fun_upd_def One_nat_def [symmetric] counts_in_def delta_empty_def
      om_size_def whole_single del: One_nat_def)

lemma ex_held_projection:
  "projected ex_F ex_H (\<lambda>_ _. 0) ex_held_fleet Expected t d =
     (if d = AcceleratorCount then if 10 \<le> t \<and> t < 20 then 1 else 2 else 0)"
  using ex_hold_evidence(2)
  by (simp add: projected_def fleet_free_def held_at_def credited_at_def ex_F_def ex_H_def ex_hold_def iv_containsPoint_def)

lemma ex_held_calendar:
  "whole_evidence ex_H (\<lambda>_ _. 0) (m_reservations ex_held_fleet) (m_releases ex_held_fleet)"
  "never_overbooked ex_H (\<lambda>_ _. 0) (fleet_free ex_F ex_held_fleet) (m_reservations ex_held_fleet) (m_releases ex_held_fleet) Expected"
  using ex_hold_evidence by (simp_all add: never_overbooked_def claimed_at_def fleet_free_def ex_F_def ex_H_def)

section \<open>Properties\<close>

text \<open>
  C8. Earliest fit of the fleet, from the published evidence, for every sorting function. With whole-number evidence, totals
  below \<open>2 ^ 53\<close> and a calendar that is never overbooked, \<open>queryEarliestFit\<close> returns a result; a start it reports is allowed
  and its end is start plus duration; if every demanded dimension has something left at the reported start, the projection of
  the fleet covers the requirement at every instant of the window (a dimension with nothing left is not in the map, and the search
  then overlooks it: \<open>earliestFit_absent_dimension\<close>). If no two boundaries of the evidence coincide, every allowed start at which the
  projection covers the requirement is at or after a start that is reported.
\<close>

theorem queryEarliestFit_exact:
  assumes "\<And>es. mset (srt es) = mset es" and "\<And>es. sorted (map ev_time (srt es))"
    and "whole_fleet N F C U m" and "whole_evidence H R (m_reservations m) (m_releases m)"
    and "never_overbooked H R (fleet_free F m) (m_reservations m) (m_releases m) mode"
    and "\<And>d. fleet_free F m d + (\<Sum>r \<leftarrow> filter (counts_in mode) (m_reservations m). H r d) +
          (\<Sum>e \<leftarrow> m_releases m. R e d) < 2 ^ 53"
    and "cap_rep (dm_requirements dem) Q" and "req_ok (dm_requirements dem)" and "search_domain es duration horizon"
  shows "\<exists>r. queryEarliestFit_with srt m dem mode es duration horizon = Inr r \<and>
     (ef_found r \<longrightarrow> allowed_start es duration horizon (ef_start r) \<and> ef_end r = ef_start r + duration \<and>
        ((\<forall>d. 0 < Q d \<longrightarrow> 0 < projected F H R m mode (ef_start r) d) \<longrightarrow>
           covers (projected F H R m mode) Q (ef_start r) (ef_end r))) \<and>
     (distinct (map ev_time (mode_events (m_reservations m) (m_releases m) mode)) \<longrightarrow>
        (\<forall>s. allowed_start es duration horizon s \<longrightarrow> covers (projected F H R m mode) Q s (s + duration) \<longrightarrow>
           ef_found r \<and> ef_start r \<le> s))"
proof -
  from assms(1,2) have s: "event_sort srt" by unfold_locales
  have "exact_calendar F H R m mode" using assms(4-6) by (simp add: exact_calendar_def)
  from queryEarliestFit_covers [OF s assms(3) this assms(7-9)] show ?thesis unfolding covering_start_def by blast
qed

theorem queryEarliestFit_exact_witness:
  "\<exists>r. queryEarliestFit ex_held_fleet ex_pair_demand Expected 12 5 100 = Inr r \<and>
     ef_found r \<and> ef_start r = 20 \<and> ef_end r = 25"
proof -
  let ?P = "projected ex_F ex_H (\<lambda>_ _. 0) ex_held_fleet Expected"
  let ?Q = "\<lambda>d. if d = AcceleratorCount then 2 else 0 :: nat"
  have q: "cap_rep (dm_requirements ex_pair_demand) ?Q" "req_ok (dm_requirements ex_pair_demand)"
    using ex_free_rep by (simp_all add: ex_pair_demand_def fun_upd_def req_ok_single)
  have dom: "search_domain 12 5 100" by (simp add: search_domain_def in_i64_def i64_min_def i64_max_def)
  have total: "fleet_free ex_F ex_held_fleet d + (\<Sum>r \<leftarrow> filter (counts_in Expected) (m_reservations ex_held_fleet). ex_H r d) +
          (\<Sum>e \<leftarrow> m_releases ex_held_fleet. 0) < 2 ^ 53" for d
    by (simp add: ex_H_def fleet_free_def ex_F_def)
  have times: "distinct (map ev_time (mode_events (m_reservations ex_held_fleet) (m_releases ex_held_fleet) Expected))"
    using ex_hold_evidence(2) by (simp add: mode_events_def reservation_events_def ex_hold_def)
  obtain r where r: "queryEarliestFit ex_held_fleet ex_pair_demand Expected 12 5 100 = Inr r"
    and found: "ef_found r \<longrightarrow> allowed_start 12 5 100 (ef_start r) \<and> ef_end r = ef_start r + 5 \<and>
        ((\<forall>d. 0 < ?Q d \<longrightarrow> 0 < ?P (ef_start r) d) \<longrightarrow> covers ?P ?Q (ef_start r) (ef_end r))"
    and least: "\<forall>s. allowed_start 12 5 100 s \<longrightarrow> covers ?P ?Q s (s + 5) \<longrightarrow> ef_found r \<and> ef_start r \<le> s"
    using queryEarliestFit_exact [OF stable.srt_mset stable.srt_sorted ex_held_fleet_whole ex_held_calendar total q dom,
        folded queryEarliestFit_def] times by blast
  have "ef_found r \<and> ef_start r \<le> 20"
    by (rule least [rule_format]) (simp_all add: allowed_start_def covers_def ex_held_projection)
  moreover have "\<not> ef_start r < 20" if "ef_found r"
  proof -
    have "12 \<le> ef_start r" "covers ?P ?Q (ef_start r) (ef_end r)"
      using that found by (auto simp: allowed_start_def ex_held_projection split: if_splits)
    then have "?Q AcceleratorCount \<le> ?P (ef_start r) AcceleratorCount" unfolding covers_def by blast
    then show ?thesis using \<open>12 \<le> ef_start r\<close> by (simp add: ex_held_projection split: if_splits)
  qed
  ultimately show ?thesis using r found by auto
qed

text \<open>
  A fit without any resource. One published release, and nothing else in the model, is enough for \<open>queryEarliestFit\<close> to report
  a start, although every feasibility query about the same demand asks for evidence.
\<close>

definition ex_release_only :: CapacityModel where
  "ex_release_only = snd (publishRelease CapacityModel_new ex_release)"

definition ex_one_demand :: WorkloadDemand where
  "ex_one_demand = WorkloadDemand_default\<lparr>dm_id := StrongId 1, dm_generation := Generation 1,
     dm_requirements := whole [(AcceleratorCount, 1)]\<rparr>"

theorem release_alone_fits:
  "currentResources ex_release_only = [] \<and> demand_valid ex_one_demand \<and>
   (\<exists>r. queryEarliestFit ex_release_only ex_one_demand Expected 0 5 100 = Inr r \<and> ef_found r \<and> ef_start r \<le> 25) \<and>
   (\<exists>res. queryFeasibility ex_release_only ex_one_demand Expected 25 = Inr res \<and> fz_outcome res = RevalidationRequired)"
proof -
  let ?m = ex_release_only and ?Q = "\<lambda>d. if d = AcceleratorCount then 1 else 0 :: nat"
  let ?P = "projected (\<lambda>_ _. 0) (\<lambda>_ _. 0) (\<lambda>_. ?Q) ?m Expected"
  have e: "currentResources ?m = []" "m_reservations ?m = []" "m_releases ?m = [ex_release]"
    by (simp_all add: ex_release_only_def publishRelease_def CapacityModel_new_def setEpoch_def currentResources_def upsert_def)
  have r: "cap_rep (whole [(AcceleratorCount, 1)]) ?Q"
    using whole_rep [of "[(AcceleratorCount, 1)]"] by (simp add: fun_upd_def cong: if_cong)
  have w: "whole_fleet (\<lambda>_ _. 0) (\<lambda>_ _. 0) (\<lambda>_ _. 0) (\<lambda>_ _. 0) ?m" by (simp add: whole_fleet_def e)
  have c: "exact_calendar (\<lambda>_ _. 0) (\<lambda>_ _. 0) (\<lambda>_. ?Q) ?m Expected"
    using r by (simp add: exact_calendar_def whole_evidence_def never_overbooked_def claimed_at_def fleet_free_def e ex_release_def)
  have q: "cap_rep (dm_requirements ex_one_demand) ?Q" "req_ok (dm_requirements ex_one_demand)"
    using r by (simp_all add: ex_one_demand_def req_ok_single)
  have dom: "search_domain 0 5 100" by (simp add: search_domain_def in_i64_def i64_min_def i64_max_def)
  have p: "?P u = ?Q" if "25 \<le> u" for u
    using that by (intro ext) (simp add: projected_def fleet_free_def e credited_at_def held_at_def releaseTime_def ex_release_def)
  have "covering_start ?P ?Q 0 5 100 25"
    by (simp add: covering_start_def allowed_start_def covers_def p)
  moreover have "distinct (map ev_time (mode_events (m_reservations ?m) (m_releases ?m) Expected))"
    by (simp add: e mode_events_def)
  ultimately have "\<exists>r. queryEarliestFit ?m ex_one_demand Expected 0 5 100 = Inr r \<and> ef_found r \<and> ef_start r \<le> 25"
    using queryEarliestFit_covers [OF stable.event_sort_axioms w c q dom, folded queryEarliestFit_def] by blast
  moreover have "\<exists>res. queryFeasibility ?m ex_one_demand Expected 25 = Inr res \<and> fz_outcome res = RevalidationRequired"
    using queryFeasibility_later [OF stable.event_sort_axioms w c _ q(1), of 25, folded queryFeasibility_def] e(1) by fastforce
  moreover have "demand_valid ex_one_demand"
    by (simp add: demand_valid_def ex_one_demand_def WorkloadDemand_default_def sid_valid_def gen_valid_def kInvalidId_def)
  ultimately show ?thesis using e(1) by blast
qed

end
