(* ===== verification/Model_Headroom.thy ===== *)
theory Model_Headroom
  imports Model_View
begin

text \<open>
  What \<open>queryHeadroom\<close> answers, in terms of the published evidence (\<open>model/model.cpp\<close>, \<open>headroom/headroom.hpp\<close>).
\<close>

section \<open>The dimensions of a view\<close>

lemma cap_sum_has: "cap_sum g xs c = Inr r \<Longrightarrow> cap_has r d \<longleftrightarrow> cap_has c d \<or> (\<exists>x \<in> set xs. cap_has (g x) d)"
proof (induction xs arbitrary: c)
  case (Cons a xs)
  then obtain y where y: "cap_add c (g a) = Inr y" "cap_sum g xs y = Inr r" by auto
  show ?case using Cons.IH [OF y(2)] cap_add_effect(1) [OF y(1)] by auto
qed simp

text \<open>A view mentions no dimension that no resource mentions.\<close>

lemma view_dimensions:
  assumes "buildView m now = Inr v"
    and "\<forall>r \<in> set (currentResources m). \<forall>e. cap_has (res_nominal r) e \<or> cap_has (res_free r) e \<or> cap_has (res_committed r) e \<or>
       cap_has (res_unavailable r) e \<longrightarrow> e \<in> D"
  shows "cap_has (fv_available v) e \<or> cap_has (fv_currentUse v) e \<or> cap_has (fv_committed v) e \<Longrightarrow> e \<in> D"
proof -
  obtain w idx cur stale where l: "view_loop m now (currentResources m) = Inr (w, idx, cur, stale)"
    and v: "v = (let v1 = w\<lparr>fv_devices := map snd (om_entries idx), fv_reservations := m_reservations m,
                     fv_releases := m_releases m, fv_maintenance := m_maintenance m, fv_staleDynamic := stale,
                     fv_freshness := view_freshness (om_size (m_resources m) = 0) cur stale,
                     fv_provenance := Derived\<rparr> in v1\<lparr>fv_currentUse := current_use v1\<rparr>)"
    using assms(1) by (auto simp: buildView_def view_loop_def Let_def)
  have s: "cap_sum res_nominal (currentResources m) om_empty = Inr (fv_nominal w)"
      "cap_sum res_committed (currentResources m) om_empty = Inr (fv_committed w)"
      "cap_sum res_unavailable (currentResources m) om_empty = Inr (fv_unavailable w)"
      "cap_sum res_free (filter (resource_current m) (currentResources m)) om_empty = Inr (fv_available w)"
    using view_loop_effect [OF l] by simp_all
  assume "cap_has (fv_available v) e \<or> cap_has (fv_currentUse v) e \<or> cap_has (fv_committed v) e"
  then show "e \<in> D"
    using assms(2) by (auto simp: v Let_def current_use_def cap_subtractClamp_has cap_sum_has [OF s(1)] cap_sum_has [OF s(2)]
        cap_sum_has [OF s(3)] cap_sum_has [OF s(4)])
qed

section \<open>The headroom of a fleet\<close>

text \<open>The part of the demand that is kept back: all of it when any headroom is asked for, whatever the fraction.\<close>

definition kept_back :: "WorkloadDemand \<Rightarrow> (Dimension \<Rightarrow> nat) \<Rightarrow> Dimension \<Rightarrow> nat" where
  "kept_back d Q = (if d_lt d_zero (frac_value (dm_sloHeadroomRequirement d)) then Q else (\<lambda>_. 0))"

text \<open>What is in use: the total less what is free, committed or unavailable.\<close>

definition in_use :: "(ResourceInfo \<Rightarrow> Dimension \<Rightarrow> nat) \<Rightarrow> (ResourceInfo \<Rightarrow> Dimension \<Rightarrow> nat) \<Rightarrow> (ResourceInfo \<Rightarrow> Dimension \<Rightarrow> nat) \<Rightarrow>
    (ResourceInfo \<Rightarrow> Dimension \<Rightarrow> nat) \<Rightarrow> CapacityModel \<Rightarrow> Dimension \<Rightarrow> nat" where
  "in_use N F C U m e = fleet_total N m e - fleet_free F m e - fleet_total C m e - fleet_total U m e"

lemma queryHeadroom_rep:
  assumes "whole_fleet N F C U m" and "cap_rep (dm_requirements d) Q"
  shows "\<exists>h. queryHeadroom m d mode = Inr h \<and>
     cap_rep (hr_conservative h) (\<lambda>e. fleet_free F m e - (in_use N F C U m e + fleet_total C m e + kept_back d Q e)) \<and>
     (hr_capacityConstrained h \<longleftrightarrow> (\<exists>e. cap_has (hr_conservative h) e \<and>
        fleet_free F m e \<le> in_use N F C U m e + fleet_total C m e + kept_back d Q e))"
proof -
  obtain v where v: "buildView m 0 = Inr v" "cap_rep (fv_available v) (fleet_free F m)" "cap_rep (fv_committed v) (fleet_total C m)"
      "cap_rep (fv_currentUse v) (in_use N F C U m)"
    using buildView_rep [OF assms(1), of 0] unfolding in_use_def by blast
  let ?margin = "if d_lt d_zero (frac_value (dm_sloHeadroomRequirement d)) then dm_requirements d else om_empty"
  let ?h = "computeHeadroom (fv_available v) (fv_currentUse v) (fv_committed v) ?margin"
  have "cap_rep ?margin (kept_back d Q)" using assms(2) cap_rep_empty by (simp add: kept_back_def)
  note ex = headroom_exact [OF v(2,4,3) this cap_rep_empty]
  have "cap_has (hr_conservative ?h) e \<longleftrightarrow> cap_has (fv_available v) e \<or> cap_has (fv_currentUse v) e \<or> cap_has (fv_committed v) e \<or>
      cap_has ?margin e" for e
    unfolding computeHeadroom_conservative by (auto simp: cap_subtractClamp_has)
  moreover have "queryHeadroom m d mode = Inr ?h" by (simp add: queryHeadroom_def v(1))
  ultimately show ?thesis using ex by (intro exI [of _ ?h]) simp
qed

section \<open>A small instance\<close>

text \<open>The resource of \<open>ex_fleet\<close> with four accelerators, of which two are free.\<close>

definition ex_used_resource :: ResourceInfo where
  "ex_used_resource = ex_free_resource\<lparr>res_nominal := whole [(AcceleratorCount, 4)]\<rparr>"

definition ex_used_fleet :: CapacityModel where
  "ex_used_fleet = ex_model\<lparr>m_resources := om_insert (StrongId 5) ex_used_resource om_empty\<rparr>"

definition ex_N :: "ResourceInfo \<Rightarrow> Dimension \<Rightarrow> nat" where
  "ex_N r d = (if d = AcceleratorCount then 4 else 0)"

lemma ex_used_resources [simp]: "currentResources ex_used_fleet = [ex_used_resource]"
  by (simp add: ex_used_fleet_def currentResources_def)

lemma ex_used_current: "resource_current ex_used_fleet ex_used_resource"
  by (simp add: resource_current_def isCurrentDynamic_def isFreshBoot_def ex_used_fleet_def ex_model_sources
      ex_used_resource_def ex_free_resource_def ex_published_def sid_valid_def kInvalidId_def)

lemma ex_used_whole: "whole_fleet ex_N ex_F (\<lambda>_ _. 0) (\<lambda>_ _. 0) ex_used_fleet"
proof -
  have "cap_rep (whole [(AcceleratorCount, 4)]) ((\<lambda>_. 0)(AcceleratorCount := 4))"
    using whole_rep [of "[(AcceleratorCount, 4)]"] by simp
  then show ?thesis
    using ex_free_rep cap_rep_empty
    by (simp add: whole_fleet_def ex_used_resource_def ex_free_resource_def ex_published_def ResourceInfo_default_def
        ex_F_def [abs_def] ex_N_def [abs_def] fun_upd_def)
qed

section \<open>Property\<close>

text \<open>
  C9. What headroom the model reports. For whole-number evidence \<open>queryHeadroom\<close> answers in every mode alike: in each
  dimension it subtracts from the free capacity of the current resources, stopping at zero, what is in use (the
  total of all resources less what is free, committed or unavailable), what is committed, and, when the demand asks for
  any headroom at all, the demand's requirement. The fleet is reported constrained exactly when nothing is
  left in some dimension that is mentioned. The free capacity already excludes what is in use, which is therefore
  counted twice, and the fraction of headroom asked for only matters by being positive.
\<close>

theorem queryHeadroom_exact:
  assumes "whole_fleet N F C U m" and "cap_rep (dm_requirements d) Q"
  shows "\<exists>h. queryHeadroom m d mode = Inr h \<and>
     cap_rep (hr_conservative h) (\<lambda>e. fleet_free F m e -
        ((fleet_total N m e - fleet_free F m e - fleet_total C m e - fleet_total U m e) + fleet_total C m e +
         (if d_lt d_zero (frac_value (dm_sloHeadroomRequirement d)) then Q e else 0))) \<and>
     (hr_capacityConstrained h \<longleftrightarrow> (\<exists>e. cap_has (hr_conservative h) e \<and> cap_amount (hr_conservative h) e = d_zero))"
proof -
  obtain h where h: "queryHeadroom m d mode = Inr h"
      "cap_rep (hr_conservative h) (\<lambda>e. fleet_free F m e - (in_use N F C U m e + fleet_total C m e + kept_back d Q e))"
      "hr_capacityConstrained h \<longleftrightarrow> (\<exists>e. cap_has (hr_conservative h) e \<and>
         fleet_free F m e \<le> in_use N F C U m e + fleet_total C m e + kept_back d Q e)"
    using queryHeadroom_rep [OF assms] by blast
  have z: "cap_amount (hr_conservative h) e = d_zero \<longleftrightarrow>
      fleet_free F m e \<le> in_use N F C U m e + fleet_total C m e + kept_back d Q e" for e
    using cap_repD [OF h(2), of e]
      d_of_nat_zero_iff [of "fleet_free F m e - (in_use N F C U m e + fleet_total C m e + kept_back d Q e)"]
    by (auto simp: d_eq_def)
  have k: "kept_back d Q e = (if d_lt d_zero (frac_value (dm_sloHeadroomRequirement d)) then Q e else 0)" for e
    by (simp add: kept_back_def)
  show ?thesis
    using h unfolding z [symmetric] by (intro exI [of _ h] conjI) (simp_all only: in_use_def k)
qed

text \<open>Two of four accelerators are free, and no headroom is reported.\<close>

theorem queryHeadroom_exact_witness:
  "\<exists>h. queryHeadroom ex_used_fleet WorkloadDemand_default Conservative = Inr h \<and>
     cap_amount (hr_conservative h) AcceleratorCount = d_of_nat 0"
proof -
  have r: "cap_rep (dm_requirements WorkloadDemand_default) (\<lambda>_. 0)"
    by (simp add: WorkloadDemand_default_def cap_rep_empty)
  show ?thesis
    using queryHeadroom_exact [OF ex_used_whole r, of Conservative] ex_used_current
    by (auto simp: cap_rep_def ex_F_def ex_N_def fleet_total_def fleet_free_def)
qed

end
