(* ===== verification/Protocol.thy ===== *)
theory Protocol
  imports Codec
begin

text \<open>
  Frames (\<open>protocol/protocol.hpp\<close>, \<open>protocol/protocol.cpp\<close>): encoding, decoding, the buffer that
  assembles frames from partial reads, and the receive loop of a connection (\<open>TcpConnection::recvFrame\<close> in
  \<open>protocol/tcp.cpp\<close>) over the results of the socket's \<open>recv\<close>, which are an input of the model.
\<close>

section \<open>Messages\<close>

datatype MessageType = MessageType (msg_code: u8)

abbreviation "MtHello \<equiv> MessageType 1"
abbreviation "MtRegister \<equiv> MessageType 2"
abbreviation "MtPublishResource \<equiv> MessageType 3"
abbreviation "MtPublishCapacity \<equiv> MessageType 4"
abbreviation "MtPublishRelease \<equiv> MessageType 5"
abbreviation "MtPublishReservation \<equiv> MessageType 6"
abbreviation "MtInvalidateResource \<equiv> MessageType 7"
abbreviation "MtAdvanceGeneration \<equiv> MessageType 8"
abbreviation "MtQueryCapacity \<equiv> MessageType 9"
abbreviation "MtQueryFeasibility \<equiv> MessageType 10"
abbreviation "MtQueryEarliestFit \<equiv> MessageType 11"
abbreviation "MtQueryHeadroom \<equiv> MessageType 12"
abbreviation "MtCreateScenario \<equiv> MessageType 13"
abbreviation "MtEvaluateScenario \<equiv> MessageType 14"
abbreviation "MtSave \<equiv> MessageType 15"
abbreviation "MtRevalidate \<equiv> MessageType 16"
abbreviation "MtShutdown \<equiv> MessageType 17"
abbreviation "MtError \<equiv> MessageType 18"

definition MessageType_to_string :: "MessageType \<Rightarrow> string" where
  "MessageType_to_string m =
     (if m = MtHello then ''HELLO''
      else if m = MtRegister then ''REGISTER''
      else if m = MtPublishResource then ''PUBLISH_RESOURCE''
      else if m = MtPublishCapacity then ''PUBLISH_CAPACITY''
      else if m = MtPublishRelease then ''PUBLISH_RELEASE''
      else if m = MtPublishReservation then ''PUBLISH_RESERVATION_VIEW''
      else if m = MtInvalidateResource then ''INVALIDATE_RESOURCE''
      else if m = MtAdvanceGeneration then ''ADVANCE_GENERATION''
      else if m = MtQueryCapacity then ''QUERY_CAPACITY''
      else if m = MtQueryFeasibility then ''QUERY_FEASIBILITY''
      else if m = MtQueryEarliestFit then ''QUERY_EARLIEST_FIT''
      else if m = MtQueryHeadroom then ''QUERY_HEADROOM''
      else if m = MtCreateScenario then ''CREATE_SCENARIO''
      else if m = MtEvaluateScenario then ''EVALUATE_SCENARIO''
      else if m = MtSave then ''SAVE''
      else if m = MtRevalidate then ''REVALIDATE''
      else if m = MtShutdown then ''SHUTDOWN''
      else if m = MtError then ''ERROR''
      else ''UNKNOWN'')"

record FramedMessage =
  fm_type :: MessageType
  fm_seq :: u32
  fm_payload :: bytes

definition FramedMessage_default :: FramedMessage where
  "FramedMessage_default = \<lparr>fm_type = MtHello, fm_seq = 0, fm_payload = []\<rparr>"

section \<open>Frames\<close>

definition kFrameMagic :: u32 where "kFrameMagic = 1129465411"
definition kFrameVersion :: u8 where "kFrameVersion = 1"
definition kMaxFramePayload :: nat where "kMaxFramePayload = 4 * 1024 * 1024"
definition kFrameSeqOffset :: nat where "kFrameSeqOffset = 7"
definition kFrameLenOffset :: nat where "kFrameLenOffset = 11"
definition kHeaderLen :: nat where "kHeaderLen = 15"
definition kChecksumLen :: nat where "kChecksumLen = 8"

datatype FrameError = NoError | BadMagic | UnsupportedVersion | Oversized | Truncated | CheckMismatch

definition frame_readU32 :: "bytes \<Rightarrow> nat \<Rightarrow> u32" where
  "frame_readU32 b off = le_word 4 (drop off b)"

definition frame_readU64 :: "bytes \<Rightarrow> nat \<Rightarrow> u64" where
  "frame_readU64 b off = le_word 8 (drop off b)"

definition encodeFrame :: "FramedMessage \<Rightarrow> bool \<times> bytes \<times> FrameError" where
  "encodeFrame msg =
     (if kMaxFramePayload < length (fm_payload msg) then (False, [], Oversized)
      else
        let out = writeU32 kFrameMagic @ [kFrameVersion] @ [msg_code (fm_type msg)] @ [0] @
                  writeU32 (fm_seq msg) @ writeU32 (word_of_nat (length (fm_payload msg))) @ fm_payload msg;
            sum = fnv1a out
        in (True, out @ writeU64 sum, NoError))"

definition decodeFrame :: "bytes \<Rightarrow> FramedMessage option \<times> FrameError \<times> nat" where
  "decodeFrame b =
     (if length b < kHeaderLen then (None, Truncated, 0)
      else if frame_readU32 b 0 \<noteq> kFrameMagic then (None, BadMagic, 0)
      else if b ! 4 \<noteq> kFrameVersion then (None, UnsupportedVersion, 0)
      else
        let payloadLen = unat (frame_readU32 b kFrameLenOffset)
        in if kMaxFramePayload < payloadLen then (None, Oversized, 0)
        else
          let total_len = kHeaderLen + payloadLen + kChecksumLen
          in if length b < total_len then (None, Truncated, 0)
          else
            let expected = frame_readU64 b (kHeaderLen + payloadLen);
                actual = fnv1a (take (kHeaderLen + payloadLen) b)
            in if actual \<noteq> expected then (None, CheckMismatch, 0)
            else (Some \<lparr>fm_type = MessageType (b ! 5), fm_seq = frame_readU32 b kFrameSeqOffset,
                        fm_payload = take payloadLen (drop kHeaderLen b)\<rparr>, NoError, total_len))"

section \<open>The frame buffer\<close>

definition fb_append :: "bytes \<Rightarrow> bytes \<Rightarrow> bytes" where
  "fb_append buf data = buf @ data"

definition fb_pop :: "bytes \<Rightarrow> FramedMessage option \<times> FrameError \<times> bytes" where
  "fb_pop buf =
     (let (msg, err, consumed) = decodeFrame buf
      in case msg of
           None \<Rightarrow> (None, err,
             if err = BadMagic \<or> err = UnsupportedVersion \<or> err = Oversized \<or> err = CheckMismatch then [] else buf)
         | Some m \<Rightarrow> (Some m, err, drop consumed buf))"

section \<open>The receive loop\<close>

text \<open>
  One result of \<open>recv\<close>: some bytes, an orderly close by the peer, a failure, or nothing yet. The list is
  what the socket will return; when it is used up the loop is still waiting.
\<close>

datatype RecvResult = RecvData bytes | RecvClosed | RecvFailed | RecvWouldBlock

datatype RecvOutcome = Received FramedMessage | CorruptFrame | PeerClosed | RecvError | StillWaiting

fun recvFrame :: "RecvResult list \<Rightarrow> bytes \<Rightarrow> RecvOutcome \<times> bytes \<times> RecvResult list" where
  "recvFrame rs buf =
     (let (m, ferr, buf') = fb_pop buf
      in case m of
           Some msg \<Rightarrow> (Received msg, buf', rs)
         | None \<Rightarrow>
             if ferr \<noteq> Truncated \<and> ferr \<noteq> NoError then (CorruptFrame, buf', rs)
             else (case rs of
                 [] \<Rightarrow> (StillWaiting, buf', [])
               | RecvFailed # rs' \<Rightarrow> (RecvError, buf', rs')
               | RecvWouldBlock # rs' \<Rightarrow> recvFrame rs' buf'
               | RecvClosed # rs' \<Rightarrow> (PeerClosed, buf', rs')
               | RecvData data # rs' \<Rightarrow> recvFrame rs' (fb_append buf' data)))"

declare recvFrame.simps [simp del]

section \<open>The send loop\<close>

text \<open>
  One result of \<open>send\<close>: how many bytes of the chunk offered (at most a mebibyte) the socket took, never more
  than were offered, or an error. The loop returns what went onto the wire with its outcome.
\<close>

datatype SendResult = Sent nat | SendError

datatype SendOutcome = SendDone | SendFailed | SendPending

definition send_chunk :: "bytes \<Rightarrow> nat" where
  "send_chunk data = min (length data) (2 ^ 20)"

fun sendAll :: "SendResult list \<Rightarrow> bytes \<Rightarrow> SendOutcome \<times> bytes" where
  "sendAll rs [] = (SendDone, [])"
| "sendAll [] (b # data) = (SendPending, [])"
| "sendAll (SendError # rs) (b # data) = (SendFailed, [])"
| "sendAll (Sent n # rs) (b # data) =
     (let n' = min n (send_chunk (b # data))
      in if n' = 0 then (SendFailed, [])
         else let (res, wire) = sendAll rs (drop n' (b # data)) in (res, take n' (b # data) @ wire))"

definition sendFrame :: "SendResult list \<Rightarrow> FramedMessage \<Rightarrow> SendOutcome \<times> bytes" where
  "sendFrame rs msg =
     (let (ok, bs, err) = encodeFrame msg in if \<not> ok then (SendFailed, []) else sendAll rs bs)"

section \<open>The layout of a frame\<close>

lemmas frame_consts = kFrameMagic_def kFrameVersion_def kFrameSeqOffset_def kFrameLenOffset_def kHeaderLen_def
  kChecksumLen_def

definition frame_head :: "FramedMessage \<Rightarrow> bytes" where
  "frame_head m = writeU32 kFrameMagic @ [kFrameVersion] @ [msg_code (fm_type m)] @ [0] @
     writeU32 (fm_seq m) @ writeU32 (word_of_nat (length (fm_payload m))) @ fm_payload m"

definition frame_of :: "FramedMessage \<Rightarrow> bytes" where
  "frame_of m = frame_head m @ writeU64 (fnv1a (frame_head m))"

definition payload_fits :: "FramedMessage \<Rightarrow> bool" where
  "payload_fits m \<longleftrightarrow> length (fm_payload m) \<le> kMaxFramePayload"

lemma encodeFrame_of: "payload_fits m \<Longrightarrow> encodeFrame m = (True, frame_of m, NoError)"
  by (simp add: encodeFrame_def frame_of_def frame_head_def payload_fits_def Let_def)

lemma length_frame_head [simp]: "length (frame_head m) = 15 + length (fm_payload m)"
  by (simp add: frame_head_def)

lemma length_frame_of [simp]: "length (frame_of m) = 23 + length (fm_payload m)"
  by (simp add: frame_of_def)

lemma drop_app: "length xs = n \<Longrightarrow> drop n (xs @ ys) = ys" and take_app: "length xs = n \<Longrightarrow> take n (xs @ ys) = xs"
  by simp_all

lemma le_word_write: "le_word 4 (writeU32 w @ rest) = w" "le_word 8 (writeU64 v @ rest) = v"
  by (simp_all add: writeU32_def writeU64_def le_word_bytes)

text \<open>The fields of a frame followed by anything.\<close>

lemma frame_fields:
  shows "frame_readU32 (frame_head m @ rest) 0 = kFrameMagic"
    and "(frame_head m @ rest) ! 4 = kFrameVersion"
    and "(frame_head m @ rest) ! 5 = msg_code (fm_type m)"
    and "(frame_head m @ rest) ! 6 = 0"
    and "frame_readU32 (frame_head m @ rest) kFrameSeqOffset = fm_seq m"
    and "frame_readU32 (frame_head m @ rest) kFrameLenOffset = word_of_nat (length (fm_payload m))"
    and "take (length (fm_payload m)) (drop kHeaderLen (frame_head m @ rest)) = fm_payload m"
proof -
  let ?a = "writeU32 kFrameMagic" and ?s = "writeU32 (fm_seq m)" and ?l = "writeU32 (word_of_nat (length (fm_payload m)))"
  have h: "frame_head m @ rest = ?a @ [kFrameVersion, msg_code (fm_type m), 0] @ ?s @ ?l @ fm_payload m @ rest"
    by (simp add: frame_head_def)
  have d7: "drop 7 (frame_head m @ rest) = ?s @ ?l @ fm_payload m @ rest" by (simp add: h)
  have d11: "drop 11 (frame_head m @ rest) = ?l @ fm_payload m @ rest" by (simp add: h)
  have d15: "drop 15 (frame_head m @ rest) = fm_payload m @ rest" by (simp add: h)
  show "frame_readU32 (frame_head m @ rest) 0 = kFrameMagic"
    by (simp only: frame_readU32_def h le_word_write drop_0)
  show "(frame_head m @ rest) ! 4 = kFrameVersion" "(frame_head m @ rest) ! 5 = msg_code (fm_type m)"
      "(frame_head m @ rest) ! 6 = 0"
    by (simp_all add: h nth_append)
  show "frame_readU32 (frame_head m @ rest) kFrameSeqOffset = fm_seq m"
    by (simp only: frame_readU32_def kFrameSeqOffset_def d7 le_word_write)
  show "frame_readU32 (frame_head m @ rest) kFrameLenOffset = word_of_nat (length (fm_payload m))"
    by (simp only: frame_readU32_def kFrameLenOffset_def d11 le_word_write)
  show "take (length (fm_payload m)) (drop kHeaderLen (frame_head m @ rest)) = fm_payload m"
    by (simp only: kHeaderLen_def d15 take_app)
qed

lemma payload_of_head: "drop 15 (frame_head m) = fm_payload m"
  by (simp add: frame_head_def)

lemma payload_len: "payload_fits m \<Longrightarrow> unat (word_of_nat (length (fm_payload m)) :: u32) = length (fm_payload m)"
  by (rule unat_u32_of_nat) (simp add: payload_fits_def kMaxFramePayload_def)

lemma decode_frame:
  assumes "payload_fits m"
  shows "decodeFrame (frame_of m @ rest) = (Some m, NoError, length (frame_of m))"
proof -
  let ?b = "frame_head m @ writeU64 (fnv1a (frame_head m)) @ rest"
  have "frame_readU64 ?b (kHeaderLen + length (fm_payload m)) = fnv1a (frame_head m)"
    by (simp only: frame_readU64_def kHeaderLen_def drop_app [OF length_frame_head] le_word_write)
  moreover have "take (kHeaderLen + length (fm_payload m)) ?b = frame_head m"
    by (simp only: kHeaderLen_def take_app [OF length_frame_head])
  ultimately show ?thesis
    using assms unfolding decodeFrame_def frame_of_def append_assoc
    by (simp add: frame_fields payload_len payload_of_head kHeaderLen_def kChecksumLen_def payload_fits_def Let_def)
qed

text \<open>A proper prefix of a frame is an incomplete frame.\<close>

lemma decode_prefix:
  assumes "payload_fits m" and "k < length (frame_of m)"
  shows "decodeFrame (take k (frame_of m)) = (None, Truncated, 0)"
proof (cases "k < 15")
  case True
  then show ?thesis using assms(2) by (simp add: decodeFrame_def kHeaderLen_def)
next
  case False
  let ?b = "frame_head m @ writeU64 (fnv1a (frame_head m))"
  have rd: "frame_readU32 (take k ?b) i = frame_readU32 ?b i" if "i + 4 \<le> 15" for i
  proof -
    have "length ?b \<ge> 15" by simp
    then have "4 \<le> length (drop i (take k ?b))" "4 \<le> length (drop i ?b)" using False that by auto
    moreover have "take 4 (drop i (take k ?b)) = take 4 (drop i ?b)"
      using False that by (simp add: drop_take min_def)
    ultimately show ?thesis unfolding frame_readU32_def by (metis le_word_take)
  qed
  have n: "take k ?b ! 4 = kFrameVersion"
  proof -
    have "4 < k" using False by simp
    then show ?thesis by (simp only: nth_take frame_fields(2))
  qed
  define b where "b = take k (frame_of m)"
  have "frame_readU32 b 0 = kFrameMagic" "frame_readU32 b kFrameLenOffset = word_of_nat (length (fm_payload m))"
      "b ! 4 = kFrameVersion"
    unfolding b_def frame_of_def using n by (simp_all only: rd kFrameLenOffset_def frame_fields(1) add_0 add_le_cancel_right)
      (simp_all add: frame_fields(6) [unfolded kFrameLenOffset_def])
  moreover have "length b = k" using assms(2) by (simp add: b_def)
  ultimately have "decodeFrame b = (None, Truncated, 0)"
    using assms False by (simp add: decodeFrame_def payload_len kHeaderLen_def kChecksumLen_def payload_fits_def Let_def)
  then show ?thesis by (simp only: b_def)
qed

lemma le_word_append:
  assumes "n \<le> length xs"
  shows "le_word n (xs @ ys) = (le_word n xs :: 'a::len word)"
proof (rule bit_word_eqI)
  fix k assume "k < LENGTH('a)"
  have "k div 8 < length xs" if "k < 8 * n" using that assms by linarith
  then show "bit (le_word n (xs @ ys) :: 'a word) k \<longleftrightarrow> bit (le_word n xs :: 'a word) k"
    by (auto simp: bit_le_word nth_append)
qed

text \<open>The decoder on anything that has the shape of a frame.\<close>

lemma decode_shape:
  assumes "length h = 15 + n" and "n \<le> kMaxFramePayload" and "length c = 8"
    and "le_word 4 h = kFrameMagic" and "h ! 4 = kFrameVersion" and "le_word 4 (drop 11 h) = (word_of_nat n :: u32)"
  shows "decodeFrame (h @ c @ rest) =
     (if fnv1a h \<noteq> le_word 8 c then (None, CheckMismatch, 0)
      else (Some \<lparr>fm_type = MessageType (h ! 5), fm_seq = le_word 4 (drop 7 h), fm_payload = drop 15 h\<rparr>, NoError, 23 + n))"
proof -
  have f: "frame_readU32 (h @ c @ rest) 0 = kFrameMagic" "frame_readU32 (h @ c @ rest) 11 = word_of_nat n"
      "frame_readU32 (h @ c @ rest) 7 = le_word 4 (drop 7 h)" "frame_readU64 (h @ c @ rest) (15 + n) = le_word 8 c"
    using assms by (simp_all add: frame_readU32_def frame_readU64_def le_word_append)
  have n: "unat (word_of_nat n :: u32) = n"
    using assms(2) by (intro unat_u32_of_nat) (simp add: kMaxFramePayload_def)
  have nth: "(h @ c @ rest) ! 4 = kFrameVersion" "(h @ c @ rest) ! 5 = h ! 5"
    using assms(1,5) by (simp_all add: nth_append)
  show ?thesis
    using assms(1-3)
    by (simp add: decodeFrame_def kHeaderLen_def kChecksumLen_def kFrameLenOffset_def kFrameSeqOffset_def f n nth Let_def)
qed

lemma le_word_inj:
  assumes "le_word n xs = (le_word n ys :: 'a::len word)" and "8 * n = LENGTH('a)" "n \<le> length xs" "n \<le> length ys"
  shows "take n xs = take n ys"
proof -
  have "le_bytes n (le_word n xs :: 'a word) = take n xs" "le_bytes n (le_word n ys :: 'a word) = take n ys"
    unfolding le_word_take [OF assms(3)] le_word_take [OF assms(4)]
    by (rule le_bytes_word; use assms in simp)+
  then show ?thesis using assms(1) by simp
qed

lemma take_drop_update: "i < a \<or> a + n \<le> i \<Longrightarrow> take n (drop a (xs[i := x])) = take n (drop a xs)"
  by (rule nth_equalityI) auto

lemma le_word_update:
  assumes "i < a \<or> a + n \<le> i" and "a + n \<le> length xs"
  shows "le_word n (drop a (xs[i := x])) = (le_word n (drop a xs) :: 'a::len word)"
  using le_word_take [of n "drop a (xs[i := x])", where ?'a = 'a] le_word_take [of n "drop a xs", where ?'a = 'a]
    take_drop_update [OF assms(1), of xs x] assms(2)
  by simp

lemma frame_head_shape:
  "le_word 4 (frame_head m) = kFrameMagic" "frame_head m ! 4 = kFrameVersion"
  "le_word 4 (drop 11 (frame_head m)) = (word_of_nat (length (fm_payload m)) :: u32)"
  using frame_fields(1,2,6) [of m "[]"] by (simp_all add: frame_readU32_def kFrameLenOffset_def)

section \<open>Receiving a stream\<close>

fun rs_data :: "RecvResult list \<Rightarrow> bytes" where
  "rs_data [] = []"
| "rs_data (RecvData d # rs) = d @ rs_data rs"
| "rs_data (r # rs) = rs_data rs"

text \<open>A flow: data in chunks of any size, with pauses, and neither a close nor a failure.\<close>

definition flowing :: "RecvResult list \<Rightarrow> bool" where
  "flowing rs \<longleftrightarrow> list_all (\<lambda>r. r \<noteq> RecvClosed \<and> r \<noteq> RecvFailed) rs"

lemma pop_frame: "payload_fits m \<Longrightarrow> fb_pop (frame_of m @ rest) = (Some m, NoError, rest)"
  by (simp add: fb_pop_def decode_frame)

lemma pop_prefix: "payload_fits m \<Longrightarrow> k < length (frame_of m) \<Longrightarrow>
    fb_pop (take k (frame_of m)) = (None, Truncated, take k (frame_of m))"
  by (simp only: fb_pop_def decode_prefix) simp

lemma recv_one:
  assumes "payload_fits m" and "flowing rs" and "buf @ rs_data rs = frame_of m @ S"
  shows "\<exists>buf' rs'. recvFrame rs buf = (Received m, buf', rs') \<and> flowing rs' \<and> buf' @ rs_data rs' = S"
  using assms(2,3)
proof (induction rs arbitrary: buf)
  case Nil
  then show ?case using pop_frame [OF assms(1)] by (simp add: recvFrame.simps)
next
  case (Cons r rs)
  show ?case
  proof (cases "length (frame_of m) \<le> length buf")
    case True
    then obtain rest where "buf = frame_of m @ rest"
      using Cons.prems(2) by (metis append_eq_append_conv_if append_take_drop_id)
    then show ?thesis using Cons.prems pop_frame [OF assms(1)] by (simp add: recvFrame.simps)
  next
    case False
    then have buf: "buf = take (length buf) (frame_of m)"
      using Cons.prems(2) by (metis append_eq_append_conv_if nat_le_linear)
    have pop: "fb_pop buf = (None, Truncated, buf)"
      using pop_prefix [OF assms(1), of "length buf"] False buf by simp
    show ?thesis
      using Cons.prems Cons.IH [of buf] Cons.IH [of "fb_append buf d" for d]
      by (cases r) (auto simp: recvFrame.simps [of "_ # _"] pop fb_append_def flowing_def)
  qed
qed

primrec recv_many :: "nat \<Rightarrow> RecvResult list \<Rightarrow> bytes \<Rightarrow> (FramedMessage list \<times> bytes \<times> RecvResult list) option" where
  "recv_many 0 rs buf = Some ([], buf, rs)"
| "recv_many (Suc n) rs buf =
     (case recvFrame rs buf of
        (Received m, buf', rs') \<Rightarrow> map_option (\<lambda>(ms, x). (m # ms, x)) (recv_many n rs' buf')
      | _ \<Rightarrow> None)"

lemma recv_stream:
  assumes "list_all payload_fits ms" and "flowing rs" and "buf @ rs_data rs = concat (map frame_of ms) @ S"
  shows "\<exists>buf' rs'. recv_many (length ms) rs buf = Some (ms, buf', rs') \<and> buf' @ rs_data rs' = S"
  using assms
proof (induction ms arbitrary: rs buf)
  case (Cons m ms)
  obtain buf1 rs1 where r: "recvFrame rs buf = (Received m, buf1, rs1)" "flowing rs1"
      "buf1 @ rs_data rs1 = concat (map frame_of ms) @ S"
    using recv_one [of m rs buf "concat (map frame_of ms) @ S"] Cons.prems by auto
  then show ?case using Cons.IH [OF _ r(2,3)] Cons.prems(1) by auto
qed simp

lemma sendAll_prefix:
  "sendAll rs data = (res, wire) \<Longrightarrow> (\<exists>rest. data = wire @ rest) \<and> (res = SendDone \<longrightarrow> wire = data)"
proof (induction rs data arbitrary: res wire rule: sendAll.induct)
  case (4 n rs b data)
  let ?n = "min n (send_chunk (b # data))"
  show ?case
  proof (cases "?n = 0")
    case False
    obtain w where "sendAll rs (drop ?n (b # data)) = (res, w)" "wire = take ?n (b # data) @ w"
      using 4(2) False by (auto simp: Let_def split: prod.splits)
    moreover note 4(1) [OF refl False this(1)]
    ultimately show ?thesis by (metis append.assoc append_take_drop_id)
  qed (use 4(2) in \<open>auto simp: Let_def\<close>)
qed auto

section \<open>Changed bytes\<close>

lemma update_le_word_ne:
  assumes "i < n" and "n \<le> length xs" and "8 * n = LENGTH('a)" and "x \<noteq> xs ! i"
  shows "le_word n (xs[i := x]) \<noteq> (le_word n xs :: 'a::len word)"
proof
  assume "le_word n (xs[i := x]) = (le_word n xs :: 'a word)"
  then have "take n (xs[i := x]) = take n xs" using assms by (intro le_word_inj) simp_all
  then have "take n (xs[i := x]) ! i = take n xs ! i" by simp
  then show False using assms by simp
qed

lemma corrupt_magic:
  assumes "i < 4" and "x \<noteq> frame_head m ! i"
  shows "decodeFrame ((frame_head m)[i := x] @ rest) = (None, BadMagic, 0)"
proof -
  have "le_word 4 ((frame_head m)[i := x] @ rest) \<noteq> (kFrameMagic :: u32)"
    using update_le_word_ne [of i 4 "frame_head m" x, where ?'a = 32] assms by (simp add: le_word_append frame_head_shape)
  then show ?thesis by (simp add: decodeFrame_def kHeaderLen_def frame_readU32_def)
qed

lemma corrupt_version:
  assumes "x \<noteq> frame_head m ! 4"
  shows "decodeFrame ((frame_head m)[4 := x] @ rest) = (None, UnsupportedVersion, 0)"
proof -
  have "le_word 4 ((frame_head m)[4 := x] @ rest) = kFrameMagic"
    using le_word_update [of 4 0 4 "frame_head m" x, where ?'a = 32] by (simp add: le_word_append frame_head_shape)
  moreover have "((frame_head m)[4 := x] @ rest) ! 4 = x" by (simp add: nth_append)
  ultimately show ?thesis
    using assms by (simp add: decodeFrame_def kHeaderLen_def frame_readU32_def frame_head_shape)
qed

lemma corrupt_head:
  assumes "payload_fits m" and "4 < i" "i < 15 + length (fm_payload m)" "i < 11 \<or> 15 \<le> i" and "x \<noteq> frame_head m ! i"
  shows "decodeFrame ((frame_head m)[i := x] @ writeU64 (fnv1a (frame_head m)) @ rest) = (None, CheckMismatch, 0)"
proof -
  let ?h = "(frame_head m)[i := x]" and ?c = "writeU64 (fnv1a (frame_head m))"
  have l: "le_word 4 (drop a ?h) = (le_word 4 (drop a (frame_head m)) :: u32)" if "a + 4 \<le> 15" "i < a \<or> a + 4 \<le> i" for a
    using le_word_update [of i a 4 "frame_head m" x] that by simp
  have h4: "le_word 4 ?h = kFrameMagic" "?h ! 4 = kFrameVersion"
      "le_word 4 (drop 11 ?h) = (word_of_nat (length (fm_payload m)) :: u32)"
    using l [of 0] l [of 11] assms(2,4) by (auto simp: frame_head_shape)
  have "fnv1a ?h \<noteq> fnv1a (frame_head m)" using fnv1a_update [of i "frame_head m" x] assms(3,5) by simp
  then have "fnv1a ?h \<noteq> le_word 8 ?c" using le_word_write(2) [of "fnv1a (frame_head m)" "[]"] by simp
  then show ?thesis
    using decode_shape [of ?h "length (fm_payload m)" ?c rest, OF _ _ _ h4] assms(1) by (simp add: payload_fits_def)
qed

lemma corrupt_sum:
  assumes "payload_fits m" and "j < 8" and "x \<noteq> writeU64 (fnv1a (frame_head m)) ! j"
  shows "decodeFrame (frame_head m @ (writeU64 (fnv1a (frame_head m)))[j := x] @ rest) = (None, CheckMismatch, 0)"
proof -
  let ?h = "frame_head m" and ?c = "writeU64 (fnv1a (frame_head m))"
  have "le_word 8 (?c[j := x]) \<noteq> (le_word 8 ?c :: u64)" using assms by (intro update_le_word_ne) simp_all
  then have "fnv1a ?h \<noteq> le_word 8 (?c[j := x])" using le_word_write(2) [of "fnv1a ?h" "[]"] by simp
  then show ?thesis
    using decode_shape [of ?h "length (fm_payload m)" "?c[j := x]" rest, OF _ _ _ frame_head_shape] assms(1)
    by (simp add: payload_fits_def)
qed

section \<open>Properties\<close>

text \<open>
  C34. Frames survive the wire. A message whose payload is within the limit encodes, and decoding its bytes,
  whatever follows them, returns it and consumes exactly its frame; a larger payload is refused.
\<close>

theorem frame_roundtrip:
  "(length (fm_payload m) \<le> kMaxFramePayload \<longrightarrow>
      (\<exists>bs. encodeFrame m = (True, bs, NoError) \<and> length bs = 23 + length (fm_payload m) \<and>
         (\<forall>rest. decodeFrame (bs @ rest) = (Some m, NoError, length bs)))) \<and>
   (kMaxFramePayload < length (fm_payload m) \<longrightarrow> encodeFrame m = (False, [], Oversized))"
  using encodeFrame_of [of m] decode_frame [of m] by (auto simp: payload_fits_def encodeFrame_def)

theorem frame_roundtrip_witness:
  "\<exists>bs. encodeFrame FramedMessage_default = (True, bs, NoError) \<and> length bs = 23 \<and>
     decodeFrame (bs @ [7]) = (Some FramedMessage_default, NoError, 23)"
proof -
  obtain bs where bs: "encodeFrame FramedMessage_default = (True, bs, NoError)" "length bs = 23"
      "\<forall>rest. decodeFrame (bs @ rest) = (Some FramedMessage_default, NoError, length bs)"
    using frame_roundtrip [of FramedMessage_default] by (auto simp: FramedMessage_default_def)
  then show ?thesis by (auto dest: spec [of _ "[7]"])
qed

text \<open>
  C35. A changed byte is always noticed. If one byte of a frame, other than the four of its length field, is
  replaced by a different one, the decoder rejects the frame: as foreign in the magic, as another version
  in the version byte, and by the checksum everywhere else, the checksum's own bytes included.
\<close>

theorem frame_corruption_detected:
  assumes "length (fm_payload m) \<le> kMaxFramePayload" and "encodeFrame m = (True, bs, NoError)"
    and "i < length bs" and "x \<noteq> bs ! i" and "i < 11 \<or> 15 \<le> i"
  shows "decodeFrame (bs[i := x] @ rest) =
     (None, if i < 4 then BadMagic else if i = 4 then UnsupportedVersion else CheckMismatch, 0)"
proof -
  let ?h = "frame_head m" and ?n = "length (fm_payload m)"
  let ?c = "writeU64 (fnv1a ?h)"
  have bs: "bs = ?h @ ?c" using assms(1,2) encodeFrame_of [of m] by (simp add: payload_fits_def frame_of_def)
  show ?thesis
  proof (cases "i < 15 + ?n")
    case True
    then have "bs[i := x] @ rest = ?h[i := x] @ ?c @ rest" "x \<noteq> ?h ! i"
      using assms(4) by (simp_all add: bs list_update_append nth_append)
    then show ?thesis
      using corrupt_magic [of i x m "?c @ rest"] corrupt_version [of x m "?c @ rest"] corrupt_head [of m i x rest] True assms(1,5)
      by (auto simp: payload_fits_def nat_neq_iff)
  next
    case False
    define j where "j = i - (15 + ?n)"
    have j: "j < 8" "i = 15 + ?n + j" using False assms(3) by (simp_all add: j_def bs)
    then have "bs[i := x] @ rest = ?h @ ?c[j := x] @ rest" "x \<noteq> ?c ! j"
      using assms(4) by (simp_all add: bs list_update_append nth_append)
    then show ?thesis using corrupt_sum [of m j x rest] j assms(1) by (simp add: payload_fits_def)
  qed
qed

theorem frame_corruption_detected_witness:
  "\<exists>bs. encodeFrame FramedMessage_default = (True, bs, NoError) \<and>
     (\<exists>x. decodeFrame (bs[5 := x] @ []) = (None, CheckMismatch, 0))"
proof -
  obtain bs where bs: "encodeFrame FramedMessage_default = (True, bs, NoError)" "length bs = 23"
    using encodeFrame_of [of FramedMessage_default] by (auto simp: payload_fits_def FramedMessage_default_def)
  have "bs ! 5 + 1 \<noteq> bs ! 5" by simp
  then have "decodeFrame (bs[5 := bs ! 5 + 1] @ []) = (None, CheckMismatch, 0)"
    using frame_corruption_detected [OF _ bs(1), of 5 "bs ! 5 + 1" "[]"] bs(2)
    by (simp add: FramedMessage_default_def)
  then show ?thesis using bs(1) by blast
qed

text \<open>
  What the decoder accepts is a frame. Whatever bytes it is given, a message is returned only with no
  error, its payload within the limit, and the number of consumed bytes within the input; the consumed
  bytes are exactly the encoding of the message, up to the reserved flags byte, which is not examined.
\<close>

theorem decode_canonical:
  assumes "decodeFrame bs = (Some m, err, n)"
  shows "err = NoError \<and> n \<le> length bs \<and> n = 23 + length (fm_payload m) \<and>
     length (fm_payload m) \<le> kMaxFramePayload \<and>
     (bs ! 6 = 0 \<longrightarrow> encodeFrame m = (True, take n bs, NoError))"
proof -
  define L where "L = unat (frame_readU32 bs 11)"
  define h where "h = take (15 + L) bs"
  have len: "15 \<le> length bs" "L \<le> kMaxFramePayload" "23 + L \<le> length bs"
    and mg: "frame_readU32 bs 0 = kFrameMagic" "bs ! 4 = kFrameVersion"
    and sum: "fnv1a h = frame_readU64 bs (15 + L)"
    and m: "m = \<lparr>fm_type = MessageType (bs ! 5), fm_seq = frame_readU32 bs 7, fm_payload = take L (drop 15 bs)\<rparr>"
    and n: "err = NoError" "n = 23 + L"
    using assms by (auto simp: decodeFrame_def kHeaderLen_def kChecksumLen_def kFrameLenOffset_def kFrameSeqOffset_def
        L_def h_def Let_def split: if_splits)
  have pl: "length (fm_payload m) = L" using len by (simp add: m)
  have w: "writeU32 (frame_readU32 bs a) = take 4 (drop a bs)" if "a + 4 \<le> 15" for a
    using le_bytes_word [of "take 4 (drop a bs)" 4, where ?'a = 32] le_word_take [of 4 "drop a bs", where ?'a = 32] that len
    by (simp add: writeU32_def frame_readU32_def)
  have "writeU64 (fnv1a h) = take 8 (drop (15 + L) bs)"
    using le_bytes_word [of "take 8 (drop (15 + L) bs)" 8, where ?'a = 64]
      le_word_take [of 8 "drop (15 + L) bs", where ?'a = 64] len
    by (simp add: writeU64_def sum frame_readU64_def)
  moreover have "h @ take 8 (drop (15 + L) bs) = take (23 + L) bs"
    by (simp add: h_def take_add [symmetric] add.commute)
  moreover have "frame_head m = h" if z: "bs ! 6 = 0"
  proof -
    have lw: "writeU32 (word_of_nat L) = take 4 (drop 11 bs)" using w [of 11] by (simp add: L_def)
    have "frame_head m = take 4 bs @ [bs ! 4, bs ! 5, bs ! 6] @ take 4 (drop 7 bs) @ take 4 (drop 11 bs) @ take L (drop 15 bs)"
      unfolding frame_head_def pl lw using w [of 0] w [of 7] mg z by (simp add: m)
    also have "[bs ! 4, bs ! 5, bs ! 6] = take 3 (drop 4 bs)"
      using len by (simp add: take_Suc_conv_app_nth numeral_3_eq_3)
    finally show ?thesis
      by (simp add: h_def take_add drop_drop add.commute flip: append_assoc take_add)
  qed
  ultimately have "bs ! 6 = 0 \<longrightarrow> frame_of m = take n bs" by (simp add: frame_of_def n)
  then show ?thesis using len n pl encodeFrame_of [of m] by (auto simp: payload_fits_def)
qed

theorem decode_canonical_witness:
  "\<exists>bs. decodeFrame bs = (Some FramedMessage_default, NoError, 23) \<and> 23 \<le> length bs"
proof -
  have "decodeFrame (frame_of FramedMessage_default) = (Some FramedMessage_default, NoError, 23)"
    using decode_frame [of FramedMessage_default "[]"] by (simp add: payload_fits_def FramedMessage_default_def)
  from decode_canonical [OF this] this show ?thesis by auto
qed

text \<open>
  C36. Framing does not depend on how the stream is cut. If the data a socket delivers, in chunks of any
  size and with any pauses, starts with the frames of some messages, then as many calls of the receive
  loop return exactly those messages in order, and what is left buffered and undelivered is the rest.
\<close>

theorem receive_chunking:
  assumes "\<forall>m \<in> set ms. length (fm_payload m) \<le> kMaxFramePayload" and "flowing rs"
    and "rs_data rs = concat (map (\<lambda>m. fst (snd (encodeFrame m))) ms) @ S"
  shows "\<exists>buf rs'. recv_many (length ms) rs [] = Some (ms, buf, rs') \<and> buf @ rs_data rs' = S"
proof -
  have "concat (map (\<lambda>m. fst (snd (encodeFrame m))) ms) = concat (map frame_of ms)"
    using assms(1) encodeFrame_of by (intro arg_cong [of _ _ concat] map_cong) (auto simp: payload_fits_def)
  then show ?thesis
    using recv_stream [of ms rs "[]" S] assms by (simp add: list_all_iff payload_fits_def)
qed

theorem receive_chunking_witness:
  "\<exists>buf rs'. recv_many 1 (map (\<lambda>b. RecvData [b]) (fst (snd (encodeFrame FramedMessage_default)))) [] =
     Some ([FramedMessage_default], buf, rs') \<and> buf @ rs_data rs' = []"
proof -
  have d: "rs_data (map (\<lambda>b. RecvData [b]) bs) = bs" for bs by (induction bs) simp_all
  have f: "flowing (map (\<lambda>b. RecvData [b]) bs)" for bs by (induction bs) (simp_all add: flowing_def)
  show ?thesis
    using receive_chunking [of "[FramedMessage_default]", OF _ f, of "fst (snd (encodeFrame FramedMessage_default))" "[]"]
    by (simp add: d FramedMessage_default_def)
qed

text \<open>
  Corruption ends the connection's stream: when the buffered bytes decode to an error other than an
  incomplete frame, the receive loop reports a corrupt frame without reading on, with the buffer emptied;
  and the send loop puts on the wire a prefix of the frame, the whole of it when it reports success.
\<close>

theorem stream_ends:
  "(\<forall>err k. decodeFrame buf = (None, err, k) \<and> err \<noteq> Truncated \<and> err \<noteq> NoError \<longrightarrow>
      recvFrame rs buf = (CorruptFrame, [], rs)) \<and>
   (\<forall>res wire. sendFrame ss m = (res, wire) \<and> length (fm_payload m) \<le> kMaxFramePayload \<longrightarrow>
      (\<exists>rest. fst (snd (encodeFrame m)) = wire @ rest \<and> (res = SendDone \<longrightarrow> rest = [])))"
proof (intro conjI allI impI)
  fix err k assume "decodeFrame buf = (None, err, k) \<and> err \<noteq> Truncated \<and> err \<noteq> NoError"
  then show "recvFrame rs buf = (CorruptFrame, [], rs)"
    by (cases err) (auto simp: recvFrame.simps fb_pop_def)
next
  fix res wire assume a: "sendFrame ss m = (res, wire) \<and> length (fm_payload m) \<le> kMaxFramePayload"
  then have "sendAll ss (frame_of m) = (res, wire)"
    using encodeFrame_of [of m] by (simp add: sendFrame_def payload_fits_def)
  then show "\<exists>rest. fst (snd (encodeFrame m)) = wire @ rest \<and> (res = SendDone \<longrightarrow> rest = [])"
    using sendAll_prefix [of ss "frame_of m" res wire] encodeFrame_of [of m] a by (auto simp: payload_fits_def)
qed

theorem stream_ends_witness:
  "recvFrame [RecvClosed] (replicate 15 0) = (CorruptFrame, [], [RecvClosed])"
proof -
  have "frame_readU32 (replicate 15 0) 0 = 0"
    by (simp add: frame_readU32_def le_word_def numeral_eq_Suc)
  then have "decodeFrame (replicate 15 0) = (None, BadMagic, 0)"
    by (simp add: decodeFrame_def kHeaderLen_def kFrameMagic_def)
  then show ?thesis using stream_ends [of "replicate 15 0" "[RecvClosed]"] by blast
qed

end
