(* ===== verification/Durability.thy ===== *)
theory Durability
  imports Model_View
begin

text \<open>
  What persistence promises: a saved model comes back, a damaged file is refused without a trace, evidence
  read from a file is never current, and which generation guards survive a restart.
\<close>

section \<open>Damaged files\<close>

lemma write_le_inj: "writeU32 v = writeU32 w \<longleftrightarrow> v = w" "writeU64 x = writeU64 y \<longleftrightarrow> x = y"
proof -
  have "le_word 4 (writeU32 u) = u" for u using le_word_bytes [of 4 u "[]"] by (simp add: writeU32_def)
  then show "writeU32 v = writeU32 w \<longleftrightarrow> v = w" by metis
  have "le_word 8 (writeU64 u) = u" for u using le_word_bytes [of 8 u "[]"] by (simp add: writeU64_def)
  then show "writeU64 x = writeU64 y \<longleftrightarrow> x = y" by metis
qed

lemma seal_split:
  "take 12 (seal body) = writeU32 kPersistMagic @ writeU32 kPersistVersion @ writeU32 (word_of_nat (length body + 8))"
  "drop 12 (seal body) = body @ writeU64 (fnv1a body)"
  by (simp_all add: seal_def)

lemma seal_header:
  assumes "sealable a" and "sealable b" and "take 12 (seal a) = take 12 (seal b)"
  shows "length a = length b"
proof -
  have "(word_of_nat (length a + 8) :: u32) = word_of_nat (length b + 8)"
    using assms(3) by (simp only: seal_split append_same_eq same_append_eq append_eq_append_conv write_le_inj)
  then have "length a + 8 = length b + 8" using seal_len [OF assms(1)] seal_len [OF assms(2)] by metis
  then show ?thesis by simp
qed

text \<open>A file that unseals and shares its first twelve bytes with a sealed file is as long as it.\<close>

lemma unseal_same_length:
  assumes "sealable body" and "unseal bs = Some b" and "length bs \<le> kMaxFileBytes" and "take 12 bs = take 12 (seal body)"
  shows "length bs = length (seal body)"
proof -
  have bs: "bs = seal b" using unseal_canonical [OF assms(2,3)] .
  then have "sealable b" using assms(3) by (simp add: sealable_def)
  from seal_header [OF this assms(1)] assms(4) show ?thesis unfolding bs by (simp only: length_seal)
qed

lemma unseal_cut:
  assumes "sealable body" and "n < length (seal body)"
  shows "unseal (take n (seal body)) = None"
proof (cases "unseal (take n (seal body))")
  case (Some b)
  have l: "length (take n (seal body)) \<le> kMaxFileBytes" using assms by (simp add: sealable_def)
  have "length (take n (seal body)) = length b + 20"
    by (simp only: unseal_canonical [OF Some l] length_seal)
  then have "take 12 (take n (seal body)) = take 12 (seal body)" by (simp add: min_def split: if_splits)
  with l show ?thesis using unseal_same_length [OF assms(1) Some] assms(2) by simp
qed

lemma unseal_extended:
  assumes "sealable body" and "extra \<noteq> []" and "length (seal body @ extra) \<le> kMaxFileBytes"
  shows "unseal (seal body @ extra) = None"
proof (cases "unseal (seal body @ extra)")
  case (Some b)
  then show ?thesis using unseal_same_length [OF assms(1) Some assms(3)] assms(2) by simp
qed

lemma unseal_changed:
  assumes "sealable body" and "i < length (seal body)" and "x \<noteq> seal body ! i"
  shows "unseal ((seal body)[i := x]) = None"
proof (cases "unseal ((seal body)[i := x])")
  case (Some b)
  have b: "(seal body)[i := x] = seal b"
    using unseal_canonical [OF Some] assms(1) by (simp add: sealable_def)
  then have len: "length b = length body" by (metis add_right_cancel length_list_update length_seal)
  then have hd: "take 12 (seal b) = take 12 (seal body)" by (simp only: seal_split)
  have i: "12 \<le> i"
  proof (rule ccontr)
    assume "\<not> 12 \<le> i"
    then have "take 12 (seal b) ! i = x" "take 12 (seal body) ! i = seal body ! i"
      using assms(2) by (simp_all flip: b)
    then show False using hd assms(3) by simp
  qed
  define j where "j = i - 12"
  have tail: "b @ writeU64 (fnv1a b) = (body @ writeU64 (fnv1a body))[j := x]"
    using i by (simp flip: seal_split b add: drop_update_swap j_def)
  have x: "(body @ writeU64 (fnv1a body)) ! j \<noteq> x"
    using assms(2,3) i by (simp flip: seal_split add: j_def)
  have j: "j < length body + 8" using assms(2) i by (simp add: j_def)
  show ?thesis
  proof (cases "j < length body")
    case True
    then have "fnv1a (body[j := x]) = fnv1a body"
      using tail len by (auto simp: list_update_append write_le_inj)
    then show ?thesis using fnv1a_update [OF True, of x] x True by (simp add: nth_append)
  next
    case False
    then have "writeU64 (fnv1a body) = (writeU64 (fnv1a body))[j - length body := x]"
      using tail len by (auto simp: list_update_append)
    moreover have "j - length body < length (writeU64 (fnv1a body))" using j False by simp
    ultimately have "writeU64 (fnv1a body) ! (j - length body) = x" by (metis nth_list_update_eq)
    then show ?thesis using x False by (simp add: nth_append)
  qed
qed

lemma load_unsealed: "unseal bs = None \<Longrightarrow> load readable m path (fs(path \<mapsto> bs)) = Inr (False, m)"
  by (auto simp: load_def readFileBytes_def split: option.split)

lemma load_too_long: "kMaxFileBytes < length bs \<Longrightarrow> load readable m path (fs(path \<mapsto> bs)) = Inr (False, m)"
  by (simp add: load_def readFileBytes_def)

lemma save_writes: "save env m path fs = Inr (ok, fs') \<longleftrightarrow>
    (\<exists>body. save_body m = Inr body \<and> (ok, fs') = writeFileBytes env path (seal body) fs)"
  by (cases "save_body m") (auto simp: save_def)

section \<open>What a load leaves behind\<close>

definition unpublished :: "CapacityModel \<Rightarrow> CapacityModel \<Rightarrow> bool" where
  "unpublished m0 m \<longleftrightarrow> m_sources m = m_sources m0 \<and> (\<forall>i r. om_lookup (m_resources m) i = Some r \<longrightarrow> res_worker r = sid_default)"

lemma load_body_unpublished:
  assumes "load_body m body = Inr (True, m')"
  shows "unpublished m m'"
proof -
  have "unpublished m (m1\<lparr>m_recovered := True\<rparr>) \<longleftrightarrow> unpublished m m1" for m1 by (simp add: unpublished_def)
  then show ?thesis
    using assms unfolding load_body_def
    by (auto split: option.splits if_splits elim!: load_section_elim [where P = "unpublished m"])
      (auto simp: unpublished_def setEpoch_def add_resource_def add_reservation_def dest: load_resource_unpublished split: if_splits)
qed

lemma currentResources_lookup: "r \<in> set (currentResources m) \<Longrightarrow> \<exists>i. om_lookup (m_resources m) i = Some r"
  by (auto simp: currentResources_def om_lookup_def om_entries_distinct)

lemma not_default_source: "authority_inv m \<Longrightarrow> \<not> isFreshBoot m sid_default b"
  by (auto simp: authority_inv_def isFreshBoot_def sid_valid_def sid_default_def
      split: option.splits) (metis StrongId.sel)

section \<open>Counts and generations of a restored model\<close>

lemma om_size_card: "om_size t = card {i. om_lookup t i \<noteq> None}"
proof -
  have "{i. om_lookup t i \<noteq> None} = set (map fst (om_entries t))"
    by (auto simp: om_lookup_def map_of_eq_None_iff)
  then show ?thesis using distinct_card [OF om_entries_distinct, of t] by (simp add: om_size_def)
qed

lemma restored_size: "om_size (m_resources (restored m0 m)) = om_size (m_resources m)"
  by (simp add: om_size_card restored_resources)

lemma restored_digest: "digest (restored m0 m) = digest m"
proof -
  have "write_count (om_entries (m_resources (restored m0 m))) = write_count (om_entries (m_resources m))"
    using restored_size [of m0 m] by (simp add: write_count_def om_size_def)
  moreover have "m_epoch (restored m0 m) = m_epoch m" "m_reservations (restored m0 m) = map reservation_image (m_reservations m)"
      "m_forecastHistory (restored m0 m) = map durable_forecast (m_forecastHistory m)"
    by (simp_all add: restored_def)
  ultimately show ?thesis by (simp add: digest_def) (simp add: write_count_def)
qed

lemma load_saved:
  assumes "saveable m" and "save WriteOk m path fs = Inr (True, fs')"
  shows "load True m0 path fs' = Inr (True, restored m0 m)"
proof -
  obtain body where b: "save_body m = Inr body" "fs' = fs(path \<mapsto> seal body)"
    using assms(2) by (auto simp: save_writes writeFileBytes_def)
  then have "sealable body" using assms(1) by (simp add: saveable_def)
  then show ?thesis
    using load_body_saved [OF assms(1) b(1)] unseal_seal [of body]
    by (simp add: load_def readFileBytes_def b(2) sealable_def)
qed

lemma save_total: "saveable m \<Longrightarrow> \<exists>fs'. save WriteOk m path fs = Inr (True, fs') \<and> (\<forall>q. q \<noteq> path \<longrightarrow> fs' q = fs q)"
  using save_body_bytes [of m] by (simp add: saveable_def save_def writeFileBytes_def)

lemma advance_other: "i \<noteq> j \<Longrightarrow> tracker_current (snd (tracker_advance t j g)) i = tracker_current t i"
  by (simp add: tracker_advance_def Let_def)

lemma restored_reservation_gen:
  assumes "distinct (map rsv_id rs)" and "res \<in> set rs" and "\<forall>r \<in> set rs. \<not> gen_valid (tracker_current t (rsv_id r))"
  shows "tracker_current (fold (\<lambda>r t. snd (tracker_advance t (rsv_id r) (rsv_generation r))) rs t) (rsv_id res) = rsv_generation res"
  using assms
proof (induction rs arbitrary: t)
  case (Cons r rs)
  let ?t = "snd (tracker_advance t (rsv_id r) (rsv_generation r))"
  have keep: "tracker_current (fold (\<lambda>r t. snd (tracker_advance t (rsv_id r) (rsv_generation r))) xs u) i = tracker_current u i"
    if "i \<notin> rsv_id ` set xs" for xs u i
    using that by (induction xs arbitrary: u) (simp_all add: advance_other)
  have "tracker_current ?t (rsv_id r) = rsv_generation r"
    using Cons.prems(3) by (simp add: tracker_advance_guarded gen_regresses_def)
  moreover have "\<forall>x \<in> set rs. \<not> gen_valid (tracker_current ?t (rsv_id x))"
  proof
    fix x assume x: "x \<in> set rs"
    then have "rsv_id x \<noteq> rsv_id r" using Cons.prems(1) by (metis distinct.simps(2) list.set_map list.simps(9) imageI)
    then show "\<not> gen_valid (tracker_current ?t (rsv_id x))" using Cons.prems(3) x by (simp add: advance_other)
  qed
  ultimately show ?case using Cons keep [of "rsv_id r" rs ?t] by (auto simp: fold_simps)
qed simp

section \<open>A saved instance\<close>

lemma ex_fleet_saved:
  "om_entries (m_resources ex_fleet) = [(StrongId 5, ex_free_resource)]" "m_reservations ex_fleet = []"
  "m_releases ex_fleet = []" "m_forecastHistory ex_fleet = []"
  "saveable_resource (StrongId 5, ex_free_resource)" "length (saved_bytes (StrongId 5, ex_free_resource)) = 70"
proof -
  show "om_entries (m_resources ex_fleet) = [(StrongId 5, ex_free_resource)]" "m_reservations ex_fleet = []"
      "m_releases ex_fleet = []" "m_forecastHistory ex_fleet = []"
    by (simp_all add: ex_fleet_def ex_model_def registerWorker_def CapacityModel_new_def setEpoch_def)
  have "cap_rep (res_nominal ex_free_resource) (\<lambda>_. 0)"
    by (simp add: ex_free_resource_def ex_published_def ResourceInfo_default_def cap_rep_empty)
  then have n: "cap_vram (res_nominal ex_free_resource) = Inr (ByteCount 0)" "cap_accelerators (res_nominal ex_free_resource) = Inr (DeviceCount 0)"
    by (simp_all add: cap_rep_vram cap_rep_accelerators bc_of_def)
  then show "saveable_resource (StrongId 5, ex_free_resource)"
    by (simp add: saveable_resource_def ex_free_resource_def ex_published_def ResourceInfo_default_def DeviceCapability_default_def short_def)
  show "length (saved_bytes (StrongId 5, ex_free_resource)) = 70"
    using n by (simp add: saved_bytes_def save_resource_def)
      (simp add: ex_free_resource_def ex_published_def ResourceInfo_default_def DeviceCapability_default_def
        writeString_def writeBytes_def)
qed

lemma ex_saveable: "saveable ex_fleet"
  using save_body_bytes [of ex_fleet] ex_fleet_saved
  by (simp add: saveable_def om_size_def sealable_def kMaxFileBytes_def write_count_def)

section \<open>Properties\<close>

text \<open>
  C23. A saved model comes back. Within the limits of the format (\<open>saveable\<close>: a million records of each kind, 64 MiB in all,
  beyond which saving succeeds and loading refuses the file), saving writes the file and touches no other; loading it into any model
  succeeds and yields the same epoch, under every resource identity the durable part of that resource and
  nothing else, the reservations, releases and forecast records in order with the parts the format keeps,
  the recovered flag, and the same digest.
\<close>

theorem save_load_roundtrip:
  assumes "saveable m"
  shows "\<exists>fs' m'. save WriteOk m path fs = Inr (True, fs') \<and> (\<forall>q. q \<noteq> path \<longrightarrow> fs' q = fs q) \<and>
     load True m0 path fs' = Inr (True, m') \<and> m_epoch m' = m_epoch m \<and> m_recovered m' \<and>
     (\<forall>i. om_lookup (m_resources m') i = map_option (\<lambda>r. durable_resource (i, r)) (om_lookup (m_resources m) i)) \<and>
     m_reservations m' = map reservation_image (m_reservations m) \<and>
     m_releases m' = map release_image (m_releases m) \<and>
     m_forecastHistory m' = map durable_forecast (m_forecastHistory m) \<and> digest m' = digest m"
proof -
  obtain fs' where s: "save WriteOk m path fs = Inr (True, fs')" "\<forall>q. q \<noteq> path \<longrightarrow> fs' q = fs q"
    using save_total [OF assms] by blast
  have "m_epoch (restored m0 m) = m_epoch m" "m_recovered (restored m0 m)"
      "m_reservations (restored m0 m) = map reservation_image (m_reservations m)"
      "m_releases (restored m0 m) = map release_image (m_releases m)"
      "m_forecastHistory (restored m0 m) = map durable_forecast (m_forecastHistory m)"
    by (simp_all add: restored_def)
  then show ?thesis using s load_saved [OF assms s(1)] restored_resources restored_digest by blast
qed

theorem save_load_roundtrip_witness:
  "\<exists>fs' m'. save WriteOk ex_fleet ''state'' (\<lambda>_. None) = Inr (True, fs') \<and>
     load True CapacityModel_new ''state'' fs' = Inr (True, m') \<and>
     om_lookup (m_resources m') (StrongId 5) = Some (durable_resource (StrongId 5, ex_free_resource))"
proof -
  have "om_lookup (m_resources ex_fleet) (StrongId 5) = Some ex_free_resource" by (simp add: ex_fleet_def)
  then show ?thesis
    using save_load_roundtrip [OF ex_saveable, of "''state''" "\<lambda>_. None" CapacityModel_new] by (auto dest: spec [of _ "StrongId 5"])
qed

text \<open>
  C24. A damaged file changes nothing. If the file written by a save is altered in one byte, cut short at any
  point, or extended by anything, loading it fails and leaves the model exactly as it was.
\<close>

theorem load_rejects_damage:
  assumes "save WriteOk m path fs = Inr (True, fs')" and "fs' path = Some bs" and "length bs \<le> kMaxFileBytes"
  shows "(i < length bs \<and> x \<noteq> bs ! i \<longrightarrow> load readable m0 path (fs'(path \<mapsto> bs[i := x])) = Inr (False, m0)) \<and>
     (n < length bs \<longrightarrow> load readable m0 path (fs'(path \<mapsto> take n bs)) = Inr (False, m0)) \<and>
     (extra \<noteq> [] \<longrightarrow> load readable m0 path (fs'(path \<mapsto> bs @ extra)) = Inr (False, m0))"
proof -
  obtain body where bs: "bs = seal body" using assms(1,2) by (auto simp: save_writes writeFileBytes_def)
  then have ok: "sealable body" using assms(3) by (simp add: sealable_def)
  show ?thesis
    using unseal_changed [OF ok, of i x] unseal_cut [OF ok, of n] unseal_extended [OF ok, of extra]
      load_unsealed load_too_long [of "seal body @ extra"]
    unfolding bs not_le [symmetric] by blast
qed

theorem load_rejects_damage_witness:
  "\<exists>fs' bs. save WriteOk ex_fleet ''state'' (\<lambda>_. None) = Inr (True, fs') \<and> fs' ''state'' = Some bs \<and>
     load True CapacityModel_new ''state'' (fs'(''state'' \<mapsto> take 19 bs)) = Inr (False, CapacityModel_new)"
proof -
  obtain body where b: "save_body ex_fleet = Inr body"
    using save_body_bytes [of ex_fleet] ex_saveable by (simp add: saveable_def)
  then have ok: "sealable body" using ex_saveable by (simp add: saveable_def)
  have s: "save WriteOk ex_fleet ''state'' (\<lambda>_. None) = Inr (True, (\<lambda>_. None)(''state'' \<mapsto> seal body))"
    using b by (simp add: save_def writeFileBytes_def)
  have "load True CapacityModel_new ''state'' ([''state'' \<mapsto> seal body](''state'' \<mapsto> take 19 (seal body))) = Inr (False, CapacityModel_new)"
    using load_rejects_damage [OF s, of "seal body" 0 0 True CapacityModel_new 19 "[]"] ok by (simp add: sealable_def)
  then show ?thesis using s by (intro exI [of _ "[''state'' \<mapsto> seal body]"] exI [of _ "seal body"]) simp
qed

text \<open>
  An interrupted save destroys the previous state. When only the first \<open>n\<close> bytes of the new contents
  reach the file, the old contents are gone whatever they were, and a later load fails and leaves the model as it was; the save
  reports the failure if it happens while the bytes are handed to the stream, and success if it happens when the stream is
  closed. A file that cannot be opened at all is left alone.
\<close>

theorem interrupted_save_loses_state:
  assumes "saveable m" and "save_body m = Inr body" and "n < length body + 20"
  shows "(\<exists>fs'. save (WriteFails n) m path fs = Inr (False, fs') \<and> load readable m0 path fs' = Inr (False, m0)) \<and>
     (\<exists>fs'. save (FlushFails n) m path fs = Inr (True, fs') \<and> load readable m0 path fs' = Inr (False, m0)) \<and>
     save OpenFails m path fs = Inr (False, fs)"
proof -
  have "sealable body" using assms(1,2) by (simp add: saveable_def)
  then have "unseal (take n (seal body)) = None" using unseal_cut assms(3) by simp
  then show ?thesis using load_unsealed by (simp add: save_def assms(2) writeFileBytes_def)
qed

theorem interrupted_save_loses_state_witness:
  "\<exists>fs'. save (WriteFails 8) ex_fleet ''state'' (\<lambda>_. None) = Inr (False, fs') \<and>
     load True CapacityModel_new ''state'' fs' = Inr (False, CapacityModel_new)"
proof -
  obtain body where "save_body ex_fleet = Inr body"
    using save_body_bytes [of ex_fleet] ex_saveable by (simp add: saveable_def)
  from interrupted_save_loses_state [OF ex_saveable this, of 8] show ?thesis by simp
qed

text \<open>
  C25. Authority does not come from a file. After a successful load into any reachable model no resource is current, and no
  feasibility query about any demand, at any time, reports a fit. (The earliest-fit query looks at no freshness, and reports
  what the loaded releases alone admit: see \<open>release_alone_fits\<close>.)
\<close>

theorem load_grants_no_authority:
  assumes "model_reachable m" and "load readable m path fs = Inr (True, m')"
  shows "(\<forall>r \<in> set (currentResources m'). \<not> resource_current m' r) \<and>
     (\<forall>srt d mode time res. queryFeasibility_with srt m' d mode time = Inr res \<longrightarrow>
        fz_outcome res \<in> {RevalidationRequired, InsufficientEvidence, OutcomeUnknown})"
proof -
  obtain body where "load_body m body = Inr (True, m')"
    using assms(2) by (auto simp: load_def split: option.splits)
  then have u: "unpublished m m'" by (rule load_body_unpublished)
  then have "isFreshBoot m' sid_default b = isFreshBoot m sid_default b" for b
    by (simp add: isFreshBoot_def unpublished_def)
  moreover have "authority_inv m" using reachable_state_inv [OF assms(1)] by (simp add: state_inv_def core_inv_def)
  ultimately have "\<not> resource_current m' r" if "r \<in> set (currentResources m')" for r
    using u currentResources_lookup [OF that] not_default_source by (auto simp: unpublished_def resource_current_def)
  then show ?thesis using no_current_outcome by blast
qed

theorem load_grants_no_authority_witness:
  "\<exists>fs' m'. save WriteOk ex_fleet ''state'' (\<lambda>_. None) = Inr (True, fs') \<and>
     load True CapacityModel_new ''state'' fs' = Inr (True, m') \<and>
     (\<forall>r \<in> set (currentResources m'). \<not> resource_current m' r)"
proof -
  obtain fs' where s: "save WriteOk ex_fleet ''state'' (\<lambda>_. None) = Inr (True, fs')"
    using save_total [OF ex_saveable] by blast
  note l = load_saved [OF ex_saveable s, of CapacityModel_new]
  from load_grants_no_authority [OF reach_init l] s l show ?thesis by blast
qed

text \<open>
  C26. What a restart forgets. After loading a saved model, whose reservations are distinct, into a new one, the generations of
  reservations are in force again: an older generation of a saved reservation is rejected. The generations of resources
  are not: once its worker has registered, a resource of any generation is accepted, however old.
\<close>

theorem restart_generations:
  assumes "saveable m" and "distinct (map rsv_id (m_reservations m))" and "save WriteOk m path fs = Inr (True, fs')"
    and "load True CapacityModel_new path fs' = Inr (True, m')"
  shows "(\<forall>res \<in> set (m_reservations m). \<forall>old. rsv_id old = rsv_id res \<and>
        gen_value (rsv_generation old) < gen_value (rsv_generation res) \<longrightarrow> publishReservation m' old = (False, m')) \<and>
     (\<forall>r d. sid_valid (res_worker r) \<and> sid_valid (res_bootId r) \<and> published_device r = Inr d \<longrightarrow>
        (\<exists>m1 t. registerWorker m' (res_worker r) (res_bootId r) = (True, m1) \<and> publishResource m1 r = Inr (True, t)))"
proof (intro conjI ballI allI impI)
  have m': "m' = restored CapacityModel_new m" using load_saved [OF assms(1,3), of CapacityModel_new] assms(4) by simp
  have e: "m_sources m' = om_empty" "m_resourceGen m' = om_empty" by (simp_all add: m' restored_def CapacityModel_new_def setEpoch_def)
  {
    fix res old :: Reservation assume res: "res \<in> set (m_reservations m)"
      and old: "rsv_id old = rsv_id res \<and> gen_value (rsv_generation old) < gen_value (rsv_generation res)"
    have "tracker_current (m_reservationGen m') (rsv_id res) = rsv_generation res"
      unfolding m' restored_def
      by (simp, rule restored_reservation_gen [OF assms(2) res])
        (simp add: CapacityModel_new_def setEpoch_def gen_valid_def gen_default_def)
    moreover have "gen_valid (rsv_generation res)" using old by (auto simp: gen_valid_def kInvalidId_def)
    ultimately show "publishReservation m' old = (False, m')" using old by (simp add: publishReservation_def)
  next
    fix r :: ResourceInfo and d assume r: "sid_valid (res_worker r) \<and> sid_valid (res_bootId r) \<and> published_device r = Inr d"
    let ?m1 = "m'\<lparr>m_sources := om_insert (res_worker r) \<lparr>src_bootId = res_bootId r, src_alive = True\<rparr> (m_sources m')\<rparr>"
    have "registerWorker m' (res_worker r) (res_bootId r) = (True, ?m1)" using r e by (simp add: registerWorker_def)
    moreover have "\<exists>t. publishResource ?m1 r = Inr (True, t)"
      using r e by (simp add: publishResource_def isFreshBoot_def Let_def gen_default_def gen_valid_def)
    ultimately show "\<exists>m1 t. registerWorker m' (res_worker r) (res_bootId r) = (True, m1) \<and> publishResource m1 r = Inr (True, t)"
      by blast
  }
qed

text \<open>A worker's resource published in its third generation, and a reservation in its fifth; both are held and saved.\<close>

definition ex_kept :: Reservation where
  "ex_kept = Reservation_default\<lparr>rsv_id := StrongId 4, rsv_generation := Generation 5, rsv_interval := Interval 10 20\<rparr>"

definition ex_kept_model :: CapacityModel where
  "ex_kept_model = snd (publishReservation ex_fleet ex_kept)"

theorem restart_generations_witness:
  "\<exists>fs' m'. save WriteOk ex_kept_model ''state'' (\<lambda>_. None) = Inr (True, fs') \<and>
     load True CapacityModel_new ''state'' fs' = Inr (True, m') \<and>
     publishReservation m' (ex_kept\<lparr>rsv_generation := Generation 4\<rparr>) = (False, m') \<and>
     (\<exists>m1 t. registerWorker m' (StrongId 3) (StrongId 7) = (True, m1) \<and> publishResource m1 (ex_published 1) = Inr (True, t))"
proof -
  have e: "m_resources ex_kept_model = m_resources ex_fleet" "m_reservations ex_kept_model = [ex_kept]"
      "m_releases ex_kept_model = []" "m_forecastHistory ex_kept_model = []" "m_epoch ex_kept_model = m_epoch ex_fleet"
    by (simp_all add: ex_kept_model_def publishReservation_def Let_def ex_fleet_def ex_model_def registerWorker_def
        CapacityModel_new_def setEpoch_def ex_kept_def gen_valid_def gen_default_def upsert_def)
  have w: "reservation_wire ex_kept" and l: "length (save_reservation ex_kept) = 41"
    by (simp_all add: ex_kept_def Reservation_default_def reservation_wire_def save_reservation_def in_i64_def i64_min_def i64_max_def
        iv_valid_def delta_at_def cap_amount_def)
  have ok: "saveable ex_kept_model"
    using w l save_body_bytes [of ex_kept_model] ex_fleet_saved
    by (simp add: saveable_def e om_size_def sealable_def kMaxFileBytes_def write_count_def)
  obtain fs' where s: "save WriteOk ex_kept_model ''state'' (\<lambda>_. None) = Inr (True, fs')"
    using save_total [OF ok] by blast
  note l = load_saved [OF ok s, of CapacityModel_new]
  have d: "distinct (map rsv_id (m_reservations ex_kept_model))" by (simp add: e)
  obtain dev where "published_device (ex_published 1) = Inr dev"
    by (simp add: published_device_def ex_published_def ResourceInfo_default_def cap_rep_vram [OF cap_rep_empty])
  with restart_generations [OF ok d s l] s l show ?thesis
    by (auto simp: e ex_published_def sid_valid_def kInvalidId_def ex_kept_def dest: spec [of _ "ex_published 1"])
qed

end
