(* ===== verification/Load_Errors.thy ===== *)
theory Load_Errors
  imports Durability
begin

text \<open>
  Loading a file whose checksum is right but whose contents are not (\<open>load\<close> of \<open>model/model.cpp\<close>). The contents are read straight
  into the model: a failure on the way leaves the part that was read, a number that no constructor accepts ends in an
  exception, and a reservation without a generation resets the guard of its identity.
\<close>

lemma load_sealed:
  assumes "sealable body"
  shows "load True m path (fs(path \<mapsto> seal body)) = load_body m body"
  using assms unseal_seal [OF assms] by (simp add: load_def readFileBytes_def sealable_def)

lemma section_empty: "load_section rd clear add m (writeU32 0 @ bs) k = k (clear m) bs"
  unfolding load_section_def u32_codec.read_write [OF TrueI] by simp

lemma section_one:
  "load_section rd clear add m (writeU32 1 @ bs) k =
     bindR (rd bs) (\<lambda>r. case r of None \<Rightarrow> Inr (False, clear m) | Some (x, rest) \<Rightarrow> k (add x (clear m)) rest)"
  unfolding load_section_def u32_codec.read_write [OF TrueI]
  by (cases "rd bs") (auto split: option.split)

lemma section_cut: "load_section rd clear add m [] k = Inr (False, m)"
  by (simp add: load_section_def readU32_def)

text \<open>The contents end after the resources, of which there are none: the load fails, and the model has lost its own.\<close>

lemma load_not_atomic:
  "load True m path (fs(path \<mapsto> seal (writeU64 e @ writeU32 0))) = Inr (False, m\<lparr>m_epoch := Generation e, m_resources := om_empty\<rparr>)"
proof -
  have "load_body m (writeU64 e @ writeU32 0 @ []) = Inr (False, m\<lparr>m_epoch := Generation e, m_resources := om_empty\<rparr>)"
    unfolding load_body_def u64_codec.read_write [OF TrueI] bindR_Inr option.case prod.case section_empty section_cut
    by (simp add: setEpoch_def)
  then show ?thesis by (subst load_sealed) (simp_all add: sealable_def kMaxFileBytes_def)
qed

text \<open>
  A planned release with a confidence outside the unit interval: \<open>Confidence\<close> throws, and \<open>load\<close>, which catches what
  \<open>Interval\<close> throws, does not catch it.
\<close>

lemma load_throws:
  assumes "(mkFraction conf :: fault + Confidence) = Inl f" and "in_i64 t" "in_i64 a" "in_i64 b"
  shows "load True m path (fs(path \<mapsto> seal (writeU64 e @ writeU32 0 @ writeU32 0 @ writeU32 1 @
           writeU64 src @ writeI64 t @ writeI64 a @ writeI64 b @ writeF64 conf @ writeF64 amount))) = Inl f" (is "load _ _ _ (_(_ \<mapsto> seal ?body)) = _")
proof -
  have "load_release (writeU64 src @ writeI64 t @ writeI64 a @ writeI64 b @ writeF64 conf @ writeF64 amount @ []) = Inl f"
    by (simp only: load_release_def u64_codec.bind_write [OF TrueI] assms(2-4) [THEN i64_codec.bind_write] f64.bind_write [OF TrueI])
      (simp add: rd_bind_def rd_lift_def assms(1))
  then have "load_body m ?body = Inl f"
    unfolding load_body_def u64_codec.read_write [OF TrueI] bindR_Inr option.case prod.case section_empty section_one by simp
  then show ?thesis by (subst load_sealed) (simp_all add: sealable_def kMaxFileBytes_def)
qed

text \<open>
  A reservation without a generation: \<open>advance\<close> refuses only a valid generation that is lower, so the load takes the recorded
  generation of that reservation back to none, and any generation is accepted afterwards.
\<close>

lemma load_resets_generation:
  assumes "reservation_wire r" and "\<not> gen_valid (rsv_generation r)"
  shows "\<exists>m'. load True m path (fs(path \<mapsto> seal (writeU64 e @ writeU32 0 @ writeU32 1 @ save_reservation r @ writeU32 0 @ writeU32 0))) =
       Inr (True, m') \<and> tracker_current (m_reservationGen m') (rsv_id r) = rsv_generation r"
proof -
  let ?body = "writeU64 e @ writeU32 0 @ writeU32 1 @ save_reservation r @ writeU32 0 @ writeU32 0 @ []"
  let ?m1 = "(add_reservation (reservation_image r) (m\<lparr>m_epoch := Generation e, m_resources := om_empty, m_reservations := []\<rparr>))
     \<lparr>m_releases := [], m_forecastHistory := [], m_recovered := True\<rparr>"
  have "load_body m ?body = Inr (True, ?m1)"
    unfolding load_body_def u64_codec.read_write [OF TrueI] bindR_Inr option.case prod.case section_empty section_one
      saved_reservation.read_image [OF assms(1)]
    by (simp add: setEpoch_def atEnd_def add_reservation_def)
  moreover have "sealable ?body" by (simp add: sealable_def kMaxFileBytes_def save_reservation_def)
  moreover have "tracker_current (m_reservationGen ?m1) (rsv_id r) = rsv_generation r"
    using assms(2) by (simp add: add_reservation_def reservation_image_def tracker_advance_def tracker_current_def Let_def)
  ultimately show ?thesis using load_sealed [of ?body m path fs] by auto
qed

end
