(* ===== verification/Coordinator.thy ===== *)
theory Coordinator
  imports Durability Protocol
begin

text \<open>
  The coordinator's service (\<open>coordinator/coordinator.cpp\<close>): what it answers to each message, and one turn of a
  connection's loop. The results of the socket calls and of writing a file are arguments. An exception that
  leaves \<open>dispatch\<close> is a fault here; the thread that runs the connection does not catch it.
\<close>

section \<open>Replies\<close>

definition okPayload :: bytes where "okPayload = [1]"
definition rejectPayload :: bytes where "rejectPayload = [0]"

definition flagPayload :: "bool \<Rightarrow> bytes" where
  "flagPayload ok = (if ok then okPayload else rejectPayload)"

definition reply_frame :: "MessageType \<Rightarrow> u32 \<Rightarrow> bytes \<Rightarrow> FramedMessage" where
  "reply_frame t seq p = \<lparr>fm_type = t, fm_seq = seq, fm_payload = p\<rparr>"

text \<open>
  Sending a reply: the answer of \<open>reply\<close>, and what went onto the wire. \<open>send\<close> blocks without a limit: when it never returns, which
  a result list that ends too early stands for, there is no answer.
\<close>

definition reply :: "SendResult list \<Rightarrow> FramedMessage \<Rightarrow> bool option \<times> bytes" where
  "reply rs f =
     (let (res, wire) = sendFrame rs f
      in (case res of SendDone \<Rightarrow> Some True | SendFailed \<Rightarrow> Some False | SendPending \<Rightarrow> None, wire))"

text \<open>Reading a payload: what to do when it is malformed, and when it is not.\<close>

definition on_read :: "'a reader \<Rightarrow> bytes \<Rightarrow> (fault + 'b) \<Rightarrow> ('a \<Rightarrow> fault + 'b) \<Rightarrow> fault + 'b" where
  "on_read rd p none some = bindR (rd p) (\<lambda>r. case r of None \<Rightarrow> none | Some (x, rest) \<Rightarrow> some x)"

definition rd_pair :: "'a reader \<Rightarrow> 'b reader \<Rightarrow> ('a \<times> 'b) reader" where
  "rd_pair m n = rd_bind m (\<lambda>x. rd_bind n (\<lambda>y. rd_return (x, y)))"

fun Outcome_code :: "Outcome \<Rightarrow> u8" where
  "Outcome_code FitNow = 0"
| "Outcome_code FitFuture = 1"
| "Outcome_code FitWithReducedShape = 2"
| "Outcome_code FitWithLowerHeadroom = 3"
| "Outcome_code NoFitCapacity = 4"
| "Outcome_code NoFitFragmentation = 5"
| "Outcome_code NoFitTopology = 6"
| "Outcome_code NoFitCapability = 7"
| "Outcome_code NoFitMemory = 8"
| "Outcome_code NoFitBandwidth = 9"
| "Outcome_code NoFitReservation = 10"
| "Outcome_code NoFitDuration = 11"
| "Outcome_code NoFitSloHeadroom = 12"
| "Outcome_code RevalidationRequired = 13"
| "Outcome_code InsufficientEvidence = 14"
| "Outcome_code OutcomeUnknown = 15"

section \<open>Dispatch\<close>

text \<open>
  The coordinator's own writers append the bytes that those of \<open>BinaryWriter\<close> append; the payloads below are
  written with the latter.
\<close>

definition push_u64 :: "bytes \<Rightarrow> u64 \<Rightarrow> bytes" where
  "push_u64 v x = fold (\<lambda>i v. v @ [ucast (and (drop_bit (8 * i) x) 0xff)]) [0 ..< 8] v"

definition push_i64 :: "bytes \<Rightarrow> i64 \<Rightarrow> bytes" where "push_i64 v x = push_u64 v (word_of_int x)"
definition push_u8 :: "bytes \<Rightarrow> u8 \<Rightarrow> bytes" where "push_u8 v x = v @ [x]"

lemma push_writers: "push_u64 v x = v @ writeU64 x" "push_i64 v t = v @ writeI64 t" "push_u8 v b = v @ writeU8 b"
proof -
  have "fold (\<lambda>i v. v @ [f i]) ns v = v @ map f ns" for f :: "nat \<Rightarrow> u8" and ns v by (induction ns arbitrary: v) simp_all
  then show u: "push_u64 v x = v @ writeU64 x" for v x by (simp add: push_u64_def writeU64_def le_bytes_def)
  show "push_i64 v t = v @ writeI64 t" "push_u8 v b = v @ writeU8 b" by (simp_all add: push_i64_def push_u8_def u writeI64_def writeU8_def)
qed

text \<open>The payloads of the four query replies.\<close>

definition capacity_reply :: "u8 \<Rightarrow> i64 \<Rightarrow> Capacity \<Rightarrow> bytes" where
  "capacity_reply mode t c = writeU8 mode @ writeI64 t @ writeCapacity c"

definition feasibility_reply :: "FeasibilityResult \<Rightarrow> bytes" where
  "feasibility_reply fr = writeU8 (Outcome_code (fz_outcome fr)) @ writeI64 (fz_fitTime fr) @
     writeU8 (mode_code (fz_mode fr)) @ writeU8 (if fz_reducedShape fr then 1 else 0)"

definition earliest_reply :: "EarliestFitResult \<Rightarrow> bytes" where
  "earliest_reply e = writeU8 (if ef_found e then 1 else 0) @ writeI64 (ef_start e) @ writeI64 (ef_end e) @
     writeI64 (ef_start e) @ writeU8 (if ef_found e then 1 else 0)"

definition headroom_reply :: "Headroom \<Rightarrow> bytes" where
  "headroom_reply h = writeU8 (if hr_capacityConstrained h then 1 else 0) @
     writeF64 (cap_amount (hr_conservative h) AcceleratorCount)"

text \<open>
  What \<open>dispatch\<close> answers to a message, with the state after it; no answer is the Shutdown case, which
  returns false without one.
\<close>

definition dispatch_reply :: "WriteEnv \<Rightarrow> CapacityModel \<Rightarrow> files \<Rightarrow> FramedMessage \<Rightarrow>
    fault + FramedMessage option \<times> CapacityModel \<times> files" where
  "dispatch_reply env m fs msg =
     (let t = fm_type msg; p = fm_payload msg;
          ans = (\<lambda>ty pl m' fs'. Inr (Some (reply_frame ty (fm_seq msg) pl), m', fs'));
          bad = ans MtError rejectPayload m fs;
          ack = (\<lambda>(ok, m'). ans t (flagPayload ok) m' fs)
      in if t = MtHello then ans MtHello (writeU64 (gen_value (m_epoch m))) m fs
      else if t = MtPublishResource then
        on_read readResource p (ack (False, m)) (\<lambda>r. bindR (publishResource m r) ack)
      else if t = MtPublishReservation then
        on_read readReservation p (ack (False, m)) (\<lambda>r. ack (publishReservation m r))
      else if t = MtPublishRelease then
        on_read readRelease p (ack (False, m)) (\<lambda>r. ack (publishRelease m r))
      else if t = MtAdvanceGeneration then
        on_read readU64 p bad (\<lambda>i. ack (advanceResourceGeneration m (StrongId i)))
      else if t = MtQueryCapacity then
        on_read (rd_pair readU8 readI64) p bad (\<lambda>(mode, time).
          bindR (queryCapacity m (QueryMode mode) time) (\<lambda>c. ans t (capacity_reply mode time c) m fs))
      else if t = MtQueryFeasibility then
        on_read (rd_pair readDemand (rd_pair readU8 readI64)) p bad (\<lambda>(d, mode, time).
          bindR (queryFeasibility m d (QueryMode mode) time) (\<lambda>fr. ans t (feasibility_reply fr) m fs))
      else if t = MtQueryEarliestFit then
        on_read (rd_pair readDemand (rd_pair readI64 (rd_pair readI64 (rd_pair readI64 readU8)))) p bad
          (\<lambda>(d, es, dur, hor, mode).
          bindR (queryEarliestFit m d (QueryMode mode) es dur hor) (\<lambda>e. ans t (earliest_reply e) m fs))
      else if t = MtQueryHeadroom then
        on_read readDemand p bad (\<lambda>d.
          bindR (queryHeadroom m d Conservative) (\<lambda>h. ans t (headroom_reply h) m fs))
      else if t = MtSave then
        on_read readString p bad (\<lambda>path.
          bindR (save env m path fs) (\<lambda>(ok, fs'). ans t (flagPayload ok) m fs'))
      else if t = MtShutdown then Inr (None, m, fs)
      else bad)"

definition dispatch :: "SendResult list \<Rightarrow> WriteEnv \<Rightarrow> CapacityModel \<Rightarrow> files \<Rightarrow> FramedMessage \<Rightarrow>
    fault + bool option \<times> bytes \<times> CapacityModel \<times> files" where
  "dispatch rs env m fs msg =
     bindR (dispatch_reply env m fs msg) (\<lambda>(out, m', fs').
       case out of None \<Rightarrow> Inr (Some False, [], m', fs')
       | Some f \<Rightarrow> (let (ok, wire) = reply rs f in Inr (ok, wire, m', fs')))"

section \<open>One turn of a connection\<close>

text \<open>
  A connection's thread is in its loop, with the worker it last registered, or blocked in a send that never returns, or has
  returned.
\<close>

datatype ConnState = Serving WorkerId | Blocked | Closed

record Turn =
  tn_conn :: ConnState
  tn_stop :: bool
  tn_wire :: bytes
  tn_model :: CapacityModel
  tn_files :: files

text \<open>\<open>recvFrame\<close> returned false: the peer closed, the read failed, or the stream is corrupt.\<close>

definition handle_lost :: "WorkerId \<Rightarrow> CapacityModel \<Rightarrow> files \<Rightarrow> Turn" where
  "handle_lost cur m fs =
     \<lparr>tn_conn = Closed, tn_stop = False, tn_wire = [],
      tn_model = (if sid_valid cur then markWorkerDead m cur else m), tn_files = fs\<rparr>"

text \<open>The thread goes on when the reply has been sent, whether or not that succeeded.\<close>

definition unless_blocked :: "bool option \<times> bytes \<Rightarrow> ConnState \<Rightarrow> ConnState" where
  "unless_blocked sent c = (if fst sent = None then Blocked else c)"

definition handle_register :: "SendResult list \<Rightarrow> WorkerId \<Rightarrow> CapacityModel \<Rightarrow> files \<Rightarrow> FramedMessage \<Rightarrow> fault + Turn" where
  "handle_register rs cur m fs msg =
     on_read (rd_pair readU64 readU64) (fm_payload msg)
       (let sent = reply rs (reply_frame MtError (fm_seq msg) rejectPayload)
        in Inr \<lparr>tn_conn = unless_blocked sent (Serving cur), tn_stop = False, tn_wire = snd sent, tn_model = m, tn_files = fs\<rparr>)
       (\<lambda>(wv, bv). let (ok, m') = registerWorker m (StrongId wv) (StrongId bv);
              sent = reply rs (reply_frame MtRegister (fm_seq msg) (flagPayload ok))
          in Inr \<lparr>tn_conn = unless_blocked sent (Serving (StrongId wv)), tn_stop = False, tn_wire = snd sent,
                  tn_model = m', tn_files = fs\<rparr>)"

definition handle_frame :: "SendResult list \<Rightarrow> WriteEnv \<Rightarrow> WorkerId \<Rightarrow> CapacityModel \<Rightarrow> files \<Rightarrow> FramedMessage \<Rightarrow> fault + Turn" where
  "handle_frame rs env cur m fs msg =
     (if fm_type msg = MtShutdown then
        let sent = reply rs (reply_frame MtShutdown (fm_seq msg) [1])
        in Inr \<lparr>tn_conn = unless_blocked sent Closed, tn_stop = (fst sent \<noteq> None), tn_wire = snd sent, tn_model = m, tn_files = fs\<rparr>
      else if fm_type msg = MtRegister then handle_register rs cur m fs msg
      else bindR (dispatch rs env m fs msg) (\<lambda>(ok, wire, m', fs').
        Inr \<lparr>tn_conn = unless_blocked (ok, wire) (if ok = Some True then Serving cur else Closed), tn_stop = (ok = Some False),
             tn_wire = wire, tn_model = m', tn_files = fs'\<rparr>))"

section \<open>A connection on its own\<close>

text \<open>Every message taken from the stream shortens what is left of it.\<close>

lemma decode_consumes: "decodeFrame buf = (Some m, err, n) \<Longrightarrow> 0 < n \<and> n \<le> length buf"
  by (auto simp: decodeFrame_def kHeaderLen_def kChecksumLen_def Let_def split: if_splits)

lemma pop_consumes: "fb_pop buf = (Some m, err, buf') \<Longrightarrow> length buf' < length buf"
  by (auto simp: fb_pop_def split: prod.splits option.splits if_splits dest!: decode_consumes)

lemma pop_shrinks: "fb_pop buf = (None, err, buf') \<Longrightarrow> length buf' \<le> length buf"
  by (auto simp: fb_pop_def split: prod.splits option.splits if_splits)

lemma recv_consumes:
  "recvFrame rs buf = (Received m, buf', rs') \<Longrightarrow>
     length buf' + length (rs_data rs') < length buf + length (rs_data rs)"
proof (induction rs buf rule: recvFrame.induct)
  case (1 rs buf)
  obtain x err b where p: "fb_pop buf = (x, err, b)" by (cases "fb_pop buf")
  show ?case
  proof (cases x)
    case None
    then have b: "length b \<le> length buf" using pop_shrinks p by simp
    show ?thesis
    proof (cases rs)
      case (Cons r rs2)
      then show ?thesis
        using 1 p None b by (cases r) (fastforce simp: recvFrame.simps [of "_ # _"] fb_append_def split: if_splits)+
    qed (use 1 p None in \<open>simp add: recvFrame.simps split: if_splits\<close>)
  qed (use 1 p pop_consumes in \<open>simp add: recvFrame.simps\<close>)
qed

text \<open>
  The whole loop, for one connection with the model to itself: \<open>env k\<close> are the results of the socket and of
  writing a file in turn \<open>k\<close>. The result is the state in which the connection is over, the thread is blocked in a send, or the
  input is used up and the thread waits for more.
\<close>

function handleConnection :: "(nat \<Rightarrow> SendResult list \<times> WriteEnv) \<Rightarrow> nat \<Rightarrow> RecvResult list \<Rightarrow> bytes \<Rightarrow>
    WorkerId \<Rightarrow> CapacityModel \<Rightarrow> files \<Rightarrow> fault + Turn" where
  "handleConnection env k rs buf cur m fs =
     (case recvFrame rs buf of
        (Received msg, buf', rs') \<Rightarrow>
          bindR (handle_frame (fst (env k)) (snd (env k)) cur m fs msg) (\<lambda>t.
            case tn_conn t of
              Closed \<Rightarrow> Inr t
            | Blocked \<Rightarrow> Inr t
            | Serving cur' \<Rightarrow>
                bindR (handleConnection env (Suc k) rs' buf' cur' (tn_model t) (tn_files t)) (\<lambda>t'.
                  Inr (t'\<lparr>tn_wire := tn_wire t @ tn_wire t'\<rparr>)))
      | (StillWaiting, buf', rs') \<Rightarrow>
          Inr \<lparr>tn_conn = Serving cur, tn_stop = False, tn_wire = [], tn_model = m, tn_files = fs\<rparr>
      | (_, buf', rs') \<Rightarrow> Inr (handle_lost cur m fs))"
  by pat_completeness auto

termination
  by (relation "measure (\<lambda>(env, k, rs, buf, cur, m, fs). length buf + length (rs_data rs))")
    (auto dest!: recv_consumes [OF sym])

declare handleConnection.simps [simp del]

section \<open>What a message can do\<close>

lemma on_read_Inr: "on_read rd p none some = Inr y \<longleftrightarrow>
    (rd p = Inr None \<and> none = Inr y) \<or> (\<exists>x rest. rd p = Inr (Some (x, rest)) \<and> some x = Inr y)"
  by (auto simp: on_read_def bindR_def split: sum.splits option.splits)

lemma length_flag [simp]: "length (flagPayload ok) = 1" "length rejectPayload = 1"
  by (simp_all add: flagPayload_def okPayload_def rejectPayload_def)

lemma length_writeCapacity: "length (writeCapacity c) = 4 + 9 * om_size c"
proof -
  have "length (concat (map (\<lambda>(d, v). writeU8 (dim_code d) @ writeF64 v) xs)) = 9 * length xs" for xs
    by (induction xs) auto
  then show ?thesis by (simp add: writeCapacity_def om_size_def)
qed

text \<open>The effects a message may have on the model, one operation at most.\<close>

definition msg_effect :: "CapacityModel \<Rightarrow> CapacityModel \<Rightarrow> bool" where
  "msg_effect m m' \<longleftrightarrow> m' = m \<or> unloaded_step m m'"

lemma effect_intros:
  "publishResource m r = Inr (ok, m') \<Longrightarrow> msg_effect m m'"
  "msg_effect m (snd (publishReservation m res))"
  "msg_effect m (snd (publishRelease m rel))"
  "msg_effect m (snd (advanceResourceGeneration m i))"
  "msg_effect m (snd (registerWorker m w b))"
  "msg_effect m (markWorkerDead m w)" "msg_effect m m"
  unfolding msg_effect_def unloaded_step_def by (metis model_step.intros prod.collapse ModelOp.disc)+

text \<open>A good answer to a message.\<close>

definition answers :: "FramedMessage \<Rightarrow> CapacityModel \<Rightarrow> files \<Rightarrow> FramedMessage option \<Rightarrow> CapacityModel \<Rightarrow> files \<Rightarrow> bool" where
  "answers msg m fs out m' fs' \<longleftrightarrow>
     (out = None \<longleftrightarrow> fm_type msg = MtShutdown) \<and>
     (\<forall>f. out = Some f \<longrightarrow> fm_seq f = fm_seq msg \<and> fm_type f \<in> {fm_type msg, MtError} \<and> payload_fits f \<and>
        (fm_type f = MtError \<longrightarrow> m' = m \<and> fs' = fs)) \<and>
     (fm_type msg \<notin> {MtPublishResource, MtPublishReservation, MtPublishRelease, MtAdvanceGeneration} \<longrightarrow> m' = m) \<and>
     (fm_type msg \<noteq> MtSave \<longrightarrow> fs' = fs) \<and> msg_effect m m'"

lemma answers_reply:
  assumes "fm_type msg \<noteq> MtShutdown" and "length pl \<le> kMaxFramePayload"
    and "t \<in> {fm_type msg, MtError}" and "t = MtError \<longrightarrow> m' = m \<and> fs' = fs"
    and "fm_type msg \<in> {MtPublishResource, MtPublishReservation, MtPublishRelease, MtAdvanceGeneration} \<or> m' = m"
    and "fm_type msg = MtSave \<or> fs' = fs" and "msg_effect m m'"
  shows "answers msg m fs (Some (reply_frame t (fm_seq msg) pl)) m' fs'"
  using assms by (auto simp: answers_def reply_frame_def payload_fits_def)

lemma reply_lengths:
  "length (capacity_reply mode t c) \<le> kMaxFramePayload" "length (feasibility_reply fr) \<le> kMaxFramePayload"
  "length (earliest_reply e) \<le> kMaxFramePayload" "length (headroom_reply h) \<le> kMaxFramePayload"
  "length (flagPayload ok) \<le> kMaxFramePayload" "length rejectPayload \<le> kMaxFramePayload"
  "length (writeU64 v) \<le> kMaxFramePayload"
  using om_size_Dimension [of c]
  by (simp_all add: kMaxFramePayload_def capacity_reply_def feasibility_reply_def earliest_reply_def headroom_reply_def
      length_writeCapacity)

lemma dispatch_reply_answers:
  assumes "dispatch_reply env m fs msg = Inr (out, m', fs')"
  shows "answers msg m fs out m' fs'"
proof (cases "fm_type msg = MtShutdown")
  case True
  then show ?thesis using assms by (simp add: dispatch_reply_def Let_def answers_def effect_intros)
next
  case False
  then show ?thesis
    using assms unfolding dispatch_reply_def Let_def
    by (auto simp: on_read_Inr case_prod_beta intro!: answers_reply reply_lengths effect_intros(2-4,7) dest: effect_intros(1)
        split: if_splits)
qed

section \<open>Turns\<close>

lemma dispatch_Inr:
  assumes "dispatch rs env m fs msg = Inr (ok, wire, m', fs')"
  shows "\<exists>out. dispatch_reply env m fs msg = Inr (out, m', fs') \<and>
     (ok, wire) = (case out of None \<Rightarrow> (Some False, []) | Some f \<Rightarrow> reply rs f)"
proof (cases "dispatch_reply env m fs msg")
  case (Inr y)
  obtain out m1 fs1 where y: "y = (out, m1, fs1)" by (cases y)
  then show ?thesis using assms Inr by (cases out; cases "reply rs (the out)") (simp_all add: dispatch_def)
qed (use assms in \<open>simp add: dispatch_def\<close>)

lemma handle_frame_dispatch:
  assumes "handle_frame rs env cur m fs msg = Inr t" and "fm_type msg \<notin> {MtShutdown, MtRegister}"
  shows "\<exists>f. dispatch_reply env m fs msg = Inr (Some f, tn_model t, tn_files t) \<and> tn_wire t = snd (reply rs f) \<and>
     tn_stop t = (fst (reply rs f) = Some False) \<and>
     tn_conn t = unless_blocked (reply rs f) (if fst (reply rs f) = Some True then Serving cur else Closed)"
proof -
  obtain ok wire m' fs' where d: "dispatch rs env m fs msg = Inr (ok, wire, m', fs')"
    and t: "t = \<lparr>tn_conn = unless_blocked (ok, wire) (if ok = Some True then Serving cur else Closed), tn_stop = (ok = Some False),
       tn_wire = wire, tn_model = m', tn_files = fs'\<rparr>"
    using assms by (auto simp: handle_frame_def)
  from d obtain out where o: "dispatch_reply env m fs msg = Inr (out, m', fs')"
      "(ok, wire) = (case out of None \<Rightarrow> (Some False, []) | Some f \<Rightarrow> reply rs f)"
    using dispatch_Inr by blast
  moreover have "out \<noteq> None" using dispatch_reply_answers [OF o(1)] assms(2) by (simp add: answers_def)
  ultimately obtain f where "out = Some f" "reply rs f = (ok, wire)" by (cases out) simp_all
  then show ?thesis using o(1) by (simp add: t)
qed

lemma handle_frame_register:
  assumes "handle_frame rs env cur m fs msg = Inr t" and "fm_type msg = MtRegister"
  shows "msg_effect m (tn_model t)" "\<not> tn_stop t"
  using assms by (auto simp: handle_frame_def handle_register_def on_read_Inr Let_def case_prod_beta intro: effect_intros)

lemma handle_frame_shutdown:
  "fm_type msg = MtShutdown \<Longrightarrow> handle_frame rs env cur m fs msg =
     (let sent = reply rs (reply_frame MtShutdown (fm_seq msg) [1])
      in Inr \<lparr>tn_conn = unless_blocked sent Closed, tn_stop = (fst sent \<noteq> None), tn_wire = snd sent, tn_model = m, tn_files = fs\<rparr>)"
  by (simp add: handle_frame_def)

lemma handle_frame_effect:
  assumes "handle_frame rs env cur m fs msg = Inr t"
  shows "msg_effect m (tn_model t)"
proof (cases "fm_type msg \<in> {MtShutdown, MtRegister}")
  case True
  then show ?thesis
    using assms handle_frame_register(1) [OF assms] by (auto simp: handle_frame_shutdown effect_intros Let_def)
next
  case False
  then show ?thesis
    using handle_frame_dispatch [OF assms] dispatch_reply_answers by (auto simp: answers_def)
qed

lemma handle_lost_effect: "msg_effect m (tn_model (handle_lost cur m fs))"
  by (simp add: handle_lost_def effect_intros)

lemma reply_answer:
  "fst (reply rs f) = Some True \<longleftrightarrow> fst (sendFrame rs f) = SendDone"
  "fst (reply rs f) = Some False \<longleftrightarrow> fst (sendFrame rs f) = SendFailed"
  "fst (reply rs f) = None \<longleftrightarrow> fst (sendFrame rs f) = SendPending"
  "snd (reply rs f) = snd (sendFrame rs f)"
  by (simp_all add: reply_def case_prod_beta split: SendOutcome.split)

text \<open>The two ways in which a turn ends the whole service: a shutdown whose reply is over, and an answer that could not be sent.\<close>

lemma handle_frame_stop:
  assumes "handle_frame rs env cur m fs msg = Inr t"
  shows "tn_stop t \<longleftrightarrow>
     fm_type msg = MtShutdown \<and> fst (sendFrame rs (reply_frame MtShutdown (fm_seq msg) [1])) \<noteq> SendPending \<or>
     fm_type msg \<notin> {MtShutdown, MtRegister} \<and>
     (\<exists>out m' fs'. dispatch_reply env m fs msg = Inr (Some out, m', fs') \<and> fst (sendFrame rs out) = SendFailed)"
proof (cases "fm_type msg \<in> {MtShutdown, MtRegister}")
  case True
  then show ?thesis
    using assms handle_frame_register(2) [OF assms] by (auto simp: handle_frame_shutdown Let_def reply_answer simp del: not_None_eq)
next
  case False
  then show ?thesis
    using handle_frame_dispatch [OF assms] by (auto simp: reply_answer)
qed

text \<open>A turn leaves its thread blocked only in the send of its reply.\<close>

lemma handle_frame_blocked:
  assumes "handle_frame rs env cur m fs msg = Inr t" and "tn_conn t = Blocked"
  shows "\<exists>f. fst (sendFrame rs f) = SendPending"
proof -
  have "\<exists>f. \<exists>c \<in> {Closed} \<union> range Serving. tn_conn t = unless_blocked (reply rs f) c"
  proof (cases "fm_type msg \<in> {MtShutdown, MtRegister}")
    case True
    then show ?thesis
      using assms(1)
      by (auto simp: handle_frame_def handle_register_def on_read_Inr Let_def case_prod_beta split: if_splits) blast+
  next
    case False
    from handle_frame_dispatch [OF assms(1) this] show ?thesis by (auto split: if_splits)
  qed
  then show ?thesis using assms(2) by (auto simp: unless_blocked_def reply_answer split: if_splits)
qed

section \<open>The input of a connection\<close>

definition ends :: "RecvResult list \<Rightarrow> bool" where
  "ends rs \<longleftrightarrow> RecvClosed \<in> set rs \<or> RecvFailed \<in> set rs"

lemma recv_ends:
  "recvFrame rs buf = (res, buf', rs') \<Longrightarrow> ends rs \<Longrightarrow> res \<noteq> StillWaiting \<and> (\<forall>m. res = Received m \<longrightarrow> ends rs')"
proof (induction rs buf rule: recvFrame.induct)
  case (1 rs buf)
  obtain x err b where p: "fb_pop buf = (x, err, b)" by (cases "fb_pop buf")
  show ?case
  proof (cases x)
    case None
    show ?thesis
    proof (cases rs)
      case (Cons r rs2)
      then show ?thesis
        using 1 p None by (cases r) (fastforce simp: recvFrame.simps [of "_ # _"] ends_def split: if_splits)+
    qed (use 1 in \<open>simp add: ends_def\<close>)
  qed (use 1(3,4) p in \<open>auto simp: recvFrame.simps [of rs]\<close>)
qed

lemma effect_run: "msg_effect m m' \<Longrightarrow> unloaded_step\<^sup>*\<^sup>* m m'"
  by (auto simp: msg_effect_def)

text \<open>How a connection whose input ends is left: closed, or blocked in the send of one of its turns.\<close>

definition left_behind :: "(nat \<Rightarrow> SendResult list \<times> WriteEnv) \<Rightarrow> CapacityModel \<Rightarrow> Turn \<Rightarrow> bool" where
  "left_behind env m t \<longleftrightarrow> unloaded_step\<^sup>*\<^sup>* m (tn_model t) \<and>
     (tn_conn t = Closed \<or> tn_conn t = Blocked \<and> (\<exists>k f. fst (sendFrame (fst (env k)) f) = SendPending))"

lemma connection_run:
  "ends rs \<Longrightarrow> (case handleConnection env k rs buf cur m fs of
       Inl f \<Rightarrow> \<exists>k' cur' m' fs' msg. handle_frame (fst (env k')) (snd (env k')) cur' m' fs' msg = Inl f
     | Inr t \<Rightarrow> left_behind env m t)"
proof (induction env k rs buf cur m fs rule: handleConnection.induct)
  case (1 env k rs buf cur m fs)
  obtain res buf' rs' where r: "recvFrame rs buf = (res, buf', rs')" by (cases "recvFrame rs buf")
  note e = recv_ends [OF r 1(2)]
  show ?case
  proof (cases res)
    case (Received msg)
    show ?thesis
    proof (cases "handle_frame (fst (env k)) (snd (env k)) cur m fs msg")
      case (Inl f)
      then have "handleConnection env k rs buf cur m fs = Inl f" using r Received by (simp add: handleConnection.simps [of env k rs])
      then show ?thesis using Inl by (simp only: sum.case) blast
    next
      case (Inr t)
      note eff = effect_run [OF handle_frame_effect [OF Inr]]
      show ?thesis
      proof (cases "tn_conn t")
        case (Serving c)
        let ?rest = "handleConnection env (Suc k) rs' buf' c (tn_model t) (tn_files t)"
        have h: "handleConnection env k rs buf cur m fs = bindR ?rest (\<lambda>t'. Inr (t'\<lparr>tn_wire := tn_wire t @ tn_wire t'\<rparr>))"
          using r Received Inr Serving by (simp add: handleConnection.simps [of env k rs])
        have "case ?rest of Inl f \<Rightarrow> \<exists>k' cur' m' fs' msg. handle_frame (fst (env k')) (snd (env k')) cur' m' fs' msg = Inl f
            | Inr t' \<Rightarrow> left_behind env (tn_model t) t'"
          using 1(1) [OF r [symmetric]] r Received Inr Serving e by auto
        then show ?thesis using eff by (auto simp: h left_behind_def split: sum.splits intro: rtranclp_trans)
      next
        case Blocked
        then have "left_behind env m t" using eff handle_frame_blocked [OF Inr] by (auto simp: left_behind_def)
        then show ?thesis using r Received Inr Blocked by (simp add: handleConnection.simps [of env k rs])
      qed (use r Received Inr eff in \<open>simp add: handleConnection.simps [of env k rs] left_behind_def\<close>)
    qed
  qed (use r e effect_run [OF handle_lost_effect] in \<open>auto simp: handleConnection.simps [of env k rs] handle_lost_def left_behind_def\<close>)
qed

lemma rd_pair_write:
  "m (a @ rest) = Inr (Some (x, rest)) \<Longrightarrow> n rest = Inr (Some (y, rest')) \<Longrightarrow>
     rd_pair m n (a @ rest) = Inr (Some ((x, y), rest'))"
  by (simp add: rd_pair_def rd_bind_app)

lemma query_payload:
  "in_i64 t \<Longrightarrow> rd_pair readU8 readI64 (writeU8 mode @ writeI64 t) = Inr (Some ((mode, t), []))"
  using u8_codec.read_write [of mode "writeI64 t"] i64_codec.read_write [of t "[]"] by (simp add: rd_pair_write)

section \<open>Properties\<close>

text \<open>
  Every message is answered in kind. Unless the message is a shutdown, a dispatch that does not throw
  answers once, with the sequence number of the request, its type or Error, and a payload that fits in a
  frame; an Error answer changes nothing. Only publications and generation advances change the model, by
  at most one of its operations, and only a save touches the files.
\<close>

theorem dispatch_answers:
  assumes "dispatch_reply env m fs msg = Inr (out, m', fs')"
  shows "(out = None \<longleftrightarrow> fm_type msg = MtShutdown) \<and>
     (\<forall>f. out = Some f \<longrightarrow> fm_seq f = fm_seq msg \<and> fm_type f \<in> {fm_type msg, MtError} \<and>
        length (fm_payload f) \<le> kMaxFramePayload \<and> (fm_type f = MtError \<longrightarrow> m' = m \<and> fs' = fs)) \<and>
     (fm_type msg \<notin> {MtPublishResource, MtPublishReservation, MtPublishRelease, MtAdvanceGeneration} \<longrightarrow> m' = m) \<and>
     (fm_type msg \<noteq> MtSave \<longrightarrow> fs' = fs) \<and> (m' = m \<or> (\<exists>op ok. model_step m op ok m' \<and> \<not> is_load op))"
  using dispatch_reply_answers [OF assms]
  by (simp add: answers_def payload_fits_def msg_effect_def unloaded_step_def)

theorem dispatch_answers_witness:
  "\<exists>f. dispatch_reply WriteOk CapacityModel_new (\<lambda>_. None) (reply_frame MtRevalidate 9 []) = Inr (Some f, CapacityModel_new, \<lambda>_. None) \<and>
     fm_seq f = 9"
proof -
  have "dispatch_reply WriteOk CapacityModel_new (\<lambda>_. None) (reply_frame MtRevalidate 9 []) =
      Inr (Some (reply_frame MtError 9 rejectPayload), CapacityModel_new, \<lambda>_. None)"
    by (simp add: dispatch_reply_def reply_frame_def)
  from dispatch_answers [OF this] this show ?thesis by (simp add: reply_frame_def)
qed

text \<open>
  C27. A remote query is the query. For a demand whose requirements can be written to the wire, the answer to
  a query message is the encoding of what the model answers to the transmitted demand (the demand less the
  constraints the format drops), with the mode and times of the message, and nothing changes; when the
  query throws, so does the dispatch.
\<close>

theorem remote_queries:
  assumes "capacity_wire (dm_requirements d)" and "in_i64 t" "in_i64 dur" "in_i64 hor"
  shows "dispatch_reply env m fs (reply_frame MtQueryCapacity seq (writeU8 mode @ writeI64 t)) =
       bindR (queryCapacity m (QueryMode mode) t) (\<lambda>c.
         Inr (Some (reply_frame MtQueryCapacity seq (writeU8 mode @ writeI64 t @ writeCapacity c)), m, fs)) \<and>
     dispatch_reply env m fs (reply_frame MtQueryFeasibility seq (writeDemand d @ writeU8 mode @ writeI64 t)) =
       bindR (queryFeasibility m (demand_image d) (QueryMode mode) t) (\<lambda>fr.
         Inr (Some (reply_frame MtQueryFeasibility seq (feasibility_reply fr)), m, fs)) \<and>
     dispatch_reply env m fs (reply_frame MtQueryEarliestFit seq
         (writeDemand d @ writeI64 t @ writeI64 dur @ writeI64 hor @ writeU8 mode)) =
       bindR (queryEarliestFit m (demand_image d) (QueryMode mode) t dur hor) (\<lambda>e.
         Inr (Some (reply_frame MtQueryEarliestFit seq (earliest_reply e)), m, fs)) \<and>
     dispatch_reply env m fs (reply_frame MtQueryHeadroom seq (writeDemand d)) =
       bindR (queryHeadroom m (demand_image d) Conservative) (\<lambda>h.
         Inr (Some (reply_frame MtQueryHeadroom seq (headroom_reply h)), m, fs))"
proof (intro conjI)
  note rd = demand_format.read_image [OF assms(1)]
  have e: "rd_pair readDemand (rd_pair readI64 (rd_pair readI64 (rd_pair readI64 readU8)))
      (writeDemand d @ writeI64 t @ writeI64 dur @ writeI64 hor @ writeU8 mode) =
      Inr (Some ((demand_image d, t, dur, hor, mode), []))"
    using rd i64_codec.read_write assms(2-4) u8_codec.read_write [of mode "[]"] by (simp add: rd_pair_write)
  have f: "rd_pair readDemand (rd_pair readU8 readI64) (writeDemand d @ writeU8 mode @ writeI64 t) =
      Inr (Some ((demand_image d, mode, t), []))"
    using rd query_payload [OF assms(2), of mode] by (simp add: rd_pair_write)
  show "dispatch_reply env m fs (reply_frame MtQueryCapacity seq (writeU8 mode @ writeI64 t)) =
       bindR (queryCapacity m (QueryMode mode) t) (\<lambda>c.
         Inr (Some (reply_frame MtQueryCapacity seq (writeU8 mode @ writeI64 t @ writeCapacity c)), m, fs))"
    using query_payload [OF assms(2), of mode] by (simp add: dispatch_reply_def reply_frame_def on_read_def capacity_reply_def)
  show "dispatch_reply env m fs (reply_frame MtQueryFeasibility seq (writeDemand d @ writeU8 mode @ writeI64 t)) =
       bindR (queryFeasibility m (demand_image d) (QueryMode mode) t) (\<lambda>fr.
         Inr (Some (reply_frame MtQueryFeasibility seq (feasibility_reply fr)), m, fs))"
    using f by (simp add: dispatch_reply_def reply_frame_def on_read_def)
  show "dispatch_reply env m fs (reply_frame MtQueryEarliestFit seq
         (writeDemand d @ writeI64 t @ writeI64 dur @ writeI64 hor @ writeU8 mode)) =
       bindR (queryEarliestFit m (demand_image d) (QueryMode mode) t dur hor) (\<lambda>e.
         Inr (Some (reply_frame MtQueryEarliestFit seq (earliest_reply e)), m, fs))"
    using e by (simp add: dispatch_reply_def reply_frame_def on_read_def)
  show "dispatch_reply env m fs (reply_frame MtQueryHeadroom seq (writeDemand d)) =
       bindR (queryHeadroom m (demand_image d) Conservative) (\<lambda>h.
         Inr (Some (reply_frame MtQueryHeadroom seq (headroom_reply h)), m, fs))"
    using rd [of "[]"] by (simp add: dispatch_reply_def reply_frame_def on_read_def)
qed

theorem remote_queries_witness:
  "dispatch_reply WriteOk CapacityModel_new (\<lambda>_. None) (reply_frame MtQueryFeasibility 9
       (writeDemand WorkloadDemand_default @ writeU8 2 @ writeI64 5)) =
     bindR (queryFeasibility CapacityModel_new (demand_image WorkloadDemand_default) Expected 5) (\<lambda>fr.
       Inr (Some (reply_frame MtQueryFeasibility 9 (feasibility_reply fr)), CapacityModel_new, \<lambda>_. None))"
proof -
  have "capacity_wire (dm_requirements WorkloadDemand_default)"
    by (simp add: WorkloadDemand_default_def capacity_wire_def)
  from remote_queries [OF this, where t = 5 and dur = 0 and hor = 0] show ?thesis by (simp add: in_i64_def i64_min_def i64_max_def)
qed

text \<open>
  C28. How a connection ends. Whatever arrives, however it is cut and whatever the socket and the files do, when the input ends in
  a close or a failed read the connection does not stay in its loop: either the loop returns with the connection closed, or an
  exception left one of its turns, or its thread is blocked in the send of one of its turns, which never returned. In the first and
  the last case the model has gone through some of its operations, no load among them.
\<close>

theorem connection_terminates:
  assumes "RecvClosed \<in> set rs \<or> RecvFailed \<in> set rs"
  shows "case handleConnection env k rs buf cur m fs of
       Inl f \<Rightarrow> \<exists>k' cur' m' fs' msg. handle_frame (fst (env k')) (snd (env k')) cur' m' fs' msg = Inl f
     | Inr t \<Rightarrow> unloaded_step\<^sup>*\<^sup>* m (tn_model t) \<and>
         (tn_conn t = Closed \<or> tn_conn t = Blocked \<and> (\<exists>k' f. fst (sendFrame (fst (env k')) f) = SendPending))"
  using connection_run [where env = env and k = k and rs = rs and buf = buf and cur = cur and m = m and fs = fs] assms unfolding ends_def left_behind_def by blast

theorem connection_terminates_witness:
  "\<exists>t. handleConnection (\<lambda>_. ([], WriteOk)) 0 [RecvClosed] [] (StrongId 3) CapacityModel_new (\<lambda>_. None) = Inr t \<and>
     tn_conn t = Closed"
proof -
  have "handleConnection (\<lambda>_. ([], WriteOk)) 0 [RecvClosed] [] (StrongId 3) CapacityModel_new (\<lambda>_. None) =
      Inr (handle_lost (StrongId 3) CapacityModel_new (\<lambda>_. None))"
    by (simp add: handleConnection.simps recvFrame.simps fb_pop_def decodeFrame_def kHeaderLen_def)
  then show ?thesis
    using connection_terminates [where rs = "[RecvClosed]" and env = "\<lambda>_. ([], WriteOk)" and k = 0 and buf = "[]"
        and cur = "StrongId 3" and m = CapacityModel_new and fs = "\<lambda>_. None"]
    by (simp add: handle_lost_def)
qed

text \<open>
  C32. A rejected registration still silences the live worker. While a worker's boot is live, a client that
  connects, tries to register another boot of that worker, is rejected, and disconnects, leaves the worker
  dead: no resource of it is current any more, although the rejected boot gained nothing. The send of the rejection has to
  return, with success or without; a client that goes away makes it return.
\<close>

theorem rejected_registration_silences:
  assumes "isFreshBoot m w b" and "sid_valid w" and "c \<noteq> b"
    and "encodeFrame (reply_frame MtRegister seq (writeU64 (sid_value w) @ writeU64 (sid_value c))) = (True, bs, NoError)"
    and "fst (sendFrame (fst (env k)) (reply_frame MtRegister seq [0])) \<noteq> SendPending"
  shows "registerWorker m w c = (False, m) \<and>
     (\<exists>t. handleConnection env k [RecvData bs, RecvClosed] [] sid_default m fs = Inr t \<and>
        tn_conn t = Closed \<and> tn_model t = markWorkerDead m w \<and>
        \<not> workerAlive (tn_model t) w \<and> (\<forall>r. res_worker r = w \<longrightarrow> \<not> resource_current (tn_model t) r))"
proof -
  let ?msg = "reply_frame MtRegister seq (writeU64 (sid_value w) @ writeU64 (sid_value c))"
  have fits: "payload_fits ?msg" by (simp add: payload_fits_def reply_frame_def kMaxFramePayload_def)
  then have bs: "bs = frame_of ?msg" using assms(4) encodeFrame_of by simp
  have rej: "registerWorker m w c = (False, m)"
    using assms(1,3) by (auto simp: registerWorker_def isFreshBoot_def split: option.splits)
  have rd: "rd_pair readU64 readU64 (writeU64 (sid_value w) @ writeU64 (sid_value c)) = Inr (Some ((sid_value w, sid_value c), []))"
    using u64_codec.read_write [of "sid_value c" "[]"] u64_codec.read_write [of "sid_value w" "writeU64 (sid_value c)"]
    by (simp add: rd_pair_write)
  have "recvFrame [RecvData bs, RecvClosed] [] = (Received ?msg, [], [RecvClosed])"
    using pop_frame [OF fits, of "[]"] by (simp add: bs recvFrame.simps fb_pop_def [of "[]"] decodeFrame_def [of "[]"] kHeaderLen_def fb_append_def)
  moreover have "recvFrame [RecvClosed] [] = (PeerClosed, [], [])"
    by (simp add: recvFrame.simps fb_pop_def decodeFrame_def kHeaderLen_def)
  moreover obtain wire where "handle_frame (fst (env k)) (snd (env k)) sid_default m fs ?msg =
      Inr \<lparr>tn_conn = Serving w, tn_stop = False, tn_wire = wire, tn_model = m, tn_files = fs\<rparr>"
    using rd rej assms(5)
    by (simp add: handle_frame_def handle_register_def reply_frame_def on_read_def Let_def unless_blocked_def reply_answer
        flagPayload_def rejectPayload_def)
  ultimately have "\<exists>t. handleConnection env k [RecvData bs, RecvClosed] [] sid_default m fs = Inr t \<and>
      tn_conn t = Closed \<and> tn_model t = markWorkerDead m w"
    using assms(2) by (subst handleConnection.simps)
      (simp add: handleConnection.simps [of env "Suc k"] handle_lost_def)
  moreover have "\<not> resource_current (markWorkerDead m w) r" if "res_worker r = w" for r
    using that dead_not_alive [of m w] fresh_alive by (auto simp: resource_current_def)
  ultimately show ?thesis using rej dead_not_alive [of m w] by auto
qed

theorem rejected_registration_silences_witness:
  "\<exists>bs t. encodeFrame (reply_frame MtRegister 1 (writeU64 3 @ writeU64 8)) = (True, bs, NoError) \<and>
     handleConnection (\<lambda>_. ([SendError], WriteOk)) 0 [RecvData bs, RecvClosed] [] sid_default ex_model (\<lambda>_. None) = Inr t \<and>
     workerAlive ex_model (StrongId 3) \<and> \<not> workerAlive (tn_model t) (StrongId 3)"
proof -
  have live: "isFreshBoot ex_model (StrongId 3) (StrongId 7)" by (simp add: isFreshBoot_def ex_model_sources)
  have e: "encodeFrame (reply_frame MtRegister 1 (writeU64 3 @ writeU64 8)) =
      (True, frame_of (reply_frame MtRegister 1 (writeU64 3 @ writeU64 8)), NoError)"
    by (rule encodeFrame_of) (simp add: payload_fits_def reply_frame_def kMaxFramePayload_def)
  have "fst (sendFrame [SendError] f) \<noteq> SendPending" for f
    by (cases "fst (snd (encodeFrame f))") (simp_all add: sendFrame_def case_prod_beta)
  with rejected_registration_silences [OF live, of "StrongId 8" 1 _ "\<lambda>_. ([SendError], WriteOk)" 0 "\<lambda>_. None"] e fresh_alive [OF live]
  show ?thesis by (auto simp: sid_valid_def kInvalidId_def)
qed

end
