(* ===== verification/Server.thy ===== *)
theory Server
  imports Coordinator
begin

text \<open>
  The coordinator as a whole (\<open>coordinator/coordinator.cpp\<close>, \<open>tools/coordinator_main.cpp\<close>): the accept loop, the
  handler threads, which share one model, and the owner that starts, stops and destroys it. A turn of a
  connection is one step: the threads meet only in the model, whose operations are atomic, and in the
  atomic flags, and each turn calls at most one operation. The locale \<open>simulation\<close> is the argument by which
  the service refines the sequential model.
\<close>

section \<open>State\<close>

definition kMaxConcurrentConnections :: nat where "kMaxConcurrentConnections = 32"

text \<open>The accept loop is not started, blocked in \<open>accept\<close>, or over.\<close>

datatype Acceptor = NotStarted | Accepting | LoopOver

text \<open>
  \<open>sv_conns\<close> has the connections that are being served, each with the worker it last registered; the threads of those in
  \<open>sv_stuck\<close> are blocked in a send that never returns, so they take no turn and never give back their slot.
\<close>

text \<open>The owner has not called \<open>start\<close>, is running, is inside \<open>stop\<close>, has returned from it, or has destroyed the object.\<close>

datatype Owner = OwnerIdle | OwnerRunning | OwnerStopping | OwnerStopped | OwnerDone

record Server =
  sv_model :: CapacityModel
  sv_files :: files
  sv_running :: bool
  sv_listening :: bool
  sv_acceptor :: Acceptor
  sv_acceptJoinable :: bool
  sv_conns :: "nat \<Rightarrow> WorkerId option"
  sv_stuck :: "nat set"
  sv_active :: nat
  sv_handlers :: nat
  sv_owner :: Owner
  sv_aborted :: bool

definition Server_new :: "CapacityModel \<Rightarrow> files \<Rightarrow> Server" where
  "Server_new m fs = \<lparr>sv_model = m, sv_files = fs, sv_running = False, sv_listening = False, sv_acceptor = NotStarted,
     sv_acceptJoinable = False, sv_conns = (\<lambda>_. None), sv_stuck = {}, sv_active = 0, sv_handlers = 0, sv_owner = OwnerIdle,
     sv_aborted = False\<rparr>"

section \<open>Operations\<close>

text \<open>\<open>start\<close>: \<open>bound\<close> says whether the port could be bound.\<close>

definition srv_start :: "bool \<Rightarrow> Server \<Rightarrow> bool \<times> Server" where
  "srv_start bound s =
     (if \<not> bound then (False, s\<lparr>sv_owner := OwnerStopped\<rparr>)
      else (True, s\<lparr>sv_listening := True, sv_running := True, sv_acceptor := Accepting, sv_acceptJoinable := True,
                    sv_owner := OwnerRunning\<rparr>))"

text \<open>The head of the accept loop, after each return of \<open>accept\<close>.\<close>

definition srv_loop_head :: "Server \<Rightarrow> Server" where
  "srv_loop_head s = s\<lparr>sv_acceptor := (if sv_running s then Accepting else LoopOver)\<rparr>"

text \<open>\<open>accept\<close> returned a connection, here under the name \<open>c\<close>.\<close>

definition srv_accept :: "nat \<Rightarrow> Server \<Rightarrow> Server" where
  "srv_accept c s =
     srv_loop_head
       (if kMaxConcurrentConnections \<le> sv_active s then s
        else s\<lparr>sv_active := sv_active s + 1, sv_handlers := sv_handlers s + 1,
               sv_conns := (sv_conns s)(c \<mapsto> sid_default)\<rparr>)"

definition srv_acceptFailed :: "Server \<Rightarrow> Server" where
  "srv_acceptFailed s = srv_loop_head s"

text \<open>A turn of the connection \<open>c\<close> has this result; a handler that returns gives its slot back.\<close>

definition srv_turn :: "nat \<Rightarrow> Turn \<Rightarrow> Server \<Rightarrow> Server" where
  "srv_turn c t s =
     (let s1 = s\<lparr>sv_model := tn_model t, sv_files := tn_files t, sv_running := sv_running s \<and> \<not> tn_stop t\<rparr>
      in case tn_conn t of
           Serving w \<Rightarrow> s1\<lparr>sv_conns := (sv_conns s)(c \<mapsto> w)\<rparr>
         | Blocked \<Rightarrow> s1\<lparr>sv_stuck := insert c (sv_stuck s)\<rparr>
         | Closed \<Rightarrow> s1\<lparr>sv_conns := (sv_conns s)(c := None), sv_active := sv_active s - 1\<rparr>)"

text \<open>An exception that leaves the handler's thread terminates the process.\<close>

definition srv_frame :: "SendResult list \<Rightarrow> WriteEnv \<Rightarrow> nat \<Rightarrow> WorkerId \<Rightarrow> FramedMessage \<Rightarrow> Server \<Rightarrow> Server" where
  "srv_frame rs env c cur msg s =
     (case handle_frame rs env cur (sv_model s) (sv_files s) msg of
        Inl f \<Rightarrow> s\<lparr>sv_aborted := True\<rparr>
      | Inr t \<Rightarrow> srv_turn c t s)"

definition srv_lost :: "nat \<Rightarrow> WorkerId \<Rightarrow> Server \<Rightarrow> Server" where
  "srv_lost c cur s = srv_turn c (handle_lost cur (sv_model s) (sv_files s)) s"

text \<open>\<open>stop\<close> up to its first join, and from the last one on.\<close>

definition srv_stop :: "Server \<Rightarrow> Server" where
  "srv_stop s =
     (if \<not> sv_running s then s\<lparr>sv_owner := OwnerStopped\<rparr>
      else s\<lparr>sv_running := False, sv_listening := False, sv_owner := OwnerStopping\<rparr>)"

definition srv_joined :: "Server \<Rightarrow> Server" where
  "srv_joined s = s\<lparr>sv_acceptJoinable := False, sv_handlers := 0, sv_owner := OwnerStopped\<rparr>"

text \<open>
  The destructor: its call of \<open>stop\<close> finds the service not running and returns; destroying a thread object that
  was neither joined nor detached terminates the process.
\<close>

definition srv_destroy :: "Server \<Rightarrow> Server" where
  "srv_destroy s = s\<lparr>sv_aborted := (sv_aborted s \<or> sv_acceptJoinable s \<or> sv_handlers s \<noteq> 0), sv_owner := OwnerDone\<rparr>"

section \<open>Steps\<close>

inductive srv_step :: "Server \<Rightarrow> Server \<Rightarrow> bool" where
  start: "sv_owner s = OwnerIdle \<Longrightarrow> srv_step s (snd (srv_start bound s))"
| accept: "\<not> sv_aborted s \<Longrightarrow> sv_acceptor s = Accepting \<Longrightarrow> sv_listening s \<Longrightarrow> sv_conns s c = None \<Longrightarrow>
    srv_step s (srv_accept c s)"
| accept_failed: "\<not> sv_aborted s \<Longrightarrow> sv_acceptor s = Accepting \<Longrightarrow> srv_step s (srv_acceptFailed s)"
| frame: "\<not> sv_aborted s \<Longrightarrow> sv_conns s c = Some cur \<Longrightarrow> c \<notin> sv_stuck s \<Longrightarrow> srv_step s (srv_frame rs env c cur msg s)"
| lost: "\<not> sv_aborted s \<Longrightarrow> sv_conns s c = Some cur \<Longrightarrow> c \<notin> sv_stuck s \<Longrightarrow> srv_step s (srv_lost c cur s)"
| stop: "\<not> sv_aborted s \<Longrightarrow> sv_owner s = OwnerRunning \<Longrightarrow> srv_step s (srv_stop s)"
| joined: "\<not> sv_aborted s \<Longrightarrow> sv_owner s = OwnerStopping \<Longrightarrow> sv_acceptor s = LoopOver \<Longrightarrow>
    (\<forall>c. sv_conns s c = None) \<Longrightarrow> srv_step s (srv_joined s)"
| destroy: "\<not> sv_aborted s \<Longrightarrow> sv_owner s = OwnerStopped \<Longrightarrow> srv_step s (srv_destroy s)"

inductive_cases srv_stepE: "srv_step s s'"

inductive srv_reachable :: "Server \<Rightarrow> bool" where
  srv_init: "srv_reachable (Server_new CapacityModel_new fs)"
| srv_next: "srv_reachable s \<Longrightarrow> srv_step s s' \<Longrightarrow> srv_reachable s'"

lemmas srv_op_defs = srv_start_def srv_accept_def srv_acceptFailed_def srv_loop_head_def srv_stop_def srv_joined_def srv_destroy_def

section \<open>Refinement\<close>

text \<open>A concrete system whose every step is matched by some steps of an abstract one, possibly none.\<close>

locale simulation =
  fixes cstep :: "'c \<Rightarrow> 'c \<Rightarrow> bool" and astep :: "'a \<Rightarrow> 'a \<Rightarrow> bool" and abst :: "'c \<Rightarrow> 'a"
  assumes sim: "cstep c c' \<Longrightarrow> astep\<^sup>*\<^sup>* (abst c) (abst c')"
begin

lemma runs: "cstep\<^sup>*\<^sup>* c c' \<Longrightarrow> astep\<^sup>*\<^sup>* (abst c) (abst c')"
  by (induction rule: rtranclp_induct) (auto dest: sim intro: rtranclp_trans)

text \<open>What the abstract system keeps, the concrete one keeps.\<close>

lemma keeps:
  assumes "cstep\<^sup>*\<^sup>* c c'" and "P (abst c)" and "\<And>a a'. P a \<Longrightarrow> astep a a' \<Longrightarrow> P a'"
  shows "P (abst c')"
  using runs [OF assms(1)] assms(2) by (induction rule: rtranclp_induct) (auto intro: assms(3))

end

lemma srv_turn_model [simp]: "sv_model (srv_turn c t s) = tn_model t"
  by (simp add: srv_turn_def Let_def split: ConnState.split)

lemma srv_frame_effect: "msg_effect (sv_model s) (sv_model (srv_frame rs env c cur msg s))"
  by (simp add: srv_frame_def effect_intros handle_frame_effect split: sum.split)

interpretation coordinator: simulation srv_step unloaded_step sv_model
proof unfold_locales
  fix s s' assume "srv_step s s'"
  then show "unloaded_step\<^sup>*\<^sup>* (sv_model s) (sv_model s')"
    by cases (auto simp: srv_op_defs srv_lost_def intro: effect_run srv_frame_effect handle_lost_effect)
qed

section \<open>The invariant of the service\<close>

definition slots_inv :: "Server \<Rightarrow> bool" where
  "slots_inv s \<longleftrightarrow> finite (dom (sv_conns s)) \<and> card (dom (sv_conns s)) = sv_active s \<and>
     sv_active s \<le> kMaxConcurrentConnections \<and> sv_active s \<le> sv_handlers s"

definition threads_inv :: "Server \<Rightarrow> bool" where
  "threads_inv s \<longleftrightarrow>
     (sv_owner s = OwnerIdle \<longrightarrow> sv_acceptor s = NotStarted \<and> sv_handlers s = 0 \<and> \<not> sv_acceptJoinable s) \<and>
     (sv_acceptor s = Accepting \<longrightarrow> sv_acceptJoinable s) \<and>
     (sv_owner s = OwnerRunning \<longrightarrow> sv_acceptJoinable s) \<and>
     (sv_owner s = OwnerDone \<and> \<not> sv_aborted s \<longrightarrow> \<not> sv_acceptJoinable s \<and> sv_handlers s = 0)"

lemma slots_new: "slots_inv (Server_new m fs)" and threads_new: "threads_inv (Server_new m fs)"
  by (simp_all add: slots_inv_def threads_inv_def Server_new_def)

lemma slots_turn:
  assumes "slots_inv s" and "sv_conns s c = Some cur"
  shows "slots_inv (srv_turn c t s)"
proof -
  have c: "c \<in> dom (sv_conns s)" using assms(2) by auto
  have "card (dom (sv_conns s) - {c}) = sv_active s - 1"
    using assms(1) c by (simp add: slots_inv_def card_Diff_singleton)
  moreover have "insert c (dom (sv_conns s)) = dom (sv_conns s)" using c by auto
  ultimately show ?thesis
    using assms(1) by (auto simp: slots_inv_def srv_turn_def Let_def split: ConnState.split)
qed

lemma threads_turn: "threads_inv s \<Longrightarrow> threads_inv (srv_turn c t s)"
  by (auto simp: threads_inv_def srv_turn_def Let_def split: ConnState.split)

lemma step_slots:
  assumes "srv_step s s'" and "slots_inv s" and "threads_inv s"
  shows "slots_inv s'"
  using assms
proof cases
  case (accept c)
  then have "c \<notin> dom (sv_conns s)" by auto
  then show ?thesis using accept assms(2) by (auto simp: slots_inv_def srv_op_defs)
next
  case (frame c cur rs env msg)
  then show ?thesis using assms(2) slots_turn by (auto simp: srv_frame_def slots_inv_def split: sum.split)
next
  case (lost c cur)
  then show ?thesis using assms(2) slots_turn by (auto simp: srv_lost_def)
next
  case joined
  then have "sv_conns s = Map.empty" by auto
  then show ?thesis using joined assms(2) by (simp add: slots_inv_def srv_op_defs)
qed (auto simp: slots_inv_def srv_op_defs)

lemma step_threads:
  assumes "srv_step s s'" and "threads_inv s"
  shows "threads_inv s'"
  using assms
proof cases
  case (frame c cur rs env msg)
  then show ?thesis using assms(2) threads_turn by (auto simp: srv_frame_def threads_inv_def split: sum.split)
next
  case (lost c cur)
  then show ?thesis using assms(2) threads_turn by (auto simp: srv_lost_def)
qed (auto simp: threads_inv_def srv_op_defs split: if_splits)

lemma reachable_srv_inv: "srv_reachable s \<Longrightarrow> slots_inv s \<and> threads_inv s"
  by (induction rule: srv_reachable.induct) (auto intro: slots_new threads_new step_slots step_threads)

text \<open>Once the service has gone down by itself, nothing joins its threads.\<close>

definition unjoinable :: "Server \<Rightarrow> bool" where
  "unjoinable s \<longleftrightarrow> \<not> sv_running s \<and> sv_acceptJoinable s \<and> sv_owner s \<in> {OwnerRunning, OwnerStopped} \<or>
     sv_owner s = OwnerDone \<and> sv_aborted s"

lemma turn_unjoinable: "unjoinable s \<Longrightarrow> unjoinable (srv_turn c t s)"
  by (auto simp: unjoinable_def srv_turn_def Let_def split: ConnState.split)

lemma step_unjoinable:
  assumes "srv_step s s'" and "unjoinable s"
  shows "unjoinable s'"
  using assms
proof cases
  case (frame c cur rs env msg)
  then show ?thesis using assms(2) turn_unjoinable by (auto simp: srv_frame_def unjoinable_def split: sum.split)
next
  case (lost c cur)
  then show ?thesis using assms(2) turn_unjoinable by (auto simp: srv_lost_def)
qed (auto simp: unjoinable_def srv_op_defs split: if_splits)

lemma run_unjoinable: "srv_step\<^sup>*\<^sup>* s t \<Longrightarrow> unjoinable s \<Longrightarrow> unjoinable t"
  by (induction rule: rtranclp_induct) (auto intro: step_unjoinable)

text \<open>\<open>cfcoord\<close>: its main function waits until the service is not running before it calls \<open>stop\<close>.\<close>

definition main_step :: "Server \<Rightarrow> Server \<Rightarrow> bool" where
  "main_step s s' \<longleftrightarrow> srv_step s s' \<and> (sv_owner s = OwnerRunning \<and> sv_owner s' \<noteq> OwnerRunning \<longrightarrow> \<not> sv_running s)"

lemma turn_owner [simp]: "sv_owner (srv_turn c t s) = sv_owner s" "sv_acceptJoinable (srv_turn c t s) = sv_acceptJoinable s"
  by (simp_all add: srv_turn_def Let_def split: ConnState.split)

lemma frame_owner [simp]: "sv_owner (srv_frame rs env c cur msg s) = sv_owner s"
  "sv_acceptJoinable (srv_frame rs env c cur msg s) = sv_acceptJoinable s"
  by (simp_all add: srv_frame_def split: sum.split)

lemma step_joinable:
  assumes "srv_step s s'" and "sv_owner s = OwnerRunning" and "sv_acceptJoinable s"
  shows "sv_acceptJoinable s'"
  using assms by cases (auto simp: srv_op_defs srv_lost_def)

lemma main_unjoinable:
  assumes "main_step\<^sup>*\<^sup>* s t" and "sv_owner s = OwnerRunning" and "sv_acceptJoinable s"
  shows "sv_owner t = OwnerRunning \<and> sv_acceptJoinable t \<or> unjoinable t"
  using assms
proof (induction rule: rtranclp_induct)
  case (step y z)
  then consider "unjoinable y" | "sv_owner y = OwnerRunning" "sv_acceptJoinable y" by blast
  then show ?case
  proof cases
    case 1
    then show ?thesis using step.hyps(2) step_unjoinable by (auto simp: main_step_def)
  next
    case 2
    have "unjoinable y" if "\<not> sv_running y" using that 2 by (simp add: unjoinable_def)
    then show ?thesis
      using step.hyps(2) 2 step_joinable step_unjoinable unfolding main_step_def by blast
  qed
qed simp

text \<open>A client's shutdown, with the main function of \<open>cfcoord\<close>.\<close>

definition ex_serving :: Server where
  "ex_serving = srv_accept 0 (snd (srv_start True (Server_new CapacityModel_new (\<lambda>_. None))))"

definition ex_shutdown :: Server where
  "ex_shutdown = srv_frame [SendError] WriteOk 0 sid_default (reply_frame MtShutdown 1 []) ex_serving"

lemma ex_serving_reachable: "srv_reachable ex_serving"
  unfolding ex_serving_def
  by (intro srv_next [OF _ accept] srv_next [OF srv_init start])
    (simp_all add: srv_op_defs Server_new_def)

lemma ex_serving_state: "sv_conns ex_serving 0 = Some sid_default" "\<not> sv_aborted ex_serving" "sv_owner ex_serving = OwnerRunning"
    "sv_running ex_serving" "0 \<notin> sv_stuck ex_serving"
  by (simp_all add: ex_serving_def srv_op_defs Server_new_def kMaxConcurrentConnections_def)

lemma ex_shutdown_state: "\<not> sv_running ex_shutdown" "sv_owner ex_shutdown = OwnerRunning" "\<not> sv_aborted ex_shutdown"
proof -
  have "fst (reply [SendError] f) = Some False \<or> fst (reply [SendError] f) = Some True" for f
    by (cases "fst (snd (encodeFrame f))") (simp_all add: reply_def sendFrame_def case_prod_beta)
  then have "fst (reply [SendError] f) \<noteq> None" for f by (metis option.distinct(1))
  then show "\<not> sv_running ex_shutdown" "sv_owner ex_shutdown = OwnerRunning" "\<not> sv_aborted ex_shutdown"
    by (simp_all add: ex_shutdown_def srv_frame_def handle_frame_def reply_frame_def srv_turn_def ex_serving_state Let_def
        unless_blocked_def del: not_None_eq)
qed

lemma ex_shutdown_step: "srv_step ex_serving ex_shutdown"
  unfolding ex_shutdown_def by (rule frame [OF ex_serving_state(2,1,5)])

section \<open>Properties\<close>

text \<open>
  C1. The service refines the sequential model. Whatever the clients send, however the threads interleave and
  whatever the owner does, the model of the coordinator only moves by the operations of the model, and it is never loaded; so
  every reachable coordinator holds a model reachable without loading, which satisfies the model's invariant.
\<close>

theorem coordinator_refines_model:
  shows "(srv_step\<^sup>*\<^sup>* s t \<longrightarrow> unloaded_step\<^sup>*\<^sup>* (sv_model s) (sv_model t)) \<and>
     (srv_reachable s \<longrightarrow> unloaded_reachable (sv_model s) \<and> model_reachable (sv_model s) \<and> model_inv (sv_model s))"
proof (intro conjI impI)
  show "srv_step\<^sup>*\<^sup>* s t \<Longrightarrow> unloaded_step\<^sup>*\<^sup>* (sv_model s) (sv_model t)" by (rule coordinator.runs)
  assume s: "srv_reachable s"
  then show m: "unloaded_reachable (sv_model s)"
  proof (induction rule: srv_reachable.induct)
    case (srv_next s s')
    then show ?case using coordinator.sim unloaded_next by blast
  qed (simp add: Server_new_def unloaded_reachable_def)
  then show "model_reachable (sv_model s)" "model_inv (sv_model s)"
    by (rule unloaded_is_reachable unloaded_reachable_inv)+
qed

theorem coordinator_refines_model_witness: "model_inv (sv_model ex_shutdown)"
  using coordinator_refines_model [of ex_shutdown ex_shutdown] srv_next [OF ex_serving_reachable ex_shutdown_step] by blast

text \<open>
  C19. A stale publication is refused over the wire, for ever. Once the coordinator's model has accepted a
  resource, then in every later state, whatever clients and owner did in between, a message publishing the
  same resource with a lower generation is answered by a rejection and changes nothing.
\<close>

theorem stale_publication_refused:
  assumes "publishResource m r = Inr (True, sv_model s)" and "srv_step\<^sup>*\<^sup>* s t"
    and "resource_wire old" and "res_id old = res_id r" and "gen_value (res_generation old) < gen_value (res_generation r)"
  shows "dispatch_reply env (sv_model t) fs (reply_frame MtPublishResource seq (writeResource old)) =
     Inr (Some (reply_frame MtPublishResource seq [0]), sv_model t, fs)"
proof -
  have "publishResource (sv_model t) (resource_image old) = Inr (False, sv_model t)"
    by (rule resource_gen.stale_forever [OF assms(1) unloaded_runs [OF coordinator.runs [OF assms(2)]]])
      (use assms(4,5) in \<open>simp_all add: resource_image_def\<close>)
  then show ?thesis
    using resource_format.read_image [OF assms(3), of "[]"]
    by (simp add: dispatch_reply_def reply_frame_def on_read_def flagPayload_def rejectPayload_def)
qed

theorem stale_publication_refused_witness:
  "\<exists>m'. publishResource ex_model (ex_published 3) = Inr (True, m') \<and>
     dispatch_reply WriteOk m' (\<lambda>_. None) (reply_frame MtPublishResource 1 (writeResource (ex_published 2))) =
       Inr (Some (reply_frame MtPublishResource 1 [0]), m', \<lambda>_. None)"
proof -
  obtain m' where m': "publishResource ex_model (ex_published 3) = Inr (True, m')" using ex_publish by blast
  have "resource_wire (ex_published 2)"
    by (simp add: resource_wire_def ex_published_def ResourceInfo_default_def DeviceCapability_default_def capacity_wire_def short_def)
  from stale_publication_refused [of ex_model "ex_published 3" "Server_new m' (\<lambda>_. None)", OF _ rtranclp.rtrancl_refl this] m'
  show ?thesis by (simp add: Server_new_def ex_published_def)
qed

text \<open>
  C29. The connection limit holds. In every reachable state there are at most 32 connections being served,
  the counter of active connections is exact, and every one of them has its thread.
\<close>

theorem connection_limit:
  assumes "srv_reachable s"
  shows "finite {c. sv_conns s c \<noteq> None} \<and> card {c. sv_conns s c \<noteq> None} = sv_active s \<and>
     sv_active s \<le> 32 \<and> sv_active s \<le> sv_handlers s"
  using reachable_srv_inv [OF assms] by (simp add: slots_inv_def dom_def kMaxConcurrentConnections_def)

theorem connection_limit_witness: "card {c. sv_conns ex_serving c \<noteq> None} = sv_active ex_serving"
  using connection_limit [OF ex_serving_reachable] by simp

text \<open>
  A clean end leaves no thread behind. When the coordinator has been destroyed without terminating the
  process, the accept loop is over or was never started and no connection is being served.
\<close>

theorem clean_end_joins_all:
  assumes "srv_reachable s" and "sv_owner s = OwnerDone" and "\<not> sv_aborted s"
  shows "sv_acceptor s \<noteq> Accepting \<and> (\<forall>c. sv_conns s c = None) \<and> sv_active s = 0"
proof -
  have "sv_active s = 0" "dom (sv_conns s) = {}" "sv_acceptor s \<noteq> Accepting"
    using reachable_srv_inv [OF assms(1)] assms(2,3) by (auto simp: slots_inv_def threads_inv_def)
  then show ?thesis by auto
qed

theorem clean_end_joins_all_witness:
  "\<exists>s. srv_reachable s \<and> sv_owner s = OwnerDone \<and> \<not> sv_aborted s \<and> sv_active s = 0"
proof -
  let ?run = "snd (srv_start True (Server_new CapacityModel_new (\<lambda>_. None)))"
  let ?s = "srv_destroy (srv_joined (srv_acceptFailed (srv_stop ?run)))"
  have "srv_reachable ?s"
    by (intro srv_next [OF _ destroy] srv_next [OF _ joined] srv_next [OF _ accept_failed] srv_next [OF _ stop]
        srv_next [OF srv_init start]) (simp_all add: srv_op_defs Server_new_def)
  moreover have "sv_owner ?s = OwnerDone" "\<not> sv_aborted ?s" by (simp_all add: srv_op_defs Server_new_def)
  ultimately show ?thesis using clean_end_joins_all by blast
qed

text \<open>
  C30. \<open>cfcoord\<close> never exits cleanly. Its main function calls \<open>stop\<close> only when the service has already gone down
  (a client's shutdown, or a reply that could not be sent); then \<open>stop\<close> returns without joining anything, and
  the destruction of the thread objects terminates the process.
\<close>

theorem cfcoord_never_exits_cleanly:
  assumes "srv_reachable s" and "sv_owner s = OwnerRunning" and "main_step\<^sup>*\<^sup>* s t" and "sv_owner t = OwnerDone"
  shows "sv_aborted t"
proof -
  have "sv_acceptJoinable s" using reachable_srv_inv [OF assms(1)] assms(2) by (simp add: threads_inv_def)
  from main_unjoinable [OF assms(3,2) this] assms(4) show ?thesis by (simp add: unjoinable_def)
qed

theorem cfcoord_never_exits_cleanly_witness:
  "main_step\<^sup>*\<^sup>* ex_serving (srv_destroy (srv_stop ex_shutdown)) \<and> sv_aborted (srv_destroy (srv_stop ex_shutdown))"
proof -
  have "main_step ex_serving ex_shutdown"
    using ex_shutdown_step by (simp add: main_step_def ex_shutdown_state)
  moreover have "main_step ex_shutdown (srv_stop ex_shutdown)"
    using stop [OF ex_shutdown_state(3,2)] by (simp add: main_step_def ex_shutdown_state)
  moreover have "main_step (srv_stop ex_shutdown) (srv_destroy (srv_stop ex_shutdown))"
    unfolding main_step_def by (intro conjI destroy) (simp_all add: srv_stop_def ex_shutdown_state)
  ultimately have r: "main_step\<^sup>*\<^sup>* ex_serving (srv_destroy (srv_stop ex_shutdown))" by auto
  from cfcoord_never_exits_cleanly [OF ex_serving_reachable ex_serving_state(3) r] r show ?thesis
    by (simp add: srv_destroy_def)
qed

text \<open>
  C31. Any client can terminate the coordinator. In every state that serves a connection, and whose thread is not blocked for
  ever in sending an earlier reply, there is a message, small enough for a frame, whose turn throws out of the connection's
  thread, whatever the socket and the files do.
\<close>

theorem one_message_terminates:
  assumes "\<not> sv_aborted s" and "sv_conns s c = Some cur" and "c \<notin> sv_stuck s"
  shows "\<exists>msg. length (fm_payload msg) \<le> kMaxFramePayload \<and>
     (\<forall>rs env. srv_step s (srv_frame rs env c cur msg s) \<and> sv_aborted (srv_frame rs env c cur msg s))"
proof -
  let ?r = "Reservation_default\<lparr>rsv_interval := Interval 1 2, rsv_hold := om_insert AcceleratorCount d_qnan om_empty\<rparr>"
  let ?msg = "reply_frame MtPublishReservation 1 (writeReservation ?r)"
  have "\<not> isfinite d_qnan" by (simp add: isfinite_def d_qnan_def inf_mag_def)
  then have "readReservation (writeReservation ?r) = Inl Invalid_argument"
    using hostile_payload_throws [THEN conjunct2, of ?r "[]"]
    by (simp add: in_i64_def i64_min_def i64_max_def iv_valid_def delta_at_def)
  then have "handle_frame rs env cur (sv_model s) (sv_files s) ?msg = Inl Invalid_argument" for rs env
    by (simp add: handle_frame_def dispatch_def dispatch_reply_def reply_frame_def on_read_def)
  then have "sv_aborted (srv_frame rs env c cur ?msg s)" for rs env by (simp add: srv_frame_def)
  moreover have "length (fm_payload ?msg) \<le> kMaxFramePayload"
    by (simp add: reply_frame_def writeReservation_def kMaxFramePayload_def)
  ultimately show ?thesis using frame [OF assms] by blast
qed

theorem one_message_terminates_witness:
  "\<exists>msg. \<forall>rs env. srv_step ex_serving (srv_frame rs env 0 sid_default msg ex_serving) \<and>
     sv_aborted (srv_frame rs env 0 sid_default msg ex_serving)"
  using one_message_terminates [OF ex_serving_state(2,1,5)] by blast

text \<open>
  C33. A reply that cannot be sent takes the service down. When the send of the answer to a message other than a registration or a
  shutdown fails, because the client has gone away, the flag that keeps the service running is cleared for everyone, so that the
  accept loop ends at its next turn, the connection is dropped and its slot given back; a send that never returns clears nothing and keeps
  the slot. Either way the model stays as the message left it (the worker the connection had registered is not marked dead) and
  every other connection goes on being served.
\<close>

theorem failed_reply_stops_service:
  assumes "sv_conns s c = Some cur" and "fm_type msg \<notin> {MtShutdown, MtRegister}"
    and "dispatch_reply env (sv_model s) (sv_files s) msg = Inr (Some f, m', fs')"
    and "t = srv_frame rs env c cur msg s"
  shows "(fst (sendFrame rs f) = SendFailed \<longrightarrow> \<not> sv_running t \<and> sv_conns t c = None \<and> sv_active t = sv_active s - 1) \<and>
     (fst (sendFrame rs f) = SendPending \<longrightarrow> sv_running t = sv_running s \<and> sv_conns t c = Some cur \<and> c \<in> sv_stuck t) \<and>
     sv_model t = m' \<and> (\<forall>c'. c' \<noteq> c \<longrightarrow> sv_conns t c' = sv_conns s c' \<and> (c' \<in> sv_stuck t \<longleftrightarrow> c' \<in> sv_stuck s)) \<and>
     sv_acceptor t = sv_acceptor s"
proof -
  have d: "dispatch rs env (sv_model s) (sv_files s) msg = Inr (fst (reply rs f), snd (reply rs f), m', fs')"
    using assms(3) by (simp add: dispatch_def case_prod_beta)
  have p: "srv_turn c \<lparr>tn_conn = unless_blocked (fst (reply rs f), snd (reply rs f)) (if fst (reply rs f) = Some True then Serving cur else Closed),
      tn_stop = (fst (reply rs f) = Some False), tn_wire = snd (reply rs f), tn_model = m', tn_files = fs'\<rparr> s = t"
    using assms(2) by (simp add: assms(4) srv_frame_def handle_frame_def d)
  note turn = srv_turn_def unless_blocked_def Let_def assms(1)
  show ?thesis
  proof (cases "fst (sendFrame rs f)")
    case SendDone
    then have "fst (reply rs f) = Some True" by (simp add: reply_answer)
    then show ?thesis using SendDone by (simp add: turn flip: p)
  next
    case SendFailed
    then have "fst (reply rs f) = Some False" by (simp add: reply_answer)
    then show ?thesis using SendFailed by (simp add: turn flip: p)
  next
    case SendPending
    then have "fst (reply rs f) = None" by (simp add: reply_answer)
    then show ?thesis using SendPending by (simp add: turn flip: p)
  qed
qed

theorem failed_reply_stops_service_witness:
  "\<not> sv_running (srv_frame [SendError] WriteOk 0 sid_default (reply_frame MtHello 1 []) ex_serving) \<and>
   0 \<in> sv_stuck (srv_frame [] WriteOk 0 sid_default (reply_frame MtHello 1 []) ex_serving)"
proof -
  let ?f = "reply_frame MtHello 1 (writeU64 (gen_value (m_epoch (sv_model ex_serving))))"
  have d: "dispatch_reply WriteOk (sv_model ex_serving) (sv_files ex_serving) (reply_frame MtHello 1 []) =
      Inr (Some ?f, sv_model ex_serving, sv_files ex_serving)"
    by (simp add: dispatch_reply_def reply_frame_def)
  have fits: "payload_fits ?f" by (simp add: payload_fits_def reply_frame_def kMaxFramePayload_def)
  obtain b bs where "frame_of ?f = b # bs" by (cases "frame_of ?f") (use length_frame_of [of ?f] in auto)
  then have "fst (sendFrame [SendError] ?f) = SendFailed" "fst (sendFrame [] ?f) = SendPending"
    by (simp_all add: sendFrame_def encodeFrame_of [OF fits])
  then show ?thesis
    using failed_reply_stops_service [OF ex_serving_state(1) _ d refl, where rs = "[SendError]"]
      failed_reply_stops_service [OF ex_serving_state(1) _ d refl, where rs = "[]"] by (simp add: reply_frame_def)
qed

end
