(* ===== verification/Reference.thy ===== *)
theory Reference
  imports Model_View
begin

text \<open>
  The reference adapters (\<open>adapters/reference.hpp\<close>, \<open>adapters/reference.cpp\<close>): builders of synthetic evidence and
  the reference calendar the tool and the tests seed a model with. A builder whose constructors may throw
  returns a fault.
\<close>

section \<open>Builders\<close>

definition makeResource :: "ResourceId \<Rightarrow> ResourceGeneration \<Rightarrow> FleetId \<Rightarrow> NodeId \<Rightarrow> DeviceId \<Rightarrow> WorkerId \<Rightarrow> WorkerBootId \<Rightarrow>
    DeviceCapability \<Rightarrow> ByteCount \<Rightarrow> ByteCount \<Rightarrow> ByteCount list \<Rightarrow> HealthState \<Rightarrow> ResourceInfo" where
  "makeResource i gen fleet node device worker boot cap vramNominal vramFree blocks health =
     ResourceInfo_default\<lparr>res_id := i, res_generation := gen, res_fleetId := fleet, res_nodeId := node,
       res_deviceId := device, res_kind := Physical, res_capability := cap,
       res_nominal := setAccelerators (DeviceCount 1) (setVram vramNominal om_empty),
       res_free := setAccelerators (DeviceCount 1) (setVram vramFree om_empty),
       res_freeBlocks := blocks, res_health := health, res_worker := worker, res_bootId := boot,
       res_provenance := Synthetic, res_drained := (health = Draining), res_maintenance := (health = Maintenance)\<rparr>"

definition makeReservation :: "ReservationId \<Rightarrow> ReservationGeneration \<Rightarrow> Interval \<Rightarrow> double \<Rightarrow> ReservationStrength \<Rightarrow>
    fault + Reservation" where
  "makeReservation i gen iv holdUnits strength =
     bindR (delta_change (rsv_hold Reservation_default) AcceleratorCount holdUnits) (\<lambda>hold.
       Inr (Reservation_default\<lparr>rsv_id := i, rsv_generation := gen, rsv_interval := iv, rsv_hold := hold,
         rsv_strength := strength, rsv_provenance := Reported\<rparr>))"

definition makeRelease :: "ForecastSourceId \<Rightarrow> TimePoint \<Rightarrow> TimePoint \<Rightarrow> TimePoint \<Rightarrow> double \<Rightarrow> Confidence \<Rightarrow>
    fault + ReleaseEvent" where
  "makeRelease src expected earliest latest units conf =
     bindR (delta_change om_empty AcceleratorCount units) (\<lambda>release.
       Inr \<lparr>rel_sourceId = src, rel_time = expected, rel_earliest = earliest, rel_latest = latest,
            rel_release = release, rel_confidence = conf, rel_provenance = ForecastP\<rparr>)"

text \<open>The cast of the units to an integer is undefined outside its range.\<close>

definition makeDemand :: "WorkloadDemandId \<Rightarrow> WorkloadDemandGeneration \<Rightarrow> double \<Rightarrow> DeviceCount \<Rightarrow> bool \<Rightarrow> ByteCount \<Rightarrow>
    fault + WorkloadDemand" where
  "makeDemand i gen units minAccels requireContiguous minContig =
     (case d_to_u64 units of None \<Rightarrow> Inl Undefined
      | Some n \<Rightarrow> Inr (WorkloadDemand_default\<lparr>dm_id := i, dm_generation := gen,
          dm_requirements := setAccelerators (DeviceCount n) (dm_requirements WorkloadDemand_default),
          dm_minAccelerators := minAccels, dm_requiresContiguousVram := requireContiguous, dm_minContiguousVram := minContig\<rparr>))"

definition description :: string where
  "description = ''Standalone deterministic reference adapters (SYNTHETIC)''"

section \<open>The reference calendar\<close>

definition gib :: "u64 \<Rightarrow> ByteCount" where "gib n = ByteCount (push_bit 30 n)"

definition reference_cap :: DeviceCapability where
  "reference_cap = \<lparr>architecture = ''sm_120'', className = ''blackwell'', capability = ''fp8'',
     markers = [''fp8'', ''tensor_core'']\<rparr>"

definition reference_resource :: "u64 \<Rightarrow> u64 \<Rightarrow> WorkerId \<Rightarrow> WorkerBootId \<Rightarrow> u64 \<Rightarrow> u64 \<Rightarrow> ResourceInfo" where
  "reference_resource i node w b nominal free =
     makeResource (StrongId i) (Generation 1) (StrongId 1) (StrongId node) (StrongId i) w b reference_cap
       (gib nominal) (gib free) [gib free] Healthy"

definition seedReferenceModel :: "CapacityModel \<Rightarrow> fault + CapacityModel" where
  "seedReferenceModel model =
     (let wa = StrongId 1; wb = StrongId 2; ba = StrongId 101; bb = StrongId 202;
          m1 = snd (registerWorker model wa ba);
          m2 = snd (registerWorker m1 wb bb)
      in bindR (publishResource m2 (reference_resource 1 1 wa ba 16 16)) (\<lambda>(ok1, m3).
         bindR (publishResource m3 (reference_resource 2 1 wa ba 16 12)) (\<lambda>(ok2, m4).
         bindR (publishResource m4 (reference_resource 3 2 wb bb 8 8)) (\<lambda>(ok3, m5).
         bindR (publishResource m5 (reference_resource 4 2 wb bb 8 4)) (\<lambda>(ok4, m6).
         bindR (timeFromMillis 1000) (\<lambda>t1. bindR (timeFromMillis 4000) (\<lambda>t2.
         bindR (mkInterval t1 t2) (\<lambda>iv.
         bindR (makeReservation (StrongId 10) (Generation 1) iv (d_of_nat 2) Hard) (\<lambda>res.
         bindR (Inr (publishReservation m6 res)) (\<lambda>(ok5, m7).
         bindR (timeFromMillis 10000) (\<lambda>e. bindR (timeFromMillis 8000) (\<lambda>early. bindR (timeFromMillis 12000) (\<lambda>late.
         bindR (makeRelease (StrongId 20) e early late (d_of_nat 1) (conf_lit 7 10)) (\<lambda>rel.
           Inr (snd (publishRelease m7 rel))))))))))))))))"

section \<open>Publishing reference evidence\<close>

lemma setVram_rep: "cap_rep c f \<Longrightarrow> unat (bc_value b) < 2 ^ 53 \<Longrightarrow> cap_rep (setVram b c) (f(VramBytes := unat (bc_value b)))"
  and setAccelerators_rep: "cap_rep c f \<Longrightarrow> unat (dc_value n) < 2 ^ 53 \<Longrightarrow>
    cap_rep (setAccelerators n c) (f(AcceleratorCount := unat (dc_value n)))"
  by (simp_all add: setVram_def setAccelerators_def d_of_u64_def cap_rep_set)

definition one_device :: "ByteCount \<Rightarrow> Dimension \<Rightarrow> nat" where
  "one_device b = (\<lambda>_. 0)(VramBytes := unat (bc_value b), AcceleratorCount := 1)"

lemma one_device_rep:
  "unat (bc_value b) < 2 ^ 53 \<Longrightarrow> cap_rep (setAccelerators (DeviceCount 1) (setVram b om_empty)) (one_device b)"
  using setAccelerators_rep [OF setVram_rep [OF cap_rep_empty], of b "DeviceCount 1"] by (simp add: one_device_def)

lemma makeResource_rep:
  assumes "unat (bc_value n) < 2 ^ 53" and "unat (bc_value f) < 2 ^ 53"
  shows "cap_rep (res_nominal (makeResource i g fl nd dv w b cp n f bl h)) (one_device n)"
    and "cap_rep (res_free (makeResource i g fl nd dv w b cp n f bl h)) (one_device f)"
  using one_device_rep [OF assms(1)] one_device_rep [OF assms(2)] by (simp_all add: makeResource_def)

lemma makeResource_fields [simp]:
  "res_id (makeResource i g fl nd dv w b cp n f bl h) = i"
  "res_generation (makeResource i g fl nd dv w b cp n f bl h) = g"
  "res_deviceId (makeResource i g fl nd dv w b cp n f bl h) = dv"
  "res_worker (makeResource i g fl nd dv w b cp n f bl h) = w"
  "res_bootId (makeResource i g fl nd dv w b cp n f bl h) = b"
  "res_committed (makeResource i g fl nd dv w b cp n f bl h) = om_empty"
  "res_unavailable (makeResource i g fl nd dv w b cp n f bl h) = om_empty"
  "res_freeBlocks (makeResource i g fl nd dv w b cp n f bl h) = bl"
  "res_capability (makeResource i g fl nd dv w b cp n f bl h) = cp"
  "res_health (makeResource i g fl nd dv w b cp n f bl h) = h"
  by (simp_all add: makeResource_def ResourceInfo_default_def)

text \<open>A publication with a live boot, no older generation and whole amounts is accepted.\<close>

lemma publish_accepted:
  assumes "isFreshBoot m (res_worker r) (res_bootId r)"
    and "\<not> gen_regresses (tracker_current (m_resourceGen m) (res_id r)) (res_generation r)"
    and "cap_rep (res_nominal r) N" and "cap_rep (res_free r) F"
  shows "\<exists>d. publishResource m r = Inr (True, m\<lparr>m_resourceGen := om_insert (res_id r) (res_generation r) (m_resourceGen m),
     m_resources := om_insert (res_id r) r (m_resources m), m_devices := om_insert (res_deviceId r) d (m_devices m)\<rparr>)"
proof -
  obtain d where d: "published_device r = Inr d"
    by (simp add: published_device_def cap_rep_vram [OF assms(3)] cap_rep_vram [OF assms(4)])
  then have "dev_id d = res_deviceId r" by (auto simp: published_device_def)
  then show ?thesis using d assms(1,2) by (auto simp: publishResource_def Let_def guard_iff)
qed

text \<open>No device of the model's device table is drained.\<close>

definition undrained :: "CapacityModel \<Rightarrow> bool" where
  "undrained m \<longleftrightarrow> (\<forall>i d. om_lookup (m_devices m) i = Some d \<longrightarrow> \<not> dev_drained d)"

lemma publish_undrained: "publishResource m r = Inr (ok, m') \<Longrightarrow> undrained m \<Longrightarrow> undrained m'"
  by (auto simp: publishResource_def published_device_def undrained_def Let_def DeviceInfo_default_def split: if_splits)

section \<open>The seeded model\<close>

definition seed_resources :: "ResourceInfo list" where
  "seed_resources = [reference_resource 1 1 (StrongId 1) (StrongId 101) 16 16, reference_resource 2 1 (StrongId 1) (StrongId 101) 16 12,
     reference_resource 3 2 (StrongId 2) (StrongId 202) 8 8, reference_resource 4 2 (StrongId 2) (StrongId 202) 8 4]"

definition one_unit :: "double \<Rightarrow> CapacityDelta" where
  "one_unit v = om_insert AcceleratorCount v om_empty"

definition seed_reservation :: Reservation where
  "seed_reservation = Reservation_default\<lparr>rsv_id := StrongId 10, rsv_generation := Generation 1,
     rsv_interval := Interval 1000000000 4000000000, rsv_hold := one_unit (d_of_nat 2)\<rparr>"

definition seed_release :: ReleaseEvent where
  "seed_release = \<lparr>rel_sourceId = StrongId 20, rel_time = 10000000000, rel_earliest = 8000000000, rel_latest = 12000000000,
     rel_release = one_unit (d_of_nat 1), rel_confidence = conf_lit 7 10, rel_provenance = ForecastP\<rparr>"

lemma gib_small: "unat (bc_value (gib 16)) = 16 * 2 ^ 30" "unat (bc_value (gib 12)) = 12 * 2 ^ 30"
  "unat (bc_value (gib 8)) = 8 * 2 ^ 30" "unat (bc_value (gib 4)) = 4 * 2 ^ 30"
  by (simp_all add: gib_def push_bit_eq_mult)

lemma reference_resource_fields [simp]:
  "res_id (reference_resource i nd w b n f) = StrongId i" "res_generation (reference_resource i nd w b n f) = Generation 1"
  "res_deviceId (reference_resource i nd w b n f) = StrongId i"
  "res_worker (reference_resource i nd w b n f) = w" "res_bootId (reference_resource i nd w b n f) = b"
  "res_committed (reference_resource i nd w b n f) = om_empty" "res_unavailable (reference_resource i nd w b n f) = om_empty"
  "res_health (reference_resource i nd w b n f) = Healthy" "res_capability (reference_resource i nd w b n f) = reference_cap"
  by (simp_all add: reference_resource_def)

lemma reference_resource_rep:
  assumes "n \<in> {4, 8, 12, 16}" and "f \<in> {4, 8, 12, 16}"
  shows "cap_rep (res_nominal (reference_resource i nd w b n f)) (one_device (gib n))"
    and "cap_rep (res_free (reference_resource i nd w b n f)) (one_device (gib f))"
  unfolding reference_resource_def by (rule makeResource_rep; use assms gib_small in auto)+

lemma seed_evidence:
  "makeReservation (StrongId 10) (Generation 1) (Interval 1000000000 4000000000) (d_of_nat 2) Hard = Inr seed_reservation"
  "makeRelease (StrongId 20) 10000000000 8000000000 12000000000 (d_of_nat 1) (conf_lit 7 10) = Inr seed_release"
  using d_of_nat_exact(2) [of 2] d_of_nat_exact(2) [of 1] amount_ok_key d_add_zero_left
  by (simp_all add: makeReservation_def makeRelease_def delta_change_def delta_at_def seed_reservation_def seed_release_def
      Reservation_default_def one_unit_def)

definition seed_sources :: "(WorkerId, SourceState) omap" where
  "seed_sources = om_insert (StrongId 2) \<lparr>src_bootId = StrongId 202, src_alive = True\<rparr>
     (om_insert (StrongId 1) \<lparr>src_bootId = StrongId 101, src_alive = True\<rparr> om_empty)"

lemma seed_workers:
  "snd (registerWorker (snd (registerWorker CapacityModel_new (StrongId 1) (StrongId 101))) (StrongId 2) (StrongId 202)) =
     CapacityModel_new\<lparr>m_sources := seed_sources\<rparr>"
  by (simp add: registerWorker_def CapacityModel_new_def setEpoch_def seed_sources_def sid_valid_def kInvalidId_def)

lemma seed_publish:
  assumes "m_sources m = seed_sources" and "w = StrongId 1 \<and> b = StrongId 101 \<or> w = StrongId 2 \<and> b = StrongId 202"
    and "om_lookup (m_resourceGen m) (StrongId i) = None" and "n \<in> {4, 8, 12, 16}" "f \<in> {4, 8, 12, 16}"
  shows "\<exists>m'. publishResource m (reference_resource i nd w b n f) = Inr (True, m') \<and> m_sources m' = seed_sources \<and>
     m_resourceGen m' = om_insert (StrongId i) (Generation 1) (m_resourceGen m) \<and>
     m_resources m' = om_insert (StrongId i) (reference_resource i nd w b n f) (m_resources m) \<and>
     m_reservations m' = m_reservations m \<and> m_releases m' = m_releases m \<and> m_reservationGen m' = m_reservationGen m \<and>
     m_epoch m' = m_epoch m \<and> m_forecastHistory m' = m_forecastHistory m \<and> (undrained m \<longrightarrow> undrained m')"
proof -
  let ?r = "reference_resource i nd w b n f"
  have "isFreshBoot m (res_worker ?r) (res_bootId ?r)" using assms(1,2) by (auto simp: isFreshBoot_def seed_sources_def)
  moreover have "\<not> gen_regresses (tracker_current (m_resourceGen m) (res_id ?r)) (res_generation ?r)"
    using assms(3) by (simp add: tracker_current_def gen_regresses_def gen_default_def gen_valid_def)
  moreover note reference_resource_rep(1) [OF assms(4,5)] reference_resource_rep(2) [OF assms(4,5)]
  ultimately obtain d where p: "publishResource m ?r = Inr (True, m\<lparr>m_resourceGen := om_insert (res_id ?r) (res_generation ?r) (m_resourceGen m),
     m_resources := om_insert (res_id ?r) ?r (m_resources m), m_devices := om_insert (res_deviceId ?r) d (m_devices m)\<rparr>)"
    using publish_accepted [of m ?r] by blast
  then show ?thesis using publish_undrained [OF p] assms(1) by auto
qed

lemma seed_model:
  "\<exists>m. seedReferenceModel CapacityModel_new = Inr m \<and> currentResources m = seed_resources \<and>
     m_reservations m = [seed_reservation] \<and> m_releases m = [seed_release] \<and> m_sources m = seed_sources \<and>
     om_entries (m_resources m) = map (\<lambda>r. (res_id r, r)) seed_resources \<and> m_epoch m = m_epoch CapacityModel_new \<and>
     m_forecastHistory m = [] \<and> undrained m"
proof -
  let ?m2 = "CapacityModel_new\<lparr>m_sources := seed_sources\<rparr>"
  have e: "m_resources ?m2 = om_empty" "m_resourceGen ?m2 = om_empty" "m_reservations ?m2 = []" "m_releases ?m2 = []"
      "m_reservationGen ?m2 = om_empty" "m_forecastHistory ?m2 = []" "undrained ?m2"
    by (simp_all add: CapacityModel_new_def setEpoch_def undrained_def)
  obtain m3 where m3: "publishResource ?m2 (reference_resource 1 1 (StrongId 1) (StrongId 101) 16 16) = Inr (True, m3)"
      "m_sources m3 = seed_sources" "m_resourceGen m3 = om_insert (StrongId 1) (Generation 1) om_empty"
      "m_resources m3 = om_insert (StrongId 1) (reference_resource 1 1 (StrongId 1) (StrongId 101) 16 16) om_empty"
      "m_reservations m3 = []" "m_releases m3 = []" "m_reservationGen m3 = om_empty"
      "m_epoch m3 = m_epoch CapacityModel_new" "m_forecastHistory m3 = []" "undrained m3"
    using seed_publish [of ?m2 "StrongId 1" "StrongId 101" 1 16 16 1] e by auto
  obtain m4 where m4: "publishResource m3 (reference_resource 2 1 (StrongId 1) (StrongId 101) 16 12) = Inr (True, m4)"
      "m_sources m4 = seed_sources" "m_resourceGen m4 = om_insert (StrongId 2) (Generation 1) (m_resourceGen m3)"
      "m_resources m4 = om_insert (StrongId 2) (reference_resource 2 1 (StrongId 1) (StrongId 101) 16 12) (m_resources m3)"
      "m_reservations m4 = []" "m_releases m4 = []" "m_reservationGen m4 = om_empty"
      "m_epoch m4 = m_epoch CapacityModel_new" "m_forecastHistory m4 = []" "undrained m4"
    using seed_publish [of m3 "StrongId 1" "StrongId 101" 2 16 12 1] m3 by auto
  obtain m5 where m5: "publishResource m4 (reference_resource 3 2 (StrongId 2) (StrongId 202) 8 8) = Inr (True, m5)"
      "m_sources m5 = seed_sources" "m_resourceGen m5 = om_insert (StrongId 3) (Generation 1) (m_resourceGen m4)"
      "m_resources m5 = om_insert (StrongId 3) (reference_resource 3 2 (StrongId 2) (StrongId 202) 8 8) (m_resources m4)"
      "m_reservations m5 = []" "m_releases m5 = []" "m_reservationGen m5 = om_empty"
      "m_epoch m5 = m_epoch CapacityModel_new" "m_forecastHistory m5 = []" "undrained m5"
    using seed_publish [of m4 "StrongId 2" "StrongId 202" 3 8 8 2] m3 m4 by auto
  obtain m6 where m6: "publishResource m5 (reference_resource 4 2 (StrongId 2) (StrongId 202) 8 4) = Inr (True, m6)"
      "m_sources m6 = seed_sources"
      "m_resources m6 = om_insert (StrongId 4) (reference_resource 4 2 (StrongId 2) (StrongId 202) 8 4) (m_resources m5)"
      "m_reservations m6 = []" "m_releases m6 = []" "m_reservationGen m6 = om_empty"
      "m_epoch m6 = m_epoch CapacityModel_new" "m_forecastHistory m6 = []" "undrained m6"
    using seed_publish [of m5 "StrongId 2" "StrongId 202" 4 8 4 2] m3 m4 m5 by auto
  have t: "timeFromMillis 1000 = Inr 1000000000" "timeFromMillis 4000 = Inr 4000000000" "timeFromMillis 10000 = Inr 10000000000"
      "timeFromMillis 8000 = Inr 8000000000" "timeFromMillis 12000 = Inr 12000000000"
    by (simp_all add: timeFromMillis_def mul64_def kNanosPerMilli_def in_i64_def i64_min_def i64_max_def)
  define m7 where "m7 = snd (publishReservation m6 seed_reservation)"
  define m8 where "m8 = snd (publishRelease m7 seed_release)"
  have m7: "m_resources m7 = m_resources m6" "m_reservations m7 = [seed_reservation]" "m_releases m7 = []" "m_sources m7 = seed_sources"
      "m_epoch m7 = m_epoch CapacityModel_new" "m_forecastHistory m7 = []" "undrained m7"
    using m6 by (simp_all add: m7_def publishReservation_def gen_default_def gen_valid_def upsert_def Let_def undrained_def)
  have m8: "m_resources m8 = m_resources m6" "m_reservations m8 = [seed_reservation]" "m_releases m8 = [seed_release]" "m_sources m8 = seed_sources"
      "m_epoch m8 = m_epoch CapacityModel_new" "m_forecastHistory m8 = []" "undrained m8"
    using m7 by (simp_all add: m8_def publishRelease_def upsert_def undrained_def)
  have "seedReferenceModel CapacityModel_new = Inr m8"
    by (simp add: seedReferenceModel_def Let_def seed_workers m3(1) m4(1) m5(1) m6(1) t seed_evidence seed_evidence [simplified] case_prod_beta m7_def m8_def)
  moreover have e8: "om_entries (m_resources m8) = map (\<lambda>r. (res_id r, r)) seed_resources"
    using m3(4) m4(4) m5(4) m6(3) m8(1) by (simp add: seed_resources_def less_StrongId_def)
  moreover have "currentResources m8 = seed_resources" by (simp add: currentResources_def e8 comp_def)
  ultimately show ?thesis using m8 by blast
qed

text \<open>The seeded evidence in whole numbers.\<close>

definition seed_N :: "ResourceInfo \<Rightarrow> Dimension \<Rightarrow> nat" where
  "seed_N r = one_device (gib (if sid_value (res_id r) \<le> 2 then 16 else 8))"

definition seed_F :: "ResourceInfo \<Rightarrow> Dimension \<Rightarrow> nat" where
  "seed_F r = one_device (gib (if res_id r = StrongId 1 then 16 else if res_id r = StrongId 2 then 12
     else if res_id r = StrongId 3 then 8 else 4))"

lemma seed_resources_rep:
  "r \<in> set seed_resources \<Longrightarrow> cap_rep (res_nominal r) (seed_N r) \<and> cap_rep (res_free r) (seed_F r) \<and>
     cap_rep (res_committed r) (\<lambda>_. 0) \<and> cap_rep (res_unavailable r) (\<lambda>_. 0)"
  by (auto simp: seed_resources_def seed_N_def seed_F_def reference_resource_rep cap_rep_empty)

lemma one_unit_rep: "n < 2 ^ 53 \<Longrightarrow> cap_rep (one_unit (d_of_nat n)) ((\<lambda>_. 0)(AcceleratorCount := n))"
  using cap_rep_set [OF cap_rep_empty, of n AcceleratorCount] by (auto simp: one_unit_def cap_rep_def cap_set_whole)

lemma seed_current:
  assumes "m_sources m = seed_sources" and "r \<in> set seed_resources"
  shows "resource_current m r"
  using assms by (auto simp: resource_current_def isCurrentDynamic_def isFreshBoot_def seed_resources_def seed_sources_def sid_valid_def kInvalidId_def)

lemma seed_fleet:
  assumes "m_sources m = seed_sources" and "currentResources m = seed_resources"
  shows "whole_fleet seed_N seed_F (\<lambda>_ _. 0) (\<lambda>_ _. 0) m"
    and "fleet_free seed_F m = (\<lambda>_. 0)(VramBytes := 40 * 2 ^ 30, AcceleratorCount := 4)"
proof -
  have N: "(\<Sum>r \<leftarrow> seed_resources. seed_N r d) \<le> 48 * 2 ^ 30" "(\<Sum>r \<leftarrow> seed_resources. seed_F r d) =
      ((\<lambda>_. 0)(VramBytes := 40 * 2 ^ 30, AcceleratorCount := 4)) d" for d
    by (auto simp: seed_resources_def seed_N_def seed_F_def one_device_def gib_small)
  have "(\<Sum>r \<leftarrow> seed_resources. seed_N r d + seed_F r d) < 2 ^ 53" for d
    using N(1) [of d] N(2) [of d] by (simp add: sum_list_addf split: if_splits)
  then show "whole_fleet seed_N seed_F (\<lambda>_ _. 0) (\<lambda>_ _. 0) m"
    using seed_resources_rep assms(2) by (simp add: whole_fleet_def)
  have "filter (resource_current m) seed_resources = seed_resources"
    using seed_current [OF assms(1)] by (simp add: filter_id_conv)
  then show "fleet_free seed_F m = (\<lambda>_. 0)(VramBytes := 40 * 2 ^ 30, AcceleratorCount := 4)"
    using N(2) assms(2) by (simp add: fleet_free_def fun_eq_iff)
qed

definition seed_H :: "Reservation \<Rightarrow> Dimension \<Rightarrow> nat" where "seed_H r = (\<lambda>_. 0)(AcceleratorCount := 2)"
definition seed_R :: "ReleaseEvent \<Rightarrow> Dimension \<Rightarrow> nat" where "seed_R e = (\<lambda>_. 0)(AcceleratorCount := 1)"

lemma seed_whole: "whole_evidence seed_H seed_R [seed_reservation] [seed_release]"
  using one_unit_rep [of 2] one_unit_rep [of 1]
  by (simp add: whole_evidence_def seed_reservation_def seed_release_def seed_H_def seed_R_def)

lemma seed_counts: "counts_in mode seed_reservation"
  by (simp add: counts_in_def seed_reservation_def Reservation_default_def delta_empty_def one_unit_def om_size_def)

lemma seed_exact:
  assumes "m_sources m = seed_sources" and "currentResources m = seed_resources"
    and "m_reservations m = [seed_reservation]" and "m_releases m = [seed_release]"
  shows "exact_calendar seed_F seed_H seed_R m mode"
  using seed_whole seed_counts
  by (simp add: exact_calendar_def never_overbooked_def claimed_at_def seed_fleet(2) [OF assms(1,2)] assms(3,4) seed_H_def seed_R_def)

section \<open>Properties\<close>

text \<open>
  The reference calendar. Seeding a new model succeeds, every publication being accepted, and the
  capacity it projects is the one its comments describe: four accelerators and forty gibibytes, less
  two accelerators while the reservation is in force from the first to the fourth second, plus one from the
  release on, which counts from the tenth second, the eighth for an optimistic and the twelfth for a
  conservative or guaranteed query.
\<close>

theorem reference_calendar:
  assumes "i64_min \<le> t"
  shows "\<exists>m c. seedReferenceModel CapacityModel_new = Inr m \<and> queryCapacity m mode t = Inr c \<and>
     cap_amount c VramBytes = d_of_nat (40 * 2 ^ 30) \<and>
     cap_amount c AcceleratorCount = d_of_nat (4 - (if 1000000000 \<le> t \<and> t < 4000000000 then 2 else 0) +
        (if (if mode = Optimistic then 8000000000 else if mode = Guaranteed \<or> mode = Conservative then 12000000000 else 10000000000) \<le> t
         then 1 else 0))"
proof -
  obtain m where m: "seedReferenceModel CapacityModel_new = Inr m" "currentResources m = seed_resources"
      "m_reservations m = [seed_reservation]" "m_releases m = [seed_release]" "m_sources m = seed_sources"
    using seed_model by blast
  note w = seed_fleet [OF m(5,2)]
  obtain v where v: "buildView m 0 = Inr v" "cap_rep (fv_available v) (fleet_free seed_F m)"
    using buildView_rep [OF w(1), of 0] by blast
  have "\<exists>c. capacityAt (view_timeline v mode) t = Inr c \<and> cap_rep c (projected seed_F seed_H seed_R m mode t)"
    unfolding view_timeline_def by (rule project_rep [OF stable.event_sort_axioms v seed_exact [OF m(5,2-4)] assms])
  then obtain c where c: "queryCapacity m mode t = Inr c" "cap_rep c (projected seed_F seed_H seed_R m mode t)"
    using v(1) by (auto simp: queryCapacity_body)
  have i: "iv_containsPoint (rsv_interval seed_reservation) t \<longleftrightarrow> 1000000000 \<le> t \<and> t < 4000000000"
    by (simp add: seed_reservation_def iv_containsPoint_def)
  have "projected seed_F seed_H seed_R m mode t = (\<lambda>_. 0)(VramBytes := 40 * 2 ^ 30, AcceleratorCount :=
      4 + (if releaseTime seed_release mode \<le> t then 1 else 0) - (if 1000000000 \<le> t \<and> t < 4000000000 then 2 else 0))"
    by (rule ext) (auto simp: projected_def w(2) m held_at_def credited_at_def seed_counts seed_H_def seed_R_def i)
  then show ?thesis using m(1) c by (auto simp: cap_rep_def releaseTime_def seed_release_def)
qed

theorem reference_calendar_witness:
  "\<exists>m c. seedReferenceModel CapacityModel_new = Inr m \<and> queryCapacity m Expected 2000000000 = Inr c \<and>
     cap_amount c AcceleratorCount = d_of_nat 2"
  using reference_calendar [of 2000000000 Expected] by (auto simp: i64_min_def)

end
