(* ===== verification/Worker.thy ===== *)
theory Worker
  imports Server Reference
begin

text \<open>
  The reference worker (\<open>tools/worker_main.cpp\<close>): a client that says hello, registers its boot, publishes one
  resource and holds the connection. What the connection does with a request is an argument; at the end it is
  the coordinator of \<open>Coordinator\<close> behind the frames of \<open>Protocol\<close>. The parsing of the command line is left out.
\<close>

section \<open>The client\<close>

type_synonym 's exchange = "FramedMessage \<Rightarrow> 's \<Rightarrow> FramedMessage option \<times> 's"

text \<open>A request and its answer; when either fails the answer is a default frame, which is a Hello.\<close>

definition sendRecv :: "'s exchange \<Rightarrow> MessageType \<Rightarrow> bytes \<Rightarrow> 's \<Rightarrow> FramedMessage \<times> 's" where
  "sendRecv xchg t p s =
     (case xchg (FramedMessage_default\<lparr>fm_type := t, fm_payload := p\<rparr>) s of
        (None, s') \<Rightarrow> (FramedMessage_default, s')
      | (Some r, s') \<Rightarrow> (r, s'))"

definition acked :: "MessageType \<Rightarrow> FramedMessage \<Rightarrow> bool" where
  "acked t ack \<longleftrightarrow> \<not> (fm_type ack \<noteq> t \<or> fm_payload ack = [] \<or> fm_payload ack ! 0 \<noteq> 1)"

datatype WorkerExit = NoDevice | HelloFailed | RegisterRejected | PublishRejected | WorkerReady

definition worker_cap :: DeviceCapability where
  "worker_cap = \<lparr>architecture = ''sm_120'', className = ''blackwell'', capability = ''fp8'',
     markers = [''fp8'', ''tensor_core'']\<rparr>"

definition worker_resource :: "WorkerId \<Rightarrow> WorkerBootId \<Rightarrow> ResourceId \<Rightarrow> DeviceId \<Rightarrow> u64 \<Rightarrow> u64 \<Rightarrow> ResourceInfo" where
  "worker_resource w b rid did totalMB freeMB =
     makeResource rid (Generation 1) (StrongId 1) (StrongId 1) did w b worker_cap
       (ByteCount (push_bit 20 totalMB)) (ByteCount (push_bit 20 freeMB)) [ByteCount (push_bit 20 freeMB)] Healthy"

text \<open>The session: hello, registration, publication of the resource the worker describes.\<close>

definition worker_session :: "'s exchange \<Rightarrow> WorkerId \<Rightarrow> WorkerBootId \<Rightarrow> ResourceInfo \<Rightarrow> 's \<Rightarrow> WorkerExit \<times> 's" where
  "worker_session xchg w b r s =
     (let (hello, s1) = sendRecv xchg MtHello [] s
      in if fm_type hello \<noteq> MtHello then (HelloFailed, s1)
      else
        let (ack, s2) = sendRecv xchg MtRegister (writeU64 (sid_value w) @ writeU64 (sid_value b)) s1
        in if \<not> acked MtRegister ack then (RegisterRejected, s2)
        else
          let (ack', s3) = sendRecv xchg MtPublishResource (writeResource r) s2
          in if \<not> acked MtPublishResource ack' then (PublishRejected, s3)
          else (WorkerReady, s3))"

definition worker_main :: "'s exchange \<Rightarrow> WorkerId \<Rightarrow> WorkerBootId \<Rightarrow> ResourceId \<Rightarrow> DeviceId \<Rightarrow> u64 \<Rightarrow> u64 \<Rightarrow> 's \<Rightarrow> WorkerExit \<times> 's" where
  "worker_main xchg w b rid did totalMB freeMB s = worker_session xchg w b (worker_resource w b rid did totalMB freeMB) s"

text \<open>
  The CUDA worker (\<open>cuda/cuda_worker_main.cpp\<close>): what the probe of the device found (nothing when it failed) and the free
  memory it measured are arguments.
\<close>

record CudaDevice =
  cu_present :: bool
  cu_ordinal :: int
  cu_name :: string
  cu_major :: nat
  cu_minor :: nat
  cu_totalBytes :: u64
  cu_freeBytes :: u64
  cu_supported :: bool

definition cuda_resource :: "WorkerId \<Rightarrow> WorkerBootId \<Rightarrow> ResourceId \<Rightarrow> CudaDevice \<Rightarrow> u64 \<Rightarrow> ResourceInfo" where
  "cuda_resource w b rid dev freeBytes =
     ResourceInfo_default\<lparr>res_id := rid, res_generation := Generation 1, res_fleetId := StrongId 1, res_nodeId := StrongId 1,
       res_deviceId := StrongId 1,
       res_capability := \<lparr>architecture = cu_name dev, className = ''cuda'',
         capability = ''sm'' @ dec_digits (cu_major dev) @ dec_digits (cu_minor dev), markers = [''cuda'', ''fp'']\<rparr>,
       res_nominal := setAccelerators (DeviceCount 1) (setVram (ByteCount (cu_totalBytes dev)) om_empty),
       res_free := setAccelerators (DeviceCount 1) (setVram (ByteCount freeBytes) om_empty),
       res_health := Healthy, res_worker := w, res_bootId := b, res_provenance := Measured,
       res_freeBlocks := [ByteCount freeBytes]\<rparr>"

definition cuda_worker_main :: "'s exchange \<Rightarrow> CudaDevice option \<Rightarrow> u64 \<Rightarrow> WorkerId \<Rightarrow> WorkerBootId \<Rightarrow> ResourceId \<Rightarrow> 's \<Rightarrow> WorkerExit \<times> 's" where
  "cuda_worker_main xchg probed freeBytes w b rid s =
     (case probed of None \<Rightarrow> (NoDevice, s)
      | Some dev \<Rightarrow> if \<not> cu_present dev then (NoDevice, s)
          else worker_session xchg w b (cuda_resource w b rid dev freeBytes) s)"

text \<open>The loop that holds the connection: its exit code, or still waiting.\<close>

function worker_hold :: "RecvResult list \<Rightarrow> bytes \<Rightarrow> int option" where
  "worker_hold rs buf =
     (case recvFrame rs buf of
        (Received m, buf', rs') \<Rightarrow> if fm_type m = MtShutdown then Some 0 else worker_hold rs' buf'
      | (StillWaiting, buf', rs') \<Rightarrow> None
      | (CorruptFrame, buf', rs') \<Rightarrow> Some 0
      | (PeerClosed, buf', rs') \<Rightarrow> Some 0
      | (RecvError, buf', rs') \<Rightarrow> Some 0)"
  by pat_completeness auto

termination
  by (relation "measure (\<lambda>(rs, buf). length buf + length (rs_data rs))") (auto dest!: recv_consumes [OF sym])

declare worker_hold.simps [simp del]

section \<open>The connection to the coordinator\<close>

text \<open>
  One request over a connection: the frame travels to the coordinator's receive loop, its handler takes a turn,
  and what that puts on the wire travels back. \<open>rs\<close> are the results of the sends on either side.
\<close>

type_synonym link = "ConnState \<times> CapacityModel \<times> files"

definition coordinator_exchange :: "SendResult list \<Rightarrow> WriteEnv \<Rightarrow> link exchange" where
  "coordinator_exchange rs env msg st =
     (case st of
        (Closed, m, fs) \<Rightarrow> (None, st)
      | (Blocked, m, fs) \<Rightarrow> (None, st)
      | (Serving cur, m, fs) \<Rightarrow>
          (case recvFrame [RecvData (snd (sendFrame rs msg))] [] of
             (Received msg', buf, rest) \<Rightarrow>
               (case handle_frame rs env cur m fs msg' of
                  Inl f \<Rightarrow> (None, (Closed, m, fs))
                | Inr t \<Rightarrow>
                    (case recvFrame [RecvData (tn_wire t)] [] of
                       (Received r, buf, rest) \<Rightarrow> (Some r, (tn_conn t, tn_model t, tn_files t))
                     | _ \<Rightarrow> (None, (tn_conn t, tn_model t, tn_files t))))
           | _ \<Rightarrow> (None, st)))"

text \<open>Results with which every frame up to some size is sent in full.\<close>

definition sends_up_to :: "nat \<Rightarrow> SendResult list \<Rightarrow> bool" where
  "sends_up_to n rs \<longleftrightarrow> (\<forall>f. length (fm_payload f) \<le> n \<longrightarrow> sendFrame rs f = (SendDone, frame_of f))"

lemma sends_one_chunk:
  assumes "n + 23 \<le> 2 ^ 20"
  shows "sends_up_to n [Sent (2 ^ 20)]"
  unfolding sends_up_to_def
proof (intro allI impI)
  fix f :: FramedMessage assume f: "length (fm_payload f) \<le> n"
  have fits: "payload_fits f" using f assms by (simp add: payload_fits_def kMaxFramePayload_def)
  obtain x xs where x: "frame_of f = x # xs" by (cases "frame_of f") (use length_frame_of [of f] in auto)
  have "length (x # xs) \<le> 2 ^ 20" using length_frame_of [of f] f assms by (simp only: x [symmetric])
  then have "min (2 ^ 20) (send_chunk (x # xs)) = length (x # xs)" unfolding send_chunk_def by linarith
  then have "sendAll [Sent (2 ^ 20)] (x # xs) = (SendDone, x # xs)"
    by (simp only: sendAll.simps Let_def) simp
  then show "sendFrame [Sent (2 ^ 20)] f = (SendDone, frame_of f)"
    by (simp add: sendFrame_def encodeFrame_of [OF fits] x)
qed

lemma recv_whole: "payload_fits m \<Longrightarrow> recvFrame [RecvData (frame_of m)] [] = (Received m, [], [])"
  using pop_frame [of m "[]"]
  by (simp add: recvFrame.simps fb_pop_def [of "[]"] decodeFrame_def [of "[]"] kHeaderLen_def fb_append_def)

lemma exchange_turn:
  assumes "sends_up_to n rs" and "length (fm_payload msg) \<le> n" "length (fm_payload r) \<le> n" "n \<le> kMaxFramePayload"
    and "handle_frame rs env cur m fs msg = Inr t" and "tn_wire t = snd (reply rs r)"
  shows "coordinator_exchange rs env msg (Serving cur, m, fs) = (Some r, (tn_conn t, tn_model t, tn_files t))"
proof -
  have "payload_fits msg" "payload_fits r" using assms(2-4) by (simp_all add: payload_fits_def)
  moreover have "sendFrame rs msg = (SendDone, frame_of msg)" "tn_wire t = frame_of r"
    using assms(1-3,6) by (simp_all add: sends_up_to_def reply_def)
  ultimately show ?thesis using assms(5) by (simp add: coordinator_exchange_def recv_whole)
qed

lemma sends_reply: "sends_up_to n rs \<Longrightarrow> length (fm_payload f) \<le> n \<Longrightarrow> reply rs f = (Some True, frame_of f)"
  by (simp add: reply_def sends_up_to_def)

lemma exchange_dispatch:
  assumes "sends_up_to n rs" and "length (fm_payload msg) \<le> n" "length (fm_payload f) \<le> n" "n \<le> kMaxFramePayload"
    and "fm_type msg \<notin> {MtShutdown, MtRegister}" and "dispatch_reply env m fs msg = Inr (Some f, m', fs')"
  shows "coordinator_exchange rs env msg (Serving cur, m, fs) = (Some f, (Serving cur, m', fs'))"
proof -
  note r = sends_reply [OF assms(1,3)]
  have "handle_frame rs env cur m fs msg =
      Inr \<lparr>tn_conn = Serving cur, tn_stop = False, tn_wire = snd (reply rs f), tn_model = m', tn_files = fs'\<rparr>"
    using assms(5,6) r by (simp add: handle_frame_def dispatch_def unless_blocked_def)
  from exchange_turn [OF assms(1-4) this] show ?thesis by simp
qed

lemma exchange_register:
  assumes "sends_up_to n rs" and "16 \<le> n" "n \<le> kMaxFramePayload" and "registerWorker m (StrongId wv) (StrongId bv) = (ok, m')"
  shows "coordinator_exchange rs env \<lparr>fm_type = MtRegister, fm_seq = q, fm_payload = writeU64 wv @ writeU64 bv\<rparr> (Serving cur, m, fs) =
     (Some (reply_frame MtRegister q (flagPayload ok)), (Serving (StrongId wv), m', fs))"
proof -
  let ?msg = "\<lparr>fm_type = MtRegister, fm_seq = q, fm_payload = writeU64 wv @ writeU64 bv\<rparr>"
  let ?r = "reply_frame MtRegister q (flagPayload ok)"
  have "rd_pair readU64 readU64 (writeU64 wv @ writeU64 bv) = Inr (Some ((wv, bv), []))"
    using u64_codec.read_write [of bv "[]"] u64_codec.read_write [of wv "writeU64 bv"] by (simp add: rd_pair_write)
  moreover have "length (fm_payload ?r) = 1" by (simp add: reply_frame_def)
  moreover from this have "reply rs ?r = (Some True, frame_of ?r)" using assms(2) by (intro sends_reply [OF assms(1)]) simp
  ultimately have "handle_frame rs env cur m fs ?msg =
      Inr \<lparr>tn_conn = Serving (StrongId wv), tn_stop = False, tn_wire = snd (reply rs ?r), tn_model = m', tn_files = fs\<rparr>"
    using assms(4) by (simp add: handle_frame_def handle_register_def on_read_def Let_def unless_blocked_def)
  moreover have "length (fm_payload ?r) = 1" by (simp add: reply_frame_def)
  ultimately show ?thesis using exchange_turn [OF assms(1) _ _ assms(3), of ?msg ?r env cur m fs] assms(2) by simp
qed

section \<open>What the worker publishes\<close>

lemma capacity_wire_rep:
  assumes "unat (bc_value b) < 2 ^ 53"
  shows "capacity_wire (setAccelerators (DeviceCount 1) (setVram b om_empty))"
proof -
  have set: "set (ins_list k v xs) \<subseteq> insert (k, v) (set xs)" for k v and xs :: "(Dimension \<times> double) list"
    by (induction k v xs rule: ins_list.induct) auto
  have ok: "capacity_wire (cap_set d (d_of_nat n) c)" if "capacity_wire c" "n < 2 ^ 53" for d n c
    using that d_of_nat_exact(2) [OF that(2)] amount_ok_key [of "d_of_nat n"] d_of_nat_zero_iff [OF that(2)]
      set [of d "d_of_nat n" "om_entries c"]
    by (auto simp: capacity_wire_def cap_set_whole d_cmp_finite)
  have "capacity_wire om_empty" by (simp add: capacity_wire_def)
  then show ?thesis unfolding setAccelerators_def setVram_def d_of_u64_def by (intro ok) (use assms in simp_all)
qed

lemma shift_small: "unat mb < 2 ^ 33 \<Longrightarrow> unat (push_bit 20 mb :: u64) < 2 ^ 53"
proof -
  assume a: "unat mb < 2 ^ 33"
  then have "unat mb * 2 ^ 20 < 2 ^ 53" by simp
  then show "unat (push_bit 20 mb :: u64) < 2 ^ 53"
    by (simp add: push_bit_eq_mult unat_word_ariths(2))
qed

lemma worker_resource_wire:
  assumes "unat totalMB < 2 ^ 33" and "unat freeMB < 2 ^ 33"
  shows "resource_wire (worker_resource w b rid did totalMB freeMB)"
  using capacity_wire_rep [of "ByteCount (push_bit 20 totalMB)"] capacity_wire_rep [of "ByteCount (push_bit 20 freeMB)"]
    shift_small [OF assms(1)] shift_small [OF assms(2)]
  by (simp add: resource_wire_def worker_resource_def makeResource_def ResourceInfo_default_def worker_cap_def short_def
      capacity_wire_def)

lemma worker_payload_size: "length (writeResource (worker_resource w b rid did totalMB freeMB)) \<le> 65536"
proof -
  have "length (writeCapacity c) \<le> 2308" for c using om_size_Dimension [of c] by (simp add: length_writeCapacity)
  from this [of "res_nominal (worker_resource w b rid did totalMB freeMB)"] this [of "res_free (worker_resource w b rid did totalMB freeMB)"]
    this [of "res_committed (worker_resource w b rid did totalMB freeMB)"] this [of "res_unavailable (worker_resource w b rid did totalMB freeMB)"]
  show ?thesis
    by (simp add: writeResource_def) (simp add: worker_resource_def worker_cap_def writeString_def writeBytes_def)
qed

section \<open>The session\<close>

lemma session_ready:
  assumes "sid_valid w" and "sid_valid b" and "\<forall>s. om_lookup (m_sources m) w = Some s \<longrightarrow> \<not> src_alive s \<or> src_bootId s = b"
    and "\<not> gen_regresses (tracker_current (m_resourceGen m) (res_id R)) (res_generation R)"
    and "res_worker R = w" "res_bootId R = b" and "resource_wire R" and "length (writeResource R) \<le> 65536"
    and "cap_rep (res_nominal R) N" and "cap_rep (res_free R) F" and "sends_up_to 65536 rs"
  shows "\<exists>m'. worker_session (coordinator_exchange rs env) w b R (Serving sid_default, m, fs) =
       (WorkerReady, (Serving w, m', fs)) \<and> isFreshBoot m' w b \<and>
     om_lookup (m_resources m') (res_id R) = Some (resource_image R) \<and> resource_current m' (resource_image R) \<and>
     publishResource (m\<lparr>m_sources := om_insert w \<lparr>src_bootId = b, src_alive = True\<rparr> (m_sources m)\<rparr>) (resource_image R) = Inr (True, m')"
proof -
  let ?m1 = "m\<lparr>m_sources := om_insert w \<lparr>src_bootId = b, src_alive = True\<rparr> (m_sources m)\<rparr>"
  let ?x = "coordinator_exchange rs env"
  have k: "65536 \<le> kMaxFramePayload" by (simp add: kMaxFramePayload_def)
  have d: "FramedMessage_default\<lparr>fm_type := t, fm_payload := p\<rparr> = \<lparr>fm_type = t, fm_seq = 0, fm_payload = p\<rparr>" for t p
    by (simp add: FramedMessage_default_def)
  have hello: "?x \<lparr>fm_type = MtHello, fm_seq = 0, fm_payload = []\<rparr> (Serving sid_default, m, fs) =
      (Some (reply_frame MtHello 0 (writeU64 (gen_value (m_epoch m)))), (Serving sid_default, m, fs))"
    by (rule exchange_dispatch [OF assms(11)]) (simp_all add: k reply_frame_def dispatch_reply_def)
  have reg: "registerWorker m (StrongId (sid_value w)) (StrongId (sid_value b)) = (True, ?m1)"
    using assms(1-3) by (auto simp: registerWorker_def split: option.splits)
  have fresh: "isFreshBoot ?m1 w b" by (simp add: isFreshBoot_def)
  have img: "res_id (resource_image R) = res_id R" "res_generation (resource_image R) = res_generation R"
      "res_worker (resource_image R) = w" "res_bootId (resource_image R) = b"
      "res_nominal (resource_image R) = res_nominal R" "res_free (resource_image R) = res_free R"
    using assms(5,6) by (simp_all add: resource_image_def)
  obtain m' where pub: "publishResource ?m1 (resource_image R) = Inr (True, m')"
      and m': "m_sources m' = m_sources ?m1" "m_resources m' = om_insert (res_id R) (resource_image R) (m_resources m)"
    using publish_accepted [of ?m1 "resource_image R" N F] fresh assms(4,9,10) img by auto
  have "readResource (writeResource R) = Inr (Some (resource_image R, []))"
    using resource_format.read_image [OF assms(7), of "[]"] by simp
  then have "dispatch_reply env ?m1 fs \<lparr>fm_type = MtPublishResource, fm_seq = 0, fm_payload = writeResource R\<rparr> =
      Inr (Some (reply_frame MtPublishResource 0 (flagPayload True)), m', fs)"
    using pub by (simp add: dispatch_reply_def on_read_def)
  then have publish: "?x \<lparr>fm_type = MtPublishResource, fm_seq = 0, fm_payload = writeResource R\<rparr> (Serving w, ?m1, fs) =
      (Some (reply_frame MtPublishResource 0 (flagPayload True)), (Serving w, m', fs))"
    by (intro exchange_dispatch [OF assms(11)]) (simp_all add: k reply_frame_def assms(8))
  have "worker_session ?x w b R (Serving sid_default, m, fs) = (WorkerReady, (Serving w, m', fs))"
    using exchange_register [OF assms(11) _ k reg, of env 0 sid_default fs]
    by (simp add: worker_session_def sendRecv_def d hello publish acked_def reply_frame_def flagPayload_def okPayload_def)
  moreover have f: "isFreshBoot m' w b" using fresh m'(1) by (simp add: isFreshBoot_def)
  moreover have "resource_current m' (resource_image R)"
    using f img assms(2) by (simp add: resource_current_def isCurrentDynamic_def)
  ultimately show ?thesis using m'(2) pub by auto
qed

section \<open>Properties\<close>

text \<open>
  C12. A worker becomes ready. A worker with a valid identity and boot, of which no other boot is alive, and
  whose resource has no recorded generation above one, gets through its session with the coordinator, whatever
  else the model holds: hello, registration and publication are acknowledged, it reports READY, and its
  boot is live and its resource current in the coordinator's model, with the free block it measured.
\<close>

theorem worker_becomes_ready:
  assumes "sid_valid w" and "sid_valid b" and "\<forall>s. om_lookup (m_sources m) w = Some s \<longrightarrow> \<not> src_alive s \<or> src_bootId s = b"
    and "\<not> gen_regresses (tracker_current (m_resourceGen m) rid) (Generation 1)"
    and "unat totalMB < 2 ^ 33" "unat freeMB < 2 ^ 33" and "sends_up_to 65536 rs"
  shows "\<exists>m'. worker_main (coordinator_exchange rs env) w b rid did totalMB freeMB (Serving sid_default, m, fs) =
       (WorkerReady, (Serving w, m', fs)) \<and> isFreshBoot m' w b \<and>
     (\<exists>r. om_lookup (m_resources m') rid = Some r \<and> resource_current m' r \<and> res_worker r = w \<and>
        res_freeBlocks r = [ByteCount (push_bit 20 freeMB)])"
proof -
  let ?R = "worker_resource w b rid did totalMB freeMB"
  have R: "res_id ?R = rid" "res_generation ?R = Generation 1" "res_worker ?R = w" "res_bootId ?R = b"
      "res_freeBlocks ?R = [ByteCount (push_bit 20 freeMB)]"
    by (simp_all add: worker_resource_def)
  have rep: "cap_rep (res_nominal ?R) (one_device (ByteCount (push_bit 20 totalMB)))"
      "cap_rep (res_free ?R) (one_device (ByteCount (push_bit 20 freeMB)))"
    using makeResource_rep [of "ByteCount (push_bit 20 totalMB)" "ByteCount (push_bit 20 freeMB)"]
      shift_small [OF assms(5)] shift_small [OF assms(6)]
    by (simp_all add: worker_resource_def)
  have "res_worker (resource_image ?R) = w" "res_freeBlocks (resource_image ?R) = [ByteCount (push_bit 20 freeMB)]"
    using R by (simp_all add: resource_image_def)
  then show ?thesis
    using session_ready [OF assms(1-3) _ R(3,4) worker_resource_wire [OF assms(5,6)] worker_payload_size rep assms(7), of env fs] assms(4) R
    by (auto simp: worker_main_def)
qed

theorem worker_becomes_ready_witness:
  "\<exists>m'. worker_main (coordinator_exchange [Sent (2 ^ 20)] WriteOk) (StrongId 3) (StrongId 7) (StrongId 5) (StrongId 1) 8192 4096
       (Serving sid_default, CapacityModel_new, \<lambda>_. None) = (WorkerReady, (Serving (StrongId 3), m', \<lambda>_. None)) \<and>
     isFreshBoot m' (StrongId 3) (StrongId 7)"
proof -
  have "\<not> gen_regresses (tracker_current (m_resourceGen CapacityModel_new) (StrongId 5)) (Generation 1)"
    by (simp add: CapacityModel_new_def setEpoch_def gen_regresses_def gen_default_def gen_valid_def)
  moreover have "\<forall>s. om_lookup (m_sources CapacityModel_new) (StrongId 3) = Some s \<longrightarrow> \<not> src_alive s \<or> src_bootId s = StrongId 7"
    by (simp add: CapacityModel_new_def setEpoch_def)
  ultimately show ?thesis
    using worker_becomes_ready [of "StrongId 3" "StrongId 7" CapacityModel_new "StrongId 5" 8192 4096 "[Sent (2 ^ 20)]" WriteOk "StrongId 1" "\<lambda>_. None"]
      sends_one_chunk [of 65536]
    by (auto simp: sid_valid_def kInvalidId_def)
qed

text \<open>A lost connection is never reported as a failed hello: the default answer is a Hello.\<close>

lemma hello_failure_unnoticed:
  "worker_main (\<lambda>msg s. (None, s)) w b rid did totalMB freeMB s = (RegisterRejected, s)"
  by (simp add: worker_main_def worker_session_def sendRecv_def FramedMessage_default_def acked_def)

text \<open>The holding loop ends, with exit code 0, when its input does.\<close>

lemma worker_hold_ends: "ends rs \<Longrightarrow> worker_hold rs buf = Some 0"
proof (induction rs buf rule: worker_hold.induct)
  case (1 rs buf)
  obtain res buf' rs' where r: "recvFrame rs buf = (res, buf', rs')" by (cases "recvFrame rs buf")
  show ?case
  proof (cases res)
    case (Received m)
    then show ?thesis
      using 1(1) [OF r [symmetric] Received refl] recv_ends [OF r 1(2)] r by (simp add: worker_hold.simps [of rs])
  qed (use r recv_ends [OF r 1(2)] in \<open>simp_all add: worker_hold.simps [of rs]\<close>)
qed

text \<open>The CUDA worker gets as far, with the memory it measured.\<close>

lemma dec_digits_short: "length (dec_digits n) \<le> n + 1"
proof (induction n rule: dec_digits.induct)
  case (1 n)
  have "length (dec_digits n) = (if n < 10 then 1 else length (dec_digits (n div 10)) + 1)"
    by (subst dec_digits.simps) simp
  then show ?case using 1 by (cases "n < 10") simp_all
qed

lemma cuda_resource_fields [simp]:
  "res_id (cuda_resource w b rid dev f) = rid" "res_generation (cuda_resource w b rid dev f) = Generation 1"
  "res_deviceId (cuda_resource w b rid dev f) = StrongId 1"
  "res_worker (cuda_resource w b rid dev f) = w" "res_bootId (cuda_resource w b rid dev f) = b"
  "res_freeBlocks (cuda_resource w b rid dev f) = [ByteCount f]" "res_health (cuda_resource w b rid dev f) = Healthy"
  "res_committed (cuda_resource w b rid dev f) = om_empty" "res_unavailable (cuda_resource w b rid dev f) = om_empty"
  "res_nominal (cuda_resource w b rid dev f) = setAccelerators (DeviceCount 1) (setVram (ByteCount (cu_totalBytes dev)) om_empty)"
  "res_free (cuda_resource w b rid dev f) = setAccelerators (DeviceCount 1) (setVram (ByteCount f) om_empty)"
  by (simp_all add: cuda_resource_def ResourceInfo_default_def)

text \<open>A device whose description is short enough and whose memory is exact as a double.\<close>

definition plain_device :: "CudaDevice \<Rightarrow> bool" where
  "plain_device dev \<longleftrightarrow> cu_present dev \<and> length (cu_name dev) \<le> 256 \<and> cu_major dev < 100 \<and> cu_minor dev < 100 \<and>
     unat (cu_totalBytes dev) < 2 ^ 52"

lemma cuda_resource_rep:
  assumes "plain_device dev" and "unat freeBytes < 2 ^ 53"
  shows "cap_rep (res_nominal (cuda_resource w b rid dev freeBytes)) (one_device (ByteCount (cu_totalBytes dev)))"
    and "cap_rep (res_free (cuda_resource w b rid dev freeBytes)) (one_device (ByteCount freeBytes))"
  using one_device_rep [of "ByteCount (cu_totalBytes dev)"] one_device_rep [of "ByteCount freeBytes"] assms
  by (simp_all add: plain_device_def)

lemma cuda_resource_sends:
  assumes "plain_device dev" and "unat freeBytes < 2 ^ 53"
  shows "resource_wire (cuda_resource w b rid dev freeBytes)" and "length (writeResource (cuda_resource w b rid dev freeBytes)) \<le> 65536"
proof -
  let ?R = "cuda_resource w b rid dev freeBytes"
  have cap: "res_capability ?R = \<lparr>architecture = cu_name dev, className = ''cuda'',
      capability = ''sm'' @ dec_digits (cu_major dev) @ dec_digits (cu_minor dev), markers = [''cuda'', ''fp'']\<rparr>"
    by (simp add: cuda_resource_def)
  have len: "length (dec_digits (cu_major dev)) \<le> 100" "length (dec_digits (cu_minor dev)) \<le> 100" "length (cu_name dev) \<le> 256"
    using dec_digits_short [of "cu_major dev"] dec_digits_short [of "cu_minor dev"] assms(1) by (simp_all add: plain_device_def)
  have "capacity_wire (res_nominal ?R)" "capacity_wire (res_free ?R)" "capacity_wire om_empty"
    using capacity_wire_rep [of "ByteCount (cu_totalBytes dev)"] capacity_wire_rep [of "ByteCount freeBytes"] assms
    by (simp_all add: capacity_wire_def plain_device_def)
  then show "resource_wire ?R" using len by (simp add: resource_wire_def cap short_def)
  have "length (writeCapacity c) \<le> 2308" for c using om_size_Dimension [of c] by (simp add: length_writeCapacity)
  from this [of "res_nominal ?R"] this [of "res_free ?R"] this [of "om_empty"]
  show "length (writeResource ?R) \<le> 65536"
    using len by (simp add: writeResource_def cap writeString_def writeBytes_def)
qed

lemma cuda_worker_ready:
  assumes "sid_valid w" and "sid_valid b" and "\<forall>s. om_lookup (m_sources m) w = Some s \<longrightarrow> \<not> src_alive s \<or> src_bootId s = b"
    and "\<not> gen_regresses (tracker_current (m_resourceGen m) rid) (Generation 1)"
    and "plain_device dev" and "unat freeBytes < 2 ^ 53" and "sends_up_to 65536 rs"
  shows "\<exists>m'. cuda_worker_main (coordinator_exchange rs env) (Some dev) freeBytes w b rid (Serving sid_default, m, fs) =
       (WorkerReady, (Serving w, m', fs)) \<and>
     publishResource (m\<lparr>m_sources := om_insert w \<lparr>src_bootId = b, src_alive = True\<rparr> (m_sources m)\<rparr>)
       (resource_image (cuda_resource w b rid dev freeBytes)) = Inr (True, m') \<and>
     isFreshBoot m' w b \<and> (\<exists>r. om_lookup (m_resources m') rid = Some r \<and> resource_current m' r \<and> res_freeBlocks r = [ByteCount freeBytes])"
proof -
  let ?R = "cuda_resource w b rid dev freeBytes"
  have "res_freeBlocks (resource_image ?R) = [ByteCount freeBytes]" by (simp add: resource_image_def)
  then show ?thesis
    using session_ready [where R = ?R and env = env and fs = fs, OF assms(1-3) _ _ _ cuda_resource_sends [OF assms(5,6)]
        cuda_resource_rep [OF assms(5,6)] assms(7)] assms(4,5)
    by (auto simp: cuda_worker_main_def plain_device_def)
qed

end
