(* ===== verification/Sockets.thy ===== *)
theory Sockets
  imports Protocol Text_Format
begin

text \<open>
  The ownership of sockets by connection objects (\<open>protocol/tcp.cpp\<close>, \<open>protocol/tcp.hpp\<close>). A connection holds a socket as an opaque
  pointer, null when it has none. What the operating system answers to each call is an argument; the model keeps
  which sockets are open.
\<close>

section \<open>Connection objects\<close>

type_synonym SOCKET = u64

definition INVALID_SOCKET :: SOCKET where "INVALID_SOCKET = - 1"

record TcpConnection =
  tc_handle :: u64
  tc_inbuf :: bytes

definition TcpConnection_default :: TcpConnection where
  "TcpConnection_default = \<lparr>tc_handle = 0, tc_inbuf = []\<rparr>"

definition toSock :: "u64 \<Rightarrow> SOCKET" where "toSock h = h"
definition fromSock :: "SOCKET \<Rightarrow> u64" where "fromSock s = s"

text \<open>
  Before the first socket the library is started, once: the answer, and whether it has been started. \<open>starts\<close> is what the system
  answers to that call.
\<close>

definition ensureWsa :: "bool \<Rightarrow> bool \<Rightarrow> bool \<times> bool" where
  "ensureWsa starts started = (if started then (True, started) else if \<not> starts then (False, started) else (True, True))"

definition tcp_isOpen :: "TcpConnection \<Rightarrow> bool" where
  "tcp_isOpen c \<longleftrightarrow> tc_handle c \<noteq> 0"

definition tcp_close :: "TcpConnection \<Rightarrow> SOCKET set \<Rightarrow> TcpConnection \<times> SOCKET set" where
  "tcp_close c opened =
     (if tc_handle c = 0 then (c, opened) else (c\<lparr>tc_handle := 0\<rparr>, opened - {toSock (tc_handle c)}))"

text \<open>
  The options of the open sockets, and what the system knows of the peer of a socket: nothing, an address it cannot print, or one
  it can. Whether the option could be set is not looked at.
\<close>

definition tcp_setNoDelay :: "bool \<Rightarrow> bool \<Rightarrow> TcpConnection \<Rightarrow> (SOCKET \<Rightarrow> bool) \<Rightarrow> SOCKET \<Rightarrow> bool" where
  "tcp_setNoDelay settable on c noDelay =
     (if tc_handle c = 0 \<or> \<not> settable then noDelay else noDelay(toSock (tc_handle c) := on))"

definition tcp_peerAddress :: "(SOCKET \<Rightarrow> string option option) \<Rightarrow> TcpConnection \<Rightarrow> string" where
  "tcp_peerAddress getpeername c =
     (if tc_handle c = 0 then ''''
      else case getpeername (toSock (tc_handle c)) of None \<Rightarrow> '''' | Some None \<Rightarrow> ''?'' | Some (Some ip) \<Rightarrow> ip)"

text \<open>What the calls of \<open>connect\<close> return: start-up of the socket library, resolution, the new socket, the error code.\<close>

record ConnectEnv =
  ce_wsa :: bool
  ce_resolved :: bool
  ce_socket :: SOCKET
  ce_connected :: bool
  ce_code :: nat

text \<open>The error, if any, the connection, and the open sockets.\<close>

definition tcp_connect :: "string \<Rightarrow> ConnectEnv \<Rightarrow> TcpConnection \<Rightarrow> SOCKET set \<Rightarrow> string option \<times> TcpConnection \<times> SOCKET set" where
  "tcp_connect host env c opened =
     (if \<not> ce_wsa env then (Some ''WSAStartup failed'', c, opened)
      else
        let (c1, opened1) = tcp_close c opened; s = ce_socket env
        in if \<not> ce_resolved env then (Some (''getaddrinfo failed for '' @ host), c1, opened1)
           else if s = INVALID_SOCKET then (Some ''socket failed'', c1, opened1)
           else if \<not> ce_connected env
           then (Some (''connect failed (code '' @ dec_digits (ce_code env) @ '')''), c1, insert s opened1 - {s})
           else (None, c1\<lparr>tc_handle := fromSock s\<rparr>, insert s opened1))"

record ListenEnv =
  le_wsa :: bool
  le_socket :: SOCKET
  le_bound :: bool
  le_listened :: bool
  le_port :: "16 word"

definition tcp_listen :: "16 word \<Rightarrow> ListenEnv \<Rightarrow> TcpConnection \<Rightarrow> SOCKET set \<Rightarrow>
    (string + 16 word) \<times> TcpConnection \<times> SOCKET set" where
  "tcp_listen port env c opened =
     (if \<not> le_wsa env then (Inl ''WSAStartup failed'', c, opened)
      else
        let (c1, opened1) = tcp_close c opened; s = le_socket env
        in if s = INVALID_SOCKET then (Inl ''socket failed'', c1, opened1)
           else if \<not> le_bound env then (Inl ''bind failed'', c1, insert s opened1 - {s})
           else if \<not> le_listened env then (Inl ''listen failed'', c1, insert s opened1 - {s})
           else (Inr (if port = 0 then le_port env else port), c1\<lparr>tc_handle := fromSock s\<rparr>, insert s opened1))"

text \<open>\<open>accept\<close> on one connection puts the new socket into another.\<close>

definition tcp_accept :: "SOCKET \<Rightarrow> TcpConnection \<Rightarrow> TcpConnection \<Rightarrow> SOCKET set \<Rightarrow> string option \<times> TcpConnection \<times> SOCKET set" where
  "tcp_accept s server out opened =
     (if tc_handle server = 0 then (Some ''not listening'', out, opened)
      else if s = INVALID_SOCKET then (Some ''accept failed'', out, opened)
      else let (out1, opened1) = tcp_close out (insert s opened) in (None, out1\<lparr>tc_handle := fromSock s\<rparr>, opened1))"

text \<open>
  The move constructor and assignment: the new value of the target and of the source, whose buffer is left empty by the one
  and unspecified by the other.
\<close>

definition tcp_move :: "TcpConnection \<Rightarrow> TcpConnection \<times> TcpConnection" where
  "tcp_move from = (\<lparr>tc_handle = tc_handle from, tc_inbuf = tc_inbuf from\<rparr>, \<lparr>tc_handle = 0, tc_inbuf = []\<rparr>)"

definition tcp_moveAssign :: "bytes \<Rightarrow> TcpConnection \<Rightarrow> TcpConnection \<Rightarrow> SOCKET set \<Rightarrow>
    TcpConnection \<times> TcpConnection \<times> SOCKET set" where
  "tcp_moveAssign left this from opened =
     (let (this1, opened1) = tcp_close this opened
      in (this1\<lparr>tc_handle := tc_handle from, tc_inbuf := tc_inbuf from\<rparr>, from\<lparr>tc_handle := 0, tc_inbuf := left\<rparr>, opened1))"

section \<open>All the connections of a process\<close>

text \<open>The objects that are alive, by name, and the open sockets.\<close>

record Net =
  nt_conns :: "nat \<Rightarrow> TcpConnection option"
  nt_open :: "SOCKET set"

definition Net_new :: Net where
  "Net_new = \<lparr>nt_conns = (\<lambda>_. None), nt_open = {}\<rparr>"

text \<open>A socket the system hands out was not open before; \<open>connect\<close> and \<open>listen\<close> close the old one first.\<close>

definition handed_out :: "SOCKET \<Rightarrow> SOCKET set \<Rightarrow> bool" where
  "handed_out s opened \<longleftrightarrow> s \<noteq> INVALID_SOCKET \<longrightarrow> s \<notin> opened"

inductive net_step :: "Net \<Rightarrow> Net \<Rightarrow> bool" where
  construct: "nt_conns n i = None \<Longrightarrow> net_step n (n\<lparr>nt_conns := (nt_conns n)(i \<mapsto> TcpConnection_default)\<rparr>)"
| connect: "nt_conns n i = Some c \<Longrightarrow> handed_out (ce_socket env) (snd (tcp_close c (nt_open n))) \<Longrightarrow>
    tcp_connect host env c (nt_open n) = (e, c', opened) \<Longrightarrow>
    net_step n \<lparr>nt_conns = (nt_conns n)(i \<mapsto> c'), nt_open = opened\<rparr>"
| listen: "nt_conns n i = Some c \<Longrightarrow> handed_out (le_socket lenv) (snd (tcp_close c (nt_open n))) \<Longrightarrow>
    tcp_listen port lenv c (nt_open n) = (p, c', opened) \<Longrightarrow>
    net_step n \<lparr>nt_conns = (nt_conns n)(i \<mapsto> c'), nt_open = opened\<rparr>"
| accept: "nt_conns n i = Some server \<Longrightarrow> nt_conns n j = Some c \<Longrightarrow> i \<noteq> j \<Longrightarrow> handed_out s (nt_open n) \<Longrightarrow>
    tcp_accept s server c (nt_open n) = (e, c', opened) \<Longrightarrow>
    net_step n \<lparr>nt_conns = (nt_conns n)(j \<mapsto> c'), nt_open = opened\<rparr>"
| close: "nt_conns n i = Some c \<Longrightarrow> tcp_close c (nt_open n) = (c', opened) \<Longrightarrow>
    net_step n \<lparr>nt_conns = (nt_conns n)(i \<mapsto> c'), nt_open = opened\<rparr>"
| destroy: "nt_conns n i = Some c \<Longrightarrow> tcp_close c (nt_open n) = (c', opened) \<Longrightarrow>
    net_step n \<lparr>nt_conns = (nt_conns n)(i := None), nt_open = opened\<rparr>"
| move: "nt_conns n i = Some c \<Longrightarrow> nt_conns n j = None \<Longrightarrow> tcp_move c = (c', c'') \<Longrightarrow>
    net_step n (n\<lparr>nt_conns := (nt_conns n)(j \<mapsto> c', i \<mapsto> c'')\<rparr>)"
| move_assign: "nt_conns n i = Some this \<Longrightarrow> nt_conns n j = Some c \<Longrightarrow> i \<noteq> j \<Longrightarrow>
    tcp_moveAssign left this c (nt_open n) = (c', c'', opened) \<Longrightarrow>
    net_step n \<lparr>nt_conns = (nt_conns n)(i \<mapsto> c', j \<mapsto> c''), nt_open = opened\<rparr>"

inductive_cases net_stepE: "net_step n n'"

lemmas tcp_op_defs = tcp_connect_def tcp_listen_def tcp_accept_def tcp_move_def tcp_moveAssign_def toSock_def fromSock_def Let_def

section \<open>Ownership\<close>

text \<open>The handle of each name, null where there is no object.\<close>

definition handle_of :: "Net \<Rightarrow> nat \<Rightarrow> u64" where
  "handle_of n i = (case nt_conns n i of None \<Rightarrow> 0 | Some c \<Rightarrow> tc_handle c)"

text \<open>Every open socket but number zero has exactly one owner, and owned sockets are open.\<close>

definition owned :: "(nat \<Rightarrow> u64) \<Rightarrow> SOCKET set \<Rightarrow> bool" where
  "owned H opened \<longleftrightarrow> (\<forall>s. s \<noteq> 0 \<longrightarrow> (s \<in> opened \<longleftrightarrow> (\<exists>i. H i = s))) \<and> (\<forall>i j. H i = H j \<and> H i \<noteq> 0 \<longrightarrow> i = j)"

lemma owned_release: "owned H opened \<Longrightarrow> H i \<noteq> 0 \<Longrightarrow> owned (H(i := 0)) (opened - {H i})"
  unfolding owned_def by (auto simp: fun_upd_def; metis)

lemma owned_acquire: "owned H opened \<Longrightarrow> H i = 0 \<Longrightarrow> s \<notin> opened \<Longrightarrow> owned (H(i := s)) (insert s opened)"
  unfolding owned_def by (auto simp: fun_upd_def; metis)

lemma owned_pass: "owned H opened \<Longrightarrow> H j = 0 \<Longrightarrow> i \<noteq> j \<Longrightarrow> owned (H(j := H i, i := 0)) opened"
  unfolding owned_def by (auto simp: fun_upd_def; metis)

definition net_inv :: "Net \<Rightarrow> bool" where
  "net_inv n \<longleftrightarrow> owned (handle_of n) (nt_open n)"

lemma handle_upd [simp]:
  "handle_of \<lparr>nt_conns = (nt_conns n)(i \<mapsto> c), nt_open = ss\<rparr> = (handle_of n)(i := tc_handle c)"
  "handle_of \<lparr>nt_conns = (nt_conns n)(i := None), nt_open = ss\<rparr> = (handle_of n)(i := 0)"
  "handle_of (n\<lparr>nt_conns := (nt_conns n)(i \<mapsto> c)\<rparr>) = (handle_of n)(i := tc_handle c)"
  "handle_of \<lparr>nt_conns = (nt_conns n)(i \<mapsto> c, j \<mapsto> d), nt_open = ss\<rparr> = (handle_of n)(i := tc_handle c, j := tc_handle d)"
  "handle_of (n\<lparr>nt_conns := (nt_conns n)(i \<mapsto> c, j \<mapsto> d)\<rparr>) = (handle_of n)(i := tc_handle c, j := tc_handle d)"
  by (auto simp: handle_of_def fun_eq_iff)

lemma close_effect: "tcp_close c opened = (c', opened') \<Longrightarrow> tc_handle c' = 0 \<and> tc_inbuf c' = tc_inbuf c \<and> (tcp_isOpen c' \<longleftrightarrow> False)"
  by (auto simp: tcp_close_def tcp_isOpen_def split: if_splits)

lemma close_owned:
  assumes "owned H opened" and "H i = tc_handle c" and "tcp_close c opened = (c', opened')"
  shows "owned (H(i := 0)) opened'"
  using assms owned_release [OF assms(1), of i]
  by (auto simp: tcp_close_def toSock_def fun_upd_idem split: if_splits)

text \<open>Closing what a connection has and giving it a new socket.\<close>

lemma renew_owned:
  assumes "owned H opened" and "H i = tc_handle c" and "tcp_close c opened = (c', opened')" and "s \<notin> opened'"
  shows "owned (H(i := s)) (insert s opened')"
  using owned_acquire [OF close_owned [OF assms(1-3)], of i s] assms(4) by simp

lemma accept_owned:
  assumes "owned H opened" and "H j = tc_handle c" and "tcp_accept s server c opened = (r, c', opened')"
    and "s \<noteq> INVALID_SOCKET \<longrightarrow> s \<notin> opened"
  shows "owned (H(j := tc_handle c')) opened'"
proof (cases "tc_handle server = 0 \<or> s = INVALID_SOCKET")
  case True
  then have "c' = c" "opened' = opened" using assms(3) by (auto simp: tcp_accept_def split: if_splits)
  then show ?thesis using assms(1) assms(2) [symmetric] by simp
next
  case False
  have e: "tc_handle c' = s" "opened' = snd (tcp_close c (insert s opened))"
    using assms(3) False by (auto simp: tcp_accept_def fromSock_def split: prod.splits)
  show ?thesis
  proof (cases "tc_handle c = 0")
    case True
    then show ?thesis using owned_acquire [OF assms(1), of j s] assms(2,4) False e by (simp add: tcp_close_def)
  next
    case c: False
    then have "tc_handle c \<in> opened" using assms(1,2) unfolding owned_def by metis
    then have "opened' = insert s (opened - {tc_handle c})" using assms(4) False c e(2) by (auto simp: tcp_close_def toSock_def)
    then show ?thesis using owned_acquire [OF owned_release [OF assms(1), of j], of j s] assms(2,4) False c e(1) by simp
  qed
qed

lemma step_inv:
  assumes "net_step n n'" and "net_inv n"
  shows "net_inv n'"
proof -
  have h: "handle_of n i = tc_handle c" if "nt_conns n i = Some c" for i c using that by (simp add: handle_of_def)
  have inv: "owned (handle_of n) (nt_open n)" using assms(2) by (simp add: net_inv_def)
  from assms(1) show ?thesis
  proof cases
    case (construct i)
    then have "handle_of n i = 0" by (simp add: handle_of_def)
    then show ?thesis using construct inv by (simp add: net_inv_def TcpConnection_default_def fun_upd_idem)
  next
    case (connect i c env host e c' opened)
    obtain c1 o1 where c: "tcp_close c (nt_open n) = (c1, o1)" by (cases "tcp_close c (nt_open n)")
    note keep = close_owned [OF inv h [OF connect(2)] c] and new = renew_owned [OF inv h [OF connect(2)] c]
    show ?thesis
      using connect keep new c close_effect [OF c] inv h [OF connect(2)]
      by (auto simp: net_inv_def tcp_connect_def fromSock_def Let_def handed_out_def fun_upd_idem split: if_splits)
  next
    case (listen i c lenv port p c' opened)
    obtain c1 o1 where c: "tcp_close c (nt_open n) = (c1, o1)" by (cases "tcp_close c (nt_open n)")
    note keep = close_owned [OF inv h [OF listen(2)] c] and new = renew_owned [OF inv h [OF listen(2)] c]
    show ?thesis
      using listen keep new c close_effect [OF c] inv h [OF listen(2)]
      by (auto simp: net_inv_def tcp_listen_def fromSock_def Let_def handed_out_def fun_upd_idem split: if_splits)
  next
    case (accept i server j c s e c' opened)
    then show ?thesis using accept_owned [OF inv h [OF accept(3)] accept(6)] by (auto simp: net_inv_def handed_out_def)
  next
    case (close i c c' opened)
    then show ?thesis using close_owned [OF inv h] close_effect by (auto simp: net_inv_def)
  next
    case (destroy i c c' opened)
    then show ?thesis using close_owned [OF inv h] close_effect by (auto simp: net_inv_def)
  next
    case (move i c j c' c'')
    then have "handle_of n j = 0" "i \<noteq> j" by (auto simp: handle_of_def)
    then show ?thesis
      using move owned_pass [OF inv, of j i] h [OF move(2)] by (auto simp: net_inv_def tcp_move_def)
  next
    case (move_assign i this j c left c' c'' opened)
    obtain c1 o1 where c: "tcp_close this (nt_open n) = (c1, o1)" by (cases "tcp_close this (nt_open n)")
    note keep = close_owned [OF inv h [OF move_assign(2)] c]
    show ?thesis
      using move_assign owned_pass [OF keep, of i j] h [OF move_assign(3)] c
      by (auto simp: net_inv_def tcp_moveAssign_def)
  qed
qed

section \<open>Properties\<close>

lemma net_inv_reachable: "net_step\<^sup>*\<^sup>* Net_new n \<Longrightarrow> net_inv n"
proof (induction rule: rtranclp_induct)
  case base
  have "handle_of Net_new = (\<lambda>_. 0)" by (simp add: handle_of_def Net_new_def fun_eq_iff)
  then show ?case by (simp add: net_inv_def owned_def) (simp add: Net_new_def)
qed (rule step_inv)

text \<open>
  C37. Sockets are owned. However connections are constructed, connected, listened on, accepted into, moved, closed and
  destroyed, and whatever fails on the way: an open connection's socket is open, no two connections have the
  same, and when no object is left every socket has been closed. The exception in both is a socket numbered zero, whose handle
  is the null pointer.
\<close>

theorem sockets_owned:
  assumes "net_step\<^sup>*\<^sup>* Net_new n"
  shows "(\<forall>i c. nt_conns n i = Some c \<and> tcp_isOpen c \<longrightarrow> toSock (tc_handle c) \<in> nt_open n) \<and>
     (\<forall>i j c d. nt_conns n i = Some c \<and> nt_conns n j = Some d \<and> tcp_isOpen c \<and> tc_handle c = tc_handle d \<longrightarrow> i = j) \<and>
     ((\<forall>i. nt_conns n i = None) \<longrightarrow> nt_open n \<subseteq> {0})"
proof -
  have inv: "owned (handle_of n) (nt_open n)" using net_inv_reachable [OF assms] by (simp add: net_inv_def)
  have h: "handle_of n i = tc_handle c" if "nt_conns n i = Some c" for i c using that by (simp add: handle_of_def)
  have "handle_of n = (\<lambda>_. 0)" if "\<forall>i. nt_conns n i = None" using that by (simp add: handle_of_def fun_eq_iff)
  then show ?thesis
    using inv unfolding owned_def tcp_isOpen_def toSock_def by (auto simp: h) (metis h)+
qed

theorem sockets_owned_witness:
  "\<exists>n c. net_step\<^sup>*\<^sup>* Net_new n \<and> nt_conns n 0 = Some c \<and> tcp_isOpen c \<and> toSock (tc_handle c) \<in> nt_open n"
proof -
  let ?env = "\<lparr>ce_wsa = True, ce_resolved = True, ce_socket = 5, ce_connected = True, ce_code = 0\<rparr>"
  let ?n1 = "Net_new\<lparr>nt_conns := (nt_conns Net_new)(0 \<mapsto> TcpConnection_default)\<rparr>"
  let ?c = "\<lparr>tc_handle = 5, tc_inbuf = []\<rparr>"
  let ?n2 = "\<lparr>nt_conns = (nt_conns ?n1)(0 \<mapsto> ?c), nt_open = {5}\<rparr>"
  have s1: "net_step Net_new ?n1" by (rule construct) (simp add: Net_new_def)
  have s2: "net_step ?n1 ?n2"
    by (rule connect [where c = TcpConnection_default and env = ?env and host = "''localhost''" and e = None])
      (simp_all add: Net_new_def TcpConnection_default_def handed_out_def tcp_connect_def tcp_close_def fromSock_def INVALID_SOCKET_def)
  have r: "net_step\<^sup>*\<^sup>* Net_new ?n2" using s1 s2 by (meson rtranclp.rtrancl_into_rtrancl rtranclp.rtrancl_refl)
  have c: "nt_conns ?n2 0 = Some ?c" "tcp_isOpen ?c" by (simp_all add: tcp_isOpen_def)
  show ?thesis using sockets_owned [OF r] r c by blast
qed

text \<open>However often sockets are made, the library is started at most once.\<close>

fun startups :: "bool list \<Rightarrow> bool \<Rightarrow> nat" where
  "startups [] started = 0"
| "startups (ok # oks) started = (if \<not> started \<and> ok then 1 else 0) + startups oks (snd (ensureWsa ok started))"

lemma started_once: "startups oks started \<le> (if started then 0 else 1)"
proof (induction oks arbitrary: started)
  case (Cons ok oks)
  show ?case using Cons.IH [of True] Cons.IH [of started] by (simp add: ensureWsa_def split: if_splits)
qed simp

text \<open>Setting the option of a connection changes that of no other one that is open.\<close>

lemma setNoDelay_own:
  assumes "net_step\<^sup>*\<^sup>* Net_new n" and "nt_conns n i = Some c" and "nt_conns n j = Some d" and "i \<noteq> j" and "tcp_isOpen d"
  shows "tcp_setNoDelay settable on c noDelay (toSock (tc_handle d)) = noDelay (toSock (tc_handle d))"
proof -
  have "handle_of n i = tc_handle c" "handle_of n j = tc_handle d" using assms(2,3) by (simp_all add: handle_of_def)
  then have "tc_handle c \<noteq> tc_handle d"
    using net_inv_reachable [OF assms(1)] assms(4,5) unfolding net_inv_def owned_def tcp_isOpen_def by metis
  then show ?thesis by (simp add: tcp_setNoDelay_def toSock_def)
qed

text \<open>A socket numbered zero is lost: the connection reports that it is not open, and nothing ever closes it.\<close>

lemma socket_zero_lost:
  assumes "ce_wsa env" "ce_resolved env" "ce_connected env" and "ce_socket env = 0" and "tcp_connect host env c opened = (e, c', opened')"
  shows "e = None \<and> \<not> tcp_isOpen c' \<and> 0 \<in> opened'"
  using assms by (auto simp: tcp_connect_def tcp_isOpen_def fromSock_def INVALID_SOCKET_def Let_def split: prod.splits if_splits)

lemma socket_zero_never_closed: "net_step\<^sup>*\<^sup>* n n' \<Longrightarrow> 0 \<in> nt_open n \<Longrightarrow> 0 \<in> nt_open n'"
proof (induction rule: rtranclp_induct)
  case (step y z)
  then have "0 \<in> nt_open y" by simp
  with step.hyps(2) show ?case
    by cases
      (auto simp: tcp_op_defs tcp_close_def handed_out_def INVALID_SOCKET_def split: if_splits prod.splits)
qed simp

text \<open>
  A connection that connects again keeps the bytes buffered from the previous peer: a frame left there is the first that is
  received from the new one.
\<close>

lemma reconnect_keeps_buffer:
  assumes "tcp_connect host env c opened = (None, c', opened')" and "tc_inbuf c = frame_of m @ rest" and "payload_fits m"
  shows "recvFrame rs (tc_inbuf c') = (Received m, rest, rs)"
proof -
  have "tc_inbuf c' = tc_inbuf c"
    using assms(1) by (auto simp: tcp_connect_def tcp_close_def Let_def split: if_splits)
  then show ?thesis using assms(2) pop_frame [OF assms(3), of rest] by (simp add: recvFrame.simps)
qed

end
