(* ===== verification/Cuda_Proof.thy ===== *)
theory Cuda_Proof
  imports Worker
begin

text \<open>
  The CUDA proof (\<open>cuda/cuda_host.cpp\<close>): scenarios run on a model of their own against one real device. What
  the CUDA runtime measures and whether it allocates are arguments; the run is the list of the outcomes it
  prints, in order.
\<close>

section \<open>The scenarios\<close>

definition kPoolFraction :: u64 where "kPoolFraction = 2"
definition kPoolCapBytes :: u64 where "kPoolCapBytes = 512 * 1024 * 1024"

definition governedPoolBytes :: "u64 \<Rightarrow> u64" where
  "governedPoolBytes freeBytes =
     (let pool = freeBytes div kPoolFraction;
          pool1 = (if kPoolCapBytes < pool then kPoolCapBytes else pool)
      in if pool1 = 0 then 1 else pool1)"

definition proof_worker :: WorkerId where "proof_worker = StrongId 1"
definition proof_boot :: WorkerBootId where "proof_boot = StrongId 1"

text \<open>The resource every scenario publishes, and its demand.\<close>

definition proof_resource :: "DeviceCapability \<Rightarrow> ResourceId \<Rightarrow> ByteCount \<Rightarrow> ByteCount \<Rightarrow> ByteCount list \<Rightarrow> Provenance \<Rightarrow> ResourceInfo" where
  "proof_resource cap rid nominal free blocks prov =
     ResourceInfo_default\<lparr>res_id := rid, res_generation := Generation 1, res_fleetId := StrongId 1, res_nodeId := StrongId 1,
       res_deviceId := StrongId 1, res_capability := cap,
       res_nominal := setAccelerators (DeviceCount 1) (setVram nominal om_empty),
       res_free := setAccelerators (DeviceCount 1) (setVram free om_empty),
       res_health := Healthy, res_worker := proof_worker, res_bootId := proof_boot, res_provenance := prov,
       res_freeBlocks := blocks\<rparr>"

definition demandFor :: "WorkloadDemandId \<Rightarrow> ByteCount \<Rightarrow> fault + WorkloadDemand" where
  "demandFor i req =
     bindR (makeDemand i (Generation 1) (d_of_nat 1) (DeviceCount 1) True req) (\<lambda>d.
       Inr (d\<lparr>dm_requirements := setVram req (dm_requirements d)\<rparr>))"

definition ask :: "CapacityModel \<Rightarrow> WorkloadDemand \<Rightarrow> fault + Outcome" where
  "ask m d = bindR (queryFeasibilityNow m d) (\<lambda>r. Inr (fz_outcome r))"

definition published :: "CapacityModel \<Rightarrow> ResourceInfo \<Rightarrow> fault + CapacityModel" where
  "published m r = bindR (publishResource m r) (\<lambda>(ok, m'). Inr m')"

definition proof_model :: CapacityModel where
  "proof_model = snd (registerWorker CapacityModel_new proof_worker proof_boot)"

definition proof_cap :: "CudaDevice \<Rightarrow> DeviceCapability" where
  "proof_cap dev = \<lparr>architecture = cu_name dev, className = ''cuda'',
     capability = ''sm'' @ dec_digits (cu_major dev) @ dec_digits (cu_minor dev), markers = [''cuda'', ''fp'']\<rparr>"

text \<open>Scenarios A and B: the pool fits, twice the pool does not.\<close>

definition scenario_A :: "CudaDevice \<Rightarrow> u64 \<Rightarrow> fault + (string \<times> Outcome) list \<times> CapacityModel" where
  "scenario_A dev pool =
     bindR (published proof_model (proof_resource (proof_cap dev) (StrongId 1) (ByteCount pool) (ByteCount pool) [ByteCount pool] Measured)) (\<lambda>m.
     bindR (demandFor (StrongId 1) (ByteCount pool)) (\<lambda>dA.
     bindR (ask m dA) (\<lambda>fitA. Inr ([(''A'', fitA)], m))))"

definition scenario_B :: "u64 \<Rightarrow> CapacityModel \<Rightarrow> fault + (string \<times> Outcome) list" where
  "scenario_B pool m =
     bindR (demandFor (StrongId 2) (ByteCount (pool * 2))) (\<lambda>dB.
     bindR (ask m (dB\<lparr>dm_requiresContiguousVram := False\<rparr>)) (\<lambda>fitB. Inr [(''B'', fitB)]))"

text \<open>Scenario C: two blocks of half the pool.\<close>

definition scenario_C :: "CudaDevice \<Rightarrow> u64 \<Rightarrow> fault + (string \<times> Outcome) list" where
  "scenario_C dev pool =
     (let half = ByteCount (pool div 2);
          cap = \<lparr>architecture = cu_name dev, className = ''cuda'', capability = ''sm120'', markers = [''cuda'']\<rparr>
      in bindR (published proof_model (proof_resource cap (StrongId 9) (ByteCount pool) (ByteCount pool) [half, half] Synthetic)) (\<lambda>m.
         bindR (demandFor (StrongId 3) (ByteCount (pool * 3 div 4))) (\<lambda>dC.
         bindR (ask m dC) (\<lambda>fitC.
         bindR (demandFor (StrongId 4) half) (\<lambda>dC2.
         bindR (ask m dC2) (\<lambda>fitC2.
           Inr [(''C'', fitC), (''C2'', fitC2)]))))))"

text \<open>Scenario D: the free memory measured before and after an allocation.\<close>

definition allocation_demand :: "u64 \<Rightarrow> u64 \<Rightarrow> u64" where
  "allocation_demand freeBefore pool = (let allocBytes = pool div 2 in freeBefore - allocBytes + allocBytes div 4)"

definition publishD :: "u64 \<Rightarrow> u64 \<Rightarrow> CapacityModel \<Rightarrow> fault + CapacityModel" where
  "publishD freeBefore freeForModel m =
     published m (proof_resource DeviceCapability_default (StrongId 1) (ByteCount freeBefore) (ByteCount freeForModel)
       [ByteCount freeForModel] Measured)"

definition scenario_D :: "u64 \<Rightarrow> u64 \<Rightarrow> u64 option \<Rightarrow> fault + (string \<times> Outcome) list" where
  "scenario_D pool freeBefore allocated =
     bindR (publishD freeBefore freeBefore proof_model) (\<lambda>m0.
     bindR (demandFor (StrongId 5) (ByteCount (allocation_demand freeBefore pool))) (\<lambda>d0.
       let d = d0\<lparr>dm_requiresContiguousVram := False\<rparr>
       in bindR (ask m0 d) (\<lambda>fitD0.
            case allocated of None \<Rightarrow> Inr [(''D0'', fitD0)]
            | Some freeAfter \<Rightarrow>
                bindR (publishD freeBefore freeAfter m0) (\<lambda>m1.
                bindR (ask m1 d) (\<lambda>fitD1.
                bindR (publishD freeBefore freeBefore m1) (\<lambda>m2.
                bindR (ask m2 d) (\<lambda>fitD2.
                  Inr [(''D0'', fitD0), (''D1'', fitD1), (''D2'', fitD2)])))))))"

text \<open>
  Scenario F: a model is saved and loaded into another. The lambda that publishes the real evidence captures the
  model of scenario A, not the one that is saved.
\<close>

definition scenario_F :: "CudaDevice \<Rightarrow> u64 \<Rightarrow> CapacityModel \<Rightarrow> WriteEnv \<Rightarrow> bool \<Rightarrow> files \<Rightarrow>
    fault + (string \<times> Outcome) list \<times> files" where
  "scenario_F dev pool mA env readable fs =
     bindR (published mA (proof_resource (proof_cap dev) (StrongId 1) (ByteCount pool) (ByteCount pool) [ByteCount pool] Measured)) (\<lambda>mA'.
     bindR (save env proof_model ''cuda_state.cf'' fs) (\<lambda>(ok, fs').
     bindR (load readable CapacityModel_new ''cuda_state.cf'' fs') (\<lambda>(ok', m2).
     bindR (demandFor (StrongId 6) (ByteCount pool)) (\<lambda>d6.
     bindR (ask m2 d6) (\<lambda>fitRec.
     bindR (published (snd (registerWorker m2 proof_worker proof_boot))
       (proof_resource DeviceCapability_default (StrongId 1) (ByteCount pool) (ByteCount pool) [ByteCount pool] Measured)) (\<lambda>m3.
     bindR (demandFor (StrongId 7) (ByteCount pool)) (\<lambda>d7.
     bindR (ask m3 d7) (\<lambda>fitRec2.
       Inr ([(''F'', fitRec), (''F2'', fitRec2)], fs')))))))))"

text \<open>The free memory at the start and before scenario D, and after its allocation, unless that fails.\<close>

record ProofMemory =
  pm_free0 :: u64
  pm_freeBefore :: u64
  pm_allocated :: "u64 option"

definition runCudaProof :: "CudaDevice option \<Rightarrow> ProofMemory \<Rightarrow> WriteEnv \<Rightarrow> bool \<Rightarrow> files \<Rightarrow>
    fault + (string \<times> Outcome) list \<times> files" where
  "runCudaProof probed mem env readable fs =
     (case probed of None \<Rightarrow> Inr ([], fs)
      | Some dev \<Rightarrow>
          if \<not> cu_present dev then Inr ([], fs)
          else
            let pool = governedPoolBytes (pm_free0 mem)
            in bindR (scenario_A dev pool) (\<lambda>(a, mA).
               bindR (scenario_B pool mA) (\<lambda>b.
               bindR (scenario_C dev pool) (\<lambda>c.
               bindR (scenario_D pool (pm_freeBefore mem) (pm_allocated mem)) (\<lambda>d.
               bindR (scenario_F dev pool mA env readable fs) (\<lambda>(f, fs').
                 Inr (a @ b @ c @ d @ f, fs')))))))"

section \<open>The pool\<close>

lemma governedPool_nat:
  "unat (governedPoolBytes f) = max 1 (min (2 ^ 29) (unat f div 2))"
proof -
  have "unat (f div 2) = unat f div 2" by (simp add: unat_div)
  moreover have "kPoolCapBytes < f div 2 \<longleftrightarrow> 2 ^ 29 < unat f div 2" and "f div 2 = 0 \<longleftrightarrow> unat f div 2 = 0"
    by (simp_all add: kPoolCapBytes_def word_less_nat_alt unat_div flip: unat_eq_0)
  ultimately show ?thesis
    by (auto simp: governedPoolBytes_def kPoolFraction_def Let_def) (auto simp: kPoolCapBytes_def)
qed

section \<open>A fleet of one device\<close>

text \<open>The device of a fleet of one resource.\<close>

lemma single_list:
  assumes "\<And>x. x \<in> set xs \<Longrightarrow> x = d" and "d \<in> set xs" and "distinct xs"
  shows "xs = [d]"
proof -
  have s: "set xs = {d}" using assms(1,2) by blast
  then have "length xs = Suc 0" using distinct_card [OF assms(3)] by simp
  then show ?thesis using s by (cases xs) simp_all
qed

lemma single_device:
  assumes "buildView m now = Inr v" and "currentResources m = [r]"
  shows "\<exists>d. view_device m r = Inr d \<and> fv_devices v = [d]"
proof -
  note e = buildView_effect [OF assms(1)]
  obtain d where d: "view_device m r = Inr d" using e assms(2) by auto
  have find: "find_by dev_id (fv_devices v) i = (if res_deviceId r = i then Some d else None)" for i
    using e assms(2) d by (simp add: index_of_def device_entry_def)
  have dist: "distinct (map dev_id (fv_devices v))" using e by blast
  have "x = d" if "x \<in> set (fv_devices v)" for x
    using find_by_distinct [OF dist that] find [of "dev_id x"] by (simp split: if_splits)
  moreover have "d \<in> set (fv_devices v)"
    using find [of "res_deviceId r"] by (auto simp: find_by_def find_Some_iff)
  moreover have "distinct (fv_devices v)" using dist by (simp add: distinct_map)
  ultimately have "fv_devices v = [d]" by (rule single_list)
  with d show ?thesis by blast
qed

text \<open>A demand with no constraint but one device, some memory, and possibly one block of it.\<close>

definition memory_demand :: "WorkloadDemand \<Rightarrow> ByteCount \<Rightarrow> bool" where
  "memory_demand d req \<longleftrightarrow> cap_rep (dm_requirements d) (one_device req) \<and> dm_minAccelerators d = DeviceCount 1 \<and>
     dm_topologyGroupSize d = None \<and> dm_allowedClasses d = [] \<and> dm_requiredCapability d = [] \<and>
     dm_maxAcceptableFragmentation d = None \<and> dm_sloHeadroomRequirement d = frac_default"

lemma missing_memory:
  assumes "cap_rep c (one_device f)" and "cap_rep q (one_device req)"
  shows "cap_satisfies c q \<longleftrightarrow> bc_nat req \<le> bc_nat f"
    and "\<not> cap_satisfies c q \<Longrightarrow> hd (cap_missingDimensions c q) = VramBytes"
proof -
  show s: "cap_satisfies c q \<longleftrightarrow> bc_nat req \<le> bc_nat f"
    by (auto simp: cap_rep_satisfies [OF assms] one_device_def bc_nat_def)
  have "d = VramBytes" if "d \<in> set (cap_missingDimensions c q)" for d
  proof -
    have "d_lt (cap_amount c d) (cap_amount q d)"
      using that by (auto simp: cap_missingDimensions_def cap_entry)
    then have "one_device f d < one_device req d"
      using d_of_nat_less_iff [OF cap_repD(2) [OF assms(1)] cap_repD(2) [OF assms(2)], of d d]
      by (simp add: cap_repD(1) [OF assms(1)] cap_repD(1) [OF assms(2)] d_lt_def)
    then show ?thesis by (auto simp: one_device_def split: if_splits)
  qed
  moreover assume "\<not> cap_satisfies c q"
  then have "cap_missingDimensions c q \<noteq> []" by (simp add: cap_missing_iff)
  ultimately show "hd (cap_missingDimensions c q) = VramBytes" by (meson hd_in_set)
qed

lemma one_device_outcome:
  assumes "currentResources m = [r]" and "m_reservations m = []" and "resource_current m r" and "undrained m"
    and "res_health r = Healthy" and "cap_rep (res_nominal r) (one_device n)" and "cap_rep (res_free r) (one_device f)"
    and "res_committed r = om_empty" "res_unavailable r = om_empty" and "bc_nat n + bc_nat f < 2 ^ 53"
    and "memory_demand d req" and "demand_valid d"
  shows "ask m d = Inr
     (if dm_requiresContiguousVram d \<and> \<not> fr_shapeSatisfiable (analyzeDeviceMemory (res_freeBlocks r) (dm_minContiguousVram d))
      then NoFitFragmentation else if bc_nat f < bc_nat req then NoFitMemory else FitNow)"
proof -
  have "whole_fleet (\<lambda>_. one_device n) (\<lambda>_. one_device f) (\<lambda>_ _. 0) (\<lambda>_ _. 0) m"
    using assms(1,6-10) by (auto simp: whole_fleet_def cap_rep_empty one_device_def bc_nat_def)
  from buildView_rep [OF this, of 0] obtain v where v: "buildView m 0 = Inr v"
    and av: "cap_rep (fv_available v) (fleet_free (\<lambda>_. one_device f) m)" by blast
  note e = buildView_effect [OF v]
  obtain dev where dev: "view_device m r = Inr dev" "fv_devices v = [dev]" using single_device [OF v assms(1)] by blast
  have "dev_health dev = Healthy" "dev_freeBlocks dev = res_freeBlocks r" "\<not> dev_drained dev"
    using dev(1) assms(4,5)
    by (auto simp: view_device_def Let_def undrained_def DeviceInfo_default_def split: option.splits)
  then have u: "usable_for v d = [dev]" and blocks: "dev_freeBlocks dev = res_freeBlocks r"
    using assms(11) dev(2) by (simp_all add: usable_for_def deviceCurrentlyUsable_def deviceCompatible_def memory_demand_def)
  have fresh: "fv_freshness v = Fresh" using e assms(1,3) by simp
  have "effective_capacity v = fv_available v" using e assms(2) by (simp add: effective_capacity_def)
  moreover have "fleet_free (\<lambda>_. one_device f) m = one_device f" using assms(1,3) by (simp add: fleet_free_def)
  ultimately have eff: "cap_rep (effective_capacity v) (one_device f)" using av by simp
  note miss = missing_memory [OF eff, of "dm_requirements d" req]
  have "\<not> d_lt d_zero (frac_value frac_default)" by (simp add: frac_default_def d_lt_def)
  then have "fz_outcome (evaluateNow v d) =
     (if dm_requiresContiguousVram d \<and> \<not> fr_shapeSatisfiable (analyzeDeviceMemory (res_freeBlocks r) (dm_minContiguousVram d))
      then NoFitFragmentation else if bc_nat f < bc_nat req then NoFitMemory else FitNow)"
    using assms(11,12) miss fresh
    by (auto simp: evaluateNow_outcome memory_demand_def topology_ok_def contiguous_ok_def fragmentation_ok_def slo_ok_def u blocks
        dimensionIsRate_def dimensionIsBytes_def not_less)
  then show ?thesis using v by (simp add: ask_def queryFeasibilityNow_def)
qed

section \<open>Running a scenario\<close>

text \<open>A model in which the proof's worker is live and which holds at most the resource \<open>rid\<close>.\<close>

definition proof_state :: "ResourceId \<Rightarrow> CapacityModel \<Rightarrow> bool" where
  "proof_state rid m \<longleftrightarrow> isFreshBoot m proof_worker proof_boot \<and> m_reservations m = [] \<and> undrained m \<and>
     (\<forall>i. i \<noteq> rid \<longrightarrow> om_lookup (m_resources m) i = None) \<and>
     \<not> gen_regresses (tracker_current (m_resourceGen m) rid) (Generation 1)"

lemma registered_proof_state:
  assumes "m_sources m = om_empty" and "m_reservations m = []" and "m_resources m = om_empty" and "m_devices m = om_empty"
    and "m_resourceGen m = om_empty"
  shows "proof_state rid (snd (registerWorker m proof_worker proof_boot))"
  using assms
  by (simp add: proof_state_def registerWorker_def proof_worker_def proof_boot_def sid_valid_def kInvalidId_def isFreshBoot_def
      undrained_def tracker_current_def gen_regresses_def gen_default_def gen_valid_def)

lemma proof_model_state: "proof_state rid proof_model"
  unfolding proof_model_def by (rule registered_proof_state) (simp_all add: CapacityModel_new_def setEpoch_def)

lemma proof_resource_fields [simp]:
  "res_id (proof_resource cp rid n f bl pv) = rid" "res_generation (proof_resource cp rid n f bl pv) = Generation 1"
  "res_deviceId (proof_resource cp rid n f bl pv) = StrongId 1"
  "res_worker (proof_resource cp rid n f bl pv) = proof_worker" "res_bootId (proof_resource cp rid n f bl pv) = proof_boot"
  "res_health (proof_resource cp rid n f bl pv) = Healthy" "res_freeBlocks (proof_resource cp rid n f bl pv) = bl"
  "res_committed (proof_resource cp rid n f bl pv) = om_empty" "res_unavailable (proof_resource cp rid n f bl pv) = om_empty"
  by (simp_all add: proof_resource_def ResourceInfo_default_def)

lemma proof_resource_rep:
  "bc_nat n < 2 ^ 53 \<Longrightarrow> cap_rep (res_nominal (proof_resource cp rid n f bl pv)) (one_device n)"
  "bc_nat f < 2 ^ 53 \<Longrightarrow> cap_rep (res_free (proof_resource cp rid n f bl pv)) (one_device f)"
  by (simp_all add: proof_resource_def one_device_rep bc_nat_def)

lemma proof_publish:
  assumes "proof_state rid m" and "bc_nat n < 2 ^ 53" and "bc_nat f < 2 ^ 53"
  shows "\<exists>m'. published m (proof_resource cp rid n f bl pv) = Inr m' \<and> proof_state rid m' \<and>
     currentResources m' = [proof_resource cp rid n f bl pv]"
proof -
  let ?r = "proof_resource cp rid n f bl pv"
  obtain d where p: "publishResource m ?r = Inr (True, m\<lparr>m_resourceGen := om_insert rid (Generation 1) (m_resourceGen m),
      m_resources := om_insert rid ?r (m_resources m), m_devices := om_insert (StrongId 1) d (m_devices m)\<rparr>)" (is "_ = Inr (True, ?m)")
    using publish_accepted [of m ?r, OF _ _ proof_resource_rep(1) [OF assms(2)] proof_resource_rep(2) [OF assms(3)]] assms(1)
    by (auto simp: proof_state_def)
  have "om_insert rid ?r (m_resources m) = om_insert rid ?r om_empty"
    using assms(1) by (intro om_eqI) (simp add: proof_state_def)
  then have "currentResources ?m = [?r]" by (simp add: currentResources_def)
  moreover have "undrained ?m" using publish_undrained [OF p] assms(1) by (simp add: proof_state_def)
  then have "proof_state rid ?m"
    using assms(1) by (simp add: proof_state_def isFreshBoot_def tracker_current_def gen_regresses_def)
  ultimately show ?thesis using p by (simp add: published_def)
qed

lemma demandFor_memory:
  assumes "bc_nat req < 2 ^ 53"
  shows "\<exists>d. demandFor i req = Inr d \<and> memory_demand d req \<and> dm_requiresContiguousVram d \<and> dm_minContiguousVram d = req \<and>
     dm_id d = i \<and> dm_generation d = Generation 1"
proof -
  have "cap_rep (setVram req (setAccelerators (DeviceCount 1) om_empty))
      ((\<lambda>_. 0)(AcceleratorCount := unat (dc_value (DeviceCount 1)), VramBytes := unat (bc_value req)))"
    using assms by (intro setVram_rep setAccelerators_rep cap_rep_empty) (simp_all add: bc_nat_def)
  then have "cap_rep (setVram req (setAccelerators (DeviceCount 1) om_empty)) (one_device req)"
    by (simp add: one_device_def fun_upd_twist)
  then show ?thesis
    using d_of_nat_to_u64 [of 1] by (simp add: demandFor_def makeDemand_def memory_demand_def WorkloadDemand_default_def)
qed

lemma proof_ask:
  assumes "proof_state rid m" and "currentResources m = [proof_resource cp rid n f bl pv]"
    and "bc_nat n + bc_nat f < 2 ^ 53" and "memory_demand d req" and "demand_valid d"
  shows "ask m d = Inr
     (if dm_requiresContiguousVram d \<and> \<not> fr_shapeSatisfiable (analyzeDeviceMemory bl (dm_minContiguousVram d))
      then NoFitFragmentation else if bc_nat f < bc_nat req then NoFitMemory else FitNow)"
proof -
  let ?r = "proof_resource cp rid n f bl pv"
  have cur: "resource_current m ?r"
    using assms(1) by (simp add: resource_current_def isCurrentDynamic_def proof_state_def)
      (simp add: proof_worker_def proof_boot_def sid_valid_def kInvalidId_def)
  have "bc_nat n < 2 ^ 53" "bc_nat f < 2 ^ 53" using assms(3) by simp_all
  from one_device_outcome [OF assms(2) _ cur _ _ proof_resource_rep(1) [OF this(1)] proof_resource_rep(2) [OF this(2)] _ _ assms(3-5)]
  show ?thesis using assms(1) by (simp add: proof_state_def)
qed

section \<open>The outcomes\<close>

lemma shape_iff:
  "(\<Sum>b \<leftarrow> bs. bc_nat b) < 2 ^ 53 \<Longrightarrow>
     fr_shapeSatisfiable (analyzeDeviceMemory bs req) \<longleftrightarrow> bc_nat req = 0 \<or> (\<exists>b \<in> set bs. bc_nat req \<le> bc_nat b)"
  using deviceMemory_correct [of bs req]
  by (auto simp: u64_cap_def bc_nat_le bc_nat_def bc_zero_def unat_eq_0 ByteCount.expand)

lemma demand_validI:
  "memory_demand d req \<Longrightarrow> dm_generation d = Generation 1 \<Longrightarrow> sid_valid (dm_id d) \<Longrightarrow>
     (dm_requiresContiguousVram d \<Longrightarrow> dm_minContiguousVram d \<noteq> bc_zero) \<Longrightarrow> demand_valid d"
  by (simp add: demand_valid_def memory_demand_def gen_valid_def kInvalidId_def)

lemma memory_demand_contiguous [simp]: "memory_demand (d\<lparr>dm_requiresContiguousVram := c\<rparr>) req = memory_demand d req"
  by (simp add: memory_demand_def)

text \<open>A scenario that publishes one resource and asks for some memory, in one block or in all.\<close>

lemma proof_demand:
  assumes "proof_state rid m" and "currentResources m = [proof_resource cp rid n f bl pv]"
    and "bc_nat n + bc_nat f < 2 ^ 53" and "(\<Sum>b \<leftarrow> bl. bc_nat b) < 2 ^ 53" and "bc_nat req < 2 ^ 53" and "sid_valid i"
    and "demandFor i req = Inr d"
  shows "0 < bc_nat req \<Longrightarrow> ask m d = Inr
       (if \<forall>b \<in> set bl. bc_nat b < bc_nat req then NoFitFragmentation
        else if bc_nat f < bc_nat req then NoFitMemory else FitNow)"
    and "ask m (d\<lparr>dm_requiresContiguousVram := False\<rparr>) = Inr (if bc_nat f < bc_nat req then NoFitMemory else FitNow)"
proof -
  have d: "memory_demand d req" "dm_requiresContiguousVram d" "dm_minContiguousVram d = req" "dm_id d = i" "dm_generation d = Generation 1"
    using demandFor_memory [OF assms(5), of i] assms(7) by auto
  have v: "demand_valid (d\<lparr>dm_requiresContiguousVram := False\<rparr>)"
    by (rule demand_validI [where req = req]) (use d assms(6) in simp_all)
  show "ask m (d\<lparr>dm_requiresContiguousVram := False\<rparr>) = Inr (if bc_nat f < bc_nat req then NoFitMemory else FitNow)"
    using proof_ask [OF assms(1-3) _ v, of req] d by simp
  assume pos: "0 < bc_nat req"
  then have "req \<noteq> bc_zero" by (auto simp: bc_nat_def bc_zero_def)
  then have "demand_valid d" by (intro demand_validI [where req = req]) (use d assms(6) in simp_all)
  from proof_ask [OF assms(1-3) d(1) this] show "ask m d = Inr
       (if \<forall>b \<in> set bl. bc_nat b < bc_nat req then NoFitFragmentation
        else if bc_nat f < bc_nat req then NoFitMemory else FitNow)"
    using d(2,3) pos shape_iff [OF assms(4), of req] by (simp add: not_le ball_conj_distrib)
qed

lemma proof_ids: "sid_valid (StrongId (1 :: u64) :: WorkloadDemandId)" "sid_valid (StrongId 2 :: WorkloadDemandId)"
  "sid_valid (StrongId 3 :: WorkloadDemandId)" "sid_valid (StrongId 4 :: WorkloadDemandId)" "sid_valid (StrongId 5 :: WorkloadDemandId)"
  "sid_valid (StrongId 6 :: WorkloadDemandId)" "sid_valid (StrongId 7 :: WorkloadDemandId)"
  by (simp_all add: sid_valid_def kInvalidId_def)

lemma pool_published:
  assumes "proof_state rid m" and "unat pool \<le> 2 ^ 29"
  shows "\<exists>m'. published m (proof_resource cp rid (ByteCount pool) (ByteCount pool) bl pv) = Inr m' \<and> proof_state rid m' \<and>
     currentResources m' = [proof_resource cp rid (ByteCount pool) (ByteCount pool) bl pv]"
  by (rule proof_publish) (use assms in \<open>simp_all add: bc_nat_def\<close>)

lemma scenario_AB_outcomes:
  assumes "1 \<le> unat pool" and "unat pool \<le> 2 ^ 29"
  shows "\<exists>m. scenario_A dev pool = Inr ([(''A'', FitNow)], m) \<and> scenario_B pool m = Inr [(''B'', NoFitMemory)] \<and> proof_state (StrongId 1) m"
proof -
  let ?r = "proof_resource (proof_cap dev) (StrongId 1) (ByteCount pool) (ByteCount pool) [ByteCount pool] Measured"
  have two: "unat (pool * 2) = 2 * unat pool" using assms(2) by (simp add: unat_word_ariths)
  obtain m where m: "published proof_model ?r = Inr m" "proof_state (StrongId 1) m" "currentResources m = [?r]"
    using pool_published [OF proof_model_state assms(2)] by blast
  obtain dA dB where d: "demandFor (StrongId 1) (ByteCount pool) = Inr dA" "demandFor (StrongId 2) (ByteCount (pool * 2)) = Inr dB"
    using demandFor_memory [of "ByteCount pool" "StrongId 1"] demandFor_memory [of "ByteCount (pool * 2)" "StrongId 2"] assms(2) two
    by (auto simp: bc_nat_def)
  have "ask m dA = Inr FitNow" and "ask m (dB\<lparr>dm_requiresContiguousVram := False\<rparr>) = Inr NoFitMemory"
    using proof_demand(1) [OF m(2,3) _ _ _ _ d(1)] proof_demand(2) [OF m(2,3) _ _ _ _ d(2)] proof_ids assms two
    by (simp_all add: bc_nat_def)
  then show ?thesis using m d by (simp add: scenario_A_def scenario_B_def)
qed

lemma scenario_C_outcomes:
  assumes "3 \<le> unat pool" and "unat pool \<le> 2 ^ 29"
  shows "scenario_C dev pool = Inr [(''C'', NoFitFragmentation), (''C2'', FitNow)]"
proof -
  let ?half = "ByteCount (pool div 2)" and ?want = "ByteCount (pool * 3 div 4)"
  let ?cap = "\<lparr>architecture = cu_name dev, className = ''cuda'', capability = ''sm120'', markers = [''cuda'']\<rparr>"
  let ?r = "proof_resource ?cap (StrongId 9) (ByteCount pool) (ByteCount pool) [?half, ?half] Synthetic"
  have u: "bc_nat ?half = unat pool div 2" "bc_nat ?want = unat pool * 3 div 4"
    using assms(2) by (simp_all add: bc_nat_def unat_div unat_word_ariths)
  have lt: "unat pool div 2 < unat pool * 3 div 4" "0 < unat pool div 2" "0 < unat pool * 3 div 4" using assms(1) by - presburger+
  obtain m where m: "published proof_model ?r = Inr m" "proof_state (StrongId 9) m" "currentResources m = [?r]"
    using pool_published [OF proof_model_state assms(2)] by blast
  have n: "bc_nat (ByteCount pool) + bc_nat (ByteCount pool) < 2 ^ 53" "(\<Sum>b \<leftarrow> [?half, ?half]. bc_nat b) < 2 ^ 53"
      "bc_nat ?want < 2 ^ 53" "bc_nat ?half < 2 ^ 53" "\<not> bc_nat (ByteCount pool) < bc_nat ?half"
    using assms(2) by (simp_all add: u) (simp add: bc_nat_def)+
  obtain dC dC2 where d: "demandFor (StrongId 3) ?want = Inr dC" "demandFor (StrongId 4) ?half = Inr dC2"
    using demandFor_memory [OF n(3)] demandFor_memory [OF n(4)] by blast
  have "ask m dC = Inr NoFitFragmentation" "ask m dC2 = Inr FitNow"
    using proof_demand(1) [OF m(2,3) n(1,2,3) proof_ids(3) d(1)] proof_demand(1) [OF m(2,3) n(1,2,4) proof_ids(4) d(2)] n(5) lt
    by (simp_all add: u)
  then show ?thesis using m(1) d by (simp add: scenario_C_def Let_def)
qed

lemma scenario_D_outcomes:
  assumes "unat freeBefore < 2 ^ 52" and "unat pool div 2 \<le> unat freeBefore" and "\<forall>a. allocated = Some a \<longrightarrow> unat a < 2 ^ 52"
  shows "scenario_D pool freeBefore allocated = Inr ((''D0'', FitNow) #
     (case allocated of None \<Rightarrow> []
      | Some freeAfter \<Rightarrow> [(''D1'', if freeAfter < allocation_demand freeBefore pool then NoFitMemory else FitNow), (''D2'', FitNow)]))"
proof -
  let ?want = "ByteCount (allocation_demand freeBefore pool)"
  let ?r = "\<lambda>f. proof_resource DeviceCapability_default (StrongId 1) (ByteCount freeBefore) (ByteCount f) [ByteCount f] Measured"
  have "unat (allocation_demand freeBefore pool) = unat freeBefore - unat pool div 2 + unat pool div 2 div 4"
    using assms(1,2)
    by (simp add: allocation_demand_def Let_def unat_word_ariths unat_div unat_sub word_le_nat_alt)
  then have w: "bc_nat ?want \<le> bc_nat (ByteCount freeBefore)" "bc_nat ?want < 2 ^ 53"
    using assms(1,2) by (simp_all add: bc_nat_def)
  have pub: "\<exists>m'. publishD freeBefore f m = Inr m' \<and> proof_state (StrongId 1) m' \<and> currentResources m' = [?r f]"
    if "proof_state (StrongId 1) m" "unat f < 2 ^ 52" for f m
    using proof_publish [OF that(1), of "ByteCount freeBefore" "ByteCount f"] assms(1) that(2) by (simp add: publishD_def bc_nat_def)
  obtain d0 where d: "demandFor (StrongId 5) ?want = Inr d0" using demandFor_memory [OF w(2)] by blast
  have fit: "ask m (d0\<lparr>dm_requiresContiguousVram := False\<rparr>) = Inr (if f < allocation_demand freeBefore pool then NoFitMemory else FitNow)"
    if "proof_state (StrongId 1) m" "currentResources m = [?r f]" "unat f < 2 ^ 52" for f m
    using proof_demand(2) [OF that(1,2) _ _ w(2) proof_ids(5) d] that(3) assms(1) by (simp add: bc_nat_def word_less_nat_alt)
  have base: "\<not> freeBefore < allocation_demand freeBefore pool" using w(1) by (simp add: bc_nat_def word_less_nat_alt)
  obtain m0 where m0: "publishD freeBefore freeBefore proof_model = Inr m0" "proof_state (StrongId 1) m0" "currentResources m0 = [?r freeBefore]"
    using pub [OF proof_model_state assms(1)] by blast
  show ?thesis
  proof (cases allocated)
    case None
    then show ?thesis using m0 d fit [OF m0(2,3) assms(1)] base by (simp add: scenario_D_def)
  next
    case (Some a)
    then have a: "unat a < 2 ^ 52" using assms(3) by simp
    obtain m1 where m1: "publishD freeBefore a m0 = Inr m1" "proof_state (StrongId 1) m1" "currentResources m1 = [?r a]"
      using pub [OF m0(2) a] by blast
    obtain m2 where m2: "publishD freeBefore freeBefore m1 = Inr m2" "proof_state (StrongId 1) m2" "currentResources m2 = [?r freeBefore]"
      using pub [OF m1(2) assms(1)] by blast
    show ?thesis
      using Some m0 m1(1) m2(1) d fit [OF m0(2,3) assms(1)] fit [OF m1(2,3) a] fit [OF m2(2,3) assms(1)] base
      by (simp add: scenario_D_def)
  qed
qed

text \<open>What is saved in scenario F holds no resource, so neither does what is loaded.\<close>

lemma proof_saveable: "saveable proof_model"
  using save_body_bytes [of proof_model]
  by (simp add: saveable_def om_size_def sealable_def kMaxFileBytes_def write_count_def proof_model_def registerWorker_def
      CapacityModel_new_def setEpoch_def)

lemma scenario_F_outcomes:
  assumes "1 \<le> unat pool" and "unat pool \<le> 2 ^ 29" and "proof_state (StrongId 1) mA"
  shows "\<exists>fs'. scenario_F dev pool mA WriteOk True fs = Inr ([(''F'', InsufficientEvidence), (''F2'', FitNow)], fs')"
proof -
  let ?p = "ByteCount pool"
  let ?r = "proof_resource DeviceCapability_default (StrongId 1) ?p ?p [?p] Measured"
  have n: "bc_nat ?p + bc_nat ?p < 2 ^ 53" "(\<Sum>b \<leftarrow> [?p]. bc_nat b) < 2 ^ 53" "bc_nat ?p < 2 ^ 53" "0 < bc_nat ?p"
    using assms(1,2) by (simp_all add: bc_nat_def)
  obtain mA' where a: "published mA (proof_resource (proof_cap dev) (StrongId 1) ?p ?p [?p] Measured) = Inr mA'"
    using pool_published [OF assms(3,2)] by blast
  obtain fs' where s: "save WriteOk proof_model ''cuda_state.cf'' fs = Inr (True, fs')" using save_total [OF proof_saveable] by blast
  define m2 where "m2 = restored CapacityModel_new proof_model"
  note l = load_saved [OF proof_saveable s, of CapacityModel_new, folded m2_def]
  have e: "m_sources m2 = om_empty" "m_reservations m2 = []" "m_resources m2 = om_empty" "m_devices m2 = om_empty"
      "m_resourceGen m2 = om_empty"
    by (simp_all add: m2_def restored_def proof_model_def registerWorker_def CapacityModel_new_def setEpoch_def)
  obtain d6 where d6: "demandFor (StrongId 6) ?p = Inr d6" "memory_demand d6 ?p" "dm_minContiguousVram d6 = ?p"
      "dm_id d6 = StrongId 6" "dm_generation d6 = Generation 1"
    using demandFor_memory [OF n(3)] by blast
  have "?p \<noteq> bc_zero" using n(4) by (auto simp: bc_nat_def bc_zero_def)
  then have v6: "demand_valid d6" by (intro demand_validI [OF d6(2)]) (use d6 proof_ids in simp_all)
  have none: "currentResources m2 = []" by (simp add: currentResources_def e)
  then have "whole_fleet (\<lambda>_ _. 0) (\<lambda>_ _. 0) (\<lambda>_ _. 0) (\<lambda>_ _. 0) m2" by (simp add: whole_fleet_def)
  then obtain v where v: "buildView m2 0 = Inr v" using buildView_rep by blast
  then have "fv_freshness v = EvidenceInsufficient" using buildView_effect [OF v] none by simp
  then have rec: "ask m2 d6 = Inr InsufficientEvidence"
    using v v6 by (simp add: ask_def queryFeasibilityNow_def evaluateNow_outcome)
  have "proof_state (StrongId 1) (snd (registerWorker m2 proof_worker proof_boot))" using e by (intro registered_proof_state)
  from pool_published [OF this assms(2)] obtain m3
    where m3: "published (snd (registerWorker m2 proof_worker proof_boot)) ?r = Inr m3" "proof_state (StrongId 1) m3" "currentResources m3 = [?r]"
    by blast
  obtain d7 where d7: "demandFor (StrongId 7) ?p = Inr d7" using demandFor_memory [OF n(3)] by blast
  have "ask m3 d7 = Inr FitNow" using proof_demand(1) [OF m3(2,3) n(1-3) proof_ids(7) d7 n(4)] by simp
  then show ?thesis using a s l d6(1) rec m3(1) d7 by (simp add: scenario_F_def)
qed

section \<open>Properties\<close>

text \<open>
  The CUDA proof prints what it announces, on every device with at least six bytes free, with one exception.
  The pool fits and twice the pool does not; two blocks of half the pool fit half of it and not three quarters;
  an allocation changes the answer exactly when the free memory measured after it is below the demand. The
  exception is the recovery of scenario F: no evidence was saved, so the model reports that there is none
  instead of asking for revalidation.
\<close>

theorem cuda_proof_outcomes:
  assumes "cu_present dev" and "6 \<le> unat (pm_free0 mem)" and "unat (pm_freeBefore mem) < 2 ^ 52"
    and "unat (governedPoolBytes (pm_free0 mem)) div 2 \<le> unat (pm_freeBefore mem)"
    and "\<forall>a. pm_allocated mem = Some a \<longrightarrow> unat a < 2 ^ 52"
  shows "\<exists>fs'. runCudaProof (Some dev) mem WriteOk True fs = Inr
     ([(''A'', FitNow), (''B'', NoFitMemory), (''C'', NoFitFragmentation), (''C2'', FitNow), (''D0'', FitNow)] @
      (case pm_allocated mem of None \<Rightarrow> []
       | Some a \<Rightarrow> [(''D1'', if a < allocation_demand (pm_freeBefore mem) (governedPoolBytes (pm_free0 mem)) then NoFitMemory else FitNow),
                   (''D2'', FitNow)]) @
      [(''F'', InsufficientEvidence), (''F2'', FitNow)], fs')"
proof -
  let ?pool = "governedPoolBytes (pm_free0 mem)"
  have p: "3 \<le> unat ?pool" "1 \<le> unat ?pool" "unat ?pool \<le> 2 ^ 29" using assms(2) by (simp_all add: governedPool_nat)
  obtain mA where ab: "scenario_A dev ?pool = Inr ([(''A'', FitNow)], mA)" "scenario_B ?pool mA = Inr [(''B'', NoFitMemory)]" "proof_state (StrongId 1) mA"
    using scenario_AB_outcomes [OF p(2,3)] by blast
  obtain fs' where f: "scenario_F dev ?pool mA WriteOk True fs = Inr ([(''F'', InsufficientEvidence), (''F2'', FitNow)], fs')"
    using scenario_F_outcomes [OF p(2,3) ab(3)] by blast
  show ?thesis
    using assms(1) ab(1,2) scenario_C_outcomes [OF p(1,3)] scenario_D_outcomes [OF assms(3,4,5)] f
    by (auto simp: runCudaProof_def Let_def split: option.split)
qed

theorem cuda_proof_outcomes_witness:
  "\<exists>out fs'. runCudaProof (Some \<lparr>cu_present = True, cu_ordinal = 0, cu_name = ''gpu'', cu_major = 12, cu_minor = 0,
       cu_totalBytes = 2 ^ 34, cu_freeBytes = 2 ^ 33, cu_supported = True\<rparr>)
     \<lparr>pm_free0 = 2 ^ 33, pm_freeBefore = 2 ^ 33, pm_allocated = Some (2 ^ 33 - 2 ^ 28)\<rparr> WriteOk True (\<lambda>_. None) = Inr (out, fs') \<and>
     map_of out ''D1'' = Some NoFitMemory"
  using cuda_proof_outcomes [of "\<lparr>cu_present = True, cu_ordinal = 0, cu_name = ''gpu'', cu_major = 12, cu_minor = 0,
       cu_totalBytes = 2 ^ 34, cu_freeBytes = 2 ^ 33, cu_supported = True\<rparr>"
      "\<lparr>pm_free0 = 2 ^ 33, pm_freeBefore = 2 ^ 33, pm_allocated = Some (2 ^ 33 - 2 ^ 28)\<rparr>" "\<lambda>_. None"]
  by (auto simp: governedPoolBytes_def kPoolFraction_def kPoolCapBytes_def allocation_demand_def Let_def)

end
