(* ===== verification/Cuda_Death.thy ===== *)
theory Cuda_Death
  imports Cuda_Proof
begin

text \<open>
  The worker-death run of the CUDA proof (\<open>cuda/cuda_proof_main.cpp\<close>): a coordinator, two incarnations of one CUDA worker,
  a client that queries, and one that replays the first incarnation's registration. Starting the processes and reading
  their output is in \<open>Cuda_Main\<close>: they succeed here, and a worker's READY is its exit status.
\<close>

section \<open>Several connections\<close>

text \<open>The connections of the coordinator by number, its model and its files.\<close>

type_synonym cluster = "(nat \<Rightarrow> ConnState) \<times> CapacityModel \<times> files"

definition connect :: "nat \<Rightarrow> cluster \<Rightarrow> cluster" where
  "connect c s = (case s of (cs, m, fs) \<Rightarrow> (cs(c := Serving sid_default), m, fs))"

definition conn_exchange :: "SendResult list \<Rightarrow> WriteEnv \<Rightarrow> nat \<Rightarrow> cluster exchange" where
  "conn_exchange rs env c msg s =
     (case s of (cs, m, fs) \<Rightarrow>
        (case coordinator_exchange rs env msg (cs c, m, fs) of (r, k, m', fs') \<Rightarrow> (r, (cs(c := k), m', fs'))))"

text \<open>The client at the other end is gone, and the coordinator notices.\<close>

definition conn_lost :: "nat \<Rightarrow> cluster \<Rightarrow> cluster" where
  "conn_lost c s =
     (case s of (cs, m, fs) \<Rightarrow>
        (case cs c of Closed \<Rightarrow> s | Blocked \<Rightarrow> s
         | Serving cur \<Rightarrow> (let t = handle_lost cur m fs in (cs(c := tn_conn t), tn_model t, tn_files t))))"

section \<open>The run\<close>

definition queryOutcome :: "'s exchange \<Rightarrow> WorkloadDemand \<Rightarrow> u32 \<Rightarrow> 's \<Rightarrow> u8 \<times> u32 \<times> 's" where
  "queryOutcome xchg d seq s =
     (case xchg \<lparr>fm_type = MtQueryFeasibility, fm_seq = seq,
                  fm_payload = writeDemand d @ writeU8 (mode_code Expected) @ writeI64 0\<rparr> s of
        (None, s') \<Rightarrow> (255, seq + 1, s')
      | (Some r, s') \<Rightarrow> (if fm_payload r = [] then 255 else fm_payload r ! 0, seq + 1, s'))"

text \<open>Polling: what happens elsewhere while the poll \<open>i\<close> sleeps is \<open>between i\<close>.\<close>

function waitForState :: "'s exchange \<Rightarrow> (nat \<Rightarrow> 's \<Rightarrow> 's) \<Rightarrow> WorkloadDemand \<Rightarrow> (u8 \<Rightarrow> bool) \<Rightarrow> nat \<Rightarrow> nat \<Rightarrow> u32 \<Rightarrow> 's \<Rightarrow>
    bool \<times> u32 \<times> 's" where
  "waitForState xchg between d pred maxPoll i seq s =
     (if i < maxPoll
      then let (o', seq', s') = queryOutcome xchg d seq s
           in if pred o' then (True, seq', s') else waitForState xchg between d pred maxPoll (Suc i) seq' (between i s')
      else (False, seq, s))"
  by pat_completeness auto

termination
  by (relation "measure (\<lambda>(xchg, between, d, pred, maxPoll, i, seq, s). maxPoll - i)") auto

declare waitForState.simps [simp del]

definition makeCUDA_basedDemand :: "WorkloadDemandId \<Rightarrow> fault + WorkloadDemand" where
  "makeCUDA_basedDemand i =
     bindR (makeDemand i (Generation 1) (d_of_nat 1) (DeviceCount 1) True (ByteCount (push_bit 20 1))) (\<lambda>d.
       Inr (d\<lparr>dm_requirements := setVram (ByteCount (push_bit 20 1)) (dm_requirements d)\<rparr>))"

definition replay_register :: "'s exchange \<Rightarrow> u32 \<Rightarrow> 's \<Rightarrow> bool \<times> 's" where
  "replay_register xchg seq s =
     (case xchg \<lparr>fm_type = MtRegister, fm_seq = seq, fm_payload = writeU64 1 @ writeU64 100\<rparr> s of
        (None, s') \<Rightarrow> (False, s')
      | (Some ack, s') \<Rightarrow> (fm_type ack = MtRegister \<and> (fm_payload ack = [] \<or> fm_payload ack ! 0 \<noteq> 1), s'))"

record DeathReport =
  dr_ready :: bool
  dr_live :: bool
  dr_stale :: bool
  dr_dead :: u8
  dr_readyAgain :: bool
  dr_restored :: bool
  dr_replayRejected :: bool

text \<open>
  The run up to the death of worker A, which the coordinator notices after \<open>notice\<close> polls; it notices the end of the replaying
  client before the shutdown.
\<close>

definition death_first :: "SendResult list \<Rightarrow> WriteEnv \<Rightarrow> CudaDevice option \<Rightarrow> u64 \<Rightarrow> nat \<Rightarrow> cluster \<Rightarrow>
    fault + bool \<times> bool \<times> bool \<times> u8 \<times> WorkloadDemand \<times> u32 \<times> cluster" where
  "death_first rs env dev freeA notice s =
     (let x = conn_exchange rs env;
          fits = (\<lambda>o'. o' = Outcome_code FitNow);
          (exitA, s1) = cuda_worker_main (x 0) dev freeA (StrongId 1) (StrongId 100) (StrongId 1) (connect 0 s);
          s2 = connect 1 s1
      in bindR (makeCUDA_basedDemand (StrongId 100)) (\<lambda>d.
        let (fitLive, seq1, s3) = waitForState (x 1) (\<lambda>i s. s) d fits 400 0 1 s2;
            s4 = (if notice = 0 then conn_lost 0 s3 else s3);
            (stale, seq2, s5) = waitForState (x 1) (\<lambda>i s. if Suc i = notice then conn_lost 0 s else s) d (\<lambda>o'. \<not> fits o') 400 0 seq1 s4;
            (dead, seq3, s6) = queryOutcome (x 1) d seq2 s5
        in Inr (exitA = WorkerReady, fitLive, stale, dead, d, seq3, s6)))"

text \<open>The second half, from the start of worker A' on.\<close>

definition death_second :: "SendResult list \<Rightarrow> WriteEnv \<Rightarrow> CudaDevice option \<Rightarrow> u64 \<Rightarrow> WorkloadDemand \<Rightarrow> u32 \<Rightarrow> cluster \<Rightarrow>
    bool \<times> bool \<times> bool \<times> cluster" where
  "death_second rs env dev freeA2 d seq s =
     (let x = conn_exchange rs env;
          (exitA2, s1) = cuda_worker_main (x 2) dev freeA2 (StrongId 1) (StrongId 300) (StrongId 1) (connect 2 s);
          (fitRestored, seq1, s2) = waitForState (x 1) (\<lambda>i s. s) d (\<lambda>o'. o' = Outcome_code FitNow) 400 0 seq s1;
          (replayRejected, s3) = replay_register (x 3) seq1 (connect 3 s2);
          s4 = conn_lost 3 s3;
          (ack, s5) = x 1 \<lparr>fm_type = MtShutdown, fm_seq = seq1 + 1, fm_payload = []\<rparr> s4
      in (exitA2 = WorkerReady, fitRestored, replayRejected, s5))"

definition runCudaWorkerDeath :: "SendResult list \<Rightarrow> WriteEnv \<Rightarrow> CudaDevice option \<Rightarrow> u64 \<Rightarrow> u64 \<Rightarrow> nat \<Rightarrow> cluster \<Rightarrow>
    fault + DeathReport \<times> cluster" where
  "runCudaWorkerDeath rs env dev freeA freeA2 notice s =
     bindR (death_first rs env dev freeA notice s) (\<lambda>(ready, live, stale, dead, d, seq, s1).
       let (readyAgain, restored, replayRejected, s2) = death_second rs env dev freeA2 d seq s1
       in Inr (\<lparr>dr_ready = ready, dr_live = live, dr_stale = stale, dr_dead = dead,
                dr_readyAgain = readyAgain, dr_restored = restored, dr_replayRejected = replayRejected\<rparr>, s2))"

section \<open>Lifting a session to one of several connections\<close>

lemma session_lift:
  assumes "\<And>msg st. x' msg (emb st) = (let (r, st') = x msg st in (r, emb st'))"
  shows "worker_session x' w b R (emb st) = (let (e, st') = worker_session x w b R st in (e, emb st'))"
proof -
  have s: "sendRecv x' t p (emb st) = (let (r, st') = sendRecv x t p st in (r, emb st'))" for t p st
    by (simp add: sendRecv_def assms Let_def split: prod.split option.split)
  show ?thesis by (simp add: worker_session_def Let_def s split: prod.split)
qed

lemma conn_session:
  assumes "worker_session (coordinator_exchange rs env) w b R (cs c, m, fs) = (e, (k, m', fs'))"
  shows "worker_session (conn_exchange rs env c) w b R (cs, m, fs) = (e, (cs(c := k), m', fs'))"
proof -
  have "conn_exchange rs env c msg (case st of (k, m, fs) \<Rightarrow> (cs(c := k), m, fs)) =
      (let (r, st') = coordinator_exchange rs env msg st in (r, (case st' of (k, m, fs) \<Rightarrow> (cs(c := k), m, fs))))" for msg st
    by (auto simp: conn_exchange_def split: prod.split)
  from session_lift [where emb = "\<lambda>(k, m, fs). (cs(c := k), m, fs)" and x' = "conn_exchange rs env c" and x = "coordinator_exchange rs env", OF this, of w b R "(cs c, m, fs)"] assms
  show ?thesis by simp
qed

section \<open>The coordinator with one CUDA worker\<close>

definition death_resource :: "WorkerBootId \<Rightarrow> CudaDevice \<Rightarrow> u64 \<Rightarrow> ResourceInfo" where
  "death_resource b dev f = resource_image (cuda_resource (StrongId 1) b (StrongId 1) dev f)"

text \<open>The model holds what the incarnation \<open>b\<close> published, and believes it alive or dead.\<close>

definition holds :: "WorkerBootId \<Rightarrow> CudaDevice \<Rightarrow> u64 \<Rightarrow> bool \<Rightarrow> CapacityModel \<Rightarrow> bool" where
  "holds b dev f alive m \<longleftrightarrow> m_resources m = om_insert (StrongId 1) (death_resource b dev f) om_empty \<and> m_reservations m = [] \<and> undrained m \<and>
     tracker_current (m_resourceGen m) (StrongId 1) = Generation 1 \<and>
     om_lookup (m_sources m) (StrongId 1) = Some \<lparr>src_bootId = b, src_alive = alive\<rparr>"

lemma death_resource_fields [simp]:
  "res_id (death_resource b dev f) = StrongId 1" "res_generation (death_resource b dev f) = Generation 1"
  "res_deviceId (death_resource b dev f) = StrongId 1" "res_worker (death_resource b dev f) = StrongId 1"
  "res_bootId (death_resource b dev f) = b" "res_health (death_resource b dev f) = Healthy"
  "res_freeBlocks (death_resource b dev f) = [ByteCount f]" "res_committed (death_resource b dev f) = om_empty"
  "res_unavailable (death_resource b dev f) = om_empty"
  by (simp_all add: death_resource_def resource_image_def)

lemma death_resource_rep:
  assumes "plain_device dev" and "unat f < 2 ^ 53"
  shows "cap_rep (res_nominal (death_resource b dev f)) (one_device (ByteCount (cu_totalBytes dev)))"
    and "cap_rep (res_free (death_resource b dev f)) (one_device (ByteCount f))"
  using cuda_resource_rep [OF assms, of "StrongId 1" b "StrongId 1"] by (simp_all add: death_resource_def resource_image_def)

lemma ready_holds:
  assumes "plain_device dev" and "unat f < 2 ^ 52" and "sends_up_to 65536 rs" and "cs c = Serving sid_default" and "sid_valid b"
    and "m_reservations m = []" and "undrained m" and "\<forall>i. i \<noteq> StrongId 1 \<longrightarrow> om_lookup (m_resources m) i = None"
    and "\<not> gen_regresses (tracker_current (m_resourceGen m) (StrongId 1)) (Generation 1)"
    and "\<forall>s. om_lookup (m_sources m) (StrongId 1) = Some s \<longrightarrow> \<not> src_alive s \<or> src_bootId s = b"
  shows "\<exists>m'. cuda_worker_main (conn_exchange rs env c) (Some dev) f (StrongId 1) b (StrongId 1) (cs, m, fs) =
       (WorkerReady, (cs(c := Serving (StrongId 1)), m', fs)) \<and> holds b dev f True m'"
proof -
  let ?r = "death_resource b dev f"
  let ?m1 = "m\<lparr>m_sources := om_insert (StrongId 1) \<lparr>src_bootId = b, src_alive = True\<rparr> (m_sources m)\<rparr>"
  have f: "unat f < 2 ^ 53" using assms(2) by simp
  have w: "sid_valid (StrongId 1 :: WorkerId)" by (simp add: sid_valid_def kInvalidId_def)
  obtain m' where m': "cuda_worker_main (coordinator_exchange rs env) (Some dev) f (StrongId 1) b (StrongId 1) (Serving sid_default, m, fs) =
        (WorkerReady, (Serving (StrongId 1), m', fs))" and pub: "publishResource ?m1 ?r = Inr (True, m')"
    using cuda_worker_ready [OF w assms(5,10,9,1) f assms(3)] unfolding death_resource_def by blast
  have main: "cuda_worker_main x (Some dev) f (StrongId 1) b (StrongId 1) s =
      worker_session x (StrongId 1) b (cuda_resource (StrongId 1) b (StrongId 1) dev f) s" for x :: "'s exchange" and s
    using assms(1) by (simp add: cuda_worker_main_def plain_device_def)
  have s: "cuda_worker_main (conn_exchange rs env c) (Some dev) f (StrongId 1) b (StrongId 1) (cs, m, fs) =
      (WorkerReady, (cs(c := Serving (StrongId 1)), m', fs))"
    using m' assms(4) unfolding main by (intro conn_session) simp
  obtain d where eq: "m' = ?m1\<lparr>m_resourceGen := om_insert (StrongId 1) (Generation 1) (m_resourceGen m),
      m_resources := om_insert (StrongId 1) ?r (m_resources m), m_devices := om_insert (StrongId 1) d (m_devices m)\<rparr>"
    using publish_accepted [of ?m1 ?r, OF _ _ death_resource_rep [OF assms(1) f]] assms(9) pub by (auto simp: isFreshBoot_def)
  have "om_insert (StrongId 1) ?r (m_resources m) = om_insert (StrongId 1) ?r om_empty"
    using assms(8) by (intro om_eqI) simp
  then have "m_resources m' = om_insert (StrongId 1) ?r om_empty" by (simp add: eq)
  moreover have "undrained ?m1" using assms(7) by (simp add: undrained_def)
  then have "undrained m'" by (rule publish_undrained [OF pub])
  ultimately have "holds b dev f True m'" using assms(6) by (simp add: holds_def eq tracker_current_def)
  with s show ?thesis by blast
qed

lemma lost_holds: "holds b dev f alive m \<Longrightarrow> holds b dev f False (markWorkerDead m (StrongId 1))"
  by (simp add: holds_def markWorkerDead_def currentResources_def undrained_def)

lemma holds_resources: "holds b dev f alive m \<Longrightarrow> currentResources m = [death_resource b dev f]"
  by (simp add: holds_def currentResources_def)

lemma holds_current: "holds b dev f alive m \<Longrightarrow> sid_valid b \<Longrightarrow> resource_current m (death_resource b dev f) \<longleftrightarrow> alive"
  by (simp add: holds_def resource_current_def isCurrentDynamic_def isFreshBoot_def sid_valid_def kInvalidId_def)

section \<open>The query over the wire\<close>

lemma none_current_revalidates:
  assumes "currentResources m = [r]" and "\<not> resource_current m r" and "buildView m now = Inr v" and "demand_valid d"
  shows "fz_outcome (evaluateNow v d) = RevalidationRequired"
  using buildView_effect [OF assms(3)] assms(1,2,4) by (simp add: evaluateNow_outcome)

lemma death_demand:
  "\<exists>d. makeCUDA_basedDemand (StrongId 100) = Inr d \<and> memory_demand (demand_image d) (ByteCount (push_bit 20 1)) \<and>
     demand_valid (demand_image d) \<and> dm_minContiguousVram (demand_image d) = ByteCount (push_bit 20 1) \<and>
     capacity_wire (dm_requirements d) \<and> length (writeDemand d) \<le> 4096"
proof -
  let ?req = "ByteCount (push_bit 20 1)"
  have req: "bc_nat ?req = 2 ^ 20" by (simp add: bc_nat_def push_bit_eq_mult)
  obtain d where d: "demandFor (StrongId 100) ?req = Inr d" "memory_demand d ?req" "dm_requiresContiguousVram d"
      "dm_minContiguousVram d = ?req" "dm_id d = StrongId 100" "dm_generation d = Generation 1"
    using demandFor_memory [of ?req "StrongId 100"] req by auto
  have mk: "makeCUDA_basedDemand (StrongId 100) = Inr d" using d(1) by (simp add: makeCUDA_basedDemand_def demandFor_def)
  have m: "memory_demand (demand_image d) ?req" using d(2) by (simp add: memory_demand_def demand_image_def WorkloadDemand_default_def)
  have "?req \<noteq> bc_zero" using req by (auto simp: bc_nat_def bc_zero_def)
  then have v: "demand_valid (demand_image d)"
    by (intro demand_validI [OF m]) (use d in \<open>simp_all add: demand_image_def sid_valid_def kInvalidId_def\<close>)
  have "dm_requirements d = setVram ?req (setAccelerators (DeviceCount 1) om_empty)"
    using d(1) d_of_nat_to_u64 [of 1] by (auto simp: demandFor_def makeDemand_def WorkloadDemand_default_def)
  also have "\<dots> = setAccelerators (DeviceCount 1) (setVram ?req om_empty)"
    by (rule om_eqI) (simp add: setVram_def setAccelerators_def d_of_u64_def cap_set_whole push_bit_eq_mult)
  finally have "capacity_wire (dm_requirements d)" using capacity_wire_rep [of ?req] req by (simp add: bc_nat_def)
  moreover have "length (writeCapacity (dm_requirements d)) \<le> 2308"
    using om_size_Dimension [of "dm_requirements d"] by (simp add: length_writeCapacity)
  then have "length (writeDemand d) \<le> 4096" by (simp add: writeDemand_def)
  ultimately show ?thesis using mk m v d(4) by (simp add: demand_image_def)
qed

lemma query_exchange:
  assumes "sends_up_to 65536 rs" and "cs c = Serving cur" and "capacity_wire (dm_requirements d)" and "length (writeDemand d) \<le> 4096"
    and "queryFeasibility m (demand_image d) Expected 0 = Inr res"
  shows "queryOutcome (conn_exchange rs env c) d seq (cs, m, fs) = (Outcome_code (fz_outcome res), seq + 1, (cs, m, fs))"
proof -
  let ?p = "writeDemand d @ writeU8 (mode_code Expected) @ writeI64 0"
  have rd: "rd_pair readDemand (rd_pair readU8 readI64) ?p = Inr (Some ((demand_image d, mode_code Expected, 0), []))"
    using demand_format.read_image [OF assms(3)] query_payload [of 0 "mode_code Expected"]
    by (simp add: rd_pair_write in_i64_def i64_min_def i64_max_def)
  then have "dispatch_reply env m fs \<lparr>fm_type = MtQueryFeasibility, fm_seq = seq, fm_payload = ?p\<rparr> =
      Inr (Some (reply_frame MtQueryFeasibility seq (feasibility_reply res)), m, fs)"
    using assms(5) by (simp add: dispatch_reply_def on_read_def)
  moreover have "length (feasibility_reply res) \<le> 65536" by (simp add: feasibility_reply_def)
  ultimately have "coordinator_exchange rs env \<lparr>fm_type = MtQueryFeasibility, fm_seq = seq, fm_payload = ?p\<rparr> (Serving cur, m, fs) =
      (Some (reply_frame MtQueryFeasibility seq (feasibility_reply res)), (Serving cur, m, fs))"
    using assms(4) by (intro exchange_dispatch [OF assms(1)]) (simp_all add: kMaxFramePayload_def reply_frame_def)
  moreover have "\<exists>xs. feasibility_reply res = Outcome_code (fz_outcome res) # xs" by (simp add: feasibility_reply_def writeU8_def)
  ultimately show ?thesis
    using assms(2) by (auto simp: queryOutcome_def conn_exchange_def reply_frame_def fun_upd_idem)
qed

lemma query_holds:
  assumes "holds b dev f alive m" and "plain_device dev" and "2 ^ 20 \<le> unat f" and "unat f < 2 ^ 52" and "sid_valid b"
    and "memory_demand d (ByteCount (push_bit 20 1))" and "demand_valid d" and "dm_minContiguousVram d = ByteCount (push_bit 20 1)"
  shows "\<exists>res. queryFeasibility m d Expected 0 = Inr res \<and> fz_outcome res = (if alive then FitNow else RevalidationRequired)"
proof -
  let ?r = "death_resource b dev f"
  have f: "unat f < 2 ^ 53" using assms(4) by simp
  note rep = death_resource_rep [OF assms(2) f]
  have b: "bc_nat (ByteCount (cu_totalBytes dev)) + bc_nat (ByteCount f) < 2 ^ 53"
    using assms(2,4) by (simp add: plain_device_def bc_nat_def)
  have "whole_fleet (\<lambda>_. one_device (ByteCount (cu_totalBytes dev))) (\<lambda>_. one_device (ByteCount f)) (\<lambda>_ _. 0) (\<lambda>_ _. 0) m"
    using rep b holds_resources [OF assms(1)] by (simp add: whole_fleet_def cap_rep_empty one_device_def bc_nat_def)
  then obtain v where v: "buildView m 0 = Inr v" using buildView_rep by blast
  have "fz_outcome (evaluateNow v d) = (if alive then FitNow else RevalidationRequired)"
  proof (cases alive)
    case True
    have "m_reservations m = []" "undrained m" "resource_current m ?r"
      using assms(1) holds_current [OF assms(1,5)] True by (simp_all add: holds_def)
    from one_device_outcome [OF holds_resources [OF assms(1)] this(1,3,2) _ rep _ _ b assms(6,7)]
    have "ask m d = Inr FitNow"
      using assms(3,8) shape_iff [of "[ByteCount f]" "ByteCount (push_bit 20 1)"] f by (simp add: bc_nat_def push_bit_eq_mult)
    then show ?thesis using v True by (simp add: ask_def queryFeasibilityNow_def)
  next
    case False
    then show ?thesis
      using none_current_revalidates [OF holds_resources [OF assms(1)] _ v assms(7)] holds_current [OF assms(1,5)] by simp
  qed
  then show ?thesis using v by (simp add: queryFeasibility_body)
qed

section \<open>Polling\<close>

lemma wait_at_once:
  assumes "queryOutcome x d seq s = (a, seq', s')" and "p a" and "i < n"
  shows "waitForState x between d p n i seq s = (True, seq', s')"
  using assms by (simp add: waitForState.simps [of x between d p n i])

lemma wait_change:
  assumes "\<And>seq. queryOutcome x d seq s = (a, seq + 1, s)" and "\<not> p a"
    and "\<And>seq. queryOutcome x d seq t = (a', seq + 1, t)" and "p a'"
    and "\<And>i. between i s = (if Suc i = notice then t else s)" and "i < notice" and "notice < n"
  shows "\<exists>seq'. waitForState x between d p n i seq s = (True, seq', t)"
  using assms(6)
proof (induction "notice - i" arbitrary: i seq)
  case (Suc k)
  have step: "waitForState x between d p n i seq s = waitForState x between d p n (Suc i) (seq + 1) (if Suc i = notice then t else s)"
    using assms(1,2,5,7) Suc.prems by (simp add: waitForState.simps [of x between d p n i])
  show ?case
  proof (cases "Suc i = notice")
    case True
    then show ?thesis using step wait_at_once [where p = p and a = a', OF assms(3,4)] assms(7) by simp
  next
    case False
    then show ?thesis using step Suc.hyps(1) [of "Suc i" "seq + 1"] Suc.hyps(2) Suc.prems by simp
  qed
qed simp

section \<open>The steps of the run\<close>

definition megabyte_query :: "WorkloadDemand \<Rightarrow> bool" where
  "megabyte_query d \<longleftrightarrow> memory_demand (demand_image d) (ByteCount (push_bit 20 1)) \<and> demand_valid (demand_image d) \<and>
     dm_minContiguousVram (demand_image d) = ByteCount (push_bit 20 1) \<and> capacity_wire (dm_requirements d) \<and>
     length (writeDemand d) \<le> 4096"

lemma death_query: "\<exists>d. makeCUDA_basedDemand (StrongId 100) = Inr d \<and> megabyte_query d"
  using death_demand by (simp add: megabyte_query_def)

lemma query_answer:
  assumes "plain_device dev" and "sends_up_to 65536 rs" and "megabyte_query d"
    and "holds b dev f alive m" and "2 ^ 20 \<le> unat f" and "unat f < 2 ^ 52" and "sid_valid b" and "cs c = Serving cur"
  shows "queryOutcome (conn_exchange rs env c) d seq (cs, m, fs) =
     (Outcome_code (if alive then FitNow else RevalidationRequired), seq + 1, (cs, m, fs))"
proof -
  note d = assms(3) [unfolded megabyte_query_def]
  obtain res where res: "queryFeasibility m (demand_image d) Expected 0 = Inr res" "fz_outcome res = (if alive then FitNow else RevalidationRequired)"
    using query_holds [OF assms(4,1,5,6,7)] d by blast
  show ?thesis using query_exchange [where cs = cs and c = c and cur = cur, OF assms(2,8) _ _ res(1)] d by (simp add: res(2))
qed

lemma wait_fits:
  assumes "queryOutcome x d seq s = (Outcome_code FitNow, seq + 1, s)"
  shows "waitForState x (\<lambda>i s. s) d (\<lambda>o'. o' = Outcome_code FitNow) 400 0 seq s = (True, seq + 1, s)"
  by (rule wait_at_once [OF assms]) simp_all

lemma death_noticed:
  assumes "\<And>seq. queryOutcome x d seq s = (Outcome_code FitNow, seq + 1, s)"
    and "\<And>seq. queryOutcome x d seq t = (Outcome_code RevalidationRequired, seq + 1, t)"
    and "conn_lost 0 s = t" and "notice < 400"
  shows "\<exists>seq'. waitForState x (\<lambda>i s. if Suc i = notice then conn_lost 0 s else s) d (\<lambda>o'. o' \<noteq> Outcome_code FitNow) 400 0 seq
     (if notice = 0 then conn_lost 0 s else s) = (True, seq', t)"
proof (cases "notice = 0")
  case True
  then show ?thesis
    using wait_at_once [where p = "\<lambda>o'. o' \<noteq> Outcome_code FitNow", OF assms(2)] assms(3) by simp
next
  case False
  have "\<exists>seq'. waitForState x (\<lambda>i s. if Suc i = notice then conn_lost 0 s else s) d (\<lambda>o'. o' \<noteq> Outcome_code FitNow) 400 0 seq s =
      (True, seq', t)"
    by (rule wait_change [where notice = notice and a = "Outcome_code FitNow" and a' = "Outcome_code RevalidationRequired"])
      (use assms False in simp_all)
  then show ?thesis using False by simp
qed

lemma conn_lost_serving:
  "cs c = Serving w \<Longrightarrow> sid_valid w \<Longrightarrow> conn_lost c (cs, m, fs) = (cs(c := Closed), markWorkerDead m w, fs)"
  by (simp add: conn_lost_def handle_lost_def)

lemma replay_refused:
  assumes "sends_up_to 65536 rs" and "cs c = Serving sid_default" and "registerWorker m (StrongId 1) (StrongId 100) = (False, m)"
  shows "replay_register (conn_exchange rs env c) q (cs, m, fs) = (True, (cs(c := Serving (StrongId 1)), m, fs))"
  using exchange_register [OF assms(1), of m 1 100 False m env q sid_default fs] assms(2,3)
  by (simp add: replay_register_def conn_exchange_def kMaxFramePayload_def reply_frame_def flagPayload_def rejectPayload_def)

lemma shutdown_answered:
  assumes "sends_up_to 65536 rs" and "cs c = Serving cur"
  shows "conn_exchange rs env c \<lparr>fm_type = MtShutdown, fm_seq = q, fm_payload = []\<rparr> (cs, m, fs) =
     (Some (reply_frame MtShutdown q [1]), (cs(c := Closed), m, fs))"
proof -
  have "coordinator_exchange rs env \<lparr>fm_type = MtShutdown, fm_seq = q, fm_payload = []\<rparr> (Serving cur, m, fs) =
      (Some (reply_frame MtShutdown q [1]), (Closed, m, fs))"
    by (subst exchange_turn [OF assms(1), where r = "reply_frame MtShutdown q [1]" and t = "\<lparr>tn_conn = Closed, tn_stop = True,
          tn_wire = snd (reply rs (reply_frame MtShutdown q [1])), tn_model = m, tn_files = fs\<rparr>"])
      (simp_all add: kMaxFramePayload_def reply_frame_def handle_frame_def Let_def unless_blocked_def
        sends_reply [OF assms(1), of "reply_frame MtShutdown q [1]", unfolded reply_frame_def] del: not_None_eq)
  then show ?thesis using assms(2) by (simp add: conn_exchange_def)
qed

lemma first_ready:
  assumes "plain_device dev" and "unat f < 2 ^ 52" and "sends_up_to 65536 rs"
  shows "\<exists>m. cuda_worker_main (conn_exchange rs env c) (Some dev) f (StrongId 1) (StrongId 100) (StrongId 1) (connect c (cs, CapacityModel_new, fs)) =
       (WorkerReady, (cs(c := Serving (StrongId 1)), m, fs)) \<and> holds (StrongId 100) dev f True m"
  using ready_holds [OF assms, of "cs(c := Serving sid_default)" c "StrongId 100" CapacityModel_new env fs]
  by (auto simp: connect_def CapacityModel_new_def setEpoch_def undrained_def tracker_current_def gen_regresses_def gen_default_def
      gen_valid_def sid_valid_def kInvalidId_def)

lemma ready_again:
  assumes "plain_device dev" and "unat f < 2 ^ 52" and "sends_up_to 65536 rs" and "holds b dev f0 False m" and "sid_valid b'"
  shows "\<exists>m'. cuda_worker_main (conn_exchange rs env c) (Some dev) f (StrongId 1) b' (StrongId 1) (connect c (cs, m, fs)) =
       (WorkerReady, (cs(c := Serving (StrongId 1)), m', fs)) \<and> holds b' dev f True m'"
  using ready_holds [OF assms(1-3), of "cs(c := Serving sid_default)" c b' m env fs] assms(4,5)
  by (auto simp: connect_def holds_def gen_regresses_def)

text \<open>A replayed registration of another boot is refused, and the end of its connection marks the live worker dead.\<close>

lemma replay_kills:
  assumes "sends_up_to 65536 rs" and "holds (StrongId 300) dev f True m"
  shows "replay_register (conn_exchange rs env c) q (connect c (cs, m, fs)) = (True, (cs(c := Serving (StrongId 1)), m, fs))"
    and "conn_lost c (cs(c := Serving (StrongId 1)), m, fs) = (cs(c := Closed), markWorkerDead m (StrongId 1), fs)"
proof -
  have "registerWorker m (StrongId 1) (StrongId 100) = (False, m)" using assms(2) by (simp add: registerWorker_def holds_def)
  then show "replay_register (conn_exchange rs env c) q (connect c (cs, m, fs)) = (True, (cs(c := Serving (StrongId 1)), m, fs))"
    using replay_refused [OF assms(1), of "cs(c := Serving sid_default)" c m] by (simp add: connect_def)
  show "conn_lost c (cs(c := Serving (StrongId 1)), m, fs) = (cs(c := Closed), markWorkerDead m (StrongId 1), fs)"
    by (simp add: conn_lost_serving sid_valid_def kInvalidId_def)
qed

section \<open>Properties\<close>

text \<open>
  C13. The death of a worker is seen, and so is its return. On a new coordinator, with a device that has a megabyte
  free, and whenever the coordinator notices the death within the 400 polls, the run reports what it is meant to: the first
  incarnation becomes ready and its evidence fits; once it is dead, the query asks for revalidation; the second
  incarnation becomes ready and its evidence fits; the replay of the first boot is rejected. But the rejected
  replay itself kills: when its connection ends, the second incarnation is marked dead though it is still connected, so at the end
  no resource is current.
\<close>

theorem worker_death_observed:
  assumes "plain_device dev" and "2 ^ 20 \<le> unat freeA" "unat freeA < 2 ^ 52" and "2 ^ 20 \<le> unat freeA2" "unat freeA2 < 2 ^ 52"
    and "notice < 400" and "sends_up_to 65536 rs"
  shows "\<exists>cs' m' fs'. runCudaWorkerDeath rs env (Some dev) freeA freeA2 notice (cs, CapacityModel_new, fs) = Inr
       (\<lparr>dr_ready = True, dr_live = True, dr_stale = True, dr_dead = Outcome_code RevalidationRequired, dr_readyAgain = True,
         dr_restored = True, dr_replayRejected = True\<rparr>, (cs', m', fs')) \<and>
     cs' 2 = Serving (StrongId 1) \<and> \<not> workerAlive m' (StrongId 1) \<and> (\<forall>r \<in> set (currentResources m'). \<not> resource_current m' r)"
proof -
  let ?x = "conn_exchange rs env" and ?ba = "StrongId 100 :: WorkerBootId" and ?bb = "StrongId 300 :: WorkerBootId"
  have ids: "sid_valid ?ba" "sid_valid ?bb" "sid_valid (StrongId 1 :: WorkerId)" by (simp_all add: sid_valid_def kInvalidId_def)
  obtain d where d: "makeCUDA_basedDemand (StrongId 100) = Inr d" and mb: "megabyte_query d" using death_query by blast
  note answer = query_answer [OF assms(1,7) mb]
  define c1 where "c1 = cs(0 := Serving (StrongId 1), 1 := Serving sid_default)"
  define c2 where "c2 = c1(0 := Closed)"
  define c3 where "c3 = c2(2 := Serving (StrongId 1))"
  note at = c1_def c2_def c3_def
  obtain m1 where m1: "cuda_worker_main (?x 0) (Some dev) freeA (StrongId 1) ?ba (StrongId 1) (connect 0 (cs, CapacityModel_new, fs)) =
        (WorkerReady, (cs(0 := Serving (StrongId 1)), m1, fs))" and h1: "holds ?ba dev freeA True m1"
    using first_ready [OF assms(1,3,7)] by blast
  have con: "connect 1 (cs(0 := Serving (StrongId 1)), m1, fs) = (c1, m1, fs)" by (simp add: connect_def c1_def)
  let ?m2 = "markWorkerDead m1 (StrongId 1)"
  have h2: "holds ?ba dev freeA False ?m2" by (rule lost_holds [OF h1])
  have live: "queryOutcome (?x 1) d seq (c1, m1, fs) = (Outcome_code FitNow, seq + 1, (c1, m1, fs))" for seq
    using answer [OF h1 assms(2,3) ids(1), of c1 1] by (simp add: at)
  have dead: "queryOutcome (?x 1) d seq (c2, ?m2, fs) = (Outcome_code RevalidationRequired, seq + 1, (c2, ?m2, fs))" for seq
    using answer [OF h2 assms(2,3) ids(1), of c2 1] by (simp add: at)
  have "conn_lost 0 (c1, m1, fs) = (c2, ?m2, fs)" using ids(3) by (simp add: conn_lost_serving at)
  from death_noticed [OF live dead this assms(6), of 2]
  obtain seq2 where stale: "waitForState (?x 1) (\<lambda>i s. if Suc i = notice then conn_lost 0 s else s) d (\<lambda>o'. o' \<noteq> Outcome_code FitNow) 400 0 2
      (if notice = 0 then conn_lost 0 (c1, m1, fs) else (c1, m1, fs)) = (True, seq2, (c2, ?m2, fs))" by blast
  obtain m3 where m3: "cuda_worker_main (?x 2) (Some dev) freeA2 (StrongId 1) ?bb (StrongId 1) (connect 2 (c2, ?m2, fs)) =
        (WorkerReady, (c3, m3, fs))" and h3: "holds ?bb dev freeA2 True m3"
    using ready_again [OF assms(1,5,7) h2 ids(2)] unfolding c3_def by blast
  have restored: "queryOutcome (?x 1) d seq (c3, m3, fs) = (Outcome_code FitNow, seq + 1, (c3, m3, fs))" for seq
    using answer [OF h3 assms(4,5) ids(2), of c3 1] by (simp add: at)
  let ?m4 = "markWorkerDead m3 (StrongId 1)"
  have shut: "?x 1 \<lparr>fm_type = MtShutdown, fm_seq = q, fm_payload = []\<rparr> (c3(3 := Closed), ?m4, fs) =
      (Some (reply_frame MtShutdown q [1]), (c3(3 := Closed, 1 := Closed), ?m4, fs))" for q
    using shutdown_answered [OF assms(7), of "c3(3 := Closed)" 1] by (simp add: at)
  have "runCudaWorkerDeath rs env (Some dev) freeA freeA2 notice (cs, CapacityModel_new, fs) = Inr
       (\<lparr>dr_ready = True, dr_live = True, dr_stale = True, dr_dead = Outcome_code RevalidationRequired, dr_readyAgain = True,
         dr_restored = True, dr_replayRejected = True\<rparr>, (c3(3 := Closed, 1 := Closed), ?m4, fs))"
    unfolding runCudaWorkerDeath_def death_first_def death_second_def Let_def m1 con d prod.case bindR_Inr wait_fits [OF live] one_add_one stale dead m3
      wait_fits [OF restored] replay_kills [OF assms(7) h3] shut by simp
  moreover have h4: "holds ?bb dev freeA2 False ?m4" by (rule lost_holds [OF h3])
  have "\<not> workerAlive ?m4 (StrongId 1)" using h4 by (simp add: holds_def workerAlive_def)
  moreover have "\<forall>r \<in> set (currentResources ?m4). \<not> resource_current ?m4 r"
    using holds_resources [OF h4] holds_current [OF h4 ids(2)] by simp
  moreover have "(c3(3 := Closed, 1 := Closed)) 2 = Serving (StrongId 1)" by (simp add: c3_def)
  ultimately show ?thesis by blast
qed

theorem worker_death_observed_witness:
  "\<exists>cs' m' fs'. runCudaWorkerDeath [Sent (2 ^ 20)] WriteOk (Some \<lparr>cu_present = True, cu_ordinal = 0, cu_name = ''gpu'', cu_major = 12,
       cu_minor = 0, cu_totalBytes = 2 ^ 34, cu_freeBytes = 2 ^ 33, cu_supported = True\<rparr>) (2 ^ 33) (2 ^ 33) 7
       (\<lambda>_. Closed, CapacityModel_new, \<lambda>_. None) = Inr
       (\<lparr>dr_ready = True, dr_live = True, dr_stale = True, dr_dead = 13, dr_readyAgain = True,
         dr_restored = True, dr_replayRejected = True\<rparr>, (cs', m', fs')) \<and> \<not> workerAlive m' (StrongId 1)"
proof -
  let ?dev = "\<lparr>cu_present = True, cu_ordinal = 0, cu_name = ''gpu'', cu_major = 12, cu_minor = 0, cu_totalBytes = 2 ^ 34,
      cu_freeBytes = 2 ^ 33, cu_supported = True\<rparr>"
  have "plain_device ?dev" by (simp add: plain_device_def)
  from worker_death_observed [OF this, of "2 ^ 33" "2 ^ 33" 7 "[Sent (2 ^ 20)]" WriteOk "\<lambda>_. Closed" "\<lambda>_. None"] sends_one_chunk [of 65536]
  show ?thesis by auto
qed

end
