(* ===== verification/Cuda_Device.thy ===== *)
theory Cuda_Device
  imports Worker
begin

text \<open>
  The bridge to the CUDA runtime (\<open>cuda/cuda_proof.cu\<close>): probing the device, device memory, and the kernel that adds
  one to every element with its check against the host. The runtime is an argument, a record of its calls over
  a state of the device; what its documentation promises of memory and threads is the predicate \<open>cuda_documented\<close>.
\<close>

section \<open>Single precision\<close>

text \<open>
  The C++ \<open>float\<close> as an IEEE 754 binary32 pattern. The exact value of a finite one is an integer multiple of
  \<open>2 ^ -149\<close>, which \<open>f_val\<close> counts; a sum is exact and then rounded to nearest, ties to even.
\<close>

datatype float32 = Float32 (fbits: u32)

definition f_mag :: "float32 \<Rightarrow> nat" where "f_mag x = unat (fbits x) mod 2 ^ 31"
definition f_sign :: "float32 \<Rightarrow> bool" where "f_sign x \<longleftrightarrow> 2 ^ 31 \<le> unat (fbits x)"
definition f_mk :: "bool \<Rightarrow> nat \<Rightarrow> float32" where "f_mk s n = Float32 (word_of_nat (n + (if s then 2 ^ 31 else 0)))"
definition f_inf_mag :: nat where "f_inf_mag = 255 * 2 ^ 23"
definition f_isnan :: "float32 \<Rightarrow> bool" where "f_isnan x \<longleftrightarrow> f_inf_mag < f_mag x"
definition f_isinf :: "float32 \<Rightarrow> bool" where "f_isinf x \<longleftrightarrow> f_mag x = f_inf_mag"
definition f_key :: "float32 \<Rightarrow> int" where "f_key x = (if f_sign x then - int (f_mag x) else int (f_mag x))"
definition f_eq :: "float32 \<Rightarrow> float32 \<Rightarrow> bool" where
  "f_eq x y \<longleftrightarrow> \<not> f_isnan x \<and> \<not> f_isnan y \<and> f_key x = f_key y"

definition f_units :: "nat \<Rightarrow> nat" where
  "f_units n = (let e = n div 2 ^ 23; f = n mod 2 ^ 23 in if e = 0 then f else (2 ^ 23 + f) * 2 ^ (e - 1))"

definition f_val :: "float32 \<Rightarrow> int" where
  "f_val x = (if f_sign x then - int (f_units (f_mag x)) else int (f_units (f_mag x)))"

definition f_round :: "bool \<Rightarrow> nat \<Rightarrow> float32" where
  "f_round s p = f_mk s (min (let k = nbits p - 24 in k * 2 ^ 23 + rne p (2 ^ k)) f_inf_mag)"

definition f_qnan :: float32 where "f_qnan = f_mk False (f_inf_mag + 2 ^ 22)"
definition f_one :: float32 where "f_one = f_mk False (127 * 2 ^ 23)"

definition f_add :: "float32 \<Rightarrow> float32 \<Rightarrow> float32" where
  "f_add x y =
     (if f_isnan x \<or> f_isnan y then f_qnan
      else if f_isinf x then (if f_isinf y \<and> f_sign x \<noteq> f_sign y then f_qnan else x)
      else if f_isinf y then y
      else let v = f_val x + f_val y
           in if v = 0 then f_mk (f_sign x \<and> f_sign y) 0 else f_round (v < 0) (nat \<bar>v\<bar>))"

lemma f_mag_mk: "n < 2 ^ 31 \<Longrightarrow> f_mag (f_mk s n) = n"
proof -
  assume n: "n < 2 ^ 31"
  have "unat (word_of_nat m :: u32) = m" if "m < 2 ^ 32" for m using that by (simp add: unat_of_nat)
  then have "unat (word_of_nat (n + (if s then 2 ^ 31 else 0)) :: u32) = n + (if s then 2 ^ 31 else 0)"
    using n by (simp del: of_nat_add)
  then show ?thesis using n unfolding f_mag_def f_mk_def float32.sel by simp
qed

lemma f_not_special:
  "\<not> f_isnan (f_round s p)" "\<not> f_isnan (f_mk s 0)" "\<not> f_isnan f_one" "\<not> f_isinf f_one"
  by (simp_all add: f_isnan_def f_isinf_def f_round_def f_mag_mk f_one_def f_inf_mag_def)

lemma f_add_one_nan: "f_isnan (f_add x f_one) \<longleftrightarrow> f_isnan x"
proof -
  have "f_isnan f_qnan" by (simp add: f_isnan_def f_qnan_def f_mag_mk f_inf_mag_def)
  moreover have "f_isinf x \<Longrightarrow> \<not> f_isnan x" by (simp add: f_isinf_def f_isnan_def)
  ultimately show ?thesis using f_not_special by (auto simp: f_add_def Let_def)
qed

lemma f_eq_refl: "f_eq x x \<longleftrightarrow> \<not> f_isnan x"
  by (auto simp: f_eq_def)

lemma f_one_plus_one: "f_add f_one f_one = Float32 0x40000000"
  by (simp add: f_one_def f_mk_def f_add_def f_isnan_def f_isinf_def f_mag_def f_inf_mag_def f_val_def f_sign_def f_units_def
      Let_def f_round_def nbits.simps rne_def)

section \<open>The runtime\<close>

text \<open>
  The calls of the CUDA runtime over a state \<open>'d\<close>. An error code is a number, zero meaning success. A device buffer is
  seen as the floats in it, the copies by their number of floats. The launch gets the kernel by block and thread, the grid and
  block sizes and the buffer.
\<close>

type_synonym devptr = nat

record CudaProp =
  prop_name :: string
  prop_major :: nat
  prop_minor :: nat
  prop_totalGlobalMem :: u64

record 'd CudaRuntime =
  rt_errorString :: "nat \<Rightarrow> string"
  rt_getLastError :: "'d \<Rightarrow> nat \<times> 'd"
  rt_getDeviceCount :: "'d \<Rightarrow> nat \<times> int \<times> 'd"
  rt_setDevice :: "'d \<Rightarrow> nat \<times> 'd"
  rt_getProperties :: "'d \<Rightarrow> CudaProp option \<times> 'd"
  rt_memGetInfo :: "'d \<Rightarrow> (u64 \<times> u64) option \<times> 'd"
  rt_malloc :: "u64 \<Rightarrow> 'd \<Rightarrow> devptr option \<times> 'd"
  rt_free :: "devptr \<Rightarrow> 'd \<Rightarrow> bool \<times> 'd"
  rt_toDevice :: "devptr \<Rightarrow> float32 list \<Rightarrow> 'd \<Rightarrow> bool \<times> 'd"
  rt_launch :: "(u32 \<Rightarrow> u32 \<Rightarrow> float32 list \<Rightarrow> float32 list) \<Rightarrow> u32 \<Rightarrow> u32 \<Rightarrow> devptr \<Rightarrow> 'd \<Rightarrow> 'd"
  rt_synchronize :: "'d \<Rightarrow> bool \<times> 'd"
  rt_toHost :: "devptr \<Rightarrow> u64 \<Rightarrow> 'd \<Rightarrow> float32 list option \<times> 'd"

text \<open>The error text of a failed call: the last error, which reading it resets.\<close>

definition cuda_error :: "'d CudaRuntime \<Rightarrow> 'd \<Rightarrow> string \<times> 'd" where
  "cuda_error rt d = (let (e, d') = rt_getLastError rt d in (rt_errorString rt e, d'))"

section \<open>Probe and memory\<close>

definition CudaDevice_default :: CudaDevice where
  "CudaDevice_default = \<lparr>cu_present = False, cu_ordinal = -1, cu_name = '''', cu_major = 0, cu_minor = 0, cu_totalBytes = 0,
     cu_freeBytes = 0, cu_supported = True\<rparr>"

definition probeDevice :: "'d CudaRuntime \<Rightarrow> CudaDevice \<Rightarrow> string \<Rightarrow> 'd \<Rightarrow> bool \<times> CudaDevice \<times> string \<times> 'd" where
  "probeDevice rt out err d =
     (let (e, cnt, d1) = rt_getDeviceCount rt d
      in if e \<noteq> 0 \<or> cnt \<le> 0 then (False, out\<lparr>cu_present := False\<rparr>, rt_errorString rt e, d1)
      else let (e2, d2) = rt_setDevice rt d1
      in if e2 \<noteq> 0 then (let (s, d3) = cuda_error rt d2 in (False, out\<lparr>cu_present := False\<rparr>, s, d3))
      else case rt_getProperties rt d2 of
        (None, d3) \<Rightarrow> (let (s, d4) = cuda_error rt d3 in (False, out\<lparr>cu_present := False\<rparr>, s, d4))
      | (Some prop, d3) \<Rightarrow>
          let out1 = out\<lparr>cu_present := True, cu_ordinal := 0, cu_name := prop_name prop, cu_major := prop_major prop,
                cu_minor := prop_minor prop\<rparr>
          in (case rt_memGetInfo rt d3 of
                (None, d4) \<Rightarrow> (let (s, d5) = cuda_error rt d4
                   in (True, out1\<lparr>cu_freeBytes := 0, cu_totalBytes := prop_totalGlobalMem prop\<rparr>, s, d5))
              | (Some (freeBytes, totalBytes), d4) \<Rightarrow>
                  (True, out1\<lparr>cu_freeBytes := freeBytes,
                     cu_totalBytes := (if totalBytes \<noteq> 0 then totalBytes else prop_totalGlobalMem prop)\<rparr>, err, d4)))"

definition currentFreeBytes :: "'d CudaRuntime \<Rightarrow> 'd \<Rightarrow> (string + u64) \<times> 'd" where
  "currentFreeBytes rt d =
     (case rt_memGetInfo rt d of
        (None, d1) \<Rightarrow> (let (s, d2) = cuda_error rt d1 in (Inl s, d2))
      | (Some (f, t), d1) \<Rightarrow> (Inr f, d1))"

definition allocate :: "'d CudaRuntime \<Rightarrow> u64 \<Rightarrow> 'd \<Rightarrow> (string + devptr) \<times> 'd" where
  "allocate rt bytes d =
     (case rt_malloc rt bytes d of
        (None, d1) \<Rightarrow> (let (s, d2) = cuda_error rt d1 in (Inl s, d2))
      | (Some p, d1) \<Rightarrow> (Inr p, d1))"

definition release :: "'d CudaRuntime \<Rightarrow> devptr \<Rightarrow> 'd \<Rightarrow> (string + unit) \<times> 'd" where
  "release rt p d =
     (let (ok, d1) = rt_free rt p d
      in if \<not> ok then (let (s, d2) = cuda_error rt d1 in (Inl s, d2)) else (Inr (), d1))"

section \<open>The kernel\<close>

text \<open>The index is computed in 32 bits, and widened to compare it with the size.\<close>

definition thread_index :: "u32 \<Rightarrow> u32 \<Rightarrow> u32 \<Rightarrow> u64" where
  "thread_index blockIdx blockDim threadIdx = ucast (blockIdx * blockDim + threadIdx)"

definition addOne :: "u64 \<Rightarrow> u32 \<Rightarrow> u32 \<Rightarrow> u32 \<Rightarrow> float32 list \<Rightarrow> float32 list" where
  "addOne n blockDim blockIdx threadIdx data =
     (let i = thread_index blockIdx blockDim threadIdx
      in if i < n then data[unat i := f_add (data ! unat i) f_one] else data)"

definition cpu_parity :: "float32 list \<Rightarrow> float32 list \<Rightarrow> string + unit" where
  "cpu_parity input out =
     (case find (\<lambda>i. \<not> f_eq (out ! i) (f_add (input ! i) f_one)) [0..<length input] of
        None \<Rightarrow> Inr ()
      | Some i \<Rightarrow> Inl (''CPU parity mismatch at '' @ dec_digits i))"

definition launch_grid :: "u64 \<Rightarrow> u32" where
  "launch_grid cnt = ucast ((cnt + 256 - 1) div 256)"

text \<open>Every failure after the allocation reads the error and frees the buffer.\<close>

definition fail_free :: "'d CudaRuntime \<Rightarrow> devptr \<Rightarrow> 'd \<Rightarrow> (string + unit) \<times> 'd" where
  "fail_free rt p d = (let (s, d1) = cuda_error rt d; (ok, d2) = rt_free rt p d1 in (Inl s, d2))"

definition kernelAndVerify :: "'d CudaRuntime \<Rightarrow> float32 list \<Rightarrow> 'd \<Rightarrow> (string + unit) \<times> 'd" where
  "kernelAndVerify rt input d =
     (let cnt = of_nat (length input) :: u64
      in if cnt = 0 then (Inr (), d)
      else case rt_malloc rt (cnt * 4) d of
        (None, d1) \<Rightarrow> (let (s, d2) = cuda_error rt d1 in (Inl s, d2))
      | (Some dev, d1) \<Rightarrow>
          let (copied, d2) = rt_toDevice rt dev input d1
          in if \<not> copied then fail_free rt dev d2
          else
            let (launched, d4) = rt_getLastError rt (rt_launch rt (addOne cnt 256) (launch_grid cnt) 256 dev d2)
            in if launched \<noteq> 0 then fail_free rt dev d4
            else
              let (synced, d5) = rt_synchronize rt d4
              in if \<not> synced then fail_free rt dev d5
              else (case rt_toHost rt dev cnt d5 of
                      (None, d6) \<Rightarrow> fail_free rt dev d6
                    | (Some out, d6) \<Rightarrow> (cpu_parity input out, snd (rt_free rt dev d6))))"

section \<open>Every element is updated once\<close>

definition threads :: "u32 \<Rightarrow> u32 \<Rightarrow> (u32 \<times> u32) list" where
  "threads grid block = List.product (map word_of_nat [0..<unat grid]) (map word_of_nat [0..<unat block])"

lemma unat_u32: "n < 2 ^ 32 \<Longrightarrow> unat (word_of_nat n :: u32) = n"
  by (simp add: unat_of_nat)

lemma thread_index_nat:
  "unat b * 256 + unat t < 2 ^ 32 \<Longrightarrow> unat (thread_index b 256 t) = unat b * 256 + unat t"
  by (simp add: thread_index_def unsigned_ucast_eq unat_word_ariths take_bit_nat_eq_self)

lemma launch_grid_nat:
  assumes "unat c \<le> 2 ^ 32"
  shows "unat (launch_grid c) = (unat c + 255) div 256"
proof -
  have "c + 256 - 1 = 255 + c" by simp
  moreover have "unat (255 + c) = unat c + 255" using assms by (simp add: unat_word_ariths)
  moreover have "(unat c + 255) div 256 < 2 ^ 32" using assms by simp
  ultimately show ?thesis by (simp add: launch_grid_def unat_div unsigned_ucast_eq take_bit_nat_eq_self)
qed

lemma fold_each_once:
  assumes "distinct (map idx ts)" and "i < length xs"
  shows "fold (\<lambda>t ys. if idx t < n then ys[idx t := g (ys ! idx t)] else ys) ts xs ! i =
     (if i < n \<and> i \<in> idx ` set ts then g (xs ! i) else xs ! i)"
  using assms
proof (induction ts arbitrary: xs)
  case (Cons t ts)
  show ?case
  proof (cases "idx t = i")
    case True
    then have "i \<notin> idx ` set ts" using Cons.prems(1) by auto
    then show ?thesis using True Cons by simp
  next
    case False
    then show ?thesis using Cons by auto
  qed
qed simp

lemma length_fold_update: "length (fold (\<lambda>t ys. if idx t < n then ys[idx t := g ys t] else ys) ts xs) = length xs"
  by (induction ts arbitrary: xs) simp_all

text \<open>
  Up to \<open>2 ^ 32\<close> elements the threads of the launch have distinct indices that cover the elements, so in whatever order they
  run each element is incremented once.
\<close>

lemma threads_indices:
  assumes "unat c \<le> 2 ^ 32"
  defines "idx \<equiv> \<lambda>(b, t). unat (thread_index b 256 t)"
  shows "distinct (map idx (threads (launch_grid c) 256))" and "{..<unat c} \<subseteq> idx ` set (threads (launch_grid c) 256)"
proof -
  let ?g = "(unat c + 255) div 256"
  have g: "unat (launch_grid c) = ?g" by (rule launch_grid_nat [OF assms(1)])
  have below: "b * 256 + t < 2 ^ 32" if "b < ?g" "t < 256" for b t
  proof -
    have "b + 1 \<le> 2 ^ 24" using that(1) assms(1) by simp
    then show ?thesis using that(2) by simp
  qed
  then have idx: "idx (word_of_nat b, word_of_nat t) = b * 256 + t" if "b < ?g" "t < 256" for b t
  proof -
    have "unat (word_of_nat b :: u32) = b" "unat (word_of_nat t :: u32) = t"
      by (rule unat_u32, use below [OF that] that in linarith)+
    then show ?thesis
      using below [OF that] thread_index_nat [of "word_of_nat b" "word_of_nat t"] by (simp add: idx_def)
  qed
  have ts: "threads (launch_grid c) 256 = map (\<lambda>(b, t). (word_of_nat b, word_of_nat t)) (List.product [0..<?g] [0..<256])"
    by (simp add: threads_def g product_concat_map map_concat comp_def)
  have m: "map idx (threads (launch_grid c) 256) = map (\<lambda>(b, t). b * 256 + t) (List.product [0..<?g] [0..<256])"
    unfolding ts map_map by (rule map_cong [OF refl]) (auto simp: idx)
  have "b = b' \<and> t = t'" if "b * 256 + t = b' * 256 + t'" "t < 256" "t' < 256" for b b' t t' :: nat
  proof -
    have "b = b'" using arg_cong [OF that(1), of "\<lambda>n. n div 256"] that by simp
    then show ?thesis using that(1) by simp
  qed
  then have "inj_on (\<lambda>(b, t). b * 256 + t :: nat) (A \<times> {0..<256})" for A
    by (auto simp: inj_on_def)
  then have "inj_on (\<lambda>(b, t). b * 256 + t :: nat) (set (List.product [0..<?g] [0..<256]))"
    by (simp only: set_product set_upt)
  then show "distinct (map idx (threads (launch_grid c) 256))"
    unfolding m by (simp only: distinct_map distinct_product distinct_upt simp_thms)
  show "{..<unat c} \<subseteq> idx ` set (threads (launch_grid c) 256)"
  proof
    fix i assume "i \<in> {..<unat c}"
    then have "i div 256 < ?g" "i mod 256 < 256" by auto
    then have "(i div 256, i mod 256) \<in> set (List.product [0..<?g] [0..<256])"
      by (simp only: set_product mem_Sigma_iff set_upt atLeastLessThan_iff le0 simp_thms)
    moreover have "i = (\<lambda>(b, t). b * 256 + t) (i div 256, i mod 256)" by simp
    ultimately have "i \<in> set (map (\<lambda>(b, t). b * 256 + t) (List.product [0..<?g] [0..<256]))"
      unfolding set_map by blast
    then show "i \<in> idx ` set (threads (launch_grid c) 256)" unfolding m [symmetric] by simp
  qed
qed

lemma kernel_order_irrelevant:
  assumes "unat c \<le> 2 ^ 32" and "length xs = unat c" and "mset order = mset (threads (launch_grid c) 256)"
  shows "fold (\<lambda>(b, t). addOne c 256 b t) order xs = map (\<lambda>x. f_add x f_one) xs"
proof -
  let ?idx = "\<lambda>(b, t). unat (thread_index b 256 t)"
  let ?step = "\<lambda>t ys. if ?idx t < unat c then ys[?idx t := f_add (ys ! ?idx t) f_one] else ys"
  have step: "(\<lambda>(b, t). addOne c 256 b t) = ?step"
    by (auto simp: fun_eq_iff addOne_def Let_def word_less_nat_alt)
  have "mset (map ?idx order) = mset (map ?idx (threads (launch_grid c) 256))" by (simp only: mset_map assms(3))
  then have "distinct (map ?idx order)"
    using threads_indices(1) [OF assms(1)] mset_eq_imp_distinct_iff by blast
  moreover have "set order = set (threads (launch_grid c) 256)" using assms(3) by (metis set_mset_mset)
  ultimately show ?thesis
    unfolding step using threads_indices(2) [OF assms(1)] assms(2)
    by (intro nth_equalityI) (auto simp: length_fold_update fold_each_once [where g = "\<lambda>x. f_add x f_one"])
qed

text \<open>Beyond that the index wraps: the first thread of block \<open>2 ^ 24\<close> has the index of the very first thread.\<close>

lemma thread_index_wraps: "thread_index (2 ^ 24) 256 t = thread_index 0 256 t"
proof -
  have "(2 ^ 24 * 256 :: u32) = 0" by (rule unsigned_word_eqI [where 'a = nat]) (simp add: unat_word_ariths)
  then show ?thesis by (simp only: thread_index_def mult_zero_left)
qed

section \<open>What the runtime promises\<close>

text \<open>
  \<open>mem\<close> reads the live buffers off a state of the device, and \<open>flog\<close> the buffers whose release was reported as failed, in
  order; a state is taken with the history of its calls. A fresh buffer has the size asked for; a release that succeeds
  removes its buffer, one that reports failure may leave it or not, as CUDA promises neither; nothing else changes the set of live
  buffers. A copy that succeeds moves the floats; a launch that reports no error and is waited for has run the kernel once for
  every thread, in some order.
\<close>

definition still :: "('d \<Rightarrow> devptr \<Rightarrow> float32 list option) \<Rightarrow> ('d \<Rightarrow> devptr list) \<Rightarrow> 'd \<Rightarrow> 'd \<Rightarrow> bool" where
  "still mem flog d d' \<longleftrightarrow> mem d' = mem d \<and> flog d' = flog d"

definition same_buffers :: "('d \<Rightarrow> devptr \<Rightarrow> float32 list option) \<Rightarrow> ('d \<Rightarrow> devptr list) \<Rightarrow> 'd \<Rightarrow> 'd \<Rightarrow> bool" where
  "same_buffers mem flog d d' \<longleftrightarrow> dom (mem d') = dom (mem d) \<and> flog d' = flog d"

definition cuda_memory :: "'d CudaRuntime \<Rightarrow> ('d \<Rightarrow> devptr \<Rightarrow> float32 list option) \<Rightarrow> ('d \<Rightarrow> devptr list) \<Rightarrow> bool" where
  "cuda_memory rt mem flog \<longleftrightarrow>
     (\<forall>n d d'. rt_malloc rt n d = (None, d') \<longrightarrow> still mem flog d d') \<and>
     (\<forall>n d p d'. rt_malloc rt n d = (Some p, d') \<longrightarrow> flog d' = flog d \<and>
        mem d p = None \<and> (\<exists>xs. length xs = unat n div 4 \<and> mem d' = (mem d)(p \<mapsto> xs))) \<and>
     (\<forall>p d d'. mem d p \<noteq> None \<longrightarrow> rt_free rt p d = (True, d') \<longrightarrow> mem d' = (mem d)(p := None) \<and> flog d' = flog d) \<and>
     (\<forall>p d d'. mem d p \<noteq> None \<longrightarrow> rt_free rt p d = (False, d') \<longrightarrow>
        (mem d' = mem d \<or> mem d' = (mem d)(p := None)) \<and> flog d' = flog d @ [p]) \<and>
     (\<forall>d. still mem flog d (snd (rt_getLastError rt d)))"

definition cuda_copies :: "'d CudaRuntime \<Rightarrow> ('d \<Rightarrow> devptr \<Rightarrow> float32 list option) \<Rightarrow> ('d \<Rightarrow> devptr list) \<Rightarrow> bool" where
  "cuda_copies rt mem flog \<longleftrightarrow>
     (\<forall>p ys d. same_buffers mem flog d (snd (rt_toDevice rt p ys d))) \<and>
     (\<forall>p ys xs d d'. mem d p = Some xs \<longrightarrow> length ys \<le> length xs \<longrightarrow> rt_toDevice rt p ys d = (True, d') \<longrightarrow>
        mem d' p = Some (ys @ drop (length ys) xs)) \<and>
     (\<forall>p n d. still mem flog d (snd (rt_toHost rt p n d))) \<and>
     (\<forall>p n xs ys d d'. mem d p = Some xs \<longrightarrow> unat n \<le> length xs \<longrightarrow> rt_toHost rt p n d = (Some ys, d') \<longrightarrow>
        ys = take (unat n) xs)"

definition cuda_threads :: "'d CudaRuntime \<Rightarrow> ('d \<Rightarrow> devptr \<Rightarrow> float32 list option) \<Rightarrow> ('d \<Rightarrow> devptr list) \<Rightarrow> bool" where
  "cuda_threads rt mem flog \<longleftrightarrow>
     (\<forall>k g b p d. same_buffers mem flog d (rt_launch rt k g b p d)) \<and>
     (\<forall>d. same_buffers mem flog d (snd (rt_synchronize rt d))) \<and>
     (\<forall>k g b p xs d d1 d2. mem d p = Some xs \<longrightarrow> rt_getLastError rt (rt_launch rt k g b p d) = (0, d1) \<longrightarrow>
        rt_synchronize rt d1 = (True, d2) \<longrightarrow>
        (\<exists>order. mset order = mset (threads g b) \<and> mem d2 p = Some (fold (\<lambda>(i, t). k i t) order xs)))"

definition cuda_queries :: "'d CudaRuntime \<Rightarrow> ('d \<Rightarrow> devptr \<Rightarrow> float32 list option) \<Rightarrow> ('d \<Rightarrow> devptr list) \<Rightarrow> bool" where
  "cuda_queries rt mem flog \<longleftrightarrow> (\<forall>d e n d'. rt_getDeviceCount rt d = (e, n, d') \<longrightarrow> still mem flog d d') \<and>
     (\<forall>d. still mem flog d (snd (rt_setDevice rt d))) \<and> (\<forall>d. still mem flog d (snd (rt_getProperties rt d))) \<and>
     (\<forall>d. still mem flog d (snd (rt_memGetInfo rt d)))"

definition cuda_documented :: "'d CudaRuntime \<Rightarrow> ('d \<Rightarrow> devptr \<Rightarrow> float32 list option) \<Rightarrow> ('d \<Rightarrow> devptr list) \<Rightarrow> bool" where
  "cuda_documented rt mem flog \<longleftrightarrow>
     cuda_memory rt mem flog \<and> cuda_copies rt mem flog \<and> cuda_threads rt mem flog \<and> cuda_queries rt mem flog"

text \<open>A device on which no call fails.\<close>

definition frees_succeed :: "'d CudaRuntime \<Rightarrow> bool" where
  "frees_succeed rt \<longleftrightarrow> (\<forall>p d. fst (rt_free rt p d))"

definition cuda_works :: "'d CudaRuntime \<Rightarrow> bool" where
  "cuda_works rt \<longleftrightarrow> (\<forall>n d. fst (rt_malloc rt n d) \<noteq> None) \<and> (\<forall>p ys d. fst (rt_toDevice rt p ys d)) \<and>
     (\<forall>k g b p d. fst (rt_getLastError rt (rt_launch rt k g b p d)) = 0) \<and> (\<forall>d. fst (rt_synchronize rt d)) \<and>
     (\<forall>p n d. fst (rt_toHost rt p n d) \<noteq> None) \<and> frees_succeed rt"

text \<open>
  The buffers after a piece of work: those that were live are, and every other one is a buffer whose release the runtime has
  reported as failed meanwhile. If releases succeed there is none.
\<close>

definition kept :: "'d CudaRuntime \<Rightarrow> ('d \<Rightarrow> devptr \<Rightarrow> float32 list option) \<Rightarrow> ('d \<Rightarrow> devptr list) \<Rightarrow> 'd \<Rightarrow> 'd \<Rightarrow> bool" where
  "kept rt mem flog d d' \<longleftrightarrow> (\<exists>failed. flog d' = flog d @ failed \<and> dom (mem d) \<subseteq> dom (mem d') \<and>
     dom (mem d') - dom (mem d) \<subseteq> set failed \<and> (frees_succeed rt \<longrightarrow> failed = []))"

lemma stillD: "still mem flog d d' \<Longrightarrow> mem d' = mem d" "still mem flog d d' \<Longrightarrow> flog d' = flog d"
  by (simp_all add: still_def)

lemma still_trans: "still mem flog d d' \<Longrightarrow> still mem flog d' d'' \<Longrightarrow> still mem flog d d''"
  by (simp add: still_def)

lemma still_same: "still mem flog d d' \<Longrightarrow> same_buffers mem flog d d'"
  by (simp add: still_def same_buffers_def)

lemma same_trans: "same_buffers mem flog d d' \<Longrightarrow> same_buffers mem flog d' d'' \<Longrightarrow> same_buffers mem flog d d''"
  by (simp add: same_buffers_def)

lemma kept_same: "same_buffers mem flog d d' \<Longrightarrow> kept rt mem flog d d'"
  by (auto simp: same_buffers_def kept_def)

lemmas kept_still = kept_same [OF still_same]

lemma kept_trans: "kept rt mem flog d d' \<Longrightarrow> kept rt mem flog d' d'' \<Longrightarrow> kept rt mem flog d d''"
proof -
  assume "kept rt mem flog d d'" "kept rt mem flog d' d''"
  then obtain failed failed' where "flog d' = flog d @ failed" "dom (mem d) \<subseteq> dom (mem d')"
      "dom (mem d') - dom (mem d) \<subseteq> set failed" "frees_succeed rt \<longrightarrow> failed = []"
      "flog d'' = flog d' @ failed'" "dom (mem d') \<subseteq> dom (mem d'')"
      "dom (mem d'') - dom (mem d') \<subseteq> set failed'" "frees_succeed rt \<longrightarrow> failed' = []"
    unfolding kept_def by blast
  moreover from this have "dom (mem d'') - dom (mem d) \<subseteq> set (failed @ failed')" unfolding set_append by blast
  ultimately show "kept rt mem flog d d''"
    unfolding kept_def by (intro exI [of _ "failed @ failed'"] conjI) (simp, blast, assumption, simp)
qed

lemma kept_working: "kept rt mem flog d d' \<Longrightarrow> frees_succeed rt \<Longrightarrow> dom (mem d') = dom (mem d)"
  by (auto simp: kept_def)

lemma memory_laws:
  assumes "cuda_memory rt mem flog"
  shows malloc_none: "rt_malloc rt n d = (None, d') \<Longrightarrow> still mem flog d d'"
    and malloc_some: "rt_malloc rt n d = (Some p, d') \<Longrightarrow>
        flog d' = flog d \<and> mem d p = None \<and> (\<exists>xs. length xs = unat n div 4 \<and> mem d' = (mem d)(p \<mapsto> xs))"
    and free_done: "mem d p \<noteq> None \<Longrightarrow> rt_free rt p d = (True, d') \<Longrightarrow> mem d' = (mem d)(p := None) \<and> flog d' = flog d"
    and free_failed: "mem d p \<noteq> None \<Longrightarrow> rt_free rt p d = (False, d') \<Longrightarrow>
        (mem d' = mem d \<or> mem d' = (mem d)(p := None)) \<and> flog d' = flog d @ [p]"
    and error_still: "still mem flog d (snd (rt_getLastError rt d))"
  using assms unfolding cuda_memory_def by blast+

lemma copy_laws:
  assumes "cuda_copies rt mem flog"
  shows toDevice_same: "same_buffers mem flog d (snd (rt_toDevice rt p ys d))"
    and toDevice_copied: "mem d p = Some xs \<Longrightarrow> length ys \<le> length xs \<Longrightarrow> rt_toDevice rt p ys d = (True, d') \<Longrightarrow>
        mem d' p = Some (ys @ drop (length ys) xs)"
    and toHost_still: "still mem flog d (snd (rt_toHost rt p n d))"
    and toHost_copied: "mem d p = Some xs \<Longrightarrow> unat n \<le> length xs \<Longrightarrow> rt_toHost rt p n d = (Some ys, d') \<Longrightarrow> ys = take (unat n) xs"
  using assms unfolding cuda_copies_def by blast+

lemma thread_laws:
  assumes "cuda_threads rt mem flog"
  shows launch_same: "same_buffers mem flog d (rt_launch rt k g b p d)"
    and sync_same: "same_buffers mem flog d (snd (rt_synchronize rt d))"
    and launch_run: "mem d p = Some xs \<Longrightarrow> rt_getLastError rt (rt_launch rt k g b p d) = (0, d1) \<Longrightarrow>
        rt_synchronize rt d1 = (True, d2) \<Longrightarrow>
        \<exists>order. mset order = mset (threads g b) \<and> mem d2 p = Some (fold (\<lambda>(i, t). k i t) order xs)"
  using assms unfolding cuda_threads_def by blast+

lemma cuda_error_still: "cuda_memory rt mem flog \<Longrightarrow> still mem flog d (snd (cuda_error rt d))"
  using error_still [of rt mem flog d] by (simp add: cuda_error_def split_beta)

lemma between_sets:
  assumes "insert p A \<subseteq> B" and "B - insert p A \<subseteq> F" and "p \<notin> A"
  shows "A \<subseteq> B - {p}" and "B - {p} - A \<subseteq> F" and "A \<subseteq> B" and "B - A \<subseteq> insert p F"
  using assms by auto

text \<open>A buffer that was allocated, worked with and released: between the two, other work may have left buffers behind.\<close>

lemma kept_free:
  assumes "cuda_memory rt mem flog" and "mem d p = None" and "dom (mem d1) = insert p (dom (mem d))" and "flog d1 = flog d"
    and "kept rt mem flog d1 d2"
  shows "kept rt mem flog d (snd (rt_free rt p d2))"
proof -
  obtain failed where f: "flog d2 = flog d @ failed" "insert p (dom (mem d)) \<subseteq> dom (mem d2)"
      "dom (mem d2) - insert p (dom (mem d)) \<subseteq> set failed" "frees_succeed rt \<longrightarrow> failed = []"
    using assms(3-5) by (auto simp: kept_def)
  have live: "mem d2 p \<noteq> None" and new: "p \<notin> dom (mem d)" using f(2) assms(2) by auto
  obtain ok d3 where e: "rt_free rt p d2 = (ok, d3)" by fastforce
  show ?thesis
  proof (cases ok)
    case True
    have l: "flog d3 = flog d @ failed" "dom (mem d3) = dom (mem d2) - {p}"
      using free_done [OF assms(1) live] e True f(1) by simp_all
    then show ?thesis using between_sets(1,2) [OF f(2,3) new] f(4) unfolding kept_def e snd_conv by (intro exI [of _ failed]) simp
  next
    case False
    have l: "flog d3 = flog d @ failed @ [p]" "mem d3 = mem d2 \<or> mem d3 = (mem d2)(p := None)"
      using free_failed [OF assms(1) live] e False f(1) by simp_all
    have "dom (mem d3) = dom (mem d2) \<or> dom (mem d3) = dom (mem d2) - {p}" using l(2) by (rule disj_forward) simp_all
    moreover have "dom (mem d2) - {p} - dom (mem d) \<subseteq> insert p (set failed)" using between_sets(2) [OF f(2,3) new] by blast
    ultimately have "dom (mem d) \<subseteq> dom (mem d3)" "dom (mem d3) - dom (mem d) \<subseteq> insert p (set failed)"
      using between_sets [OF f(2,3) new] by (metis+)
    moreover have "\<not> frees_succeed rt" unfolding frees_succeed_def using e False by (metis fst_conv)
    ultimately show ?thesis using l(1) unfolding kept_def e snd_conv by (intro exI [of _ "failed @ [p]"]) simp
  qed
qed

lemma cpu_parity_map:
  "cpu_parity input (map (\<lambda>x. f_add x f_one) input) = Inr () \<longleftrightarrow> (\<forall>x \<in> set input. \<not> f_isnan x)"
proof -
  have "cpu_parity input (map (\<lambda>x. f_add x f_one) input) = Inr () \<longleftrightarrow>
      find (\<lambda>i. \<not> f_eq (map (\<lambda>x. f_add x f_one) input ! i) (f_add (input ! i) f_one)) [0..<length input] = None"
    by (simp add: cpu_parity_def split: option.split)
  also have "\<dots> \<longleftrightarrow> (\<forall>i < length input. \<not> f_isnan (input ! i))"
    by (auto simp: find_None_iff f_eq_refl f_add_one_nan)
  finally show ?thesis by (simp add: all_set_conv_all_nth)
qed

lemma query_laws:
  assumes "cuda_queries rt mem flog"
  shows count_still: "rt_getDeviceCount rt d = (e, n, d') \<Longrightarrow> still mem flog d d'"
    and setDevice_still: "still mem flog d (snd (rt_setDevice rt d))"
    and properties_still: "still mem flog d (snd (rt_getProperties rt d))"
    and info_still: "still mem flog d (snd (rt_memGetInfo rt d))"
  using assms unfolding cuda_queries_def by blast+

text \<open>The probe and the measurement leave the buffers alone; an allocation adds one.\<close>

lemma currentFreeBytes_still:
  assumes "cuda_documented rt mem flog"
  shows "still mem flog d (snd (currentFreeBytes rt d))"
proof -
  have "still mem flog d1 (snd (cuda_error rt d1))" for d1
    using assms by (intro cuda_error_still) (simp add: cuda_documented_def)
  moreover have "still mem flog d (snd (rt_memGetInfo rt d))" using assms by (simp add: cuda_documented_def info_still)
  ultimately show ?thesis by (auto simp: currentFreeBytes_def still_def split_beta split: option.split)
qed

lemma probeDevice_still:
  assumes "cuda_documented rt mem flog" and "probeDevice rt out err d = (found, dev, err', d')"
  shows "still mem flog d d'" and "found \<longleftrightarrow> cu_present dev"
proof -
  have m: "cuda_memory rt mem flog" and q: "cuda_queries rt mem flog" using assms(1) by (simp_all add: cuda_documented_def)
  note laws = cuda_error_still [OF m] setDevice_still [OF q] properties_still [OF q] info_still [OF q]
  obtain e n d1 where c: "rt_getDeviceCount rt d = (e, n, d1)" using prod_cases3 by blast
  obtain e2 d2 where s: "rt_setDevice rt d1 = (e2, d2)" by fastforce
  obtain p d3 where p: "rt_getProperties rt d2 = (p, d3)" by fastforce
  obtain i d4 where i: "rt_memGetInfo rt d3 = (i, d4)" by fastforce
  have "still mem flog d d1" "still mem flog d1 d2" "still mem flog d2 d3" "still mem flog d3 d4"
    using count_still [OF q c] laws(2) [of d1] laws(3) [of d2] laws(4) [of d3] s p i by simp_all
  then show "still mem flog d d'" and "found \<longleftrightarrow> cu_present dev"
    using assms(2) laws(1) [of d2] laws(1) [of d3] laws(1) [of d4]
    by (auto simp: probeDevice_def still_def Let_def c s p i split_beta split: if_splits option.splits)
qed

lemma allocate_laws:
  assumes "cuda_documented rt mem flog"
  shows "allocate rt n d = (Inl e, d') \<Longrightarrow> still mem flog d d'"
    and "allocate rt n d = (Inr p, d') \<Longrightarrow> mem d p = None \<and> dom (mem d') = insert p (dom (mem d)) \<and> flog d' = flog d"
    and "cuda_works rt \<Longrightarrow> \<exists>p d'. allocate rt n d = (Inr p, d')"
proof -
  have m: "cuda_memory rt mem flog" using assms by (simp add: cuda_documented_def)
  show "allocate rt n d = (Inl e, d') \<Longrightarrow> still mem flog d d'"
    using malloc_none [OF m, of n d "snd (rt_malloc rt n d)"] cuda_error_still [OF m, of "snd (rt_malloc rt n d)"]
    by (cases "rt_malloc rt n d") (auto simp: allocate_def still_def split_beta split: option.splits)
  show "allocate rt n d = (Inr p, d') \<Longrightarrow> mem d p = None \<and> dom (mem d') = insert p (dom (mem d)) \<and> flog d' = flog d"
    using malloc_some [OF m, of n d p d']
    by (cases "rt_malloc rt n d") (auto simp: allocate_def split_beta split: option.splits)
  show "cuda_works rt \<Longrightarrow> \<exists>p d'. allocate rt n d = (Inr p, d')"
    by (cases "rt_malloc rt n d") (auto simp: cuda_works_def allocate_def split: option.splits, metis fst_conv option.distinct(1))
qed

lemma release_kept:
  assumes "cuda_documented rt mem flog" and "mem d p = None" and "dom (mem d1) = insert p (dom (mem d))" and "flog d1 = flog d"
    and "kept rt mem flog d1 d2"
  shows "kept rt mem flog d (snd (release rt p d2))"
proof -
  have m: "cuda_memory rt mem flog" using assms(1) by (simp add: cuda_documented_def)
  have "kept rt mem flog d (snd (cuda_error rt (snd (rt_free rt p d2))))"
    using kept_free [OF m assms(2-5)] kept_still [OF cuda_error_still [OF m]] by (rule kept_trans)
  then show ?thesis using kept_free [OF m assms(2-5)] by (auto simp: release_def split_beta)
qed

text \<open>Every way through \<open>kernelAndVerify\<close>: what it leaves of its buffer, and a result that is a runtime error or that of the check.\<close>

definition kernel_post :: "'d CudaRuntime \<Rightarrow> ('d \<Rightarrow> devptr \<Rightarrow> float32 list option) \<Rightarrow> ('d \<Rightarrow> devptr list) \<Rightarrow> float32 list \<Rightarrow> 'd \<Rightarrow>
    (string + unit) \<times> 'd \<Rightarrow> bool" where
  "kernel_post rt mem flog input d res \<longleftrightarrow> kept rt mem flog d (snd res) \<and>
     (fst res = cpu_parity input (map (\<lambda>x. f_add x f_one) input) \<or>
      \<not> cuda_works rt \<and> (\<exists>e. fst res = Inl (rt_errorString rt e)))"

lemma kernel_post_fail:
  assumes "cuda_memory rt mem flog" and "mem d p = None" and "dom (mem d1) = insert p (dom (mem d))" and "flog d1 = flog d"
    and "same_buffers mem flog d1 d2" and "\<not> cuda_works rt"
  shows "kernel_post rt mem flog input d (fail_free rt p d2)"
proof -
  have "kept rt mem flog d1 (snd (cuda_error rt d2))"
    using kept_same [OF assms(5)] kept_still [OF cuda_error_still [OF assms(1)]] by (rule kept_trans)
  from kept_free [OF assms(1-4) this] show ?thesis
    using assms(6) by (auto simp: kernel_post_def fail_free_def cuda_error_def split_beta)
qed

lemma kernel_output:
  assumes doc: "cuda_documented rt mem flog" and c: "unat c = length input" and len: "length input \<le> 2 ^ 32"
    and "rt_toDevice rt p input d1 = (True, d2)" and "mem d1 p = Some xs" and "length xs = length input"
    and "rt_getLastError rt (rt_launch rt (addOne c 256) (launch_grid c) 256 p d2) = (0, d4)"
    and "rt_synchronize rt d4 = (True, d5)" and "rt_toHost rt p c d5 = (Some out, d6)"
  shows "out = map (\<lambda>x. f_add x f_one) input"
proof -
  have copies: "cuda_copies rt mem flog" and thr: "cuda_threads rt mem flog" using doc by (simp_all add: cuda_documented_def)
  have "mem d2 p = Some input" using toDevice_copied [OF copies assms(5), of input d2] assms(4,6) by simp
  then obtain order where "mset order = mset (threads (launch_grid c) 256)"
      "mem d5 p = Some (fold (\<lambda>(i, t). addOne c 256 i t) order input)"
    using launch_run [OF thr, of d2 p input "addOne c 256" "launch_grid c" 256 d4 d5] assms(7,8) by auto
  moreover from this(1) have "fold (\<lambda>(i, t). addOne c 256 i t) order input = map (\<lambda>x. f_add x f_one) input"
    using c len by (intro kernel_order_irrelevant) (simp_all only: )
  ultimately have "mem d5 p = Some (map (\<lambda>x. f_add x f_one) input)" by (simp only: )
  from toHost_copied [OF copies this _ assms(9)] show ?thesis using c by simp
qed

lemma kernel_same:
  assumes doc: "cuda_documented rt mem flog"
    and "rt_toDevice rt p input d1 = (ok2, d2)" and "rt_getLastError rt (rt_launch rt k g b p d2) = (e, d4)"
    and "rt_synchronize rt d4 = (ok5, d5)" and "rt_toHost rt p c d5 = (o6, d6)"
  shows "\<forall>d' \<in> {d2, d4, d5, d6}. same_buffers mem flog d1 d'"
proof -
  have memory: "cuda_memory rt mem flog" and copies: "cuda_copies rt mem flog" and thr: "cuda_threads rt mem flog"
    using doc by (simp_all add: cuda_documented_def)
  have "same_buffers mem flog d1 d2" using toDevice_same [OF copies, of d1 p input] assms(2) by simp
  moreover have "same_buffers mem flog d2 d4"
    using same_trans [OF launch_same [OF thr] still_same [OF error_still [OF memory]], of d2 k g b p] assms(3) by simp
  moreover have "same_buffers mem flog d4 d5" using sync_same [OF thr, of d4] assms(4) by simp
  moreover have "same_buffers mem flog d5 d6" using still_same [OF toHost_still [OF copies, of d5 p c]] assms(5) by simp
  ultimately show ?thesis by (auto intro: same_trans)
qed

lemma kernelAndVerify_post:
  assumes doc: "cuda_documented rt mem flog" and len: "length input \<le> 2 ^ 32"
  shows "kernel_post rt mem flog input d (kernelAndVerify rt input d)"
proof (cases "input = []")
  case True
  then show ?thesis by (simp add: kernelAndVerify_def kernel_post_def cpu_parity_def kept_same same_buffers_def)
next
  case False
  have memory: "cuda_memory rt mem flog" using doc by (simp add: cuda_documented_def)
  let ?c = "of_nat (length input) :: u64"
  have c: "unat ?c = length input" using len by (simp add: unat_of_nat)
  then have bytes: "unat (?c * 4) div 4 = length input" using len by (simp add: unat_word_ariths)
  have nz: "?c \<noteq> 0" using c False by (metis length_0_conv unat_0)
  obtain q d1 where m: "rt_malloc rt (?c * 4) d = (q, d1)" by fastforce
  show ?thesis
  proof (cases q)
    case None
    then have n: "\<not> cuda_works rt" using m by (metis cuda_works_def fst_conv)
    have "still mem flog d (snd (cuda_error rt d1))"
      using malloc_none [OF memory m [unfolded None]] cuda_error_still [OF memory] by (rule still_trans)
    then show ?thesis
      using m None nz n kept_still by (auto simp: kernelAndVerify_def kernel_post_def Let_def split_beta cuda_error_def)
  next
    case (Some p)
    obtain xs where p: "mem d p = None" "flog d1 = flog d" and xs: "length xs = length input" "mem d1 = (mem d)(p \<mapsto> xs)"
      using malloc_some [OF memory m [unfolded Some]] bytes by auto
    have dom: "dom (mem d1) = insert p (dom (mem d))" by (simp add: xs(2))
    obtain ok2 d2 where d2: "rt_toDevice rt p input d1 = (ok2, d2)" by fastforce
    obtain e d4 where d4: "rt_getLastError rt (rt_launch rt (addOne ?c 256) (launch_grid ?c) 256 p d2) = (e, d4)" by fastforce
    obtain ok5 d5 where d5: "rt_synchronize rt d4 = (ok5, d5)" by fastforce
    obtain o6 d6 where d6: "rt_toHost rt p ?c d5 = (o6, d6)" by fastforce
    note same = kernel_same [OF doc d2 d4 d5 d6]
    note run = kernelAndVerify_def Let_def m Some nz d2 d4 d5 d6
    show ?thesis
    proof (cases "ok2 \<and> e = 0 \<and> ok5 \<and> o6 \<noteq> None")
      case False
      then have w: "\<not> cuda_works rt" using d2 d4 d5 d6 unfolding cuda_works_def by (metis fst_conv)
      have "kernel_post rt mem flog input d (fail_free rt p d')" if "d' \<in> {d2, d4, d5, d6}" for d'
        using kernel_post_fail [OF memory p(1) dom p(2) _ w] same that by blast
      then show ?thesis using False by (auto simp: run split: option.split)
    next
      case True
      then obtain out where out: "o6 = Some out" by blast
      have ok: "ok2 = True" "e = 0" "ok5 = True" "o6 = Some out" using True out by simp_all
      have "out = map (\<lambda>x. f_add x f_one) input"
        using kernel_output [OF doc c len d2 [unfolded ok] _ xs(1) d4 [unfolded ok] d5 [unfolded ok] d6 [unfolded ok]] xs(2) by simp
      moreover have "kept rt mem flog d (snd (rt_free rt p d6))"
        using kept_free [OF memory p(1) dom p(2) kept_same] same by blast
      ultimately show ?thesis using True out by (auto simp: run kernel_post_def)
    qed
  qed
qed

text \<open>
  The check after the launch reads the error, which resets it, and reads it again for the message: a launch that fails is
  reported with the text of success.
\<close>

lemma launch_error_lost:
  assumes reset: "\<And>d. fst (rt_getLastError rt (snd (rt_getLastError rt d))) = 0"
    and "input \<noteq> []" and "length input \<le> 2 ^ 32"
    and "rt_malloc rt (of_nat (length input) * 4) d = (Some p, d1)" and "rt_toDevice rt p input d1 = (True, d2)"
    and "fst (rt_getLastError rt (rt_launch rt (addOne (of_nat (length input)) 256) (launch_grid (of_nat (length input))) 256 p d2)) \<noteq> 0"
  shows "fst (kernelAndVerify rt input d) = Inl (rt_errorString rt 0)"
proof -
  have "unat (of_nat (length input) :: u64) = length input" using assms(3) by (simp add: unat_of_nat)
  then have "(of_nat (length input) :: u64) \<noteq> 0" using assms(2) by (metis length_0_conv unat_0)
  then show ?thesis
    using assms(4-6) reset
    by (simp add: kernelAndVerify_def Let_def fail_free_def cuda_error_def split_beta)
qed

section \<open>A small device\<close>

text \<open>Buffers in the order of their allocation; no call fails, and the threads run in order.\<close>

type_synonym ex_device = "float32 list option list"

definition ex_mem :: "ex_device \<Rightarrow> devptr \<Rightarrow> float32 list option" where
  "ex_mem d p = (if p < length d then d ! p else None)"

definition ex_flog :: "ex_device \<Rightarrow> devptr list" where "ex_flog d = []"

definition ex_runtime :: "ex_device CudaRuntime" where
  "ex_runtime = \<lparr>rt_errorString = (\<lambda>e. ''no error''), rt_getLastError = (\<lambda>d. (0, d)), rt_getDeviceCount = (\<lambda>d. (0, 1, d)),
     rt_setDevice = (\<lambda>d. (0, d)),
     rt_getProperties = (\<lambda>d. (Some \<lparr>prop_name = ''gpu'', prop_major = 12, prop_minor = 0, prop_totalGlobalMem = 2 ^ 34\<rparr>, d)),
     rt_memGetInfo = (\<lambda>d. (Some (2 ^ 33, 2 ^ 34), d)),
     rt_malloc = (\<lambda>n d. (Some (length d), d @ [Some (replicate (unat n div 4) (Float32 0))])),
     rt_free = (\<lambda>p d. (True, d[p := None])),
     rt_toDevice = (\<lambda>p ys d. (True, if p < length d then d[p := map_option (\<lambda>xs. ys @ drop (length ys) xs) (d ! p)] else d)),
     rt_launch = (\<lambda>k g b p d. if p < length d then d[p := map_option (fold (\<lambda>(i, t). k i t) (threads g b)) (d ! p)] else d),
     rt_synchronize = (\<lambda>d. (True, d)),
     rt_toHost = (\<lambda>p n d. (Some (case ex_mem d p of None \<Rightarrow> [] | Some xs \<Rightarrow> take (unat n) xs), d))\<rparr>"

lemma ex_mem_update: "p < length d \<Longrightarrow> ex_mem (d[p := x]) = (ex_mem d)(p := x)"
  by (auto simp: ex_mem_def fun_eq_iff nth_list_update)

lemma ex_runtime_documented: "cuda_documented ex_runtime ex_mem ex_flog"
proof -
  have live: "p < length d \<and> d ! p = Some xs" if "ex_mem d p = Some xs" for d p xs
    using that by (simp add: ex_mem_def split: if_splits)
  have upd: "dom (ex_mem (d[p := map_option h (d ! p)])) = dom (ex_mem d)" if "p < length d" for d p h
    using that by (auto simp: ex_mem_update) (auto simp: ex_mem_def)
  have "ex_mem (d @ [Some xs]) = (ex_mem d)(length d \<mapsto> xs)" "ex_mem d (length d) = None" for d xs
    by (auto simp: ex_mem_def fun_eq_iff nth_append)
  note defs = ex_runtime_def still_def same_buffers_def ex_flog_def
  then have "cuda_memory ex_runtime ex_mem ex_flog"
    using live \<open>\<And>xs d. ex_mem (d @ [Some xs]) = (ex_mem d)(length d \<mapsto> xs)\<close> \<open>\<And>d. ex_mem d (length d) = None\<close>
    by (auto simp: cuda_memory_def defs ex_mem_update intro!: exI [of _ "replicate _ _"])
  moreover have "cuda_copies ex_runtime ex_mem ex_flog"
    using live upd by (auto simp: cuda_copies_def defs ex_mem_update)
  moreover have "cuda_threads ex_runtime ex_mem ex_flog"
    using live upd by (auto simp: cuda_threads_def defs ex_mem_update)
  moreover have "cuda_queries ex_runtime ex_mem ex_flog" by (simp add: cuda_queries_def defs)
  ultimately show ?thesis by (simp add: cuda_documented_def)
qed

lemma ex_runtime_works: "cuda_works ex_runtime"
  by (simp add: cuda_works_def frees_succeed_def ex_runtime_def)

section \<open>Properties\<close>

text \<open>
  C15. The kernel and its check. On a runtime that behaves as documented, whatever call fails and in whatever order the
  threads of the launch run, \<open>kernelAndVerify\<close> on at most \<open>2 ^ 32\<close> floats releases its buffer: the buffers that were live stay,
  and one more is live afterwards only if the runtime reported that its release failed. It reports parity only when no element
  is NaN, and on NaN-free input it never reports a mismatch, only a runtime error; when no call fails it reports parity exactly on
  NaN-free input, and the live buffers are those from before.
\<close>

theorem kernelAndVerify_correct:
  assumes "cuda_documented rt mem flog" and "length input \<le> 2 ^ 32" and "kernelAndVerify rt input d = (res, d')"
  shows "(\<exists>failed. flog d' = flog d @ failed \<and> dom (mem d) \<subseteq> dom (mem d') \<and> dom (mem d') - dom (mem d) \<subseteq> set failed) \<and>
     (res = Inr () \<longrightarrow> (\<forall>x \<in> set input. \<not> f_isnan x)) \<and>
     ((\<forall>x \<in> set input. \<not> f_isnan x) \<longrightarrow> res = Inr () \<or> (\<exists>e. res = Inl (rt_errorString rt e))) \<and>
     (cuda_works rt \<longrightarrow> (res = Inr () \<longleftrightarrow> (\<forall>x \<in> set input. \<not> f_isnan x)) \<and> dom (mem d') = dom (mem d))"
proof -
  note p = kernelAndVerify_post [OF assms(1,2), of d, unfolded assms(3) kernel_post_def fst_conv snd_conv]
  have k: "kept rt mem flog d d'" using p by blast
  then have "cuda_works rt \<longrightarrow> dom (mem d') = dom (mem d)" using kept_working [OF k] by (simp add: cuda_works_def)
  moreover have "\<exists>failed. flog d' = flog d @ failed \<and> dom (mem d) \<subseteq> dom (mem d') \<and> dom (mem d') - dom (mem d) \<subseteq> set failed"
    using k unfolding kept_def by blast
  ultimately show ?thesis using p cpu_parity_map [of input] by auto
qed

theorem kernelAndVerify_correct_witness:
  "fst (kernelAndVerify ex_runtime [f_one, f_one] []) = Inr () \<and>
   dom (ex_mem (snd (kernelAndVerify ex_runtime [f_one, f_one] []))) = {}"
  using kernelAndVerify_correct [OF ex_runtime_documented _ prod.collapse [symmetric], of "[f_one, f_one]" "[]"]
    ex_runtime_works f_not_special(3) by (auto simp: ex_mem_def)

end
