(* ===== verification/Processes.thy ===== *)
theory Processes
  imports Cuda_Device
begin

text \<open>
  The executables around the coordinator: the command lines of \<open>cfcoord\<close>, \<open>cfworker\<close> and \<open>cf_cuda_worker\<close>
  (\<open>tools/coordinator_main.cpp\<close>, \<open>tools/worker_main.cpp\<close>, \<open>cuda/cuda_worker_main.cpp\<close>), and how the CUDA proof starts
  them, reads the coordinator's port from its output and passes it on (\<open>cuda/cuda_proof_main.cpp\<close>). A command line is the list
  \<open>argv\<close>; what a read of a pipe finds and how a command line is split into \<open>argv\<close> are arguments.
\<close>

type_synonym u16 = "16 word"

section \<open>Reading numbers\<close>

definition is_space :: "char \<Rightarrow> bool" where
  "is_space c \<longleftrightarrow> of_char c = (32 :: nat) \<or> (9 \<le> (of_char c :: nat) \<and> (of_char c :: nat) \<le> 13)"

definition is_digit :: "char \<Rightarrow> bool" where
  "is_digit c \<longleftrightarrow> 48 \<le> (of_char c :: nat) \<and> (of_char c :: nat) \<le> 57"

definition digits_value :: "string \<Rightarrow> nat" where
  "digits_value ds = fold (\<lambda>c n. 10 * n + (of_char c - 48)) ds 0"

text \<open>What \<open>strtol\<close> and \<open>strtoull\<close> accept: white space, a sign, and at least one digit; the rest is ignored.\<close>

definition parse_decimal :: "string \<Rightarrow> (bool \<times> nat) option" where
  "parse_decimal s =
     (let s1 = dropWhile is_space s;
          neg = (s1 \<noteq> [] \<and> hd s1 = CHR ''-'');
          s2 = (if s1 \<noteq> [] \<and> (hd s1 = CHR ''-'' \<or> hd s1 = CHR ''+'') then tl s1 else s1);
          ds = takeWhile is_digit s2
      in if ds = [] then None else Some (neg, digits_value ds))"

definition stoi :: "string \<Rightarrow> fault + int" where
  "stoi s =
     (case parse_decimal s of None \<Rightarrow> Inl Invalid_argument
      | Some (neg, n) \<Rightarrow>
          let v = (if neg then - int n else int n)
          in if - (2 ^ 31) \<le> v \<and> v < 2 ^ 31 then Inr v else Inl Out_of_range)"

definition stoull :: "string \<Rightarrow> fault + u64" where
  "stoull s =
     (case parse_decimal s of None \<Rightarrow> Inl Invalid_argument
      | Some (neg, n) \<Rightarrow> if 2 ^ 64 \<le> n then Inl Out_of_range else Inr (if neg then - of_nat n else of_nat n))"

text \<open>\<open>static_cast<uint16_t>(std::stoi(...))\<close> keeps the low sixteen bits.\<close>

definition port_arg :: "string \<Rightarrow> fault + u16" where
  "port_arg s = bindR (stoi s) (\<lambda>v. Inr (word_of_int v))"

section \<open>Command lines\<close>

definition cfcoord_args :: "string list \<Rightarrow> fault + u16 \<times> string" where
  "cfcoord_args argv =
     bindR (if 2 \<le> length argv then port_arg (argv ! 1) else Inr 0) (\<lambda>port.
       Inr (port, if 3 \<le> length argv then argv ! 2 else ''''))"

text \<open>\<open>start\<close> binds the requested port or, when it is zero, one that the system chooses; \<open>bound\<close> is what it bound.\<close>

datatype CoordinatorStart = BindFailed | Listening (banner: string) (server: Server)

definition cfcoord_start :: "(u16 \<Rightarrow> u16 option) \<Rightarrow> string list \<Rightarrow> files \<Rightarrow> fault + CoordinatorStart" where
  "cfcoord_start bound argv fs =
     bindR (cfcoord_args argv) (\<lambda>(port, statePath).
       case bound port of None \<Rightarrow> Inr BindFailed
       | Some p \<Rightarrow> Inr (Listening (''PORT:'' @ dec_digits (unat p) @ [CHR 0x0A])
                        (snd (srv_start True (Server_new CapacityModel_new fs)))))"

datatype ProgramEnd = TooFewArgs | ConnectFailed | Session WorkerExit

definition exit_code :: "ProgramEnd \<Rightarrow> nat" where
  "exit_code e = (case e of TooFewArgs \<Rightarrow> 2 | ConnectFailed \<Rightarrow> 1 | Session x \<Rightarrow> if x = WorkerReady then 0 else 1)"

record WorkerArgs =
  wa_host :: string
  wa_port :: u16
  wa_worker :: WorkerId
  wa_boot :: WorkerBootId
  wa_resource :: ResourceId

text \<open>
  The arguments both workers start with. \<open>cf_cuda_worker\<close> does not count them: \<open>argv\<close> ends in a null pointer, of
  which no string can be built.
\<close>

definition worker_ids :: "string list \<Rightarrow> fault + WorkerArgs" where
  "worker_ids argv =
     (if length argv < 6 then Inl Undefined
      else bindR (port_arg (argv ! 2)) (\<lambda>port. bindR (stoull (argv ! 3)) (\<lambda>w. bindR (stoull (argv ! 4)) (\<lambda>b.
        bindR (stoull (argv ! 5)) (\<lambda>r.
          Inr \<lparr>wa_host = argv ! 1, wa_port = port, wa_worker = StrongId w, wa_boot = StrongId b, wa_resource = StrongId r\<rparr>)))))"

definition cfworker_program :: "(string \<Rightarrow> u16 \<Rightarrow> 's \<Rightarrow> 's option) \<Rightarrow> 's exchange \<Rightarrow> string list \<Rightarrow> 's \<Rightarrow> fault + ProgramEnd \<times> 's" where
  "cfworker_program connects xchg argv s =
     (if length argv < 9 then Inr (TooFewArgs, s)
      else bindR (worker_ids argv) (\<lambda>a. bindR (stoull (argv ! 6)) (\<lambda>dev. bindR (stoull (argv ! 7)) (\<lambda>total.
        bindR (stoull (argv ! 8)) (\<lambda>free.
          case connects (wa_host a) (wa_port a) s of None \<Rightarrow> Inr (ConnectFailed, s)
          | Some s1 \<Rightarrow>
              let (e, s2) = worker_main xchg (wa_worker a) (wa_boot a) (wa_resource a) (StrongId dev) total free s1
              in Inr (Session e, s2))))))"

text \<open>The CUDA worker probes the device before it connects and measures the free memory before it publishes.\<close>

definition cuda_worker_program :: "'d CudaRuntime \<Rightarrow> (string \<Rightarrow> u16 \<Rightarrow> 's \<Rightarrow> 's option) \<Rightarrow> 's exchange \<Rightarrow> string list \<Rightarrow>
    'd \<Rightarrow> 's \<Rightarrow> fault + ProgramEnd \<times> 's" where
  "cuda_worker_program rt connects xchg argv d s =
     bindR (worker_ids argv) (\<lambda>a.
       let (found, dev, err, d1) = probeDevice rt CudaDevice_default '''' d
       in if \<not> found \<or> \<not> cu_present dev then Inr (Session NoDevice, s)
          else case connects (wa_host a) (wa_port a) s of None \<Rightarrow> Inr (ConnectFailed, s)
          | Some s1 \<Rightarrow>
              let freeBytes = (case fst (currentFreeBytes rt d1) of Inl e \<Rightarrow> 0 | Inr f \<Rightarrow> f);
                  (e, s2) = cuda_worker_main xchg (Some dev) freeBytes (wa_worker a) (wa_boot a) (wa_resource a) s1
              in Inr (Session e, s2))"

section \<open>Starting them\<close>

text \<open>
  One turn of the loop that reads a line from a pipe: nothing there while the process runs, nothing there and the process is
  gone, a failed or empty read, or some bytes.
\<close>

datatype PipeRead = PipeIdle | PipeExited | PipeFailed | PipeData string

fun readLine :: "PipeRead list \<Rightarrow> string \<Rightarrow> (string \<times> string) option" where
  "readLine [] line = None"
| "readLine (PipeIdle # es) line = readLine es line"
| "readLine (PipeExited # es) line = Some (line, ''exited'')"
| "readLine (PipeFailed # es) line = Some (line, '''')"
| "readLine (PipeData s # es) line =
     (if s = [] then Some (line, '''')
      else if CHR 0x0A \<in> set (line @ s) then Some (line @ s, '''') else readLine es (line @ s))"

fun str_pos :: "string \<Rightarrow> string \<Rightarrow> nat option" where
  "str_pos [] needle = (if needle = [] then Some 0 else None)"
| "str_pos (c # cs) needle =
     (if take (length needle) (c # cs) = needle then Some 0 else map_option Suc (str_pos cs needle))"

datatype CoordinatorPort = NotStarted | StillReading | NoPort | PortKnown u16

definition coordinator_port :: "bool \<Rightarrow> PipeRead list \<Rightarrow> fault + CoordinatorPort" where
  "coordinator_port started es =
     (if \<not> started then Inr NotStarted
      else case readLine es '''' of None \<Rightarrow> Inr StillReading
      | Some (line, err) \<Rightarrow>
          (case str_pos line ''PORT:'' of None \<Rightarrow> Inr NoPort
           | Some p \<Rightarrow> bindR (port_arg (drop (p + 5) line)) (\<lambda>port. Inr (PortKnown port))))"

definition quote :: "string \<Rightarrow> string" where
  "quote s = CHR 0x22 # s @ [CHR 0x22]"

definition worker_command :: "string \<Rightarrow> u16 \<Rightarrow> u64 \<Rightarrow> string" where
  "worker_command exe port boot = quote exe @ '' 127.0.0.1 '' @ dec_digits (unat port) @ '' 1 '' @ dec_digits (unat boot) @ '' 1''"

section \<open>Numbers that were printed\<close>

lemma digit_char_value: "d < 10 \<Longrightarrow> (of_char (digit_char d) :: nat) = 48 + d"
  by (simp add: digit_char_def of_char_of)

lemma dec_digits_are_digits: "\<forall>c \<in> set (dec_digits n). is_digit c"
proof (induction n rule: dec_digits.induct)
  case (1 n)
  then show ?case
    using digit_char_value [of n] digit_char_value [of "n mod 10"]
    by (subst dec_digits.simps) (auto simp: is_digit_def)
qed

lemma digits_value_dec: "digits_value (dec_digits n) = n"
proof (induction n rule: dec_digits.induct)
  case (1 n)
  show ?case
  proof (cases "n < 10")
    case True
    then show ?thesis by (simp add: dec_digits.simps digits_value_def digit_char_value)
  next
    case False
    then have "digits_value (dec_digits (n div 10) @ [digit_char (n mod 10)]) = 10 * (n div 10) + n mod 10"
      using "1.IH" by (simp add: digits_value_def digit_char_value)
    then show ?thesis using False by (subst dec_digits.simps) simp
  qed
qed

lemma dec_digits_hd: "is_digit (hd (dec_digits n))"
  using dec_digits_are_digits by (meson dec_digits_not_Nil(1) hd_in_set)

lemma parse_dec_digits:
  assumes "rest = [] \<or> \<not> is_digit (hd rest)"
  shows "parse_decimal (dec_digits n @ rest) = Some (False, n)"
proof -
  have h: "is_digit (hd (dec_digits n @ rest))" using dec_digits_hd by simp
  then have "\<not> is_space (hd (dec_digits n @ rest))" "hd (dec_digits n @ rest) \<noteq> CHR ''-''" "hd (dec_digits n @ rest) \<noteq> CHR ''+''"
    by (auto simp: is_digit_def is_space_def)
  moreover have "dropWhile is_space (dec_digits n @ rest) = dec_digits n @ rest" if "\<not> is_space (hd (dec_digits n @ rest))"
    using that by (metis dropWhile_eq_self_iff)
  moreover have "takeWhile is_digit (dec_digits n @ rest) = dec_digits n"
    using dec_digits_are_digits assms by (cases rest) (simp_all add: takeWhile_append takeWhile_eq_all_conv)
  ultimately show ?thesis by (simp add: parse_decimal_def Let_def digits_value_dec)
qed

lemma printed_numbers:
  assumes "rest = [] \<or> \<not> is_digit (hd rest)"
  shows "port_arg (dec_digits (unat (port :: u16)) @ rest) = Inr port"
    and "stoull (dec_digits (unat w) @ rest) = Inr w"
proof -
  have "unat port < 2 ^ 31" "unat w < 2 ^ 64"
    using unsigned_less [of port, where ?'a = nat] unsigned_less [of w, where ?'a = nat] by simp_all
  moreover have "uint port < 2 ^ 31" using unsigned_less [of port, where ?'a = int] by simp
  ultimately show "port_arg (dec_digits (unat port) @ rest) = Inr port" "stoull (dec_digits (unat w) @ rest) = Inr w"
    by (simp_all add: port_arg_def stoi_def stoull_def parse_dec_digits [OF assms])
qed

section \<open>A line through a pipe\<close>

text \<open>The bytes of a sequence of reads in which the process stays alive.\<close>

fun pipe_text :: "PipeRead list \<Rightarrow> string option" where
  "pipe_text [] = Some []"
| "pipe_text (PipeIdle # es) = pipe_text es"
| "pipe_text (PipeData s # es) = (if s = [] then None else map_option ((@) s) (pipe_text es))"
| "pipe_text (PipeExited # es) = None"
| "pipe_text (PipeFailed # es) = None"

lemma readLine_chunks:
  assumes "pipe_text es = Some t" and "line @ t = w @ [CHR 0x0A]" and "CHR 0x0A \<notin> set w" and "t \<noteq> []"
  shows "readLine es line = Some (w @ [CHR 0x0A], '''')"
  using assms
proof (induction es arbitrary: line t)
  case (Cons e es)
  show ?case
  proof (cases e)
    case (PipeData s)
    then obtain t' where s: "s \<noteq> []" and t: "pipe_text es = Some t'" "t = s @ t'"
      using Cons.prems(1) by (auto split: if_splits)
    show ?thesis
    proof (cases "t' = []")
      case True
      then have "line @ s = w @ [CHR 0x0A]" using Cons.prems(2) t by simp
      then show ?thesis using PipeData s by simp
    next
      case False
      then have "w = line @ s @ butlast t'"
        using arg_cong [OF Cons.prems(2), of butlast] t(2) by (simp add: butlast_append)
      then have "CHR 0x0A \<notin> set (line @ s)" using Cons.prems(3) by simp
      moreover have "readLine es (line @ s) = Some (w @ [CHR 0x0A], '''')"
        using Cons.prems(2,3) t False by (intro Cons.IH) simp_all
      ultimately show ?thesis using PipeData s by simp
    qed
  qed (use Cons in auto)
qed simp

lemma newline_not_in_digits: "CHR 0x0A \<notin> set (dec_digits n)"
  using dec_digits_are_digits [of n] by (force simp: is_digit_def)

lemma coordinator_port_banner:
  assumes "pipe_text es = Some (''PORT:'' @ dec_digits (unat (port :: u16)) @ [CHR 0x0A])"
  shows "coordinator_port True es = Inr (PortKnown port)"
proof -
  let ?line = "''PORT:'' @ dec_digits (unat port) @ [CHR 0x0A]"
  have "readLine es [] = Some (?line, '''')"
    using readLine_chunks [OF assms, of "[]" "''PORT:'' @ dec_digits (unat port)"] newline_not_in_digits by simp
  moreover have "str_pos ?line ''PORT:'' = Some 0" by simp
  moreover have "port_arg (drop (0 + 5) ?line) = Inr port"
    using printed_numbers(1) [of "[CHR 0x0A]" port] by (simp add: is_digit_def)
  ultimately show ?thesis by (simp add: coordinator_port_def)
qed

section \<open>Splitting a command line\<close>

text \<open>
  How the system splits a command line, for the lines built here: a quoted program without quotes in its name, then words
  of plain characters, each after one blank.
\<close>

definition plain_word :: "string \<Rightarrow> bool" where
  "plain_word w \<longleftrightarrow> w \<noteq> [] \<and> (\<forall>c \<in> set w. is_digit c \<or> c = CHR ''.'')"

definition documented_split :: "(string \<Rightarrow> string list) \<Rightarrow> bool" where
  "documented_split split \<longleftrightarrow>
     (\<forall>exe ws. CHR 0x22 \<notin> set exe \<longrightarrow> (\<forall>w \<in> set ws. plain_word w) \<longrightarrow>
        split (quote exe @ concat (map (\<lambda>w. CHR '' '' # w) ws)) = exe # ws)"

fun split_words :: "string \<Rightarrow> string \<Rightarrow> string list" where
  "split_words w [] = (if w = [] then [] else [w])"
| "split_words w (c # cs) =
     (if is_space c then (if w = [] then split_words [] cs else w # split_words [] cs) else split_words (w @ [c]) cs)"

definition ex_split :: "string \<Rightarrow> string list" where
  "ex_split s = (if s \<noteq> [] \<and> hd s = CHR 0x22
     then takeWhile (\<lambda>c. c \<noteq> CHR 0x22) (tl s) # split_words [] (tl (dropWhile (\<lambda>c. c \<noteq> CHR 0x22) (tl s)))
     else split_words [] s)"

lemma split_words_word: "\<forall>c \<in> set u. \<not> is_space c \<Longrightarrow> split_words w (u @ s) = split_words (w @ u) s"
  by (induction u arbitrary: w) simp_all

lemma plain_not_space: "plain_word w \<Longrightarrow> \<forall>c \<in> set w. \<not> is_space c"
  by (auto simp: plain_word_def is_digit_def is_space_def)

lemma split_words_concat:
  "\<forall>w \<in> set ws. plain_word w \<Longrightarrow> split_words v (concat (map (\<lambda>w. CHR '' '' # w) ws)) = (if v = [] then [] else [v]) @ ws"
proof (induction ws arbitrary: v)
  case (Cons w ws)
  then have "split_words [] (w @ concat (map (\<lambda>w. CHR '' '' # w) ws)) = w # ws"
    using split_words_word [OF plain_not_space [of w], of "[]"] by (simp add: plain_word_def)
  moreover have "is_space CHR '' ''" by (simp add: is_space_def)
  ultimately show ?case by simp
qed simp

lemma ex_split_documented: "documented_split ex_split"
proof -
  have "takeWhile (\<lambda>c. c \<noteq> CHR 0x22) (exe @ CHR 0x22 # r) = exe" "dropWhile (\<lambda>c. c \<noteq> CHR 0x22) (exe @ CHR 0x22 # r) = CHR 0x22 # r"
    if "CHR 0x22 \<notin> set exe" for exe r
    using that by (induction exe) auto
  then show ?thesis by (simp add: documented_split_def ex_split_def quote_def split_words_concat)
qed

lemma worker_command_words:
  "worker_command exe port boot =
     quote exe @ concat (map (\<lambda>w. CHR '' '' # w) [''127.0.0.1'', dec_digits (unat port), ''1'', dec_digits (unat boot), ''1''])"
  by (simp add: worker_command_def)

lemma plain_digits: "plain_word (dec_digits n)" "plain_word ''1''" "plain_word ''127.0.0.1''"
  using dec_digits_are_digits by (simp_all add: plain_word_def is_digit_def)

lemma worker_command_args:
  assumes "documented_split split" and "CHR 0x22 \<notin> set exe"
  shows "worker_ids (split (worker_command exe port boot)) = Inr \<lparr>wa_host = ''127.0.0.1'', wa_port = port, wa_worker = StrongId 1,
     wa_boot = StrongId boot, wa_resource = StrongId 1\<rparr>"
proof -
  have "split (worker_command exe port boot) = [exe, ''127.0.0.1'', dec_digits (unat port), ''1'', dec_digits (unat boot), ''1'']"
    unfolding worker_command_words using plain_digits assms
    by (intro assms(1) [unfolded documented_split_def, rule_format]) auto
  moreover have "stoull ''1'' = Inr 1" using printed_numbers(2) [of "[]" 1] by (simp add: dec_digits.simps digit_chars del: One_nat_def)
  moreover have "port_arg (dec_digits (unat port)) = Inr port" "stoull (dec_digits (unat boot)) = Inr boot"
    using printed_numbers [of "[]"] by simp_all
  ultimately show ?thesis by (simp add: worker_ids_def)
qed

section \<open>Properties\<close>

text \<open>
  C17. The port reaches the worker. Whatever port \<open>cfcoord\<close> binds, and however its output is cut into reads, the CUDA
  proof reads that port from the line it prints, and the worker it starts with it finds in its arguments the
  loopback host, that port, and the worker, boot and resource it was given.
\<close>

theorem port_handshake:
  assumes "documented_split split" and "CHR 0x22 \<notin> set exe"
    and "cfcoord_start bound argv fs = Inr (Listening text sv)" and "pipe_text es = Some text"
  shows "\<exists>req port. bound req = Some port \<and> coordinator_port True es = Inr (PortKnown port) \<and> sv_running sv \<and>
     worker_ids (split (worker_command exe port boot)) = Inr \<lparr>wa_host = ''127.0.0.1'', wa_port = port, wa_worker = StrongId 1,
       wa_boot = StrongId boot, wa_resource = StrongId 1\<rparr>"
proof -
  obtain req port where b: "bound req = Some port" and t: "text = ''PORT:'' @ dec_digits (unat port) @ [CHR 0x0A]"
    and sv: "sv = snd (srv_start True (Server_new CapacityModel_new fs))"
    using assms(3) by (auto simp: cfcoord_start_def split: option.splits)
  have "sv_running sv" by (simp add: sv srv_start_def)
  then show ?thesis
    using b coordinator_port_banner assms(4) worker_command_args [OF assms(1,2)] t by blast
qed

theorem port_handshake_witness:
  "coordinator_port True [PipeIdle, PipeData ''PORT:492'', PipeIdle, PipeData (''15'' @ [CHR 0x0A])] = Inr (PortKnown 49215)"
proof -
  let ?es = "[PipeIdle, PipeData ''PORT:492'', PipeIdle, PipeData (''15'' @ [CHR 0x0A])]"
  have "stoi ''0'' = Inr 0"
    by (simp add: stoi_def parse_decimal_def is_space_def is_digit_def digits_value_def)
  moreover have port_text: "dec_digits 49215 = ''49215''" by (simp add: dec_digits.simps digit_chars del: One_nat_def)
  ultimately have start: "cfcoord_start (\<lambda>_. Some 49215) [''cfcoord'', ''0''] (\<lambda>_. None) =
      Inr (Listening (''PORT:49215'' @ [CHR 0x0A]) (snd (srv_start True (Server_new CapacityModel_new (\<lambda>_. None)))))"
    by (simp add: cfcoord_start_def cfcoord_args_def port_arg_def port_text)
  have printed: "pipe_text ?es = Some (''PORT:49215'' @ [CHR 0x0A])" by simp
  have "CHR 0x22 \<notin> set ''cf_cuda_worker''" by simp
  from port_handshake [OF ex_split_documented this start printed, of 100] show ?thesis by auto
qed

end
