(* ===== verification/Child_Processes.thy ===== *)
theory Child_Processes
  imports Prelude
begin

text \<open>
  The child processes of the CUDA proof (\<open>struct Proc\<close> of \<open>cuda/cuda_proof_main.cpp\<close>): which handles of the system are open and
  which processes run. A handle is an opaque pointer, null when there is none; what the system answers to \<open>CreatePipe\<close> and
  \<open>CreateProcessA\<close> is an argument, of which \<open>documented_start\<close> states what is used. The reading of the pipe is in \<open>Processes\<close>.
\<close>

section \<open>Processes and handles\<close>

type_synonym HANDLE = u64

record Proc =
  pr_h :: HANDLE
  pr_readPipe :: HANDLE

definition Proc_default :: Proc where "Proc_default = \<lparr>pr_h = 0, pr_readPipe = 0\<rparr>"

text \<open>The open handles, the processes that run, and which process a handle stands for.\<close>

record World =
  wd_open :: "HANDLE set"
  wd_running :: "nat set"
  wd_names :: "HANDLE \<Rightarrow> nat"

text \<open>The two ends of the pipe, and the process with its handle and that of its thread.\<close>

record StartEnv =
  se_pipe :: "(HANDLE \<times> HANDLE) option"
  se_process :: "(nat \<times> HANDLE \<times> HANDLE) option"

definition closeHandle :: "HANDLE \<Rightarrow> World \<Rightarrow> World" where
  "closeHandle x w = w\<lparr>wd_open := wd_open w - {x}\<rparr>"

definition proc_start :: "(World \<Rightarrow> StartEnv) \<Rightarrow> Proc \<Rightarrow> World \<Rightarrow> bool \<times> Proc \<times> World" where
  "proc_start os p w =
     (case se_pipe (os w) of
        None \<Rightarrow> (False, p, w)
      | Some (readH, writePipe) \<Rightarrow>
          let w1 = w\<lparr>wd_open := insert writePipe (insert readH (wd_open w))\<rparr>
          in (case se_process (os w) of
                None \<Rightarrow> (False, p, closeHandle writePipe (closeHandle readH w1))
              | Some (pid, hProcess, hThread) \<Rightarrow>
                  let w2 = closeHandle writePipe (w1\<lparr>wd_open := insert hThread (insert hProcess (wd_open w1)),
                        wd_running := insert pid (wd_running w1), wd_names := (wd_names w1)(hProcess := pid)\<rparr>)
                  in (True, p\<lparr>pr_h := hProcess, pr_readPipe := readH\<rparr>, closeHandle hThread w2)))"

definition proc_kill :: "Proc \<Rightarrow> World \<Rightarrow> World" where
  "proc_kill p w = (if pr_h p \<noteq> 0 then w\<lparr>wd_running := wd_running w - {wd_names w (pr_h p)}\<rparr> else w)"

text \<open>Waiting without limit; no result when the process still runs and does not end by itself.\<close>

definition proc_wait :: "bool \<Rightarrow> Proc \<Rightarrow> World \<Rightarrow> World option" where
  "proc_wait ends p w =
     (if pr_h p = 0 \<or> wd_names w (pr_h p) \<notin> wd_running w then Some w
      else if ends then Some (w\<lparr>wd_running := wd_running w - {wd_names w (pr_h p)}\<rparr>) else None)"

definition proc_destroy :: "Proc \<Rightarrow> World \<Rightarrow> World" where
  "proc_destroy p w =
     (let w1 = (if pr_h p \<noteq> 0 then closeHandle (pr_h p) w else w)
      in if pr_readPipe p \<noteq> 0 then closeHandle (pr_readPipe p) w1 else w1)"

section \<open>What the system hands out\<close>

text \<open>Handles that are not null and not open, and a process that does not run yet.\<close>

definition fresh_start :: "StartEnv \<Rightarrow> World \<Rightarrow> bool" where
  "fresh_start e w \<longleftrightarrow> (\<forall>r wr. se_pipe e = Some (r, wr) \<longrightarrow> r \<noteq> 0 \<and> wr \<noteq> 0 \<and> r \<noteq> wr \<and> r \<notin> wd_open w \<and> wr \<notin> wd_open w \<and>
     (\<forall>pid h t. se_process e = Some (pid, h, t) \<longrightarrow> h \<noteq> 0 \<and> t \<noteq> 0 \<and> h \<noteq> t \<and> {h, t} \<inter> {r, wr} = {} \<and> h \<notin> wd_open w \<and> t \<notin> wd_open w \<and>
        pid \<notin> wd_running w))"

definition documented_start :: "(World \<Rightarrow> StartEnv) \<Rightarrow> bool" where
  "documented_start os \<longleftrightarrow> (\<forall>w. fresh_start (os w) w)"

section \<open>Ownership\<close>

text \<open>The world \<open>w'\<close> is \<open>w\<close> with the process that \<open>p\<close> stands for.\<close>

definition child_of :: "Proc \<Rightarrow> World \<Rightarrow> World \<Rightarrow> bool" where
  "child_of p w w' \<longleftrightarrow> pr_h p \<noteq> 0 \<and> pr_readPipe p \<noteq> 0 \<and> pr_h p \<noteq> pr_readPipe p \<and> pr_h p \<notin> wd_open w \<and> pr_readPipe p \<notin> wd_open w \<and>
     wd_open w' = {pr_h p, pr_readPipe p} \<union> wd_open w \<and> wd_names w' (pr_h p) \<notin> wd_running w \<and>
     wd_running w' = insert (wd_names w' (pr_h p)) (wd_running w) \<and> (\<forall>x \<in> wd_open w. wd_names w' x = wd_names w x)"

lemma start_child:
  assumes "documented_start os" and "proc_start os p w = (True, p', w')"
  shows "child_of p' w w'"
proof -
  obtain r wr pid h t where e: "se_pipe (os w) = Some (r, wr)" "se_process (os w) = Some (pid, h, t)"
    using assms(2) by (auto simp: proc_start_def Let_def split: option.splits)
  have "fresh_start (os w) w" using assms(1) by (simp add: documented_start_def)
  then have f: "r \<noteq> 0" "h \<noteq> 0" "r \<noteq> wr" "h \<noteq> t" "h \<noteq> r" "h \<noteq> wr" "t \<noteq> r" "t \<noteq> wr" "r \<notin> wd_open w" "wr \<notin> wd_open w"
      "h \<notin> wd_open w" "t \<notin> wd_open w" "pid \<notin> wd_running w"
    unfolding fresh_start_def e by auto
  have p: "pr_h p' = h" "pr_readPipe p' = r"
    and w: "wd_open w' = insert t (insert h (insert wr (insert r (wd_open w)))) - {wr} - {t}"
      "wd_running w' = insert pid (wd_running w)" "wd_names w' = (wd_names w)(h := pid)"
    using assms(2) e by (auto simp: proc_start_def Let_def closeHandle_def)
  have "wd_open w' = {h, r} \<union> wd_open w" unfolding w(1) using f by auto
  moreover have "\<forall>x \<in> wd_open w. wd_names w' x = wd_names w x" using f(11) by (auto simp: w(3))
  ultimately show ?thesis using f by (simp add: child_of_def p w(2,3))
qed

lemma start_failed:
  assumes "documented_start os" and "proc_start os p w = (False, p', w')"
  shows "p' = p \<and> w' = w"
proof (cases "se_pipe (os w)")
  case (Some pipe)
  obtain r wr where e: "se_pipe (os w) = Some (r, wr)" using Some by (cases pipe) simp
  have "fresh_start (os w) w" using assms(1) by (simp add: documented_start_def)
  then have "r \<notin> wd_open w" "wr \<notin> wd_open w" unfolding fresh_start_def e by simp_all
  then have "insert wr (insert r (wd_open w)) - {r} - {wr} = wd_open w" by auto
  then show ?thesis using assms(2) e by (auto simp: proc_start_def closeHandle_def Let_def split: option.splits)
qed (use assms(2) in \<open>simp add: proc_start_def\<close>)

text \<open>A start that fails leaves nothing open; one that succeeds leaves exactly the handles the object closes when it goes.\<close>

lemma destroy_open:
  "wd_open (proc_destroy p w) = wd_open w - ({pr_h p, pr_readPipe p} - {0})" "wd_running (proc_destroy p w) = wd_running w"
  "wd_names (proc_destroy p w) = wd_names w"
  by (auto simp: proc_destroy_def closeHandle_def Let_def)

lemma kill_frame [simp]:
  "wd_open (proc_kill p w) = wd_open w" "wd_names (proc_kill p w) = wd_names w"
  by (simp_all add: proc_kill_def)

lemma default_destroy [simp]: "proc_destroy Proc_default w = w"
  by (simp add: proc_destroy_def Proc_default_def)

text \<open>Killed and waited for, then destroyed: what is left is the world before.\<close>

lemma child_gone:
  assumes "child_of p w w'"
  shows "wd_open (proc_destroy p (proc_kill p w')) = wd_open w" "wd_running (proc_destroy p (proc_kill p w')) = wd_running w"
    and "proc_wait ends p (proc_kill p w') = Some (proc_kill p w')"
  using assms by (auto simp: child_of_def destroy_open proc_kill_def proc_wait_def)

text \<open>A process that is not killed outlives its object.\<close>

lemma destroy_keeps_running:
  assumes "child_of p w w'"
  shows "wd_open (proc_destroy p w') = wd_open w" "wd_names w' (pr_h p) \<in> wd_running (proc_destroy p w')"
  using assms by (auto simp: child_of_def destroy_open)

text \<open>An object that is started a second time forgets its first handles, which are then never closed.\<close>

lemma restart_leaks:
  assumes "documented_start os" and "child_of p w w'" and "proc_start os p w' = (True, p'', w'')"
  shows "pr_h p \<in> wd_open (proc_destroy p'' w'')"
  using start_child [OF assms(1,3)] assms(2) by (auto simp: child_of_def destroy_open)

lemma child_kill: "child_of p w w' \<Longrightarrow> wd_running (proc_kill p w') = wd_running w"
  by (auto simp: child_of_def proc_kill_def)

text \<open>A running process that does not end by itself is waited for without end.\<close>

lemma wait_child:
  assumes "child_of p w w'" and "wd_names w'' (pr_h p) = wd_names w' (pr_h p)" and "wd_running w' \<subseteq> wd_running w''"
  shows "proc_wait False p w'' = None"
    and "proc_wait True p w'' = Some (w''\<lparr>wd_running := wd_running w'' - {wd_names w' (pr_h p)}\<rparr>)"
  using assms by (auto simp: child_of_def proc_wait_def)

text \<open>Waited for after others have come and gone, the first process leaves the processes from before.\<close>

lemma waited_child:
  assumes "child_of c w w1" and "wd_names w2 (pr_h c) = wd_names w1 (pr_h c)" and "wd_running w2 = wd_running w1"
  shows "\<exists>w4. proc_wait True c w2 = Some w4 \<and> wd_running w4 = wd_running w \<and> wd_open w4 = wd_open w2"
proof -
  have "wd_running w1 - {wd_names w1 (pr_h c)} = wd_running w" using assms(1) by (auto simp: child_of_def)
  then show ?thesis using wait_child(2) [OF assms(1,2)] assms(3) by simp
qed

text \<open>
  The life of three processes: the second is killed before the third is started, then the third is killed and the first
  waited for.
\<close>

lemma three_children:
  assumes "child_of c w w1" and "child_of a w1 w2" and "child_of b (proc_kill a w2) w3"
  shows "proc_wait False c (proc_kill b w3) = None"
    and "\<exists>w4. proc_wait True c (proc_kill b w3) = Some w4 \<and> wd_running w4 = wd_running w \<and>
     wd_open (proc_destroy c (proc_destroy a (proc_destroy b w4))) = wd_open w"
proof -
  have n: "wd_names (proc_kill b w3) (pr_h c) = wd_names w1 (pr_h c)" using assms by (simp add: child_of_def)
  have r: "wd_running (proc_kill b w3) = wd_running w1" using child_kill [OF assms(3)] child_kill [OF assms(2)] by simp
  show "proc_wait False c (proc_kill b w3) = None" using wait_child(1) [OF assms(1) n] r by simp
  have "wd_open (proc_kill b w3) - ({pr_h b, pr_readPipe b} - {0}) - ({pr_h a, pr_readPipe a} - {0}) -
      ({pr_h c, pr_readPipe c} - {0}) = wd_open w"
    using assms by (auto simp: child_of_def)
  then show "\<exists>w4. proc_wait True c (proc_kill b w3) = Some w4 \<and> wd_running w4 = wd_running w \<and>
     wd_open (proc_destroy c (proc_destroy a (proc_destroy b w4))) = wd_open w"
    using waited_child [OF assms(1) n r] by (auto simp: destroy_open)
qed

end
