(* ===== verification/Cuda_Main.thy ===== *)
theory Cuda_Main
  imports Child_Processes Cuda_Death Processes
begin

text \<open>
  The CUDA proof on a device (\<open>cuda/cuda_host.cpp\<close>, \<open>cuda_proof_main.cpp\<close>): the scenarios of \<open>Cuda_Proof\<close> with the
  memory they measure, the buffers they allocate, the kernels they run, and the lines they print.
\<close>

section \<open>What is measured, allocated and run\<close>

definition kKernelFloats :: nat where "kKernelFloats = 2 ^ 20"
definition f_two :: float32 where "f_two = Float32 0x40000000"

text \<open>A measurement that fails leaves the variable at zero.\<close>

definition measured :: "'d CudaRuntime \<Rightarrow> 'd \<Rightarrow> u64 \<times> 'd" where
  "measured rt d = (case currentFreeBytes rt d of (Inl e, d') \<Rightarrow> (0, d') | (Inr f, d') \<Rightarrow> (f, d'))"

text \<open>A buffer is held while the kernel runs on floats of its own. The result is the failed allocation or that of the check.\<close>

definition kernel_phase :: "'d CudaRuntime \<Rightarrow> u64 \<Rightarrow> float32 \<Rightarrow> 'd \<Rightarrow> (string + (string + unit)) \<times> 'd" where
  "kernel_phase rt bytes v d =
     (case allocate rt bytes d of
        (Inl e, d1) \<Rightarrow> (Inl e, d1)
      | (Inr p, d1) \<Rightarrow>
          let (r, d2) = kernelAndVerify rt (replicate kKernelFloats v) d1; (released, d3) = release rt p d2
          in (Inr r, d3))"

definition allocation_phase :: "'d CudaRuntime \<Rightarrow> u64 \<Rightarrow> 'd \<Rightarrow> u64 option \<times> 'd" where
  "allocation_phase rt bytes d =
     (case allocate rt bytes d of
        (Inl e, d1) \<Rightarrow> (None, d1)
      | (Inr p, d1) \<Rightarrow>
          let (freeAfter, d2) = measured rt d1; (released, d3) = release rt p d2 in (Some freeAfter, d3))"

record ProofRun =
  pr_device :: CudaDevice
  pr_free0 :: u64
  pr_freeBefore :: u64
  pr_freeAfter :: "u64 option"
  pr_freeEnd :: u64
  pr_kernelA :: "string + (string + unit)"
  pr_kernelF :: "string + (string + unit)"
  pr_outcomes :: "(string \<times> Outcome) list"

text \<open>The whole run: the report, or the error text of the probe when no device is present.\<close>

definition cudaProof_run :: "'d CudaRuntime \<Rightarrow> WriteEnv \<Rightarrow> bool \<Rightarrow> files \<Rightarrow> 'd \<Rightarrow> fault + (string + ProofRun) \<times> files \<times> 'd" where
  "cudaProof_run rt env readable fs d =
     (let (found, dev, err, d1) = probeDevice rt CudaDevice_default '''' d
      in if \<not> found \<or> \<not> cu_present dev then Inr (Inl err, fs, d1)
      else
        let (free0, d2) = measured rt d1;
            pool = governedPoolBytes free0;
            (kernelA, d3) = kernel_phase rt pool f_one d2;
            (freeBefore, d4) = measured rt d3;
            (freeAfter, d5) = allocation_phase rt (pool div 2) d4;
            (kernelF, d6) = kernel_phase rt pool f_two d5;
            (freeEnd, d7) = measured rt d6
        in bindR (runCudaProof (Some dev) \<lparr>pm_free0 = free0, pm_freeBefore = freeBefore, pm_allocated = freeAfter\<rparr> env readable fs) (\<lambda>(out, fs').
             Inr (Inr \<lparr>pr_device = dev, pr_free0 = free0, pr_freeBefore = freeBefore, pr_freeAfter = freeAfter, pr_freeEnd = freeEnd,
                       pr_kernelA = kernelA, pr_kernelF = kernelF, pr_outcomes = out\<rparr>, fs', d7)))"

section \<open>The lines\<close>

definition mib :: "u64 \<Rightarrow> string" where "mib n = dec_digits (unat (drop_bit 20 n))"

definition outcome_text :: "ProofRun \<Rightarrow> string \<Rightarrow> string" where
  "outcome_text r k = (case map_of (pr_outcomes r) k of None \<Rightarrow> '''' | Some x \<Rightarrow> Outcome_to_string x)"

definition kernel_lines_A :: "string + (string + unit) \<Rightarrow> string list" where
  "kernel_lines_A k =
     (case k of Inl e \<Rightarrow> [''[CUDA] A: allocate FAILED: '' @ e]
      | Inr (Inr u) \<Rightarrow> [''[CUDA] A: kernel+CPU parity OK (REAL)'', ''[CUDA] A: allocation freed'']
      | Inr (Inl e) \<Rightarrow> [''[CUDA] A: CPU parity FAILED: '' @ e, ''[CUDA] A: allocation freed''])"

definition line_D :: "ProofRun \<Rightarrow> string \<Rightarrow> u64 \<Rightarrow> string \<Rightarrow> string" where
  "line_D r title free k =
     ''[CUDA] D: '' @ title @ '' free='' @ mib free @ '' MiB demand='' @
     printf_f 1 (d_of_nat (unat (drop_bit 20 (allocation_demand (pr_freeBefore r) (governedPoolBytes (pr_free0 r)))))) @
     '' MiB -> '' @ outcome_text r k"

definition proof_lines :: "ProofRun \<Rightarrow> string list" where
  "proof_lines r =
     [''[CUDA] REAL device: '' @ cu_name (pr_device r) @ '' (sm_'' @ dec_digits (cu_major (pr_device r)) @ dec_digits (cu_minor (pr_device r)) @
        '') total='' @ mib (cu_totalBytes (pr_device r)) @ '' MiB'',
      ''[CUDA] REAL measured free: '' @ mib (pr_free0 r) @ '' MiB'',
      ''[CUDA] governed test pool (DERIVED): '' @ mib (governedPoolBytes (pr_free0 r)) @ '' MiB'',
      ''[CUDA] A: demand=pool -> '' @ outcome_text r ''A'' @ '' (REAL evidence)''] @
     kernel_lines_A (pr_kernelA r) @
     [''[CUDA] B: demand=2*pool -> '' @ outcome_text r ''B'' @ '' (reject before allocation)'',
      ''[CUDA] C: aggregate=pool, largest=half, demand=0.75*pool -> '' @ outcome_text r ''C'' @ '' (SYNTHETIC)'',
      ''[CUDA] C: demand=half -> '' @ outcome_text r ''C2'',
      line_D r ''before allocation'' (pr_freeBefore r) ''D0''] @
     (case pr_freeAfter r of None \<Rightarrow> []
      | Some f \<Rightarrow> [line_D r ''after allocation '' f ''D1'', line_D r ''after free      '' (pr_freeBefore r) ''D2'']) @
     [''[CUDA] F: recovered model evidence -> '' @ outcome_text r ''F'' @ '' (no live worker)'',
      ''[CUDA] F: fresh evidence republished -> '' @ outcome_text r ''F2''] @
     (if pr_kernelF r = Inr (Inr ()) then [''[CUDA] F: kernel+CPU parity OK''] else []) @
     [''[CUDA] baseline free='' @ mib (pr_free0 r) @ '' MiB final free='' @ mib (pr_freeEnd r) @ '' MiB'']"

text \<open>The main function, without the worker-death run, which it has on Windows only.\<close>

definition cuda_main_lines :: "string + ProofRun \<Rightarrow> string list \<Rightarrow> string list" where
  "cuda_main_lines r death =
     [''=== Capacity Fabric CUDA hardware proof (RTX 5090 / sm_120) ===''] @
     (case r of Inl err \<Rightarrow> [''[CUDA] UNSUPPORTED: no CUDA device present: '' @ err] | Inr run \<Rightarrow> proof_lines run) @
     death @ [''=== END ==='']"

section \<open>The worker-death run\<close>

text \<open>
  How the system starts the coordinator and the two incarnations of the worker, what they print, whether the query's connection
  succeeds, and whether the coordinator ends when the run waits for it, which it does without limit: at its end, or when it cannot
  start a worker. A process that the run has killed ends.
\<close>

record DeathProcs =
  dp_coordStart :: "World \<Rightarrow> StartEnv"
  dp_coordReads :: "PipeRead list"
  dp_aStart :: "World \<Rightarrow> StartEnv"
  dp_aReads :: "PipeRead list"
  dp_connected :: bool
  dp_a2Start :: "World \<Rightarrow> StartEnv"
  dp_a2Reads :: "PipeRead list"
  dp_coordEnds :: bool

text \<open>
  The run returns, with the lines it has printed and the world it leaves; or it waits without end; or it goes on with the
  port, the coordinator and worker A.
\<close>

datatype DeathStart = GaveUp "string list" World | WaitsForever "string list" World | Begun u16 "string list" Proc Proc World

definition not_ready :: "string \<Rightarrow> string \<Rightarrow> string \<Rightarrow> string list" where
  "not_ready who line err =
     (if str_pos line ''READY'' = None then [''[CUDA] E: worker '' @ who @ '' not ready: '' @ err] else [])"

definition death_start :: "DeathProcs \<Rightarrow> World \<Rightarrow> fault + DeathStart" where
  "death_start p w =
     (let (started, coord, w1) = proc_start (dp_coordStart p) Proc_default w
      in bindR (coordinator_port started (dp_coordReads p)) (\<lambda>c.
        case c of
          NotStarted \<Rightarrow> Inr (GaveUp [''[CUDA] E: FAILED to start coordinator''] (proc_destroy coord w1))
        | StillReading \<Rightarrow> Inr (WaitsForever [] w1)
        | NoPort \<Rightarrow> Inr (GaveUp [''[CUDA] E: FAILED to get port''] (proc_destroy coord (proc_kill coord w1)))
        | PortKnown port \<Rightarrow>
            let (startedA, a, w2) = proc_start (dp_aStart p) Proc_default w1; failed = [''[CUDA] E: FAILED to start worker A'']
            in if \<not> startedA
               then (case proc_wait (dp_coordEnds p) coord w2 of
                       None \<Rightarrow> Inr (WaitsForever failed w2)
                     | Some w3 \<Rightarrow> Inr (GaveUp failed (proc_destroy coord (proc_destroy a w3))))
               else (case readLine (dp_aReads p) '''' of
                       None \<Rightarrow> Inr (WaitsForever [] w2)
                     | Some (line, err) \<Rightarrow>
                         let lines = not_ready ''A'' line err
                         in if \<not> dp_connected p
                            then Inr (GaveUp (lines @ [''[CUDA] E: query connect fail'']) (proc_destroy coord (proc_destroy a w2)))
                            else Inr (Begun port lines coord a w2))))"

definition death_pool :: "u64 \<Rightarrow> u64" where
  "death_pool baseFree = (if baseFree div 8 < push_bit 20 256 then baseFree div 8 else push_bit 20 256)"

definition kernel_lines_E :: "string + (string + unit) \<Rightarrow> string list" where
  "kernel_lines_E k =
     (case k of Inl e \<Rightarrow> [] | Inr (Inr u) \<Rightarrow> [''[CUDA] E: real CUDA work parity OK (REAL)'']
      | Inr (Inl e) \<Rightarrow> [''[CUDA] E: CUDA work parity FAILED: '' @ e])"

text \<open>The outcome a byte stands for; a byte that is none is printed as unknown.\<close>

definition outcome_name :: "u8 \<Rightarrow> string" where
  "outcome_name c =
     (case find (\<lambda>x. Outcome_code x = c)
        [FitNow, FitFuture, FitWithReducedShape, FitWithLowerHeadroom, NoFitCapacity, NoFitFragmentation, NoFitTopology,
         NoFitCapability, NoFitMemory, NoFitBandwidth, NoFitReservation, NoFitDuration, NoFitSloHeadroom, RevalidationRequired,
         InsufficientEvidence] of
        None \<Rightarrow> ''UNKNOWN'' | Some x \<Rightarrow> Outcome_to_string x)"

definition first_lines :: "bool \<Rightarrow> string + (string + unit) \<Rightarrow> bool \<Rightarrow> u8 \<Rightarrow> string list" where
  "first_lines live kA stale dead =
     [''[CUDA] E: worker live (real CUDA evidence) -> '' @ (if live then ''FIT_NOW'' else ''NOT_FIT_NOW'')] @
     kernel_lines_E kA @
     [''[CUDA] E: worker killed -> '' @ (if stale then ''REVALIDATION_REQUIRED'' else ''STILL_FIT'') @
        '' (outcome '' @ outcome_name dead @ '')'']"

definition second_lines :: "bool \<Rightarrow> bool \<Rightarrow> string + (string + unit) \<Rightarrow> u64 \<Rightarrow> u64 \<Rightarrow> string list" where
  "second_lines fitRestored replayRejected kB baseFree endFree =
     [''[CUDA] E: worker restarted (fresh boot) -> '' @ (if fitRestored then ''FIT_NOW'' else ''NOT_FIT_NOW''),
      ''[CUDA] E: stale WorkerBootId replay rejected='' @ (if replayRejected then ''true'' else ''false'')] @
     (if kB = Inr (Inr ()) then [''[CUDA] E: real CUDA work under fresh authority parity OK''] else []) @
     [''[CUDA] E: baseline free='' @ u64_to_string baseFree @ '' final free='' @ u64_to_string endFree]"

text \<open>
  The run: its lines, whether it returns, the device and the world it leaves. The exchanges with the coordinator are those of
  \<open>death_first\<close> and \<open>death_second\<close>, where every send returns.
\<close>

definition cudaDeath_run :: "'d CudaRuntime \<Rightarrow> DeathProcs \<Rightarrow> SendResult list \<Rightarrow> WriteEnv \<Rightarrow> CudaDevice option \<Rightarrow> u64 \<Rightarrow> u64 \<Rightarrow> nat \<Rightarrow>
    cluster \<Rightarrow> 'd \<Rightarrow> World \<Rightarrow> fault + string list \<times> bool \<times> 'd \<times> World" where
  "cudaDeath_run rt p rs env dev freeA freeA2 notice s d w =
     (let (baseFree, d1) = measured rt d
      in bindR (death_start p w) (\<lambda>st.
        case st of
          GaveUp lines w1 \<Rightarrow> Inr (lines, True, d1, w1)
        | WaitsForever lines w1 \<Rightarrow> Inr (lines, False, d1, w1)
        | Begun port lines coord a w1 \<Rightarrow>
            bindR (death_first rs env dev freeA notice s) (\<lambda>(ready, live, stale, dead, dem, seq, s1).
              let (kA, d2) = kernel_phase rt (death_pool baseFree) f_one d1
              in case proc_wait True a (proc_kill a w1) of
                None \<Rightarrow> Inr (lines, False, d2, proc_kill a w1)
              | Some w2 \<Rightarrow>
                  let first = lines @ first_lines live kA stale dead;
                      failed = first @ [''[CUDA] E: FAILED to start worker A'' @ [CHR 0x27]];
                      (started, a2, w3) = proc_start (dp_a2Start p) Proc_default w2
                  in if \<not> started
                     then (case proc_wait (dp_coordEnds p) coord w3 of
                             None \<Rightarrow> Inr (failed, False, d2, w3)
                           | Some w4 \<Rightarrow> Inr (failed, True, d2, proc_destroy coord (proc_destroy a (proc_destroy a2 w4))))
                     else (case readLine (dp_a2Reads p) '''' of
                             None \<Rightarrow> Inr (first, False, d2, w3)
                           | Some (line, err) \<Rightarrow>
                               let (readyAgain, fitRestored, replayRejected, s2) = death_second rs env dev freeA2 dem seq s1;
                                   (kB, d3) = kernel_phase rt (death_pool baseFree) f_two d2;
                                   (endFree, d4) = measured rt d3;
                                   all = first @ not_ready (''A'' @ [CHR 0x27]) line err @
                                     second_lines fitRestored replayRejected kB baseFree endFree
                               in case proc_wait True a2 (proc_kill a2 w3) of
                                    None \<Rightarrow> Inr (all, False, d4, proc_kill a2 w3)
                                  | Some w4 \<Rightarrow>
                                      (case proc_wait (dp_coordEnds p) coord w4 of
                                         None \<Rightarrow> Inr (all, False, d4, w4)
                                       | Some w5 \<Rightarrow> Inr (all, True, d4, proc_destroy coord (proc_destroy a (proc_destroy a2 w5))))))))"

section \<open>The phases leave no buffer behind\<close>

lemma measured_still: "cuda_documented rt mem flog \<Longrightarrow> measured rt d = (f, d') \<Longrightarrow> still mem flog d d'"
  using currentFreeBytes_still [of rt mem flog d] by (auto simp: measured_def split: prod.splits sum.splits)

lemma measured_kept: "cuda_documented rt mem flog \<Longrightarrow> measured rt d = (f, d') \<Longrightarrow> kept rt mem flog d d'"
  by (rule kept_still [OF measured_still])

lemma kernel_phase_kept:
  assumes "cuda_documented rt mem flog" and "kernel_phase rt bytes v d = (r, d')" and "v \<in> {f_one, f_two}"
  shows "kept rt mem flog d d'" and "cuda_works rt \<Longrightarrow> r = Inr (Inr ())"
proof -
  let ?in = "replicate kKernelFloats v"
  have len: "length ?in \<le> 2 ^ 32" by (simp add: kKernelFloats_def)
  have "\<not> f_isnan f_two" by (simp add: f_isnan_def f_two_def f_mag_def f_inf_mag_def)
  then have nan: "\<forall>x \<in> set ?in. \<not> f_isnan x" using assms(3) f_not_special(3) by auto
  note post = kernelAndVerify_post [OF assms(1) len, unfolded kernel_post_def, simplified cpu_parity_map [of ?in, THEN iffD2, OF nan]]
  obtain a d1 where a: "allocate rt bytes d = (a, d1)" by fastforce
  have "kept rt mem flog d d' \<and> (cuda_works rt \<longrightarrow> r = Inr (Inr ()))"
  proof (cases a)
    case (Inl e)
    then have "d' = d1" "r = Inl e" using a assms(2) by (simp_all add: kernel_phase_def)
    then show ?thesis
      using kept_still [OF allocate_laws(1) [OF assms(1) a [unfolded Inl]]] allocate_laws(3) [OF assms(1), of bytes d] a Inl by auto
  next
    case (Inr p)
    note al = allocate_laws(2) [OF assms(1) a [unfolded Inr]]
    have "kept rt mem flog d1 (snd (kernelAndVerify rt ?in d1))" using post [of d1] by blast
    then have "kept rt mem flog d (snd (release rt p (snd (kernelAndVerify rt ?in d1))))"
      using al by (intro release_kept [OF assms(1)]) auto
    then show ?thesis
      using a Inr assms(2) post [of d1] by (auto simp: kernel_phase_def Let_def split_beta)
  qed
  then show "kept rt mem flog d d'" and "cuda_works rt \<Longrightarrow> r = Inr (Inr ())" by simp_all
qed

lemma allocation_phase_kept:
  assumes "cuda_documented rt mem flog" and "allocation_phase rt bytes d = (r, d')"
  shows "kept rt mem flog d d'"
proof -
  obtain a d1 where a: "allocate rt bytes d = (a, d1)" by fastforce
  show ?thesis
  proof (cases a)
    case (Inl e)
    then show ?thesis
      using a assms(2) kept_still [OF allocate_laws(1) [OF assms(1) a [unfolded Inl]]] by (simp add: allocation_phase_def)
  next
    case (Inr p)
    note al = allocate_laws(2) [OF assms(1) a [unfolded Inr]]
    obtain f d2 where m: "measured rt d1 = (f, d2)" by fastforce
    then have "kept rt mem flog d (snd (release rt p d2))"
      using al measured_kept [OF assms(1) m] by (intro release_kept [OF assms(1)]) auto
    then show ?thesis using a Inr assms(2) m by (auto simp: allocation_phase_def split_beta)
  qed
qed

text \<open>A device whose measurements succeed, between 256 MiB and 4 PiB.\<close>

definition measures :: "'d CudaRuntime \<Rightarrow> bool" where
  "measures rt \<longleftrightarrow> (\<forall>d. case fst (rt_memGetInfo rt d) of None \<Rightarrow> False | Some (f, t) \<Rightarrow> 2 ^ 28 \<le> unat f \<and> unat f < 2 ^ 52)"

lemma measured_bounds:
  assumes "measures rt" and "measured rt d = (f, d')"
  shows "2 ^ 28 \<le> unat f" "unat f < 2 ^ 52"
proof -
  obtain i d1 where i: "rt_memGetInfo rt d = (i, d1)" by fastforce
  have "case i of None \<Rightarrow> False | Some (f, t) \<Rightarrow> 2 ^ 28 \<le> unat f \<and> unat f < 2 ^ 52"
    using assms(1) [unfolded measures_def, rule_format, of d] by (simp only: i fst_conv)
  then obtain g t where g: "i = Some (g, t)" "2 ^ 28 \<le> unat g" "unat g < 2 ^ 52"
    by (cases i) auto
  moreover have "f = g" using assms(2) i g(1) by (simp add: measured_def currentFreeBytes_def)
  ultimately show "2 ^ 28 \<le> unat f" "unat f < 2 ^ 52" by simp_all
qed

lemma allocation_phase_works:
  assumes "cuda_documented rt mem flog" and "cuda_works rt" and "measures rt" and "allocation_phase rt bytes d = (r, d')"
  shows "\<exists>a. r = Some a \<and> unat a < 2 ^ 52"
proof -
  obtain p d1 where "allocate rt bytes d = (Inr p, d1)" using allocate_laws(3) [OF assms(1,2)] by blast
  moreover obtain f d2 where "measured rt d1 = (f, d2)" by fastforce
  ultimately show ?thesis
    using measured_bounds(2) [OF assms(3)] assms(4) by (auto simp: allocation_phase_def split_beta)
qed

text \<open>What a run leaves of the buffers, and the run on a device where no call fails.\<close>

lemma cuda_proof_kept:
  assumes "cuda_documented rt mem flog" and "cudaProof_run rt env readable fs d = Inr (r, fs', d')"
  shows "kept rt mem flog d d'"
proof -
  obtain found dev err d1 where p: "probeDevice rt CudaDevice_default '''' d = (found, dev, err, d1)" by (metis prod_cases4)
  obtain free0 d2 where m0: "measured rt d1 = (free0, d2)" by fastforce
  let ?pool = "governedPoolBytes free0"
  obtain kA d3 where kA: "kernel_phase rt ?pool f_one d2 = (kA, d3)" by fastforce
  obtain fB d4 where m1: "measured rt d3 = (fB, d4)" by fastforce
  obtain fA d5 where al: "allocation_phase rt (?pool div 2) d4 = (fA, d5)" by fastforce
  obtain kF d6 where kF: "kernel_phase rt ?pool f_two d5 = (kF, d6)" by fastforce
  obtain fE d7 where m2: "measured rt d6 = (fE, d7)" by fastforce
  note doc = assms(1)
  have "kept rt mem flog d d1" by (rule kept_still [OF probeDevice_still(1) [OF doc p]])
  moreover have "kept rt mem flog d1 d7"
    using measured_kept [OF doc m0] kernel_phase_kept(1) [OF doc kA] measured_kept [OF doc m1] allocation_phase_kept [OF doc al]
      kernel_phase_kept(1) [OF doc kF] measured_kept [OF doc m2] by (blast intro: kept_trans)
  moreover have "d' = d1 \<or> d' = d7"
    using assms(2) by (auto simp: cudaProof_run_def Let_def p m0 kA m1 al kF m2 bindR_def split: if_splits sum.splits)
  ultimately show ?thesis by (blast intro: kept_trans)
qed

definition announced :: "ProofRun \<Rightarrow> u64 \<Rightarrow> (string \<times> Outcome) list" where
  "announced r a = [(''A'', FitNow), (''B'', NoFitMemory), (''C'', NoFitFragmentation), (''C2'', FitNow), (''D0'', FitNow),
     (''D1'', if a < allocation_demand (pr_freeBefore r) (governedPoolBytes (pr_free0 r)) then NoFitMemory else FitNow),
     (''D2'', FitNow), (''F'', InsufficientEvidence), (''F2'', FitNow)]"

lemma cuda_proof_works:
  assumes doc: "cuda_documented rt mem flog" and works: "cuda_works rt" "measures rt"
    and found: "fst (probeDevice rt CudaDevice_default '''' d)"
  shows "\<exists>r fs' d' a. cudaProof_run rt WriteOk True fs d = Inr (Inr r, fs', d') \<and>
     pr_kernelA r = Inr (Inr ()) \<and> pr_kernelF r = Inr (Inr ()) \<and> pr_freeAfter r = Some a \<and> pr_outcomes r = announced r a"
proof -
  obtain dev err d1 where p: "probeDevice rt CudaDevice_default '''' d = (True, dev, err, d1)" using found by (metis fst_conv prod_cases4)
  obtain free0 d2 where m0: "measured rt d1 = (free0, d2)" by fastforce
  let ?pool = "governedPoolBytes free0"
  obtain kA d3 where kA: "kernel_phase rt ?pool f_one d2 = (kA, d3)" by fastforce
  obtain fB d4 where m1: "measured rt d3 = (fB, d4)" by fastforce
  obtain fA d5 where al: "allocation_phase rt (?pool div 2) d4 = (fA, d5)" by fastforce
  obtain kF d6 where kF: "kernel_phase rt ?pool f_two d5 = (kF, d6)" by fastforce
  obtain fE d7 where m2: "measured rt d6 = (fE, d7)" by fastforce
  have dev: "cu_present dev" using probeDevice_still(2) [OF doc p] by simp
  obtain a where a: "fA = Some a" "unat a < 2 ^ 52" using allocation_phase_works [OF doc works al] by blast
  have "unat ?pool div 2 \<le> 2 ^ 28" by (simp add: governedPool_nat)
  then have "unat ?pool div 2 \<le> unat fB" using measured_bounds(1) [OF works(2) m1] by simp
  moreover have "6 \<le> unat free0" using measured_bounds(1) [OF works(2) m0] by simp
  ultimately obtain fs' where "runCudaProof (Some dev) \<lparr>pm_free0 = free0, pm_freeBefore = fB, pm_allocated = Some a\<rparr> WriteOk True fs =
      Inr ([(''A'', FitNow), (''B'', NoFitMemory), (''C'', NoFitFragmentation), (''C2'', FitNow), (''D0'', FitNow),
         (''D1'', if a < allocation_demand fB ?pool then NoFitMemory else FitNow), (''D2'', FitNow),
         (''F'', InsufficientEvidence), (''F2'', FitNow)], fs')"
    using cuda_proof_outcomes [OF dev, of "\<lparr>pm_free0 = free0, pm_freeBefore = fB, pm_allocated = Some a\<rparr>" fs] a(2)
      measured_bounds(2) [OF works(2) m1] by auto
  then show ?thesis
    using dev a(1) kernel_phase_kept(2) [OF doc kA _ works(1)] kernel_phase_kept(2) [OF doc kF _ works(1)]
    by (auto simp: cudaProof_run_def Let_def p m0 kA m1 al kF m2 announced_def)
qed

text \<open>The lines of such a run, with what it measured.\<close>

definition demand_mib :: "ProofRun \<Rightarrow> string" where
  "demand_mib r = printf_f 1 (d_of_nat (unat (drop_bit 20 (allocation_demand (pr_freeBefore r) (governedPoolBytes (pr_free0 r))))))"

definition announced_lines :: "ProofRun \<Rightarrow> u64 \<Rightarrow> string list" where
  "announced_lines r a =
           [''=== Capacity Fabric CUDA hardware proof (RTX 5090 / sm_120) ==='',
            ''[CUDA] REAL device: '' @ cu_name (pr_device r) @ '' (sm_'' @ dec_digits (cu_major (pr_device r)) @
              dec_digits (cu_minor (pr_device r)) @ '') total='' @ mib (cu_totalBytes (pr_device r)) @ '' MiB'',
            ''[CUDA] REAL measured free: '' @ mib (pr_free0 r) @ '' MiB'',
            ''[CUDA] governed test pool (DERIVED): '' @ mib (governedPoolBytes (pr_free0 r)) @ '' MiB'',
            ''[CUDA] A: demand=pool -> FIT_NOW (REAL evidence)'',
            ''[CUDA] A: kernel+CPU parity OK (REAL)'',
            ''[CUDA] A: allocation freed'',
            ''[CUDA] B: demand=2*pool -> NO_FIT_MEMORY (reject before allocation)'',
            ''[CUDA] C: aggregate=pool, largest=half, demand=0.75*pool -> NO_FIT_FRAGMENTATION (SYNTHETIC)'',
            ''[CUDA] C: demand=half -> FIT_NOW'',
            ''[CUDA] D: before allocation free='' @ mib (pr_freeBefore r) @ '' MiB demand='' @ demand_mib r @ '' MiB -> FIT_NOW'',
            ''[CUDA] D: after allocation  free='' @ mib a @ '' MiB demand='' @ demand_mib r @ '' MiB -> '' @
              (if a < allocation_demand (pr_freeBefore r) (governedPoolBytes (pr_free0 r)) then ''NO_FIT_MEMORY'' else ''FIT_NOW''),
            ''[CUDA] D: after free       free='' @ mib (pr_freeBefore r) @ '' MiB demand='' @ demand_mib r @ '' MiB -> FIT_NOW'',
            ''[CUDA] F: recovered model evidence -> INSUFFICIENT_EVIDENCE (no live worker)'',
            ''[CUDA] F: fresh evidence republished -> FIT_NOW'',
            ''[CUDA] F: kernel+CPU parity OK'',
            ''[CUDA] baseline free='' @ mib (pr_free0 r) @ '' MiB final free='' @ mib (pr_freeEnd r) @ '' MiB'',
            ''=== END ==='']"

lemma announced_printed:
  assumes "pr_kernelA r = Inr (Inr ())" and "pr_kernelF r = Inr (Inr ())" and "pr_freeAfter r = Some a" and "pr_outcomes r = announced r a"
  shows "cuda_main_lines (Inr r) [] = announced_lines r a"
  using assms by (simp add: cuda_main_lines_def proof_lines_def announced_lines_def announced_def outcome_text_def kernel_lines_A_def
      line_D_def demand_mib_def)

section \<open>Properties\<close>

text \<open>
  C14. The CUDA proof on a device. On a runtime that behaves as documented, whatever call fails, a run that returns leaves the
  buffers that were live, and beside them at most buffers whose release the runtime reported as failed; when releases succeed,
  exactly the buffers from before. When no call fails, a device is found, and every measurement lies between 256 MiB and 4 PiB, the run
  returns and \<open>main\<close> prints these lines, on Windows with those of the worker-death run before the last: both kernels report
  parity, each scenario its announced outcome,
  the query after the allocation in accordance with what was measured then; only the recovery of scenario F reports that there is no evidence,
  because none was saved.
\<close>

theorem cuda_proof_run:
  assumes "cuda_documented rt mem flog"
  shows "(\<forall>r fs' d'. cudaProof_run rt env readable fs d = Inr (r, fs', d') \<longrightarrow>
        (\<exists>failed. flog d' = flog d @ failed \<and> dom (mem d) \<subseteq> dom (mem d') \<and> dom (mem d') - dom (mem d) \<subseteq> set failed) \<and>
        (frees_succeed rt \<longrightarrow> dom (mem d') = dom (mem d))) \<and>
     (cuda_works rt \<longrightarrow> measures rt \<longrightarrow> fst (probeDevice rt CudaDevice_default '''' d) \<longrightarrow>
        (\<exists>r fs' d' a. cudaProof_run rt WriteOk True fs d = Inr (Inr r, fs', d') \<and> pr_freeAfter r = Some a \<and>
           cuda_main_lines (Inr r) [] =
           [''=== Capacity Fabric CUDA hardware proof (RTX 5090 / sm_120) ==='',
            ''[CUDA] REAL device: '' @ cu_name (pr_device r) @ '' (sm_'' @ dec_digits (cu_major (pr_device r)) @
              dec_digits (cu_minor (pr_device r)) @ '') total='' @ mib (cu_totalBytes (pr_device r)) @ '' MiB'',
            ''[CUDA] REAL measured free: '' @ mib (pr_free0 r) @ '' MiB'',
            ''[CUDA] governed test pool (DERIVED): '' @ mib (governedPoolBytes (pr_free0 r)) @ '' MiB'',
            ''[CUDA] A: demand=pool -> FIT_NOW (REAL evidence)'',
            ''[CUDA] A: kernel+CPU parity OK (REAL)'',
            ''[CUDA] A: allocation freed'',
            ''[CUDA] B: demand=2*pool -> NO_FIT_MEMORY (reject before allocation)'',
            ''[CUDA] C: aggregate=pool, largest=half, demand=0.75*pool -> NO_FIT_FRAGMENTATION (SYNTHETIC)'',
            ''[CUDA] C: demand=half -> FIT_NOW'',
            ''[CUDA] D: before allocation free='' @ mib (pr_freeBefore r) @ '' MiB demand='' @ demand_mib r @ '' MiB -> FIT_NOW'',
            ''[CUDA] D: after allocation  free='' @ mib a @ '' MiB demand='' @ demand_mib r @ '' MiB -> '' @
              (if a < allocation_demand (pr_freeBefore r) (governedPoolBytes (pr_free0 r)) then ''NO_FIT_MEMORY'' else ''FIT_NOW''),
            ''[CUDA] D: after free       free='' @ mib (pr_freeBefore r) @ '' MiB demand='' @ demand_mib r @ '' MiB -> FIT_NOW'',
            ''[CUDA] F: recovered model evidence -> INSUFFICIENT_EVIDENCE (no live worker)'',
            ''[CUDA] F: fresh evidence republished -> FIT_NOW'',
            ''[CUDA] F: kernel+CPU parity OK'',
            ''[CUDA] baseline free='' @ mib (pr_free0 r) @ '' MiB final free='' @ mib (pr_freeEnd r) @ '' MiB'',
            ''=== END ==='']))"
proof -
  have first: "(\<exists>failed. flog d' = flog d @ failed \<and> dom (mem d) \<subseteq> dom (mem d') \<and> dom (mem d') - dom (mem d) \<subseteq> set failed) \<and>
      (frees_succeed rt \<longrightarrow> dom (mem d') = dom (mem d))"
    if "cudaProof_run rt env readable fs d = Inr (r, fs', d')" for r fs' d'
    using cuda_proof_kept [OF assms that] kept_working [OF cuda_proof_kept [OF assms that]] unfolding kept_def by blast
  have second: "\<exists>r fs' d' a. cudaProof_run rt WriteOk True fs d = Inr (Inr r, fs', d') \<and> pr_freeAfter r = Some a \<and>
           cuda_main_lines (Inr r) [] = announced_lines r a"
    if works: "cuda_works rt" "measures rt" "fst (probeDevice rt CudaDevice_default '''' d)"
  proof -
    obtain r fs' d' a where "cudaProof_run rt WriteOk True fs d = Inr (Inr r, fs', d')" "pr_kernelA r = Inr (Inr ())"
        "pr_kernelF r = Inr (Inr ())" "pr_freeAfter r = Some a" "pr_outcomes r = announced r a"
      using cuda_proof_works [OF assms works] by blast
    then show ?thesis using announced_printed [of r a] by blast
  qed
  show ?thesis using first second unfolding announced_lines_def by blast
qed

theorem cuda_proof_run_witness:
  "\<exists>r fs' d'. cudaProof_run ex_runtime WriteOk True (\<lambda>_. None) [] = Inr (Inr r, fs', d') \<and>
     cuda_main_lines (Inr r) [] ! 7 = ''[CUDA] B: demand=2*pool -> NO_FIT_MEMORY (reject before allocation)'' \<and> dom (ex_mem d') = {}"
proof -
  have "fst (probeDevice ex_runtime CudaDevice_default '''' [])" "measures ex_runtime"
    by (simp_all add: probeDevice_def ex_runtime_def Let_def measures_def)
  moreover have "dom (ex_mem []) = {}" by (simp add: ex_mem_def fun_eq_iff)
  moreover have "frees_succeed ex_runtime" using ex_runtime_works by (simp add: cuda_works_def)
  ultimately show ?thesis
    using cuda_proof_run [OF ex_runtime_documented, of WriteOk True "\<lambda>_. None" "[]"] ex_runtime_works by fastforce
qed

section \<open>What the worker-death run leaves\<close>

text \<open>The only line after which processes are left running.\<close>

definition connect_fail :: string where "connect_fail = ''[CUDA] E: query connect fail''"

lemma death_start_effect:
  assumes "documented_start (dp_coordStart p)" and "documented_start (dp_aStart p)" and "death_start p w = Inr st"
  shows "case st of
       GaveUp lines w' \<Rightarrow> wd_open w' = wd_open w \<and> (wd_running w' = wd_running w \<or>
         last lines = connect_fail \<and> (\<exists>c a. c \<noteq> a \<and> {c, a} \<inter> wd_running w = {} \<and> wd_running w' = {c, a} \<union> wd_running w))
     | WaitsForever lines w' \<Rightarrow> wd_running w \<subset> wd_running w'
     | Begun port lines coord a w' \<Rightarrow> \<exists>w1. child_of coord w w1 \<and> child_of a w1 w'"
proof -
  obtain started coord w1 where c: "proc_start (dp_coordStart p) Proc_default w = (started, coord, w1)" by (metis prod_cases3)
  show ?thesis
  proof (cases started)
    case False
    then have "coord = Proc_default \<and> w1 = w" using start_failed [OF assms(1)] c by simp
    then show ?thesis using assms(3) c False by (auto simp: death_start_def coordinator_port_def)
  next
    case True
    have coord: "child_of coord w w1" using start_child [OF assms(1)] c True by simp
    have grow: "wd_running w \<subset> wd_running w1" using coord by (auto simp: child_of_def)
    obtain cp where cp: "coordinator_port True (dp_coordReads p) = Inr cp" using assms(3) c True by (auto simp: death_start_def)
    obtain startedA a w2 where a: "proc_start (dp_aStart p) Proc_default w1 = (startedA, a, w2)" by (metis prod_cases3)
    have start: "death_start p w = Inr st" by (rule assms(3))
    note start = this [unfolded death_start_def c prod.case Let_def eqTrueI [OF True] cp bindR_Inr a]
    show ?thesis
    proof (cases cp)
      case NoPort
      then show ?thesis using start child_gone [OF coord] by auto
    next
      case (PortKnown port)
      show ?thesis
      proof (cases startedA)
        case False
        then have same: "w2 = w1" "a = Proc_default" using start_failed [OF assms(2)] a by simp_all
        have "proc_wait False coord w1 = None" using wait_child(1) [OF coord, of w1] by simp
        moreover obtain w4 where "proc_wait True coord w1 = Some w4" "wd_running w4 = wd_running w" "wd_open w4 = wd_open w1"
          using waited_child [OF coord, of w1] by auto
        moreover from this(3) have "wd_open (proc_destroy coord w4) = wd_open w" using coord by (auto simp: destroy_open child_of_def)
        ultimately show ?thesis
          using start PortKnown False grow same by (cases "dp_coordEnds p") (auto simp: destroy_open(2))
      next
        case True
        have A: "child_of a w1 w2" using start_child [OF assms(2)] a True by simp
        have "wd_open (proc_destroy coord (proc_destroy a w2)) = wd_open w"
          using A coord by (auto simp: destroy_open child_of_def)
        moreover have "wd_running (proc_destroy coord (proc_destroy a w2)) = {wd_names w1 (pr_h coord), wd_names w2 (pr_h a)} \<union> wd_running w"
            "wd_names w1 (pr_h coord) \<noteq> wd_names w2 (pr_h a)" "{wd_names w1 (pr_h coord), wd_names w2 (pr_h a)} \<inter> wd_running w = {}"
          using A coord by (auto simp: destroy_open child_of_def)
        moreover have "\<exists>w1. child_of coord w w1 \<and> child_of a w1 w2" using coord A by blast
        moreover have "wd_running w \<subset> wd_running w2" using grow A by (auto simp: child_of_def)
        ultimately show ?thesis
          using start PortKnown True unfolding connect_fail_def by (auto split: option.splits if_splits) metis+
      qed
    qed (use start cp grow in \<open>auto simp: coordinator_port_def bindR_def split: option.splits sum.splits\<close>)
  qed
qed

text \<open>The rest of a run that has begun.\<close>

lemma death_rest_effect:
  assumes "cuda_documented rt mem flog" and "documented_start (dp_a2Start p)"
    and "child_of coord w w1" and "child_of a w1 w2" and "death_start p w = Inr (Begun port lines0 coord a w2)"
    and "cudaDeath_run rt p rs env dev freeA freeA2 notice s d w = Inr (lines, returned, d', w')"
  shows "kept rt mem flog d d' \<and> (if returned then wd_open w' = wd_open w \<and> wd_running w' = wd_running w
     else wd_running w \<subset> wd_running w')"
proof -
  obtain base d1 where m: "measured rt d = (base, d1)" by fastforce
  obtain ready live stale dead dem seq s1 where f: "death_first rs env dev freeA notice s = Inr (ready, live, stale, dead, dem, seq, s1)"
    using assms(6) m by (auto simp: cudaDeath_run_def assms(5) bindR_def split: sum.splits)
  obtain kA d2 where kA: "kernel_phase rt (death_pool base) f_one d1 = (kA, d2)" by fastforce
  obtain readyAgain fit rejected s2 where sc: "death_second rs env dev freeA2 dem seq s1 = (readyAgain, fit, rejected, s2)"
    by (metis prod_cases4)
  obtain kB d3 where kB: "kernel_phase rt (death_pool base) f_two d2 = (kB, d3)" by fastforce
  obtain endFree d4 where e: "measured rt d3 = (endFree, d4)" by fastforce
  obtain started b w3 where b: "proc_start (dp_a2Start p) Proc_default (proc_kill a w2) = (started, b, w3)" by (metis prod_cases3)
  note k = measured_kept [OF assms(1) m] kernel_phase_kept(1) [OF assms(1) kA] kernel_phase_kept(1) [OF assms(1) kB]
    measured_kept [OF assms(1) e]
  have mems: "kept rt mem flog d d2" "kept rt mem flog d d4"
    using kept_trans [OF k(1,2)] kept_trans [OF kept_trans [OF kept_trans [OF k(1,2)] k(3)] k(4)] by simp_all
  have grow: "wd_running w \<subset> wd_running (proc_kill a w2)" using child_kill [OF assms(4)] assms(3) by (auto simp: child_of_def)
  note run = assms(6) [unfolded cudaDeath_run_def Let_def m prod.case assms(5) bindR_Inr DeathStart.case f kA
      child_gone(3) [OF assms(4)] option.case b sc kB e]
  show ?thesis
  proof (cases started)
    case False
    then have same: "w3 = proc_kill a w2" "b = Proc_default" using start_failed [OF assms(2)] b by simp_all
    have n: "wd_names (proc_kill a w2) (pr_h coord) = wd_names w1 (pr_h coord)" using assms(3,4) by (simp add: child_of_def)
    have "proc_wait False coord (proc_kill a w2) = None"
      using child_kill [OF assms(4)] n by (intro wait_child(1) [OF assms(3)]) simp_all
    moreover obtain w5 where "proc_wait True coord (proc_kill a w2) = Some w5" "wd_running w5 = wd_running w"
        "wd_open w5 = wd_open (proc_kill a w2)"
      using waited_child [OF assms(3) n child_kill [OF assms(4)]] by blast
    moreover from this(3) have "wd_open (proc_destroy coord (proc_destroy a w5)) = wd_open w"
      using assms(3,4) by (auto simp: destroy_open child_of_def)
    ultimately show ?thesis
      using run False mems(1) grow same by (cases "dp_coordEnds p") (auto simp: destroy_open(2))
  next
    case True
    have B: "child_of b (proc_kill a w2) w3" using start_child [OF assms(2)] b True by simp
    obtain w5 where w5: "proc_wait True coord (proc_kill b w3) = Some w5" "wd_running w5 = wd_running w"
        "wd_open (proc_destroy coord (proc_destroy a (proc_destroy b w5))) = wd_open w"
      using three_children(2) [OF assms(3,4) B] by blast
    note stuck = three_children(1) [OF assms(3,4) B]
    have running: "wd_running (proc_kill b w3) = wd_running w1" using child_kill [OF B] child_kill [OF assms(4)] by simp
    have "wd_running w \<subset> wd_running w1" using assms(3) by (auto simp: child_of_def)
    moreover have "wd_running w \<subset> wd_running w3" using grow B by (auto simp: child_of_def)
    ultimately show ?thesis
      using run True mems w5 stuck running
      by (cases "dp_coordEnds p") (auto simp: child_gone(3) [OF B] destroy_open(2) split: option.splits)
  qed
qed

text \<open>A whole run.\<close>

lemma death_run_effect:
  assumes "cuda_documented rt mem flog" and "documented_start (dp_coordStart p)" and "documented_start (dp_aStart p)"
    and "documented_start (dp_a2Start p)"
    and "cudaDeath_run rt p rs env dev freeA freeA2 notice s d w = Inr (lines, returned, d', w')"
  shows "kept rt mem flog d d' \<and>
     (if returned then wd_open w' = wd_open w \<and> (wd_running w' = wd_running w \<or>
        last lines = ''[CUDA] E: query connect fail'' \<and>
        (\<exists>c a. c \<noteq> a \<and> {c, a} \<inter> wd_running w = {} \<and> wd_running w' = {c, a} \<union> wd_running w))
      else wd_running w \<subset> wd_running w')"
proof -
  obtain base d1 where m: "measured rt d = (base, d1)" by fastforce
  obtain st where st: "death_start p w = Inr st"
    using assms(5) by (auto simp: cudaDeath_run_def m bindR_def split: sum.splits)
  note effect = death_start_effect [OF assms(2,3) st]
  note run = assms(5) [unfolded cudaDeath_run_def Let_def m prod.case st bindR_Inr]
  show ?thesis
  proof (cases st)
    case (GaveUp ls w1)
    then show ?thesis using effect run measured_kept [OF assms(1) m] by (auto simp: connect_fail_def)
  next
    case (WaitsForever ls w1)
    then show ?thesis using effect run measured_kept [OF assms(1) m] by auto
  next
    case (Begun port ls coord a w2)
    then obtain w1 where "child_of coord w w1" "child_of a w1 w2" using effect by auto
    from death_rest_effect [OF assms(1,4) this st [unfolded Begun] assms(5)] show ?thesis by (auto split: if_splits)
  qed
qed

section \<open>Cleaning up\<close>

text \<open>The first half of the run never throws: only reading the port does.\<close>

lemma death_first_returns: "\<exists>t. death_first rs env dev freeA notice s = Inr t"
proof -
  obtain d where "makeCUDA_basedDemand (StrongId 100) = Inr d" using death_query by blast
  then have "\<not> isl (death_first rs env dev freeA notice s)" by (simp add: death_first_def Let_def split_beta)
  then show ?thesis by (metis sum.collapse(2))
qed

lemma death_run_throws:
  assumes "cudaDeath_run rt p rs env dev freeA freeA2 notice s d w = Inl e"
  shows "coordinator_port True (dp_coordReads p) = Inl e"
proof -
  obtain base d1 where m: "measured rt d = (base, d1)" by fastforce
  obtain t where t: "death_first rs env dev freeA notice s = Inr t" using death_first_returns by blast
  have "death_start p w = Inl e"
    using assms by (auto simp: cudaDeath_run_def m t bindR_def Let_def split: sum.splits DeathStart.splits prod.splits option.splits if_splits)
  then show ?thesis
    by (auto simp: death_start_def bindR_def Let_def coordinator_port_def split: sum.splits prod.splits CoordinatorPort.splits option.splits if_splits)
qed

text \<open>
  C16. What the worker-death run leaves behind. On documented systems where every send returns: an exception ends the run
  only when the number in the coordinator's banner cannot be read as an \<open>int\<close>, when nothing but the coordinator has been started.
  Otherwise, whatever fails, the device buffers that were live are, and beside them at most buffers whose release the runtime reported as
  failed, and none when releases succeed. When the run returns, every handle it opened is closed, and no process it started is
  running, except after a failed connection of the query, where the coordinator and worker A are left running. When it does
  not return, because a line it reads does not come or the coordinator it waits for does not end, it waits while a process that it
  started is running.
\<close>

theorem cuda_death_cleanup:
  assumes "cuda_documented rt mem flog" and "documented_start (dp_coordStart p)" and "documented_start (dp_aStart p)"
    and "documented_start (dp_a2Start p)" and "\<forall>f. fst (sendFrame rs f) \<noteq> SendPending"
  shows "case cudaDeath_run rt p rs env dev freeA freeA2 notice s d w of
       Inl e \<Rightarrow> coordinator_port True (dp_coordReads p) = Inl e
     | Inr (lines, returned, d', w') \<Rightarrow>
         (\<exists>failed. flog d' = flog d @ failed \<and> dom (mem d) \<subseteq> dom (mem d') \<and> dom (mem d') - dom (mem d) \<subseteq> set failed) \<and>
         (frees_succeed rt \<longrightarrow> dom (mem d') = dom (mem d)) \<and>
         (if returned then wd_open w' = wd_open w \<and> (wd_running w' = wd_running w \<or>
            last lines = ''[CUDA] E: query connect fail'' \<and>
            (\<exists>c a. c \<noteq> a \<and> {c, a} \<inter> wd_running w = {} \<and> wd_running w' = {c, a} \<union> wd_running w))
          else wd_running w \<subset> wd_running w')"
proof (cases "cudaDeath_run rt p rs env dev freeA freeA2 notice s d w")
  case (Inl e)
  then show ?thesis using death_run_throws by simp
next
  case (Inr res)
  obtain lines returned d' w' where res: "res = (lines, returned, d', w')" by (metis prod_cases4)
  note ret = Inr [unfolded res]
  note effect = death_run_effect [OF assms(1-4) ret]
  have "\<exists>failed. flog d' = flog d @ failed \<and> dom (mem d) \<subseteq> dom (mem d') \<and> dom (mem d') - dom (mem d) \<subseteq> set failed"
    using effect [THEN conjunct1] unfolding kept_def by blast
  moreover have "frees_succeed rt \<longrightarrow> dom (mem d') = dom (mem d)" using kept_working [OF effect [THEN conjunct1]] by (rule impI)
  ultimately show ?thesis unfolding ret sum.case prod.case using effect [THEN conjunct2] by (intro conjI)
qed

text \<open>A system that can start two processes, one after the other, whose output is one line each.\<close>

definition ex_system :: "World \<Rightarrow> StartEnv" where
  "ex_system w =
     (if wd_open w = {} \<and> wd_running w = {} then \<lparr>se_pipe = Some (1, 2), se_process = Some (0, 3, 4)\<rparr>
      else if wd_open w = {3, 1} \<and> wd_running w = {0} then \<lparr>se_pipe = Some (2, 4), se_process = Some (1, 5, 6)\<rparr>
      else \<lparr>se_pipe = None, se_process = None\<rparr>)"

lemma ex_system_documented: "documented_start ex_system"
  by (auto simp: documented_start_def fresh_start_def ex_system_def)

lemma sendAll_error: "fst (sendAll [SendError] bs) \<noteq> SendPending"
  by (cases bs) simp_all

theorem cuda_death_cleanup_witness:
  "\<exists>d' w'. cudaDeath_run ex_runtime \<lparr>dp_coordStart = ex_system, dp_coordReads = [PipeData (''PORT:80'' @ [CHR 0x0A])],
       dp_aStart = ex_system, dp_aReads = [PipeData (''READY'' @ [CHR 0x0A])], dp_connected = False, dp_a2Start = ex_system,
       dp_a2Reads = [], dp_coordEnds = True\<rparr> [SendError] WriteOk None 0 0 0 (\<lambda>_. Closed, CapacityModel_new, \<lambda>_. None) []
       \<lparr>wd_open = {}, wd_running = {}, wd_names = \<lambda>_. 0\<rparr> = Inr ([''[CUDA] E: query connect fail''], True, d', w') \<and>
     wd_open w' = {} \<and> dom (ex_mem d') = {}"
proof -
  let ?p = "\<lparr>dp_coordStart = ex_system, dp_coordReads = [PipeData (''PORT:80'' @ [CHR 0x0A])],
       dp_aStart = ex_system, dp_aReads = [PipeData (''READY'' @ [CHR 0x0A])], dp_connected = False, dp_a2Start = ex_system,
       dp_a2Reads = [], dp_coordEnds = True\<rparr>"
  let ?w = "\<lparr>wd_open = {}, wd_running = {}, wd_names = \<lambda>_. 0\<rparr>"
  have "dec_digits 80 = ''80''" by (simp add: dec_digits.simps digit_chars)
  then have port: "coordinator_port True [PipeData (''PORT:80'' @ [CHR 0x0A])] = Inr (PortKnown 80)"
    by (intro coordinator_port_banner) simp
  obtain w' where start: "death_start ?p ?w = Inr (GaveUp [''[CUDA] E: query connect fail''] w')"
    using port by (simp add: death_start_def proc_start_def ex_system_def closeHandle_def insert_Diff_if not_ready_def)
  obtain base d' where m: "measured ex_runtime [] = (base, d')" by fastforce
  have run: "cudaDeath_run ex_runtime ?p [SendError] WriteOk None 0 0 0 (\<lambda>_. Closed, CapacityModel_new, \<lambda>_. None) [] ?w =
      Inr ([''[CUDA] E: query connect fail''], True, d', w')"
    by (simp only: cudaDeath_run_def Let_def m prod.case start bindR_Inr DeathStart.case)
  have "documented_start (dp_coordStart ?p)" "documented_start (dp_aStart ?p)" "documented_start (dp_a2Start ?p)"
    using ex_system_documented by simp_all
  moreover have "\<forall>f. fst (sendFrame [SendError] f) \<noteq> SendPending"
    by (auto simp: sendFrame_def sendAll_error split: prod.split)
  ultimately have clean: "frees_succeed ex_runtime \<longrightarrow> dom (ex_mem d') = dom (ex_mem [])" "wd_open w' = wd_open ?w"
    using cuda_death_cleanup [OF ex_runtime_documented, where p = ?p and rs = "[SendError]" and env = WriteOk and dev = None and freeA = 0
      and ?freeA2.0 = 0 and notice = 0 and s = "(\<lambda>_. Closed, CapacityModel_new, \<lambda>_. None)" and d = "[]" and w = ?w] unfolding run sum.case prod.case by simp_all
  have "dom (ex_mem []) = {}" by (simp add: ex_mem_def fun_eq_iff)
  moreover have "frees_succeed ex_runtime" using ex_runtime_works by (simp add: cuda_works_def)
  ultimately have "dom (ex_mem d') = {}" "wd_open w' = {}" using clean by (simp_all only: World.simps simp_thms)
  then show ?thesis using run by (intro exI conjI)
qed

end
