(* ===== verification/Console.thy ===== *)
theory Console
  imports Text_Format Capacity
begin

text \<open>
  What the stream operators of the headers print: numbers, identities and generations (\<open>core/strong_id.hpp\<close>), units and
  intervals (\<open>core/units.hpp\<close>), and capacities (\<open>capacity/capacity.hpp\<close>). A double is printed with the default format
  of a stream, six significant digits.
\<close>

section \<open>Doubles\<close>

text \<open>
  A positive fraction \<open>p / q\<close> as \<open>%g\<close> prints it: six significant digits, rounded to nearest, in fixed notation when the decimal
  exponent after rounding lies between -4 and 5, and without trailing zeros.
\<close>

definition dec_exponent :: "nat \<Rightarrow> nat \<Rightarrow> int" where
  "dec_exponent p q =
     (if q \<le> p then int (length (dec_digits (p div q))) - 1
      else (case find (\<lambda>k. q \<le> p * 10 ^ k) [1 ..< 400] of None \<Rightarrow> -400 | Some k \<Rightarrow> - int k))"

definition sig_digits :: "nat \<Rightarrow> nat \<Rightarrow> int \<Rightarrow> nat" where
  "sig_digits p q x = (if x \<le> 5 then rne (p * 10 ^ nat (5 - x)) q else rne p (q * 10 ^ nat (x - 5)))"

definition g_round :: "nat \<Rightarrow> nat \<Rightarrow> nat \<times> int" where
  "g_round p q = (let x = dec_exponent p q; n = sig_digits p q x in if n = 10 ^ 6 then (10 ^ 5, x + 1) else (n, x))"

definition with_frac :: "string \<Rightarrow> string \<Rightarrow> string" where
  "with_frac a b = (let f = rev (dropWhile (\<lambda>c. c = CHR ''0'') (rev b)) in if f = [] then a else a @ ''.'' @ f)"

definition exponent_text :: "int \<Rightarrow> string" where
  "exponent_text x =
     ''e'' @ (if x < 0 then ''-'' else ''+'') @ (let e = dec_digits (nat \<bar>x\<bar>) in if length e < 2 then ''0'' @ e else e)"

definition g_text :: "nat \<Rightarrow> nat \<Rightarrow> string" where
  "g_text p q =
     (if p = 0 then ''0''
      else let (n, x) = g_round p q; ds = dec_digits n
           in if x < -4 \<or> 6 \<le> x then with_frac (take 1 ds) (drop 1 ds) @ exponent_text x
              else if 0 \<le> x then with_frac (take (nat x + 1) ds) (drop (nat x + 1) ds)
              else with_frac ''0'' (replicate (nat (- x) - 1) CHR ''0'' @ ds))"

definition double_text :: "double \<Rightarrow> string" where
  "double_text x =
     (if d_sign x then ''-'' else '''') @
     (if isnan x then ''nan'' else if isinf x then ''inf'' else g_text (mag_val (d_mag x)) one_units)"

section \<open>Identities, units and capacities\<close>

definition id_text :: "'tag StrongId \<Rightarrow> string" where "id_text i = u64_to_string (sid_value i)"
definition generation_text :: "'tag Generation \<Rightarrow> string" where "generation_text g = u64_to_string (gen_value g)"

definition ByteCount_text :: "ByteCount \<Rightarrow> string" where "ByteCount_text b = u64_to_string (bc_value b)"
definition ByteRate_text :: "ByteRate \<Rightarrow> string" where "ByteRate_text r = double_text (rate_value r)"
definition DeviceCount_text :: "DeviceCount \<Rightarrow> string" where "DeviceCount_text d = u64_to_string (dc_value d)"
definition ComputeUnits_text :: "ComputeUnits \<Rightarrow> string" where "ComputeUnits_text c = double_text (compute_value c)"
definition fraction_text :: "'tag BoundedFraction \<Rightarrow> string" where "fraction_text f = double_text (frac_value f)"

definition Interval_text :: "Interval \<Rightarrow> string" where
  "Interval_text i = ''['' @ i64_to_string (iv_start i) @ '','' @ i64_to_string (iv_end i) @ '')''"

definition Capacity_text :: "Capacity \<Rightarrow> string" where
  "Capacity_text c =
     snd (fold (\<lambda>(d, v) (first, os). (False, os @ (if first then '''' else '', '') @ dimensionName d @ ''='' @ double_text v))
            (om_entries c) (True, ''{'')) @ ''}''"

section \<open>Decimal digits\<close>

lemma dec_digits_length: "0 < n \<Longrightarrow> 10 ^ (length (dec_digits n) - 1) \<le> n \<and> n < 10 ^ length (dec_digits n)"
proof (induction n rule: dec_digits.induct)
  case (1 n)
  show ?case
  proof (cases "n < 10")
    case True
    then show ?thesis using 1(2) by (simp add: dec_digits.simps [of n])
  next
    case False
    let ?l = "length (dec_digits (n div 10))"
    have "0 < n div 10" using False by simp
    with 1(1) [OF False] have ih: "10 ^ (?l - 1) \<le> n div 10" "n div 10 < 10 ^ ?l" by simp_all
    have l: "length (dec_digits n) = Suc ?l" "0 < ?l" using False by (simp_all add: dec_digits.simps [of n])
    have "(10 :: nat) ^ ?l = 10 * 10 ^ (?l - 1)" using l(2) by (cases ?l) simp_all
    then show ?thesis using ih l by (simp add: less_eq_div_iff_mult_less_eq div_less_iff_less_mult algebra_simps)
  qed
qed

lemma length_dec_digits: "10 ^ k \<le> n \<Longrightarrow> n < 10 ^ Suc k \<Longrightarrow> length (dec_digits n) = Suc k"
proof -
  assume a: "10 ^ k \<le> n" "n < 10 ^ Suc k"
  let ?l = "length (dec_digits n)"
  have "0 < n" using a(1) by (meson le_less_trans less_le_trans zero_less_numeral zero_less_power le0)
  then have "10 ^ (?l - 1) \<le> n" "n < 10 ^ ?l" using dec_digits_length by blast+
  then have "(10 :: nat) ^ (?l - 1) < 10 ^ Suc k" "(10 :: nat) ^ k < 10 ^ ?l" using a by linarith+
  from this [THEN power_less_imp_less_exp [rotated]] have "?l - 1 < Suc k" "k < ?l" by simp_all
  then show ?thesis by simp
qed

lemma dec_digits_shift: "0 < n \<Longrightarrow> dec_digits (n * 10 ^ k) = dec_digits n @ replicate k CHR ''0''"
proof (induction k)
  case (Suc k)
  then have "\<not> n * 10 ^ Suc k < 10" by simp
  then have "dec_digits (n * 10 ^ Suc k) = dec_digits (n * 10 ^ k) @ [digit_char 0]"
    by (subst dec_digits.simps) (simp add: mult.assoc [symmetric])
  then show ?case using Suc by (simp add: digit_chars replicate_append_same)
qed simp

section \<open>Whole numbers\<close>

lemma with_frac_zeros: "with_frac a (replicate k CHR ''0'') = a"
  by (simp add: with_frac_def Let_def dropWhile_replicate)

text \<open>A common factor does not matter.\<close>

lemma g_text_scale:
  assumes "0 < c"
  shows "g_text (p * c) (q * c) = g_text p q"
proof -
  have e: "p * c * 10 ^ k = p * 10 ^ k * c" "q * c * 10 ^ k = q * 10 ^ k * c" for k by (simp_all add: algebra_simps)
  have "dec_exponent (p * c) (q * c) = dec_exponent p q" using assms by (simp add: dec_exponent_def e)
  moreover have "sig_digits (p * c) (q * c) x = sig_digits p q x" for x
    unfolding sig_digits_def e rne_scale [OF assms] by (rule refl)
  ultimately show ?thesis using assms by (simp add: g_text_def g_round_def)
qed

lemma g_text_whole:
  assumes "n < 10 ^ 6"
  shows "g_text n 1 = dec_digits n"
proof (cases "n = 0")
  case True
  then show ?thesis by (simp add: g_text_def dec_digits.simps digit_chars)
next
  case False
  let ?l = "length (dec_digits n)"
  have l: "10 ^ (?l - 1) \<le> n" "n < 10 ^ ?l" using dec_digits_length False by blast+
  have "(10 :: nat) ^ (?l - 1) < 10 ^ 6" using l(1) assms by linarith
  from this [THEN power_less_imp_less_exp [rotated]] have "?l - 1 < 6" by simp
  moreover have pos: "0 < ?l" by simp
  ultimately have k: "?l - 1 \<le> 5" by simp
  let ?k = "5 - (?l - 1)"
  have "dec_exponent n 1 = int ?l - 1" using False by (simp add: dec_exponent_def)
  then have x: "dec_exponent n 1 = int (?l - 1)" using pos by linarith
  have "n * 10 ^ ?k < 10 ^ ?l * 10 ^ ?k" using l(2) by simp
  also have "\<dots> = 10 ^ (?l + ?k)" by (simp only: power_add)
  also have "?l + ?k = 6" using k pos by linarith
  finally have small: "n * 10 ^ ?k < 10 ^ 6" .
  have s: "sig_digits n 1 (int (?l - 1)) = n * 10 ^ ?k"
    using k rne_exact [of 1 "n * 10 ^ ?k"] by (simp add: sig_digits_def nat_diff_distrib')
  have r: "g_round n 1 = (n * 10 ^ ?k, int (?l - 1))" unfolding g_round_def x Let_def s using small by auto
  have "take ?l (dec_digits n @ zs) = dec_digits n" "drop ?l (dec_digits n @ zs) = zs" for zs by simp_all
  moreover have "nat (int (?l - 1)) + 1 = ?l" "\<not> int (?l - 1) < - 4" "\<not> 6 \<le> int (?l - 1)" "0 \<le> int (?l - 1)" using pos k by simp_all
  ultimately show ?thesis
    using False by (simp only: g_text_def r Let_def prod.case if_False if_True dec_digits_shift [of n] simp_thms with_frac_zeros)
qed

lemma d_of_nat_fields:
  assumes "n < 2 ^ 53"
  shows "mag_val (d_mag (d_of_nat n)) = n * one_units" "\<not> d_sign (d_of_nat n)" "\<not> isnan (d_of_nat n)" "\<not> isinf (d_of_nat n)"
proof -
  have "isfinite (d_of_nat n)" using d_of_nat_exact(2) [OF assms] by (simp add: amount_ok_def)
  then show "\<not> isnan (d_of_nat n)" "\<not> isinf (d_of_nat n)" by (simp_all add: isfinite_not)
  show s: "\<not> d_sign (d_of_nat n)" using d_of_nat_exact(2) [OF assms] by (simp add: amount_ok_def)
  have "int (mag_val (d_mag (d_of_nat n))) = int (n * one_units)"
    using d_of_nat_exact(1) [OF assms] s by (simp add: d_val_def)
  then show "mag_val (d_mag (d_of_nat n)) = n * one_units" by (simp only: of_nat_eq_iff)
qed

lemma double_text_nat:
  assumes "n < 2 ^ 53"
  shows "double_text (d_of_nat n) = g_text n 1"
  using d_of_nat_fields [OF assms] g_text_scale [of one_units n 1] by (simp add: double_text_def one_units_def)

lemma double_text_small: "n < 10 ^ 6 \<Longrightarrow> double_text (d_of_nat n) = dec_digits n"
  using double_text_nat [of n] g_text_whole [of n] by simp


section \<open>Capacities\<close>

primrec join :: "string \<Rightarrow> string list \<Rightarrow> string" where
  "join sep [] = ''''"
| "join sep (s # ss) = (if ss = [] then s else s @ sep @ join sep ss)"

definition entry_text :: "Dimension \<times> double \<Rightarrow> string" where
  "entry_text e = dimensionName (fst e) @ ''='' @ double_text (snd e)"

lemma Capacity_text_join: "Capacity_text c = ''{'' @ join '', '' (map entry_text (om_entries c)) @ ''}''"
proof -
  let ?step = "\<lambda>(d, v) (first, os). (False, os @ (if first then '''' else '', '') @ dimensionName d @ ''='' @ double_text v)"
  have "snd (fold ?step es (False, os)) = os @ concat (map (\<lambda>e. '', '' @ entry_text e) es)" for es os
    by (induction es arbitrary: os) (auto simp: entry_text_def)
  moreover have "concat (map (\<lambda>e. '', '' @ entry_text e) es) = (if es = [] then '''' else '', '' @ join '', '' (map entry_text es))" for es
    by (induction es) auto
  ultimately have "snd (fold ?step es (True, os)) = os @ join '', '' (map entry_text es)" for es os
    by (cases es) (auto simp: entry_text_def)
  then show ?thesis by (simp add: Capacity_text_def)
qed

text \<open>Six digits are fewer than a byte count has: amounts that differ by a byte are printed alike.\<close>

lemma byte_amounts_lose_digits:
  "double_text (d_of_nat (16 * 2 ^ 30)) = ''1.71799e+10''" "double_text (d_of_nat (16 * 2 ^ 30 + 1)) = ''1.71799e+10''"
  by (simp_all add: double_text_nat g_text_def g_round_def dec_exponent_def sig_digits_def rne_def with_frac_def
      exponent_text_def dec_digits.simps digit_chars del: One_nat_def)
    (simp_all add: Let_def)

end
