(* ===== verification/Calendar.thy ===== *)
theory Calendar
  imports Reference Model_Search Model_Headroom Durability
begin

text \<open>
  What a model seeded with the reference calendar answers (\<open>adapters/reference.cpp\<close>): its view, the fit of the demands that
  \<open>makeDemand\<close> builds, now and with a resource removed, its headroom, and that it can be saved. The programs that
  print these answers rest on it.
\<close>

section \<open>The seeded model\<close>

definition seeded :: "CapacityModel \<Rightarrow> bool" where
  "seeded m \<longleftrightarrow> currentResources m = seed_resources \<and> om_entries (m_resources m) = map (\<lambda>r. (res_id r, r)) seed_resources \<and>
     m_reservations m = [seed_reservation] \<and> m_releases m = [seed_release] \<and> m_sources m = seed_sources \<and>
     m_epoch m = Generation 1 \<and> m_forecastHistory m = [] \<and> undrained m"

lemma seeded_model: "\<exists>m. seedReferenceModel CapacityModel_new = Inr m \<and> seeded m"
  using seed_model by (auto simp: seeded_def) (auto simp: CapacityModel_new_def setEpoch_def)

section \<open>Built demands\<close>

text \<open>A demand for \<open>n\<close> accelerators on \<open>k\<close> devices, and for a contiguous block on one of them if one is named.\<close>

definition made_demand :: "WorkloadDemand \<Rightarrow> nat \<Rightarrow> nat \<Rightarrow> ByteCount option \<Rightarrow> bool" where
  "made_demand d n k block \<longleftrightarrow> demand_valid d \<and> cap_rep (dm_requirements d) ((\<lambda>_. 0)(AcceleratorCount := n)) \<and>
     req_ok (dm_requirements d) \<and> unat (dc_value (dm_minAccelerators d)) = k \<and>
     block = (if dm_requiresContiguousVram d then Some (dm_minContiguousVram d) else None) \<and>
     dm_topologyGroupSize d = None \<and> dm_allowedClasses d = [] \<and> dm_requiredCapability d = [] \<and>
     dm_maxAcceptableFragmentation d = None \<and> dm_sloHeadroomRequirement d = frac_default"

lemma makeDemand_made:
  assumes "sid_valid i" and "gen_valid g" and "0 < n" and "n < 2 ^ 53" and "0 < k" and "k < 2 ^ 64" and "c \<longrightarrow> b \<noteq> bc_zero"
  shows "\<exists>d. makeDemand i g (d_of_nat n) (DeviceCount (of_nat k)) c b = Inr d \<and> made_demand d n k (if c then Some b else None)"
proof -
  let ?req = "setAccelerators (DeviceCount (of_nat n)) om_empty"
  have n: "unat (of_nat n :: u64) = n" and k: "unat (of_nat k :: u64) = k" using assms by (simp_all add: unat_of_nat)
  have u: "d_to_u64 (d_of_nat n) = Some (of_nat n)" using d_of_nat_to_u64 [of n] assms(4) by simp
  have w: "?req = whole [(AcceleratorCount, n)]"
    using n assms(3,4) by (simp add: setAccelerators_def d_of_u64_def cap_set_whole whole_single)
  have "cap_rep ?req ((\<lambda>_. 0)(AcceleratorCount := n))"
    using setAccelerators_rep [OF cap_rep_empty, of "DeviceCount (of_nat n)"] n assms(4) by simp
  moreover have "req_ok ?req" unfolding w by (rule req_ok_single) (use assms in simp_all)
  moreover have "(of_nat k :: u64) \<noteq> 0" using k assms(5) by auto
  ultimately show ?thesis
    using assms k by (simp add: makeDemand_def u made_demand_def WorkloadDemand_default_def demand_valid_def)
qed

lemma fit_message:
  "fz_outcome (evaluateNow v d) = FitNow \<Longrightarrow> bn_message (fz_bottleneck (evaluateNow v d)) = ''workload fits in current capacity''"
  unfolding evaluateNow_def headroom_or_fit_def refuse_def Let_def by (auto split: if_splits)

definition block_available :: "FleetView \<Rightarrow> ByteCount option \<Rightarrow> bool" where
  "block_available v block \<longleftrightarrow> (case block of None \<Rightarrow> True
     | Some b \<Rightarrow> \<exists>dev \<in> set (fv_devices v). fr_shapeSatisfiable (analyzeDeviceMemory (dev_freeBlocks dev) b))"

text \<open>A view of healthy devices with enough accelerators fits it unless there are too few devices or no large enough block.\<close>

lemma made_demand_outcome:
  assumes "made_demand d n k block" and "fv_freshness v = Fresh"
    and "\<forall>dev \<in> set (fv_devices v). dev_health dev = Healthy \<and> \<not> dev_drained dev"
    and "cap_rep (effective_capacity v) f" and "length (fv_devices v) < k \<or> n \<le> f AcceleratorCount"
  shows "fz_outcome (evaluateNow v d) =
     (if length (fv_devices v) < k then NoFitCapacity else if \<not> block_available v block then NoFitFragmentation else FitNow)"
proof -
  note c = assms(1) [unfolded made_demand_def]
  have u: "usable_for v d = fv_devices v"
    using assms(3) c by (auto simp: usable_for_def deviceCurrentlyUsable_def deviceCompatible_def intro!: filter_True)
  have "length (fv_devices v) < k \<or> cap_satisfies (effective_capacity v) (dm_requirements d)"
    using cap_rep_satisfies [OF assms(4) c [THEN conjunct2, THEN conjunct1]] assms(5) by auto
  moreover have "\<not> d_lt d_zero (frac_value (frac_default :: CapacityFraction))" by (simp add: frac_default_def d_lt_def)
  moreover have "contiguous_ok v d \<longleftrightarrow> block_available v block"
    using c u by (auto simp: contiguous_ok_def block_available_def)
  ultimately show ?thesis
    using c assms(2) by (auto simp: evaluateNow_outcome u topology_ok_def fragmentation_ok_def slo_ok_def)
qed

section \<open>The view\<close>

lemma view_undrained:
  assumes "buildView m now = Inr v" and "undrained m" and "d \<in> set (fv_devices v)"
  shows "\<not> dev_drained d"
proof -
  note e = buildView_effect [OF assms(1)]
  have "find_by dev_id (fv_devices v) (dev_id d) = Some d" using e assms(3) by (intro find_by_distinct) auto
  then obtain r where "view_device m r = Inr d"
    using e by (auto simp: index_of_def device_entry_def split: option.splits sum.splits)
  then show ?thesis
    using assms(2) by (auto simp: view_device_def undrained_def Let_def DeviceInfo_default_def split: option.splits)
qed

lemma seeded_effective:
  "fv_now v = 0 \<Longrightarrow> fv_reservations v = [seed_reservation] \<Longrightarrow> effective_capacity v = fv_available v"
  by (simp add: effective_capacity_def seed_reservation_def iv_containsPoint_def)

lemma seeded_devices:
  assumes "seeded m" and "buildView m 0 = Inr v"
  shows "dev_id ` set (fv_devices v) = {StrongId 1, StrongId 2, StrongId 3, StrongId 4}" and "length (fv_devices v) = 4"
    and "dev \<in> set (fv_devices v) \<Longrightarrow> \<exists>r \<in> set seed_resources. res_deviceId r = dev_id dev \<and> dev_freeBlocks dev = res_freeBlocks r \<and>
       dev_health dev = Healthy \<and> \<not> dev_drained dev"
proof -
  note s = assms(1) [unfolded seeded_def] and b = buildView_evidence [OF assms(2)]
  have devs: "\<forall>d \<in> set (fv_devices v). \<exists>r. find (\<lambda>r. res_deviceId r = dev_id d) (rev (currentResources m)) = Some r \<and>
      dev_health d = res_health r \<and> dev_nodeId d = res_nodeId r \<and> dev_freeBlocks d = res_freeBlocks r"
    using b by (elim conjE)
  show ids: "dev_id ` set (fv_devices v) = {StrongId 1, StrongId 2, StrongId 3, StrongId 4}"
    using b s by (auto simp: seed_resources_def)
  have "length (fv_devices v) = card (dev_id ` set (fv_devices v))"
    using b by (metis distinct_card length_map set_map)
  then show "length (fv_devices v) = 4" by (simp add: ids)
  assume d: "dev \<in> set (fv_devices v)"
  obtain r where r: "find (\<lambda>r. res_deviceId r = dev_id dev) (rev (currentResources m)) = Some r" "dev_health dev = res_health r"
      "dev_freeBlocks dev = res_freeBlocks r"
    using bspec [OF devs d] by blast
  have "r \<in> set seed_resources" "res_deviceId r = dev_id dev"
    using find_in_set [OF r(1)] r(1) s by (auto simp: find_Some_iff)
  moreover have "res_health r = Healthy" using calculation(1) by (auto simp: seed_resources_def)
  moreover have "\<not> dev_drained dev" using view_undrained [OF assms(2) _ d] s by blast
  ultimately show "\<exists>r \<in> set seed_resources. res_deviceId r = dev_id dev \<and> dev_freeBlocks dev = res_freeBlocks r \<and>
       dev_health dev = Healthy \<and> \<not> dev_drained dev"
    using r by auto
qed

lemma one_block: "fr_shapeSatisfiable (analyzeDeviceMemory [x] b) \<longleftrightarrow> b = bc_zero \<or> b \<le> x"
proof -
  have "bc_nat x \<le> u64_cap" using unsigned_less [of "bc_value x", where ?'a = nat] by (simp add: bc_nat_def u64_cap_def)
  then show ?thesis using deviceMemory_correct [of "[x]" b] by simp
qed

text \<open>The largest block is the first device's.\<close>

lemma seeded_blocks:
  assumes "seeded m" and "buildView m 0 = Inr v"
  shows "block_available v (Some b) \<longleftrightarrow> b \<le> gib 16"
proof -
  note d = seeded_devices [OF assms]
  have le: "gib 12 \<le> gib 16" "gib 8 \<le> gib 16" "gib 4 \<le> gib 16" "bc_zero \<le> x" for x
    by (simp_all add: gib_def less_eq_ByteCount_def push_bit_eq_mult bc_zero_def)
  have blocks: "\<exists>f \<in> {16, 12, 8, 4}. res_freeBlocks r = [gib f]" if "r \<in> set seed_resources" for r
    using that by (auto simp: seed_resources_def reference_resource_def makeResource_def)
  have "b \<le> gib 16" if "dev \<in> set (fv_devices v)" "fr_shapeSatisfiable (analyzeDeviceMemory (dev_freeBlocks dev) b)" for dev
    using d(3) [OF that(1)] blocks that(2) le by (fastforce simp: one_block intro: order_trans)
  moreover have "\<exists>dev \<in> set (fv_devices v). dev_freeBlocks dev = [gib 16]"
  proof -
    have "StrongId 1 \<in> dev_id ` set (fv_devices v)" using d(1) by simp
    then obtain dev where dev: "dev \<in> set (fv_devices v)" "dev_id dev = StrongId 1" by force
    then show ?thesis
      using d(3) [OF dev(1)] by (intro bexI [OF _ dev(1)]) (auto simp: seed_resources_def reference_resource_def makeResource_def)
  qed
  ultimately show ?thesis
    by (auto simp: block_available_def) (metis one_block)
qed

lemma seeded_view:
  assumes "seeded m"
  shows "\<exists>v. buildView m 0 = Inr v \<and> cap_rep (fv_available v) ((\<lambda>_. 0)(VramBytes := 40 * 2 ^ 30, AcceleratorCount := 4)) \<and>
     cap_rep (fv_nominal v) ((\<lambda>_. 0)(VramBytes := 48 * 2 ^ 30, AcceleratorCount := 4)) \<and>
     cap_rep (fv_currentUse v) ((\<lambda>_. 0)(VramBytes := 8 * 2 ^ 30)) \<and> cap_rep (fv_committed v) (\<lambda>_. 0) \<and>
     fv_resources v = seed_resources \<and> fv_reservations v = [seed_reservation] \<and> fv_now v = 0 \<and> fv_freshness v = Fresh \<and>
     length (fv_devices v) = 4 \<and> (\<forall>dev \<in> set (fv_devices v). dev_health dev = Healthy \<and> \<not> dev_drained dev)"
proof -
  note s = assms [unfolded seeded_def]
  have cur: "currentResources m = seed_resources" "m_sources m = seed_sources" using s by simp_all
  note w = seed_fleet [OF cur(2,1)]
  obtain v where v: "buildView m 0 = Inr v" "cap_rep (fv_available v) (fleet_free seed_F m)"
      "cap_rep (fv_committed v) (fleet_total (\<lambda>_ _. 0) m)" "cap_rep (fv_nominal v) (fleet_total seed_N m)"
      "cap_rep (fv_currentUse v) (\<lambda>d. fleet_total seed_N m d - fleet_free seed_F m d - fleet_total (\<lambda>_ _. 0) m d - fleet_total (\<lambda>_ _. 0) m d)"
    using buildView_rep [OF w(1), of 0] by blast
  have total: "fleet_total seed_N m = (\<lambda>_. 0)(VramBytes := 48 * 2 ^ 30, AcceleratorCount := 4)"
    using cur by (auto simp: fleet_total_def seed_resources_def seed_N_def one_device_def gib_small fun_eq_iff)
  have use: "(\<lambda>d. fleet_total seed_N m d - fleet_free seed_F m d - fleet_total (\<lambda>_ _. 0) m d - fleet_total (\<lambda>_ _. 0) m d) =
      (\<lambda>_. 0)(VramBytes := 8 * 2 ^ 30)"
    using cur by (auto simp: w(2) fleet_total_def seed_resources_def seed_N_def one_device_def gib_small fun_eq_iff)
  note e = buildView_effect [OF v(1)] and b = buildView_evidence [OF v(1)]
  have dev: "\<forall>dev \<in> set (fv_devices v). dev_health dev = Healthy \<and> \<not> dev_drained dev" and len: "length (fv_devices v) = 4"
    using seeded_devices(3) [OF assms v(1)] seeded_devices(2) [OF assms v(1)] by blast+
  have "resource_current m (hd seed_resources)" "hd seed_resources \<in> set seed_resources"
    using seed_current [OF cur(2)] by (simp_all add: seed_resources_def)
  then have fresh: "fv_freshness v = Fresh" using b cur(1) by metis
  have rest: "fv_resources v = seed_resources" "fv_reservations v = [seed_reservation]" "fv_now v = 0" using e s by simp_all
  have "fleet_total (\<lambda>_ _. 0) m = (\<lambda>_. 0)" by (simp add: fleet_total_def)
  then have committed: "cap_rep (fv_committed v) (\<lambda>_. 0)" using v(3) by (simp only:)
  note current = v(5) [unfolded use] and nominal = v(4) [unfolded total] and available = v(2) [unfolded w(2)]
  show ?thesis by (intro exI [of _ v] conjI) (fact v(1) available nominal current committed rest fresh len dev)+
qed

lemma seeded_fits:
  assumes "seeded m" and "made_demand d n k block" and "n \<le> 4"
  shows "\<exists>r. queryFeasibilityNow m d = Inr r \<and>
     fz_outcome r = (if 4 < k then NoFitCapacity else if \<exists>b. block = Some b \<and> \<not> b \<le> gib 16 then NoFitFragmentation else FitNow) \<and>
     (fz_outcome r = FitNow \<longrightarrow> bn_message (fz_bottleneck r) = ''workload fits in current capacity'')"
proof -
  obtain v where v: "buildView m 0 = Inr v" "cap_rep (fv_available v) ((\<lambda>_. 0)(VramBytes := 40 * 2 ^ 30, AcceleratorCount := 4))"
      "fv_reservations v = [seed_reservation]" "fv_now v = 0" "fv_freshness v = Fresh" "length (fv_devices v) = 4"
      "\<forall>dev \<in> set (fv_devices v). dev_health dev = Healthy \<and> \<not> dev_drained dev"
    using seeded_view [OF assms(1)] by blast
  have "cap_rep (effective_capacity v) ((\<lambda>_. 0)(VramBytes := 40 * 2 ^ 30, AcceleratorCount := 4))"
    using v(2) by (simp only: seeded_effective [OF v(4,3)])
  note o = made_demand_outcome [OF assms(2) v(5,7) this]
  have "block_available v block \<longleftrightarrow> \<not> (\<exists>b. block = Some b \<and> \<not> b \<le> gib 16)"
    using seeded_blocks [OF assms(1) v(1)] by (cases block) (simp_all add: block_available_def)
  then show ?thesis using o assms(3) v(6) fit_message by (simp add: queryFeasibilityNow_def v(1))
qed

lemma cap_has_set: "cap_has (cap_set d x c) e \<Longrightarrow> e = d \<or> cap_has c e"
  by (auto simp: cap_set_def cap_setAmount_def split: if_splits)

lemma seeded_dimensions:
  "\<forall>r \<in> set seed_resources. \<forall>e. cap_has (res_nominal r) e \<or> cap_has (res_free r) e \<or> cap_has (res_committed r) e \<or>
     cap_has (res_unavailable r) e \<longrightarrow> e \<in> {VramBytes, AcceleratorCount}"
  by (auto simp: seed_resources_def reference_resource_def makeResource_def ResourceInfo_default_def setVram_def setAccelerators_def
      dest!: cap_has_set)


text \<open>The headroom the model reports: the free capacity less what is in use, and less the demand when it asks for headroom.\<close>

lemma seeded_headroom:
  assumes "seeded m" and "cap_rep (dm_requirements d) ((\<lambda>_. 0)(AcceleratorCount := n))" and "req_ok (dm_requirements d)" and "n < 4"
  shows "\<exists>h. queryHeadroom m d mode = Inr h \<and> \<not> hr_capacityConstrained h \<and> cap_amount (hr_conservative h) AcceleratorCount =
     d_of_nat (4 - (if d_lt d_zero (frac_value (dm_sloHeadroomRequirement d)) then n else 0))"
proof -
  let ?av = "(\<lambda>_. 0)(VramBytes := 40 * 2 ^ 30, AcceleratorCount := 4) :: Dimension \<Rightarrow> nat"
    and ?use = "(\<lambda>_. 0)(VramBytes := 8 * 2 ^ 30) :: Dimension \<Rightarrow> nat" and ?req = "(\<lambda>_. 0)(AcceleratorCount := n) :: Dimension \<Rightarrow> nat"
  obtain v where v: "buildView m 0 = Inr v" "cap_rep (fv_available v) ?av" "cap_rep (fv_currentUse v) ?use" "cap_rep (fv_committed v) (\<lambda>_. 0)"
    using seeded_view [OF assms(1)] by blast
  let ?slo = "d_lt d_zero (frac_value (dm_sloHeadroomRequirement d))"
  let ?margin = "if ?slo then dm_requirements d else om_empty"
  let ?h = "computeHeadroom (fv_available v) (fv_currentUse v) (fv_committed v) ?margin"
  have empty: "cap_rep om_empty (\<lambda>_. 0)" by (rule cap_rep_empty)
  have "cap_rep ?margin (if ?slo then ?req else (\<lambda>_. 0))" using assms(2) empty by simp
  note ex = headroom_exact [OF v(2-4) this empty]
  then have "cap_amount (hr_conservative ?h) AcceleratorCount = d_of_nat (4 - (if ?slo then n else 0))"
    by (simp add: cap_rep_def)
  moreover have "\<not> hr_capacityConstrained ?h"
  proof
    assume "hr_capacityConstrained ?h"
    then obtain e where e: "cap_has (fv_available v) e \<or> cap_has (fv_currentUse v) e \<or> cap_has (fv_committed v) e \<or> cap_has ?margin e"
        "?av e \<le> ?use e + 0 + (if ?slo then ?req else (\<lambda>_. 0)) e"
      using ex by blast
    have "e' = AcceleratorCount" if "cap_has (dm_requirements d) e'" for e'
    proof (rule ccontr)
      assume "e' \<noteq> AcceleratorCount"
      then have "cap_amount (dm_requirements d) e' = d_of_nat 0" using cap_repD(1) [OF assms(2), of e'] by simp
      then show False using assms(3) that by (auto simp: req_ok_def)
    qed
    moreover have "cap_has (fv_available v) e \<or> cap_has (fv_currentUse v) e \<or> cap_has (fv_committed v) e \<Longrightarrow>
        e \<in> {VramBytes, AcceleratorCount}"
      using seeded_dimensions assms(1) by (intro view_dimensions [OF v(1)]) (simp_all add: seeded_def)
    moreover have "\<not> cap_has om_empty e" by simp
    ultimately have "e \<in> {VramBytes, AcceleratorCount}" using e(1) by (metis insertCI)
    then show False using e(2) assms(4) by (auto split: if_splits)
  qed
  ultimately show ?thesis by (intro exI [of _ ?h]) (simp add: queryHeadroom_def v(1))
qed

section \<open>Without the third resource\<close>

definition without_third :: Scenario where
  "without_third = createScenario [ScenarioAction_default\<lparr>sa_kind := RemoveResource, sa_resource := StrongId 3\<rparr>]"

lemma seeded_without_third:
  assumes "seeded m"
  shows "\<exists>v w. buildView m 0 = Inr v \<and> applyScenario v without_third = Inr w \<and> fv_freshness w = Fresh \<and> length (fv_devices w) = 3 \<and>
     (\<forall>dev \<in> set (fv_devices w). dev_health dev = Healthy \<and> \<not> dev_drained dev) \<and>
     cap_rep (effective_capacity w) ((\<lambda>_. 0)(VramBytes := 32 * 2 ^ 30, AcceleratorCount := 3))"
proof -
  obtain v where v: "buildView m 0 = Inr v" "fv_resources v = seed_resources" "fv_reservations v = [seed_reservation]" "fv_now v = 0"
      "fv_freshness v = Fresh"
    using seeded_view [OF assms] by blast
  let ?rs = "filter (\<lambda>r. res_id r \<noteq> StrongId 3) seed_resources"
  have rs: "?rs = [reference_resource 1 1 (StrongId 1) (StrongId 101) 16 16, reference_resource 2 1 (StrongId 1) (StrongId 101) 16 12,
      reference_resource 4 2 (StrongId 2) (StrongId 202) 8 4]" by (simp add: seed_resources_def)
  obtain v1 where v1: "foldR apply_action (sc_actions without_third) v = Inr v1" "fv_resources v1 = ?rs"
      "fv_reservations v1 = [seed_reservation]" "fv_now v1 = 0" "fv_freshness v1 = Fresh"
    using v by (simp add: without_third_def createScenario_def apply_action_def ScenarioAction_default_def Let_def)
  let ?v0 = "v1\<lparr>fv_provenance := Synthetic, fv_devices := [], fv_available := om_empty,
       fv_nominal := om_empty, fv_committed := om_empty, fv_unavailable := om_empty\<rparr>"
  have reps: "\<forall>r \<in> set ?rs. cap_rep (res_nominal r) (seed_N r) \<and> cap_rep (res_free r) (seed_F r) \<and>
      cap_rep (res_committed r) (\<lambda>_. 0) \<and> cap_rep (res_unavailable r) (\<lambda>_. 0)"
    using seed_resources_rep by simp
  have N: "(\<Sum>r \<leftarrow> ?rs. seed_N r e) < 2 ^ 53"
    and F: "(\<Sum>r \<leftarrow> ?rs. seed_F r e) = ((\<lambda>_. 0)(VramBytes := 32 * 2 ^ 30, AcceleratorCount := 3)) e" for e
    unfolding rs by (simp_all add: seed_N_def seed_F_def one_device_def gib_small)
  then have bounds: "0 + (\<Sum>r \<leftarrow> ?rs. seed_N r e) < 2 ^ 53" "0 + (\<Sum>r \<leftarrow> ?rs. seed_F r e) < 2 ^ 53"
      "0 + (\<Sum>r \<leftarrow> ?rs. 0) < (2 ^ 53 :: nat)" for e
    using N [of e] by (simp_all add: F)
  obtain w1 where w1: "foldR aggregate_step ?rs ?v0 = Inr w1"
    using aggregate_total [where v = ?v0, OF reps _ _ _ _ bounds(1,2,3,3)] by (auto simp: cap_rep_empty)
  let ?w = "w1\<lparr>fv_currentUse := current_use w1\<rparr>"
  have scen: "applyScenario v without_third = Inr ?w" using v1 w1 by (simp add: applyScenario_def Let_def)
  note fr = aggregate_frame [OF w1] and ds = aggregate_devices [OF w1]
  have "filter resource_usable ?rs = ?rs"
    unfolding rs by (simp add: resource_usable_def reference_resource_def makeResource_def ResourceInfo_default_def)
  then have av: "cap_rep (fv_available ?w) (\<lambda>e. 0 + (\<Sum>r \<leftarrow> ?rs. seed_F r e))"
    using aggregate_available [OF w1, of "\<lambda>_. 0" seed_F] reps F by (simp add: cap_rep_empty)
  have maps: "map dev_health (fv_devices ?w) = map res_health ?rs" "map dev_drained (fv_devices ?w) = map res_drained ?rs" using ds by simp_all
  have all: "set (map res_health ?rs) = {Healthy}" "set (map res_drained ?rs) = {False}"
    unfolding rs by (simp_all add: reference_resource_def makeResource_def ResourceInfo_default_def)
  have "dev_health dev \<in> set (map dev_health (fv_devices ?w))" "dev_drained dev \<in> set (map dev_drained (fv_devices ?w))"
    if "dev \<in> set (fv_devices ?w)" for dev
    using that by simp_all
  then have dev: "\<forall>dev \<in> set (fv_devices ?w). dev_health dev = Healthy \<and> \<not> dev_drained dev"
    unfolding maps all by blast
  have len: "length (fv_devices ?w) = 3" using ds by (simp add: rs)
  have "cap_rep (effective_capacity ?w) ((\<lambda>_. 0)(VramBytes := 32 * 2 ^ 30, AcceleratorCount := 3))"
    using av fr v1 by (simp add: seeded_effective F fun_upd_def)
  then show ?thesis
    using v(1) scen dev len fr v1 by (intro exI [of _ v] exI [of _ ?w]) simp
qed

lemma seeded_scenario:
  assumes "seeded m" and "made_demand d n k None" and "n \<le> 3 \<or> 3 < k"
  shows "\<exists>r. evaluateScenario m without_third d mode 0 = Inr r \<and> fz_outcome r = (if 3 < k then NoFitCapacity else FitNow) \<and>
     (fz_outcome r = FitNow \<longrightarrow> bn_message (fz_bottleneck r) = ''WHAT_IF: workload fits in current capacity'')"
proof -
  obtain v w where v: "buildView m 0 = Inr v" "applyScenario v without_third = Inr w" and w: "fv_freshness w = Fresh"
      "length (fv_devices w) = 3" "\<forall>dev \<in> set (fv_devices w). dev_health dev = Healthy \<and> \<not> dev_drained dev"
      "cap_rep (effective_capacity w) ((\<lambda>_. 0)(VramBytes := 32 * 2 ^ 30, AcceleratorCount := 3))"
    using seeded_without_third [OF assms(1)] by blast
  have "fz_outcome (evaluateNow w d) = (if 3 < k then NoFitCapacity else FitNow)"
    using made_demand_outcome [OF assms(2) w(1,3,4)] w(2) assms(3) by (auto simp: block_available_def)
  then show ?thesis using fit_message [of w d] by (simp add: evaluateScenario_def v Let_def)
qed

section \<open>The saved file\<close>

lemma length_saved_bytes:
  "saveable_resource (i, r) \<Longrightarrow> length (saved_bytes (i, r)) =
     70 + length (architecture (res_capability r)) + length (className (res_capability r)) + length (capability (res_capability r))"
  by (auto simp: saveable_resource_def saved_bytes_def save_resource_def writeString_def writeBytes_def)

lemma seeded_saveable:
  assumes "seeded m"
  shows "saveable m"
proof -
  have cap: "architecture reference_cap = ''sm_120''" "className reference_cap = ''blackwell''" "capability reference_cap = ''fp8''"
    by (simp_all add: reference_cap_def)
  have c: "\<exists>v a. cap_vram (res_nominal (reference_resource i nd w b n f)) = Inr v \<and> cap_accelerators (res_nominal (reference_resource i nd w b n f)) = Inr a"
    if "n \<in> {4, 8, 12, 16}" "f \<in> {4, 8, 12, 16}" for i nd w b n f
  proof -
    have rep: "cap_rep (res_nominal (reference_resource i nd w b n f)) (one_device (gib n))" by (rule reference_resource_rep(1) [OF that])
    show ?thesis by (simp add: cap_rep_vram [OF rep] cap_rep_accelerators [OF rep])
  qed
  have ok: "saveable_resource (res_id r, r)" and len: "length (saved_bytes (res_id r, r)) = 88" if "r \<in> set seed_resources" for r
  proof -
    show "saveable_resource (res_id r, r)"
      using that c by (auto simp: seed_resources_def saveable_resource_def cap short_def)
    from length_saved_bytes [OF this] show "length (saved_bytes (res_id r, r)) = 88"
      using that by (auto simp: seed_resources_def cap)
  qed
  note s = assms [unfolded seeded_def]
  have res: "list_all saveable_resource (om_entries (m_resources m))" using s ok by (simp add: list_all_iff)
  have wires: "reservation_wire seed_reservation" "release_wire seed_release"
    using d_of_nat_exact(2) [of 2] d_of_nat_exact(2) [of 1] conf_lit_valid [of 10 7]
    by (simp_all add: reservation_wire_def release_wire_def seed_reservation_def seed_release_def one_unit_def delta_at_def
        iv_valid_def in_i64_def i64_min_def i64_max_def mkFraction_Inr conf_lit_def)
  have lens: "map (\<lambda>r. length (saved_bytes (res_id r, r))) seed_resources = map (\<lambda>r. 88) seed_resources"
    using len by (intro map_cong) simp_all
  have "length (concat (map saved_bytes (om_entries (m_resources m)))) = (\<Sum>r \<leftarrow> seed_resources. length (saved_bytes (res_id r, r)))"
    using s by (simp add: length_concat comp_def)
  then have "length (concat (map saved_bytes (om_entries (m_resources m)))) = 4 * 88"
    unfolding lens by (simp add: seed_resources_def)
  then have "sealable body" if "save_body m = Inr body" for body
    using save_body_bytes [OF res] that s
    by (auto simp: sealable_def kMaxFileBytes_def write_count_def save_reservation_def save_release_def)
  then show ?thesis
    using res wires s by (simp add: saveable_def om_size_def seed_resources_def)
qed

end
