(* ===== verification/Cfcli.thy ===== *)
theory Cfcli
  imports Calendar Console
begin

text \<open>
  The inspection tool (\<open>cli/cfcli.cpp\<close>): a new model is seeded with the reference calendar, queried, changed hypothetically,
  saved and loaded back. The lines it prints are returned; what the operating system does to the file is an argument.
\<close>

section \<open>The report\<close>

definition resource_line :: "ResourceInfo \<Rightarrow> fault + string" where
  "resource_line r =
     bindR (cap_vram (res_nominal r)) (\<lambda>total. bindR (cap_vram (res_free r)) (\<lambda>free.
       Inr (''  resource '' @ id_text (res_id r) @ '' gen '' @ generation_text (res_generation r) @
            '' dev '' @ id_text (res_deviceId r) @ '' vram '' @ u64_to_string (drop_bit 20 (bc_value total)) @
            '' MiB free '' @ u64_to_string (drop_bit 20 (bc_value free)) @ '' MiB'' @
            '' health '' @ HealthState_to_string (res_health r))))"

definition resource_lines :: "ResourceInfo list \<Rightarrow> fault + string list" where
  "resource_lines rs = foldR (\<lambda>r out. bindR (resource_line r) (\<lambda>l. Inr (out @ [l]))) rs []"

definition generation_line :: "ResourceId \<times> ResourceGeneration \<Rightarrow> string" where
  "generation_line p = ''  resource '' @ id_text (fst p) @ '' -> gen '' @ generation_text (snd p)"

definition outcome_lines :: "string \<Rightarrow> FeasibilityResult \<Rightarrow> string list" where
  "outcome_lines title r =
     (title @ Outcome_to_string (fz_outcome r)) #
     (if bn_message (fz_bottleneck r) \<noteq> [] then [''  reason: '' @ bn_message (fz_bottleneck r)] else [])"

definition earliest_line :: "EarliestFitResult \<Rightarrow> string" where
  "earliest_line ef = ''  found: '' @ (if ef_found ef then ''yes'' else ''no'') @
     (if ef_found ef then '' at t='' @ i64_to_string (toMillis (ef_start ef)) @ ''ms'' else '''')"

definition headroom_line :: "Headroom \<Rightarrow> string" where
  "headroom_line h = ''  capacityConstrained: '' @ (if hr_capacityConstrained h then ''yes'' else ''no'') @
     '' conservative accel: '' @ double_text (cap_amount (hr_conservative h) AcceleratorCount)"

definition cli_demand :: "fault + WorkloadDemand" where
  "cli_demand = makeDemand (StrongId 100) (Generation 1) (d_of_nat 3) (DeviceCount 3) False bc_zero"

definition cli_scenario :: Scenario where
  "cli_scenario = createScenario [ScenarioAction_default\<lparr>sa_kind := RemoveResource, sa_resource := StrongId 3\<rparr>]"

definition cli_path :: string where "cli_path = ''cfcli_state.cf''"

definition cfcli :: "WriteEnv \<Rightarrow> bool \<Rightarrow> files \<Rightarrow> fault + string list \<times> files" where
  "cfcli env readable fs =
     bindR (seedReferenceModel CapacityModel_new) (\<lambda>m.
     bindR (resource_lines (currentResources m)) (\<lambda>resources.
     bindR cli_demand (\<lambda>d.
     bindR (queryFeasibilityNow m d) (\<lambda>r.
     bindR (timeFromMillis 10000) (\<lambda>duration. bindR (timeFromMillis 60000) (\<lambda>horizon.
     bindR (queryEarliestFit m d Expected 0 duration horizon) (\<lambda>ef.
     bindR (mkFraction (d_lit 6 10)) (\<lambda>slo.
     bindR (queryHeadroom m (d\<lparr>dm_sloHeadroomRequirement := slo\<rparr>) Conservative) (\<lambda>h.
     bindR (evaluateScenario m cli_scenario d Expected 0) (\<lambda>sr.
     bindR (save env m cli_path fs) (\<lambda>(ok, fs').
     bindR (load readable CapacityModel_new cli_path fs') (\<lambda>(ok2, model2).
       Inr ([''Capacity Fabric cfcli (inspection tool)'', ''Adapter: '' @ description, '''', describe m, '''',
             ''--- Current resources ---''] @ resources @
            ['''', ''--- Generations ---''] @ map generation_line (om_entries (resourceGenerations m)) @
            ['''', ''--- Feasibility (demand: 3 accelerators) ---''] @ outcome_lines ''  outcome: '' r @
            ['''', ''--- Earliest fit ---'', earliest_line ef,
             '''', ''--- Headroom (SLO 0.6) ---'', headroom_line h,
             '''', ''--- Scenario: remove device 3 ---''] @ outcome_lines ''  WHAT_IF outcome: '' sr @
            ['''', ''--- Persistence ---'', ''  save: '' @ (if ok then ''ok'' else ''failed''),
             ''  load: '' @ (if ok2 then ''ok'' else ''failed'') @ '' recovered='' @ (if m_recovered model2 then ''yes'' else ''no'') @
             '' digest='' @ digest m], fs')))))))))))))"

section \<open>The lines\<close>

lemma resource_fields:
  "cap_vram (res_nominal (reference_resource i nd w b n f)) = Inr (gib n)"
  "cap_vram (res_free (reference_resource i nd w b n f)) = Inr (gib f)"
  if "n \<in> {4, 8, 12, 16}" "f \<in> {4, 8, 12, 16}" for n f
  using that gib_small cap_rep_vram [OF reference_resource_rep(1) [OF that]] cap_rep_vram [OF reference_resource_rep(2) [OF that]]
  by (auto simp: bc_of_def one_device_def gib_def)

lemmas number_text = u64_to_string_def dec_digits.simps digit_chars

lemma gib_text:
  "u64_to_string (drop_bit 20 (bc_value (gib 16))) = ''16384''" "u64_to_string (drop_bit 20 (bc_value (gib 12))) = ''12288''"
  "u64_to_string (drop_bit 20 (bc_value (gib 8))) = ''8192''" "u64_to_string (drop_bit 20 (bc_value (gib 4))) = ''4096''"
proof -
  have "drop_bit 20 (bc_value (gib 16)) = 16384" "drop_bit 20 (bc_value (gib 12)) = 12288"
      "drop_bit 20 (bc_value (gib 8)) = 8192" "drop_bit 20 (bc_value (gib 4)) = 4096"
    by (simp_all add: gib_def push_bit_eq_mult drop_bit_eq_div)
  then show "u64_to_string (drop_bit 20 (bc_value (gib 16))) = ''16384''" "u64_to_string (drop_bit 20 (bc_value (gib 12))) = ''12288''"
      "u64_to_string (drop_bit 20 (bc_value (gib 8))) = ''8192''" "u64_to_string (drop_bit 20 (bc_value (gib 4))) = ''4096''"
    by (simp_all add: number_text del: One_nat_def)
qed

lemma small_text:
  "u64_to_string 1 = ''1''" "u64_to_string 2 = ''2''" "u64_to_string 3 = ''3''" "u64_to_string 4 = ''4''"
  by (simp_all add: number_text del: One_nat_def)

lemma line_of_resource:
  assumes "n \<in> {4, 8, 12, 16}" "f \<in> {4, 8, 12, 16}"
  shows "resource_line (reference_resource i nd w b n f) =
     Inr (''  resource '' @ u64_to_string i @ '' gen 1 dev '' @ u64_to_string i @ '' vram '' @ u64_to_string (drop_bit 20 (bc_value (gib n))) @
       '' MiB free '' @ u64_to_string (drop_bit 20 (bc_value (gib f))) @ '' MiB health HEALTHY'')"
  using small_text(1)
  by (simp add: resource_line_def resource_fields [OF assms] id_text_def generation_text_def HealthState_to_string_def)

lemma digest_bytes: "u64_to_string (fnv1a (writeU64 1 @ writeU32 4 @ writeU32 1 @ writeU32 0)) = ''6216647138710517697''"
proof -
  have n: "[0 ..< 8] = [0, 1, 2, 3, 4, 5, 6, 7]" "[0 ..< 4] = [0, 1, 2, 3]" by (simp_all add: upt_rec)
  have b: "writeU64 1 = [1, 0, 0, 0, 0, 0, 0, 0]" "writeU32 4 = [4, 0, 0, 0]" "writeU32 1 = [1, 0, 0, 0]" "writeU32 0 = [0, 0, 0, 0]"
    by (simp_all add: writeU64_def writeU32_def le_bytes_def n drop_bit_eq_div)
  have "fnv1a (writeU64 1 @ writeU32 4 @ writeU32 1 @ writeU32 0) = 6216647138710517697"
    unfolding b by (simp add: fnv1a_def fnv_step_def fnv_seed_def)
  then show ?thesis by (simp add: number_text del: One_nat_def)
qed

lemma seeded_text:
  assumes "seeded m"
  shows "describe m = ''epoch=1 resources=4 reservations=1 releases=1''"
    and "resource_lines (currentResources m) = Inr
      [''  resource 1 gen 1 dev 1 vram 16384 MiB free 16384 MiB health HEALTHY'',
       ''  resource 2 gen 1 dev 2 vram 16384 MiB free 12288 MiB health HEALTHY'',
       ''  resource 3 gen 1 dev 3 vram 8192 MiB free 8192 MiB health HEALTHY'',
       ''  resource 4 gen 1 dev 4 vram 8192 MiB free 4096 MiB health HEALTHY'']"
    and "map generation_line (om_entries (resourceGenerations m)) =
      [''  resource 1 -> gen 1'', ''  resource 2 -> gen 1'', ''  resource 3 -> gen 1'', ''  resource 4 -> gen 1'']"
    and "digest m = ''6216647138710517697''"
proof -
  have "om_size (m_resources m) = 4" "length (m_reservations m) = 1" "length (m_releases m) = 1" "m_epoch m = Generation 1"
    using assms by (simp_all add: seeded_def om_size_def seed_resources_def)
  then show "describe m = ''epoch=1 resources=4 reservations=1 releases=1''" by (simp add: describe_def number_text del: One_nat_def)
  show "map generation_line (om_entries (resourceGenerations m)) =
      [''  resource 1 -> gen 1'', ''  resource 2 -> gen 1'', ''  resource 3 -> gen 1'', ''  resource 4 -> gen 1'']"
    using assms by (simp add: resourceGenerations_def seeded_def seed_resources_def less_StrongId_def generation_line_def id_text_def
        generation_text_def number_text del: One_nat_def)
  show "resource_lines (currentResources m) = Inr
      [''  resource 1 gen 1 dev 1 vram 16384 MiB free 16384 MiB health HEALTHY'',
       ''  resource 2 gen 1 dev 2 vram 16384 MiB free 12288 MiB health HEALTHY'',
       ''  resource 3 gen 1 dev 3 vram 8192 MiB free 8192 MiB health HEALTHY'',
       ''  resource 4 gen 1 dev 4 vram 8192 MiB free 4096 MiB health HEALTHY'']"
    using assms by (simp add: resource_lines_def seeded_def seed_resources_def line_of_resource gib_text small_text)
  show "digest m = ''6216647138710517697''"
    using assms digest_bytes by (simp add: digest_def seeded_def seed_resources_def write_count_def)
qed

section \<open>The answers\<close>

lemma cli_demand_made: "\<exists>d. cli_demand = Inr d \<and> made_demand d 3 3 None"
  using makeDemand_made [of "StrongId 100" "Generation 1" 3 3 False bc_zero]
  by (simp add: cli_demand_def sid_valid_def gen_valid_def kInvalidId_def)

lemma seeded_earliest:
  assumes "seeded m" and "made_demand d 3 3 None"
  shows "\<exists>r. queryEarliestFit m d Expected 0 10000000000 60000000000 = Inr r \<and> ef_found r \<and> ef_start r = 4000000000"
proof -
  let ?P = "projected seed_F seed_H seed_R m Expected" and ?Q = "(\<lambda>_. 0)(AcceleratorCount := 3) :: Dimension \<Rightarrow> nat"
  note s = assms(1) [unfolded seeded_def]
  have cur: "currentResources m = seed_resources" "m_sources m = seed_sources" "m_reservations m = [seed_reservation]"
      "m_releases m = [seed_release]" using s by simp_all
  note w = seed_fleet [OF cur(2,1)]
  have P: "?P t = (\<lambda>_. 0)(VramBytes := 40 * 2 ^ 30, AcceleratorCount := 4 + (if 10000000000 \<le> t then 1 else 0) -
      (if 1000000000 \<le> t \<and> t < 4000000000 then 2 else 0))" for t
  proof -
    have "iv_containsPoint (rsv_interval seed_reservation) t \<longleftrightarrow> 1000000000 \<le> t \<and> t < 4000000000"
      by (simp add: seed_reservation_def iv_containsPoint_def)
    moreover have "releaseTime seed_release Expected = 10000000000" by (simp add: releaseTime_def seed_release_def)
    ultimately show ?thesis
      by (intro ext) (simp add: projected_def w(2) cur held_at_def credited_at_def seed_counts seed_H_def seed_R_def)
  qed
  have dom: "search_domain 0 10000000000 60000000000" by (simp add: search_domain_def in_i64_def i64_min_def i64_max_def)
  have times: "distinct (map ev_time (mode_events (m_reservations m) (m_releases m) Expected))"
    using seed_counts by (simp add: cur mode_events_def reservation_events_def) (simp add: seed_reservation_def seed_release_def releaseTime_def)
  have pos: "0 < ?P t e" if "allowed_start 0 10000000000 60000000000 t" "0 < ?Q e" for t e
    using that(2) by (simp add: P split: if_splits)
  have q: "cap_rep (dm_requirements d) ?Q" "req_ok (dm_requirements d)" using assms(2) by (simp_all add: made_demand_def)
  obtain r where r: "queryEarliestFit m d Expected 0 10000000000 60000000000 = Inr r"
    and found: "ef_found r \<longrightarrow> covering_start ?P ?Q 0 10000000000 60000000000 (ef_start r)"
    and least: "\<forall>t. covering_start ?P ?Q 0 10000000000 60000000000 t \<longrightarrow> ef_found r \<and> ef_start r \<le> t"
    using queryEarliestFit_covering [OF w(1) seed_exact [OF cur(2,1,3,4)] q dom pos] times by blast
  have "covering_start ?P ?Q 0 10000000000 60000000000 4000000000"
    by (simp add: covering_start_def allowed_start_def covers_def P)
  then have le: "ef_found r" "ef_start r \<le> 4000000000" using least by blast+
  moreover have "\<not> ef_start r < 4000000000"
  proof
    assume lt: "ef_start r < 4000000000"
    have c: "covering_start ?P ?Q 0 10000000000 60000000000 (ef_start r)" using found le(1) by blast
    let ?u = "max (ef_start r) 1000000000"
    have "?u = ef_start r \<or> ef_start r < ?u \<and> ?u < ef_start r + 10000000000" using c by (auto simp: covering_start_def allowed_start_def)
    then have "?Q AcceleratorCount \<le> ?P ?u AcceleratorCount" using c unfolding covering_start_def covers_def by blast
    then show False using lt by (simp add: P split: if_splits)
  qed
  ultimately show ?thesis using r by (intro exI [of _ r]) simp
qed

lemma cli_headroom:
  assumes "seeded m" and "made_demand d 3 3 None"
  shows "\<exists>h. queryHeadroom m (d\<lparr>dm_sloHeadroomRequirement := BoundedFraction (d_lit 6 10)\<rparr>) Conservative = Inr h \<and>
     headroom_line h = ''  capacityConstrained: no conservative accel: 1''"
proof -
  have "amount_ok (d_lit 6 10)" by (rule d_lit_fraction) simp_all
  then have "\<not> isnan (d_lit 6 10)" by (simp add: amount_ok_def isfinite_not)
  moreover have "0 < d_key (d_lit 6 10)" by (simp add: d_eval d_key_def d_mag_def d_sign_def)
  ultimately have "d_lt d_zero (d_lit 6 10)" by (simp add: d_lt_def)
  moreover have "double_text (d_of_nat 1) = ''1''" by (simp add: double_text_small dec_digits.simps digit_chars del: One_nat_def)
  ultimately show ?thesis
    using seeded_headroom [OF assms(1), of "d\<lparr>dm_sloHeadroomRequirement := BoundedFraction (d_lit 6 10)\<rparr>" 3 Conservative] assms(2)
    by (auto simp: made_demand_def headroom_line_def)
qed

section \<open>Properties\<close>

text \<open>
  C18. The inspection tool prints the reference calendar. When its file can be written and read, the tool ends without a fault, prints exactly these
  lines, and changes no other file.
\<close>

theorem cfcli_report:
  "\<exists>fs'. cfcli WriteOk True fs = Inr
     ([''Capacity Fabric cfcli (inspection tool)'',
       ''Adapter: Standalone deterministic reference adapters (SYNTHETIC)'',
       '''',
       ''epoch=1 resources=4 reservations=1 releases=1'',
       '''',
       ''--- Current resources ---'',
       ''  resource 1 gen 1 dev 1 vram 16384 MiB free 16384 MiB health HEALTHY'',
       ''  resource 2 gen 1 dev 2 vram 16384 MiB free 12288 MiB health HEALTHY'',
       ''  resource 3 gen 1 dev 3 vram 8192 MiB free 8192 MiB health HEALTHY'',
       ''  resource 4 gen 1 dev 4 vram 8192 MiB free 4096 MiB health HEALTHY'',
       '''',
       ''--- Generations ---'',
       ''  resource 1 -> gen 1'',
       ''  resource 2 -> gen 1'',
       ''  resource 3 -> gen 1'',
       ''  resource 4 -> gen 1'',
       '''',
       ''--- Feasibility (demand: 3 accelerators) ---'',
       ''  outcome: FIT_NOW'',
       ''  reason: workload fits in current capacity'',
       '''',
       ''--- Earliest fit ---'',
       ''  found: yes at t=4000ms'',
       '''',
       ''--- Headroom (SLO 0.6) ---'',
       ''  capacityConstrained: no conservative accel: 1'',
       '''',
       ''--- Scenario: remove device 3 ---'',
       ''  WHAT_IF outcome: FIT_NOW'',
       ''  reason: WHAT_IF: workload fits in current capacity'',
       '''',
       ''--- Persistence ---'',
       ''  save: ok'',
       ''  load: ok recovered=yes digest=6216647138710517697''], fs') \<and>
     (\<forall>q. q \<noteq> cli_path \<longrightarrow> fs' q = fs q)"
proof -
  obtain m where m: "seedReferenceModel CapacityModel_new = Inr m" and s: "seeded m" using seeded_model by blast
  obtain d where d: "cli_demand = Inr d" and c: "made_demand d 3 3 None" using cli_demand_made by blast
  obtain r where r: "queryFeasibilityNow m d = Inr r" "fz_outcome r = FitNow" "bn_message (fz_bottleneck r) = ''workload fits in current capacity''"
    using seeded_fits [OF s c] by auto
  obtain ef where ef: "queryEarliestFit m d Expected 0 10000000000 60000000000 = Inr ef" "ef_found ef" "ef_start ef = 4000000000"
    using seeded_earliest [OF s c] by blast
  obtain h where h: "queryHeadroom m (d\<lparr>dm_sloHeadroomRequirement := BoundedFraction (d_lit 6 10)\<rparr>) Conservative = Inr h"
      "headroom_line h = ''  capacityConstrained: no conservative accel: 1''"
    using cli_headroom [OF s c] by blast
  obtain sr where sr: "evaluateScenario m cli_scenario d Expected 0 = Inr sr" "fz_outcome sr = FitNow"
      "bn_message (fz_bottleneck sr) = ''WHAT_IF: workload fits in current capacity''"
    using seeded_scenario [OF s c, of Expected] by (auto simp: cli_scenario_def without_third_def)
  obtain fs' where fs': "save WriteOk m cli_path fs = Inr (True, fs')" "\<forall>q. q \<noteq> cli_path \<longrightarrow> fs' q = fs q"
    using save_total [OF seeded_saveable [OF s]] by blast
  note load = load_saved [OF seeded_saveable [OF s] fs'(1)]
  have t: "timeFromMillis 10000 = Inr 10000000000" "timeFromMillis 60000 = Inr 60000000000"
    by (simp_all add: timeFromMillis_def mul64_def kNanosPerMilli_def in_i64_def i64_min_def i64_max_def)
  have slo: "mkFraction (d_lit 6 10) = Inr (BoundedFraction (d_lit 6 10) :: CapacityFraction)"
    using d_lit_fraction [of 10 6] one_ok amount_ok_key [of "d_lit 6 10"]
    by (simp add: mkFraction_Inr frac_valid_def d_le_def isfinite_simps)
  have "i64_to_string (toMillis 4000000000) = ''4000''"
    by (simp add: i64_to_string_def toMillis_def kNanosPerMilli_def dec_digits.simps digit_chars del: One_nat_def)
  then have el: "earliest_line ef = ''  found: yes at t=4000ms''" using ef by (simp add: earliest_line_def)
  have rec: "m_recovered (restored CapacityModel_new m)" by (simp add: restored_def)
  have ol: "outcome_lines title x = [title @ ''FIT_NOW'', ''  reason: '' @ bn_message (fz_bottleneck x)]"
    if "fz_outcome x = FitNow" "bn_message (fz_bottleneck x) \<noteq> []" for x title
    using that by (simp add: outcome_lines_def)
  show ?thesis
    unfolding cfcli_def m bindR_Inr seeded_text(2) [OF s] d r(1) t ef(1) slo h(1) sr(1) fs'(1) prod.case load
    using fs'(2) by (simp add: seeded_text(1,3,4) [OF s] ol r sr el h(2) rec description_def)
qed

theorem cfcli_report_witness:
  "\<exists>lines fs'. cfcli WriteOk True (\<lambda>_. None) = Inr (lines, fs') \<and> last lines = ''  load: ok recovered=yes digest=6216647138710517697'' \<and>
     fs' ''other'' = None"
proof -
  have "''other'' \<noteq> cli_path" by (simp add: cli_path_def)
  then show ?thesis using cfcli_report [of "\<lambda>_. None"] by (elim exE conjE) (intro exI conjI, assumption, simp_all)
qed

end
