(* ===== verification/Examples.thy ===== *)
theory Examples
  imports Calendar Console
begin

text \<open>
  The example programs (\<open>examples/example_capacity.cpp\<close>, \<open>example_forecast.cpp\<close>, \<open>example_scenario.cpp\<close>) and the downstream
  consumer of the installed package (\<open>consumer/main.cpp\<close>): each is the list of the lines it prints. What they print is
  the behaviour of the library that its authors show.
\<close>

section \<open>The programs\<close>

definition amount_line :: "string \<Rightarrow> double \<Rightarrow> string" where
  "amount_line title x = title @ printf_f 0 x"

definition example_capacity :: "fault + string list" where
  "example_capacity =
     bindR (seedReferenceModel CapacityModel_new) (\<lambda>m.
     bindR (buildView m 0) (\<lambda>view.
     bindR (makeDemand (StrongId 1) (Generation 1) (d_of_nat 1) (DeviceCount 1) True (ByteCount (push_bit 30 20))) (\<lambda>big.
     bindR (queryFeasibilityNow m big) (\<lambda>rBig.
     bindR (makeDemand (StrongId 2) (Generation 1) (d_of_nat 1) (DeviceCount 1) True (ByteCount (push_bit 30 8))) (\<lambda>small.
     bindR (queryFeasibilityNow m small) (\<lambda>rSmall.
     bindR (queryHeadroom m small Conservative) (\<lambda>h.
       Inr [amount_line ''nominal accelerators  : '' (cap_amount (fv_nominal view) AcceleratorCount),
            amount_line ''usable (current)      : '' (cap_amount (fv_available view) AcceleratorCount),
            amount_line ''committed (future)    : '' (cap_amount (fv_committed view) AcceleratorCount),
            ''20GiB contiguous demand: '' @ Outcome_to_string (fz_outcome rBig),
            ''8GiB contiguous demand : '' @ Outcome_to_string (fz_outcome rSmall),
            amount_line ''conservative headroom  : '' (cap_amount (hr_conservative h) AcceleratorCount)])))))))"

definition example_scenario :: "WriteEnv \<Rightarrow> bool \<Rightarrow> files \<Rightarrow> fault + string list \<times> files" where
  "example_scenario env readable fs =
     bindR (seedReferenceModel CapacityModel_new) (\<lambda>m.
     bindR (makeDemand (StrongId 1) (Generation 1) (d_of_nat 4) (DeviceCount 4) False bc_zero) (\<lambda>d.
     bindR (queryFeasibilityNow m d) (\<lambda>r.
     let scen = createScenario [ScenarioAction_default\<lparr>sa_kind := RemoveResource, sa_resource := StrongId 3\<rparr>];
         path = ''example_state.cf''
     in bindR (evaluateScenario m scen d WhatIf 0) (\<lambda>sr.
        bindR (save env m path fs) (\<lambda>(ok, fs').
        bindR (if \<not> ok then Inr []
               else bindR (load readable CapacityModel_new path fs') (\<lambda>(ok2, m2).
                 Inr (if ok2 then [''recover: ok (recovered='' @ (if m_recovered m2 then ''1'' else ''0'') @ '')''] else [])))
          (\<lambda>recovery.
            Inr ([''authoritative fit (4 devices): '' @ Outcome_to_string (fz_outcome r),
                  ''WHAT_IF (remove device 3)   : '' @ Outcome_to_string (fz_outcome sr),
                  ''authoritative resources     : '' @ dec_digits (length (currentResources m)) @ '' (unchanged) ''] @ recovery, fs')))))))"

text \<open>The pool both other programs publish, under one worker.\<close>

definition pool_resource :: ResourceInfo where
  "pool_resource = ResourceInfo_default\<lparr>res_id := StrongId 1, res_generation := Generation 1, res_fleetId := StrongId 1,
     res_nodeId := StrongId 1, res_deviceId := StrongId 1, res_health := Healthy, res_worker := StrongId 1, res_bootId := StrongId 1,
     res_provenance := Synthetic\<rparr>"

definition pool_registered :: CapacityModel where
  "pool_registered = snd (registerWorker CapacityModel_new (StrongId 1) (StrongId 1))"

definition forecast_pool :: ResourceInfo where
  "forecast_pool = pool_resource\<lparr>res_nominal := setAccelerators (DeviceCount 100) (res_nominal pool_resource),
     res_free := setAccelerators (DeviceCount 100) (res_free pool_resource)\<rparr>"

definition forecast_query :: "CapacityModel \<Rightarrow> WorkloadDemand \<Rightarrow> string \<Rightarrow> QueryMode \<Rightarrow> int \<Rightarrow> fault + string" where
  "forecast_query m d title mode millis =
     bindR (timeFromMillis millis) (\<lambda>t. bindR (queryFeasibility m d mode t) (\<lambda>r. Inr (title @ Outcome_to_string (fz_outcome r))))"

definition example_forecast :: "fault + string list" where
  "example_forecast =
     bindR (publishResource pool_registered forecast_pool) (\<lambda>(ok, m1).
     bindR (timeFromMillis 10000) (\<lambda>expected. bindR (timeFromMillis 8000) (\<lambda>early. bindR (timeFromMillis 12000) (\<lambda>late.
     bindR (makeRelease (StrongId 20) expected early late (d_of_nat 40) (conf_lit 7 10)) (\<lambda>rel.
     let m = snd (publishRelease m1 rel)
     in bindR (makeDemand (StrongId 1) (Generation 1) (d_of_nat 130) (DeviceCount 1) False bc_zero) (\<lambda>d.
        bindR (forecast_query m d ''conservative fit at T+11s: '' Conservative 11000) (\<lambda>q1.
        bindR (forecast_query m d ''conservative fit at T+12s: '' Conservative 12000) (\<lambda>q2.
        bindR (forecast_query m d ''expected fit at T+10s    : '' Expected 10000) (\<lambda>q3.
        bindR (forecast_query m d ''optimistic fit at T+8s   : '' Optimistic 8000) (\<lambda>q4.
        bindR (timeFromMillis 1000) (\<lambda>duration. bindR (timeFromMillis 60000) (\<lambda>horizon.
        bindR (queryEarliestFit m d Conservative 0 duration horizon) (\<lambda>ef.
          Inr ([''needs 130 units; pool 100 + release 40'', q1, q2, q3, q4] @
               (if ef_found ef then [''earliest conservative fit at t='' @ i64_to_string (toMillis (ef_start ef)) @ ''ms''] else [])))))))))))))))"

definition consumer_pool :: ResourceInfo where
  "consumer_pool = pool_resource\<lparr>
     res_nominal := setVram (ByteCount (push_bit 30 64)) (setAccelerators (DeviceCount 16) (res_nominal pool_resource)),
     res_free := setVram (ByteCount (push_bit 30 64)) (setAccelerators (DeviceCount 16) (res_free pool_resource))\<rparr>"

text \<open>The consumer's line, and what its main function returns.\<close>

definition consumer :: "fault + string \<times> int" where
  "consumer =
     bindR (publishResource pool_registered consumer_pool) (\<lambda>(ok, m).
     bindR (makeDemand (StrongId 1) (Generation 1) (d_of_nat 12) (DeviceCount 1) False bc_zero) (\<lambda>d.
     bindR (queryFeasibilityNow m d) (\<lambda>fit.
     bindR (queryHeadroom m d Conservative) (\<lambda>h.
       let left = cap_amount (hr_conservative h) AcceleratorCount
       in Inr (''consumer: fit='' @ Outcome_to_string (fz_outcome fit) @ '' conservative_headroom='' @ printf_f 0 left,
               if fz_outcome fit = FitNow \<and> d_le d_zero left then 0 else 1)))))"

section \<open>On the reference calendar\<close>

lemma printf_whole: "n < 2 ^ 53 \<Longrightarrow> printf_f 0 (d_of_nat n) = dec_digits n"
  using d_of_nat_fields [of n] rne_exact [of one_units n] by (simp add: printf_f_def Let_def one_units_def)

lemma digits_text:
  "dec_digits 0 = ''0''" "dec_digits 1 = ''1''" "dec_digits 4 = ''4''" "dec_digits 16 = ''16''" "dec_digits 12000 = ''12000''"
  by (simp_all add: dec_digits.simps digit_chars del: One_nat_def)

lemma example_capacity_prints:
  "example_capacity = Inr
     [''nominal accelerators  : 4'', ''usable (current)      : 4'', ''committed (future)    : 0'',
      ''20GiB contiguous demand: NO_FIT_FRAGMENTATION'', ''8GiB contiguous demand : FIT_NOW'', ''conservative headroom  : 4'']"
proof -
  obtain m where m: "seedReferenceModel CapacityModel_new = Inr m" and s: "seeded m" using seeded_model by blast
  obtain v where v: "buildView m 0 = Inr v" "cap_rep (fv_available v) ((\<lambda>_. 0)(VramBytes := 40 * 2 ^ 30, AcceleratorCount := 4))"
      "cap_rep (fv_nominal v) ((\<lambda>_. 0)(VramBytes := 48 * 2 ^ 30, AcceleratorCount := 4))" "cap_rep (fv_committed v) (\<lambda>_. 0)"
    using seeded_view [OF s] by blast
  have amounts: "cap_amount (fv_nominal v) AcceleratorCount = d_of_nat 4" "cap_amount (fv_available v) AcceleratorCount = d_of_nat 4"
      "cap_amount (fv_committed v) AcceleratorCount = d_of_nat 0"
    using v(2-4) by (simp_all add: cap_rep_def)
  have blocks: "\<not> ByteCount (push_bit 30 20) \<le> gib 16" "ByteCount (push_bit 30 8) \<le> gib 16" "ByteCount (push_bit 30 20) \<noteq> bc_zero"
      "ByteCount (push_bit 30 8) \<noteq> bc_zero"
    by (simp_all add: gib_def less_eq_ByteCount_def bc_zero_def push_bit_eq_mult)
  obtain big where big: "makeDemand (StrongId 1) (Generation 1) (d_of_nat 1) (DeviceCount 1) True (ByteCount (push_bit 30 20)) = Inr big"
      "made_demand big 1 1 (Some (ByteCount (push_bit 30 20)))"
    using makeDemand_made [of "StrongId 1" "Generation 1" 1 1 True "ByteCount (push_bit 30 20)"] blocks
    by (auto simp: sid_valid_def gen_valid_def kInvalidId_def simp del: push_bit_numeral)
  obtain small where small: "makeDemand (StrongId 2) (Generation 1) (d_of_nat 1) (DeviceCount 1) True (ByteCount (push_bit 30 8)) = Inr small"
      "made_demand small 1 1 (Some (ByteCount (push_bit 30 8)))"
    using makeDemand_made [of "StrongId 2" "Generation 1" 1 1 True "ByteCount (push_bit 30 8)"] blocks
    by (auto simp: sid_valid_def gen_valid_def kInvalidId_def simp del: push_bit_numeral)
  obtain r1 r2 where r: "queryFeasibilityNow m big = Inr r1" "fz_outcome r1 = NoFitFragmentation"
      "queryFeasibilityNow m small = Inr r2" "fz_outcome r2 = FitNow"
    using seeded_fits [OF s big(2)] seeded_fits [OF s small(2)] blocks by auto
  have "\<not> d_lt d_zero (frac_value (frac_default :: CapacityFraction))" by (simp add: frac_default_def d_lt_def)
  then obtain h where h: "queryHeadroom m small Conservative = Inr h" "cap_amount (hr_conservative h) AcceleratorCount = d_of_nat 4"
    using seeded_headroom [OF s, of small 1 Conservative] small(2) by (auto simp: made_demand_def)
  show ?thesis
    unfolding example_capacity_def m bindR_Inr v(1) big(1) small(1) r(1,3) h(1)
    using printf_whole [of 0] by (simp add: amount_line_def amounts r h(2) printf_whole digits_text)
qed

lemma example_scenario_prints:
  "\<exists>fs'. example_scenario WriteOk True fs = Inr
     ([''authoritative fit (4 devices): FIT_NOW'', ''WHAT_IF (remove device 3)   : NO_FIT_CAPACITY'',
       ''authoritative resources     : 4 (unchanged) '', ''recover: ok (recovered=1)''], fs') \<and>
     (\<forall>q. q \<noteq> ''example_state.cf'' \<longrightarrow> fs' q = fs q)"
proof -
  obtain m where m: "seedReferenceModel CapacityModel_new = Inr m" and s: "seeded m" using seeded_model by blast
  obtain d where d: "makeDemand (StrongId 1) (Generation 1) (d_of_nat 4) (DeviceCount 4) False bc_zero = Inr d"
      and made: "made_demand d 4 4 None"
    using makeDemand_made [of "StrongId 1" "Generation 1" 4 4 False bc_zero] by (auto simp: sid_valid_def gen_valid_def kInvalidId_def)
  obtain r where r: "queryFeasibilityNow m d = Inr r" "fz_outcome r = FitNow" using seeded_fits [OF s made] by auto
  obtain sr where sr: "evaluateScenario m without_third d WhatIf 0 = Inr sr" "fz_outcome sr = NoFitCapacity"
    using seeded_scenario [OF s made, of WhatIf] by auto
  obtain fs' where fs': "save WriteOk m ''example_state.cf'' fs = Inr (True, fs')" "\<forall>q. q \<noteq> ''example_state.cf'' \<longrightarrow> fs' q = fs q"
    using save_total [OF seeded_saveable [OF s]] by blast
  note load = load_saved [OF seeded_saveable [OF s] fs'(1)]
  have "m_recovered (restored CapacityModel_new m)" by (simp add: restored_def)
  moreover have "length (currentResources m) = 4" using s by (simp add: seeded_def seed_resources_def)
  ultimately show ?thesis
    unfolding example_scenario_def m bindR_Inr d r(1) Let_def without_third_def [symmetric] sr(1) fs'(1) prod.case load
    using fs'(2) r sr by (simp add: digits_text)
qed

section \<open>On a pool\<close>

lemma pool_fields [simp]:
  "res_id pool_resource = StrongId 1" "res_generation pool_resource = Generation 1" "res_deviceId pool_resource = StrongId 1"
  "res_health pool_resource = Healthy" "res_worker pool_resource = StrongId 1" "res_bootId pool_resource = StrongId 1"
  "res_nominal pool_resource = om_empty" "res_free pool_resource = om_empty" "res_committed pool_resource = om_empty"
  "res_unavailable pool_resource = om_empty"
  by (simp_all add: pool_resource_def ResourceInfo_default_def)

text \<open>A model that holds one pool, free as a whole, and releases \<open>es\<close>.\<close>

definition pool_model :: "CapacityModel \<Rightarrow> ResourceInfo \<Rightarrow> ReleaseEvent list \<Rightarrow> bool" where
  "pool_model m r es \<longleftrightarrow> currentResources m = [r] \<and> m_reservations m = [] \<and> m_releases m = es \<and> resource_current m r \<and> undrained m"

lemma examples_pool_published:
  assumes "cap_rep (res_nominal r) N" and "cap_rep (res_free r) N"
    and "res_id r = StrongId 1" "res_generation r = Generation 1" "res_worker r = StrongId 1" "res_bootId r = StrongId 1"
  shows "\<exists>m. publishResource pool_registered r = Inr (True, m) \<and> pool_model m r []"
proof -
  let ?s = "om_insert (StrongId 1) \<lparr>src_bootId = StrongId 1, src_alive = True\<rparr> om_empty :: (WorkerId, SourceState) omap"
  have reg: "m_sources pool_registered = ?s" "m_resources pool_registered = om_empty" "m_reservations pool_registered = []"
      "m_releases pool_registered = []" "m_resourceGen pool_registered = om_empty" "undrained pool_registered"
    by (simp_all add: pool_registered_def registerWorker_def CapacityModel_new_def setEpoch_def sid_valid_def kInvalidId_def undrained_def)
  have "isFreshBoot pool_registered (res_worker r) (res_bootId r)" using assms(5,6) reg(1) by (simp add: isFreshBoot_def)
  moreover have "\<not> gen_regresses (tracker_current (m_resourceGen pool_registered) (res_id r)) (res_generation r)"
    by (simp add: reg tracker_current_def gen_regresses_def gen_default_def gen_valid_def)
  ultimately obtain d where p: "publishResource pool_registered r = Inr (True, pool_registered\<lparr>
      m_resourceGen := om_insert (res_id r) (res_generation r) (m_resourceGen pool_registered),
      m_resources := om_insert (res_id r) r (m_resources pool_registered),
      m_devices := om_insert (res_deviceId r) d (m_devices pool_registered)\<rparr>)"
    using publish_accepted [OF _ _ assms(1,2)] by blast
  moreover note publish_undrained [OF p reg(6)]
  moreover have "isFreshBoot (pool_registered\<lparr>m_resourceGen := g, m_resources := rs, m_devices := ds\<rparr>) (StrongId 1) (StrongId 1)" for g rs ds
    by (simp add: isFreshBoot_def reg)
  ultimately show ?thesis
    using assms(5,6) reg
    by (simp add: pool_model_def currentResources_def resource_current_def isCurrentDynamic_def sid_valid_def kInvalidId_def)
qed

lemma pool_fleet:
  assumes "pool_model m r es" and "cap_rep (res_nominal r) N" and "cap_rep (res_free r) N"
    and "cap_rep (res_committed r) (\<lambda>_. 0)" and "cap_rep (res_unavailable r) (\<lambda>_. 0)" and "\<And>d. 2 * N d < 2 ^ 53"
  shows "whole_fleet (\<lambda>_. N) (\<lambda>_. N) (\<lambda>_ _. 0) (\<lambda>_ _. 0) m" and "fleet_free (\<lambda>_. N) m = N" and "fleet_total (\<lambda>_. N) m = N"
    and "fleet_total (\<lambda>_ _. 0) m = (\<lambda>_. 0)"
  using assms by (simp_all add: pool_model_def whole_fleet_def fleet_free_def fleet_total_def fun_eq_iff mult_2)

lemma pool_view:
  assumes "pool_model m r es" and "cap_rep (res_nominal r) N" and "cap_rep (res_free r) N" and "res_health r = Healthy"
    and "cap_rep (res_committed r) (\<lambda>_. 0)" and "cap_rep (res_unavailable r) (\<lambda>_. 0)" and "\<And>d. 2 * N d < 2 ^ 53"
  shows "\<exists>v. buildView m 0 = Inr v \<and> cap_rep (effective_capacity v) N \<and> fv_freshness v = Fresh \<and> length (fv_devices v) = 1 \<and>
     (\<forall>dev \<in> set (fv_devices v). dev_health dev = Healthy \<and> \<not> dev_drained dev)"
proof -
  note p = assms(1) [unfolded pool_model_def]
  note w = pool_fleet [OF assms(1-3,5-7)]
  obtain v where v: "buildView m 0 = Inr v" "cap_rep (fv_available v) N"
    using buildView_rep [OF w(1), of 0] unfolding w(2) by blast
  note e = buildView_effect [OF v(1)] and b = buildView_evidence [OF v(1)]
  have devs: "\<forall>d \<in> set (fv_devices v). \<exists>r. find (\<lambda>r. res_deviceId r = dev_id d) (rev (currentResources m)) = Some r \<and>
      dev_health d = res_health r \<and> dev_nodeId d = res_nodeId r \<and> dev_freeBlocks d = res_freeBlocks r"
    using b by (elim conjE)
  have "length (fv_devices v) = card (dev_id ` set (fv_devices v))" using b by (metis distinct_card length_map set_map)
  moreover have "dev_id ` set (fv_devices v) = {res_deviceId r}" using b p by auto
  ultimately have len: "length (fv_devices v) = 1" by simp
  have "dev_health dev = Healthy" if "dev \<in> set (fv_devices v)" for dev
    using bspec [OF devs that] p assms(4) by (auto split: if_splits)
  then have dev: "\<forall>dev \<in> set (fv_devices v). dev_health dev = Healthy \<and> \<not> dev_drained dev"
    using view_undrained [OF v(1)] p by blast
  have "fv_freshness v = Fresh" using b p by (metis list.set_intros(1))
  moreover have "effective_capacity v = fv_available v" using e p by (simp add: effective_capacity_def)
  ultimately show ?thesis using v len dev by auto
qed

lemma consumer_runs: "consumer = Inr (''consumer: fit=FIT_NOW conservative_headroom=16'', 0)"
proof -
  define N :: "Dimension \<Rightarrow> nat" where "N = (\<lambda>_. 0)(AcceleratorCount := 16, VramBytes := 64 * 2 ^ 30)"
  have "cap_rep (setVram (ByteCount (push_bit 30 64)) (setAccelerators (DeviceCount 16) om_empty)) N"
    using setVram_rep [OF setAccelerators_rep [OF cap_rep_empty, of "DeviceCount 16"], of "ByteCount (push_bit 30 64)"]
    by (simp add: push_bit_eq_mult N_def)
  then have reps: "cap_rep (res_nominal consumer_pool) N" "cap_rep (res_free consumer_pool) N"
      "cap_rep (res_committed consumer_pool) (\<lambda>_. 0)" "cap_rep (res_unavailable consumer_pool) (\<lambda>_. 0)"
      "res_health consumer_pool = Healthy"
    by (simp_all add: consumer_pool_def cap_rep_empty)
  obtain m where m: "publishResource pool_registered consumer_pool = Inr (True, m)" and p: "pool_model m consumer_pool []"
    using examples_pool_published [OF reps(1,2)] by (auto simp: consumer_pool_def)
  obtain d where d: "makeDemand (StrongId 1) (Generation 1) (d_of_nat 12) (DeviceCount 1) False bc_zero = Inr d"
      and made: "made_demand d 12 1 None"
    using makeDemand_made [of "StrongId 1" "Generation 1" 12 1 False bc_zero] by (auto simp: sid_valid_def gen_valid_def kInvalidId_def)
  have small: "2 * N e < 2 ^ 53" for e by (simp add: N_def)
  note w = pool_fleet [OF p reps(1-4) small]
  obtain v where v: "buildView m 0 = Inr v" "cap_rep (effective_capacity v) N" "fv_freshness v = Fresh" "length (fv_devices v) = 1"
      "\<forall>dev \<in> set (fv_devices v). dev_health dev = Healthy \<and> \<not> dev_drained dev"
    using pool_view [OF p reps(1,2,5,3,4) small] by blast
  obtain fit where fit: "queryFeasibilityNow m d = Inr fit" "fz_outcome fit = FitNow"
    using made_demand_outcome [OF made v(3,5,2)] v(4) by (auto simp: queryFeasibilityNow_def v(1) block_available_def N_def)
  have "\<not> d_lt d_zero (frac_value (frac_default :: CapacityFraction))" by (simp add: frac_default_def d_lt_def)
  then have none: "kept_back d Q = (\<lambda>_. 0)" for Q using made by (simp add: kept_back_def made_demand_def)
  obtain h where h: "queryHeadroom m d Conservative = Inr h" "cap_rep (hr_conservative h) (\<lambda>e. N e - (N e - N e))"
    using queryHeadroom_rep [OF w(1), of d "(\<lambda>_. 0)(AcceleratorCount := 12)" Conservative] made
    by (auto simp: made_demand_def none in_use_def w(2-4))
  then have left: "cap_amount (hr_conservative h) AcceleratorCount = d_of_nat 16" by (simp add: cap_rep_def N_def)
  have "d_le d_zero (d_of_nat 16)" using d_of_nat_exact(2) [of 16] amount_ok_key [of "d_of_nat 16"] by (simp add: amount_ok_def d_cmp_finite)
  then show ?thesis
    unfolding consumer_def m bindR_Inr prod.case d fit(1) h(1) by (simp add: fit left printf_whole digits_text)
qed

section \<open>Into the future\<close>

definition forecast_release :: ReleaseEvent where
  "forecast_release = \<lparr>rel_sourceId = StrongId 20, rel_time = 10000000000, rel_earliest = 8000000000, rel_latest = 12000000000,
     rel_release = one_unit (d_of_nat 40), rel_confidence = conf_lit 7 10, rel_provenance = ForecastP\<rparr>"

lemma forecast_release_made:
  "makeRelease (StrongId 20) 10000000000 8000000000 12000000000 (d_of_nat 40) (conf_lit 7 10) = Inr forecast_release"
  using d_of_nat_exact(2) [of 40] amount_ok_key d_add_zero_left
  by (simp add: makeRelease_def delta_change_def delta_at_def forecast_release_def one_unit_def)

lemma forecast_times:
  "releaseTime forecast_release mode = (if mode = Optimistic then 8000000000
     else if mode = Guaranteed \<or> mode = Conservative then 12000000000 else 10000000000)"
  by (cases mode) (simp_all add: releaseTime_def forecast_release_def)

lemma pool_release: "pool_model m r [] \<Longrightarrow> pool_model (snd (publishRelease m e)) r [e]"
  by (auto simp: pool_model_def publishRelease_def upsert_def currentResources_def resource_current_def isFreshBoot_def undrained_def)

definition forecast_N :: "Dimension \<Rightarrow> nat" where "forecast_N = (\<lambda>_. 0)(AcceleratorCount := 100)"
definition forecast_R :: "ReleaseEvent \<Rightarrow> Dimension \<Rightarrow> nat" where "forecast_R e = (\<lambda>_. 0)(AcceleratorCount := 40)"
definition forecast_Q :: "Dimension \<Rightarrow> nat" where "forecast_Q = (\<lambda>_. 0)(AcceleratorCount := 130)"

lemmas forecast_numbers = forecast_N_def forecast_R_def forecast_Q_def

lemma forecast_pool_reps:
  "cap_rep (res_nominal forecast_pool) forecast_N" "cap_rep (res_free forecast_pool) forecast_N"
  "cap_rep (res_committed forecast_pool) (\<lambda>_. 0)" "cap_rep (res_unavailable forecast_pool) (\<lambda>_. 0)"
proof -
  have "cap_rep (setAccelerators (DeviceCount 100) om_empty) forecast_N"
    using setAccelerators_rep [OF cap_rep_empty, of "DeviceCount 100"] by (simp add: forecast_N_def)
  then show "cap_rep (res_nominal forecast_pool) forecast_N" "cap_rep (res_free forecast_pool) forecast_N"
      "cap_rep (res_committed forecast_pool) (\<lambda>_. 0)" "cap_rep (res_unavailable forecast_pool) (\<lambda>_. 0)"
    by (simp_all add: forecast_pool_def cap_rep_empty)
qed

lemma forecast_evidence:
  assumes "pool_model m forecast_pool [forecast_release]"
  shows "whole_fleet (\<lambda>_. forecast_N) (\<lambda>_. forecast_N) (\<lambda>_ _. 0) (\<lambda>_ _. 0) m"
    and "exact_calendar (\<lambda>_. forecast_N) (\<lambda>_ _. 0) forecast_R m mode"
    and "projected (\<lambda>_. forecast_N) (\<lambda>_ _. 0) forecast_R m mode t =
       (\<lambda>_. 0)(AcceleratorCount := 100 + (if releaseTime forecast_release mode \<le> t then 40 else 0))"
proof -
  note f = assms [unfolded pool_model_def]
  have "2 * forecast_N e < 2 ^ 53" for e by (simp add: forecast_N_def)
  note w = pool_fleet [OF assms forecast_pool_reps this]
  show "whole_fleet (\<lambda>_. forecast_N) (\<lambda>_. forecast_N) (\<lambda>_ _. 0) (\<lambda>_ _. 0) m" by (rule w(1))
  have "whole_evidence (\<lambda>_ _. 0) forecast_R (m_reservations m) (m_releases m)"
    using one_unit_rep [of 40] f by (simp add: whole_evidence_def forecast_release_def forecast_R_def)
  then show "exact_calendar (\<lambda>_. forecast_N) (\<lambda>_ _. 0) forecast_R m mode"
    using f unfolding exact_calendar_def w(2) by (simp add: forecast_numbers never_overbooked_def claimed_at_def)
  show "projected (\<lambda>_. forecast_N) (\<lambda>_ _. 0) forecast_R m mode t =
       (\<lambda>_. 0)(AcceleratorCount := 100 + (if releaseTime forecast_release mode \<le> t then 40 else 0))"
    using f unfolding projected_def w(2) by (intro ext) (simp add: forecast_numbers held_at_def credited_at_def)
qed

lemma forecast_answers:
  assumes "pool_model m forecast_pool [forecast_release]" and "made_demand d 130 1 None" and "0 < k" "k \<le> 60000"
  shows "forecast_query m d title mode k = Inr (title @
     (if releaseTime forecast_release mode \<le> k * 1000000 then ''FIT_FUTURE'' else ''NO_FIT_CAPACITY''))"
proof -
  note e = forecast_evidence [OF assms(1)]
  have pos: "0 < k * 1000000" using assms(3) by simp
  have q: "cap_rep (dm_requirements d) forecast_Q" using assms(2) by (simp add: made_demand_def forecast_Q_def)
  have covered: "(\<forall>e. forecast_Q e \<le> ((\<lambda>_. 0)(AcceleratorCount := 100 + (if c then 40 else 0))) e) \<longleftrightarrow> c" for c
    by (auto simp: forecast_Q_def split: if_splits)
  obtain res where "queryFeasibility m d mode (k * 1000000) = Inr res"
      "fz_outcome res = (if \<forall>r \<in> set (currentResources m). \<not> resource_current m r then RevalidationRequired
         else if \<forall>e. forecast_Q e \<le> projected (\<lambda>_. forecast_N) (\<lambda>_ _. 0) forecast_R m mode (k * 1000000) e then FitFuture
         else NoFitCapacity)"
    using queryFeasibility_later [OF stable.event_sort_axioms e(1,2) pos q, folded queryFeasibility_def] by blast
  moreover have "timeFromMillis k = Inr (k * 1000000)"
    using assms(3,4) by (simp add: timeFromMillis_def mul64_def kNanosPerMilli_def in_i64_def i64_min_def i64_max_def)
  ultimately show ?thesis
    using assms(1) unfolding e(3) covered by (simp add: forecast_query_def pool_model_def)
qed

lemma forecast_earliest:
  assumes "pool_model m forecast_pool [forecast_release]" and "made_demand d 130 1 None"
  shows "\<exists>r. queryEarliestFit m d Conservative 0 1000000000 60000000000 = Inr r \<and> ef_found r \<and> ef_start r = 12000000000"
proof -
  let ?P = "projected (\<lambda>_. forecast_N) (\<lambda>_ _. 0) forecast_R m Conservative"
  note e = forecast_evidence [OF assms(1)]
  have q: "cap_rep (dm_requirements d) forecast_Q" "req_ok (dm_requirements d)"
    using assms(2) by (simp_all add: made_demand_def forecast_Q_def)
  have dom: "search_domain 0 1000000000 60000000000" by (simp add: search_domain_def in_i64_def i64_min_def i64_max_def)
  have pos: "0 < ?P t x" if "allowed_start 0 1000000000 60000000000 t" "0 < forecast_Q x" for t x
    using that(2) by (simp add: e(3) forecast_Q_def split: if_splits)
  have times: "distinct (map ev_time (mode_events (m_reservations m) (m_releases m) Conservative))"
    using assms(1) by (simp add: mode_events_def pool_model_def)
  obtain r where r: "queryEarliestFit m d Conservative 0 1000000000 60000000000 = Inr r"
    and found: "ef_found r \<longrightarrow> covering_start ?P forecast_Q 0 1000000000 60000000000 (ef_start r)"
    and least: "\<forall>t. covering_start ?P forecast_Q 0 1000000000 60000000000 t \<longrightarrow> ef_found r \<and> ef_start r \<le> t"
    using queryEarliestFit_covering [OF e(1,2) q dom pos] times by blast
  have "covering_start ?P forecast_Q 0 1000000000 60000000000 12000000000"
    by (simp add: covering_start_def allowed_start_def covers_def e(3) forecast_Q_def forecast_times)
  then have le: "ef_found r" "ef_start r \<le> 12000000000" using least by blast+
  then have "covers ?P forecast_Q (ef_start r) (ef_start r + 1000000000)" using found by (simp add: covering_start_def)
  then have "forecast_Q AcceleratorCount \<le> ?P (ef_start r) AcceleratorCount" by (simp add: covers_def)
  then have "12000000000 \<le> ef_start r" by (simp add: e(3) forecast_Q_def forecast_times split: if_splits)
  then show ?thesis using r le by (intro exI [of _ r]) simp
qed

lemma example_forecast_prints:
  "example_forecast = Inr
     [''needs 130 units; pool 100 + release 40'', ''conservative fit at T+11s: NO_FIT_CAPACITY'',
      ''conservative fit at T+12s: FIT_FUTURE'', ''expected fit at T+10s    : FIT_FUTURE'',
      ''optimistic fit at T+8s   : FIT_FUTURE'', ''earliest conservative fit at t=12000ms'']"
proof -
  obtain m1 where m1: "publishResource pool_registered forecast_pool = Inr (True, m1)" and p1: "pool_model m1 forecast_pool []"
    using examples_pool_published [OF forecast_pool_reps(1,2)] by (auto simp: forecast_pool_def)
  define m where "m = snd (publishRelease m1 forecast_release)"
  have p: "pool_model m forecast_pool [forecast_release]" using pool_release [OF p1] by (simp add: m_def)
  obtain d where d: "makeDemand (StrongId 1) (Generation 1) (d_of_nat 130) (DeviceCount 1) False bc_zero = Inr d"
      and made: "made_demand d 130 1 None"
    using makeDemand_made [of "StrongId 1" "Generation 1" 130 1 False bc_zero] by (auto simp: sid_valid_def gen_valid_def kInvalidId_def)
  obtain ef where ef: "queryEarliestFit m d Conservative 0 1000000000 60000000000 = Inr ef" "ef_found ef" "ef_start ef = 12000000000"
    using forecast_earliest [OF p made] by blast
  have t: "timeFromMillis k = Inr (k * 1000000)" if "0 \<le> k" "k \<le> 60000" for k
    using that by (simp add: timeFromMillis_def mul64_def kNanosPerMilli_def in_i64_def i64_min_def i64_max_def)
  have "i64_to_string (toMillis 12000000000) = ''12000''"
    using digits_text by (simp add: i64_to_string_def toMillis_def kNanosPerMilli_def)
  then show ?thesis
    unfolding example_forecast_def m1 bindR_Inr prod.case
    by (simp add: t forecast_release_made Let_def m_def [symmetric] d forecast_answers [OF p made] forecast_times ef)
qed

end
