(* ===== verification/Spec2Isabelle.thy ===== *)
theory Spec2Isabelle
  imports Prelude Ord_Map Binary64 Identities Units Capacity Timeline Fleet Forecast Fragmentation Headroom
    Earliest_Fit Text_Format Feasibility Scenario Model Model_Runs Model_View Model_Search Model_Headroom Codec Payload Protocol
    Persistence Durability Load_Errors Coordinator Server Reference Worker Sockets Cuda_Proof Cuda_Death
    Cuda_Device Processes Child_Processes Cuda_Main Console Calendar Cfcli Examples
begin

text \<open>
  Capacity Fabric: a verification library.

  The program answers what capacity a fleet of accelerators has, will have, and could have. Worker processes
  publish evidence about their devices to a coordinator over TCP; the coordinator holds it in one capacity model,
  builds a view of the fleet from it, and answers queries: whether a demand fits now or at a future time, when it
  first fits, how much headroom is left, what a scenario would change. The model is saved to a file and
  restored from it, in which case no evidence in it is current until a worker publishes again.

  \<^bold>\<open>Layers\<close>, from the bottom, with the sources under \<^verbatim>\<open>src/include/capacity_fabric\<close> (headers) and
  \<^verbatim>\<open>src/src\<close> (bodies) that each theory translates:

  \<^item> \<open>Prelude\<close>: machine integers as words and as ranges of \<open>int\<close>, the faults an expression can end in
    (\<open>fault\<close>: a C++ exception or undefined behaviour), the error monad \<open>bindR\<close>, \<open>foldR\<close>, \<open>add64\<close>, \<open>sub64\<close>, \<open>mul64\<close>.
    \<open>Ord_Map\<close>: \<open>std::map\<close> as a strictly sorted association list, since the sources iterate over their maps.
    \<open>Binary64\<close>: \<open>double\<close> as a 64-bit pattern with the arithmetic, comparison and conversions of IEEE 754.
    \<open>Text_Format\<close>: \<open>std::to_string\<close> and \<open>printf\<close> of a double.
  \<^item> \<open>Identities\<close> (\<^verbatim>\<open>core/strong_id.hpp\<close>, \<^verbatim>\<open>identities.hpp\<close>, \<^verbatim>\<open>provenance.hpp\<close>, \<^verbatim>\<open>model/freshness.hpp\<close>), \<open>Units\<close>
    (\<^verbatim>\<open>core/units.hpp\<close>), \<open>Capacity\<close> (\<^verbatim>\<open>capacity/*.hpp\<close>): identities, generations and the tracker that admits no
    regression, checked counts, instants and fractions, vectors of amounts by dimension.
  \<^item> \<open>Timeline\<close>, \<open>Forecast\<close>, \<open>Earliest_Fit\<close> (\<^verbatim>\<open>timeline/timeline.hpp\<close>, \<^verbatim>\<open>forecast/forecast.hpp\<close>,
    \<^verbatim>\<open>query/earliest_fit.hpp\<close>): capacity over time as events with prefix sums, the timeline of each query mode, the
    fast and the slow search for the earliest fit.
  \<^item> \<open>Fleet\<close>, \<open>Fragmentation\<close>, \<open>Headroom\<close>, \<open>Feasibility\<close>, \<open>Scenario\<close> (\<^verbatim>\<open>resource/\<close>, \<^verbatim>\<open>demand/\<close>, \<^verbatim>\<open>model/view.hpp\<close>,
    \<^verbatim>\<open>fragmentation/\<close>, \<^verbatim>\<open>headroom/\<close>, \<^verbatim>\<open>query/\<close>, \<^verbatim>\<open>scenario/\<close>): the records of evidence, demands and views, and the pure
    analyses of a view.
  \<^item> \<open>Model\<close>, \<open>Model_Runs\<close>, \<open>Model_View\<close>, \<open>Model_Search\<close>, \<open>Model_Headroom\<close> (\<^verbatim>\<open>model/model.hpp\<close>, \<^verbatim>\<open>model/model.cpp\<close>): the record \<open>CapacityModel\<close> has one
    field per data member; every member function is a definition of the same name, which returns the result and
    the new state. Each but \<open>load\<close>, \<open>setEpoch\<close>, \<open>epoch\<close> and \<open>recovered\<close> holds the model's mutex, so operations are the
    atomic steps of \<open>model_step\<close>; \<open>load\<close> is a step too and taken as atomic, as its callers load into a model that no other thread has.
    \<open>unloaded_step\<close> leaves the loads out: the service never loads, and some invariants (\<open>model_inv\<close>) hold only without them.
    \<open>Model_Search\<close> states what a reported earliest fit means in terms of the published evidence, \<open>Model_Headroom\<close> the same of the headroom.
  \<^item> \<open>Codec\<close>, \<open>Payload\<close>, \<open>Protocol\<close> (\<^verbatim>\<open>persistence/binary.hpp\<close>, \<^verbatim>\<open>protocol/payload.hpp\<close>, \<^verbatim>\<open>protocol/protocol.*\<close>,
    \<^verbatim>\<open>protocol/tcp.cpp\<close>): a writer is the bytes it appends, a reader a function from the unread bytes to a value and
    the rest; frames, the frame buffer, and the loops that send and receive over the results of the socket calls.
  \<^item> \<open>Persistence\<close>, \<open>Durability\<close>, \<open>Load_Errors\<close> (\<^verbatim>\<open>persistence/store.cpp\<close> and \<open>save\<close>, \<open>load\<close>, \<open>digest\<close> of \<^verbatim>\<open>model.cpp\<close>): files as a
    map from paths to bytes; what the operating system does to a write is an argument (\<open>WriteEnv\<close>): it may refuse to open the file,
    fail while the bytes are handed to the stream, or fail when the stream is flushed, which the code does not notice.
  \<^item> \<open>Coordinator\<close>, \<open>Server\<close> (\<^verbatim>\<open>coordinator/coordinator.cpp\<close>, \<^verbatim>\<open>tools/coordinator_main.cpp\<close>): what \<open>dispatch\<close> answers to each
    message, one turn of a connection, the loop of a connection, whose thread may be blocked in a send that never returns (\<open>Blocked\<close>,
    \<open>sv_stuck\<close>); then the whole service, with its accept loop, handler threads, \<open>start\<close>, \<open>stop\<close> and destructor, as the step
    relation \<open>srv_step\<close>.
  \<^item> \<open>Reference\<close>, \<open>Worker\<close> (\<^verbatim>\<open>adapters/reference.*\<close>, \<^verbatim>\<open>tools/worker_main.cpp\<close>, \<^verbatim>\<open>src/cuda/cuda_worker_main.cpp\<close>): the
    builders of synthetic evidence, the reference calendar, and the worker's session with the coordinator.
  \<^item> \<open>Sockets\<close> (\<^verbatim>\<open>protocol/tcp.cpp\<close>, \<^verbatim>\<open>tcp.hpp\<close>): which connection object owns which socket, as the step relation \<open>net_step\<close>.
  \<^item> \<open>Cuda_Proof\<close>, \<open>Cuda_Death\<close> (\<^verbatim>\<open>src/cuda/cuda_host.cpp\<close>, \<^verbatim>\<open>cuda_proof_main.cpp\<close>): the scenarios of the CUDA proof as functions from what
    the device measures to the outcomes they print, and the worker-death run: two incarnations of a worker, a
    querying client and a replaying one, all connected to one coordinator through the frames of \<open>Protocol\<close>.
  \<^item> \<open>Cuda_Device\<close> (\<^verbatim>\<open>src/cuda/cuda_proof.cu\<close>): the CUDA runtime is a record of functions (\<open>CudaRuntime\<close>) over a device
    state; the bridge functions and the kernel are written over it, and \<open>cuda_documented\<close> states what the runtime documents:
    a launch runs every thread once, in some order; a release that succeeds removes its buffer. Of a release that reports failure
    nothing is assumed: the buffer may be gone or not, and the theorems speak of such buffers.
  \<^item> \<open>Processes\<close> (the command lines of the executables, \<open>Proc::readLine\<close> of \<^verbatim>\<open>cuda_proof_main.cpp\<close>), \<open>Child_Processes\<close> (the rest
    of \<open>Proc\<close>: the handles and processes of the system) and \<open>Cuda_Main\<close> (the two files of the CUDA proof once more): the
    programs from their arguments to the lines they print, with the memory they measure, the buffers, handles and
    processes they hold and the kernels they run.
  \<^item> \<open>Console\<close> (the output operators of the headers), \<open>Calendar\<close>, \<open>Cfcli\<close> (\<^verbatim>\<open>src/src/cli/cfcli.cpp\<close>), \<open>Examples\<close> (\<^verbatim>\<open>src/examples\<close>,
    \<^verbatim>\<open>src/consumer/main.cpp\<close>): what \<open>std::ostream\<close> prints for amounts, identities and capacities, what a model seeded with
    the reference calendar answers, and what the inspection tool, the example programs and the consumer print, line by line.

  \<^bold>\<open>Conventions.\<close> A function that can throw or whose behaviour can be undefined returns \<open>fault + 'a\<close>; one that
  cannot returns its value. Signed 64-bit instants are \<open>int\<close>, and their arithmetic is checked, overflow being a
  fault; unsigned integers are words, which wrap. An enumeration that is read from the wire or from a file keeps its
  byte, because the sources cast it unchecked. \<open>std::sort\<close> is not stable: the definitions that freeze a timeline have a form
  with the sorting function as an argument (\<open>freeze_with\<close>, \<open>buildTimeline_with\<close>, \<open>queryFeasibility_with\<close>, \<open>queryEarliestFit_with\<close>,
  \<open>queryCapacity_with\<close>), and the properties of timelines, searches and queries hold for every function that sorts by time;
  \<open>std_sort\<close> (the locale \<open>event_sort\<close>) is the executable instance, with which the programs that print are evaluated.
  Amounts of capacity are doubles throughout. Theorems that equate them with sums of natural numbers assume whole
  amounts below \<open>2 ^ 53\<close>, the bound below which every sum is exact (\<open>cap_rep\<close>).

  \<^bold>\<open>What the lemmas show.\<close> The view is exactly the sum over current resources; a timeline's amount is the available
  capacity less the reservations in force plus the releases that happened, as long as the calendar is never overbooked
  (\<open>never_overbooked\<close>; \<open>single_reservation\<close> shows what an overbooked hold does to the time after it); the answer of a feasibility query
  holds exactly when every constraint does that it consults, and it is independent of those it does not. The fast search for the earliest fit
  reports the least start whose window minimum satisfies the requirement; a demanded dimension that is absent at a start escapes the
  minimum (\<open>earliestFit_absent_dimension\<close>), and where none does the search agrees with the slow reference inside the horizon. The model keeps
  its invariant on every run, loads included; without loads it never admits an older generation, and nothing published by a dead or superseded incarnation
  counts as current. Encoders and decoders are inverse to each other; every changed byte of a saved file is detected, and of a frame
  every changed byte outside the length field; readers never read past their input; how the stream is cut into chunks does not
  matter. The service refines the model: whatever clients send, the model moves only by its operations. The
  bounds, ends and failures of the service are stated with it.

  \<^bold>\<open>Interfaces\<close> are locales, each interpreted on the program's definitions: \<open>keyed_store\<close> (what a lookup returns after
  an insertion, for maps and for vectors searched by key), \<open>event_sort\<close> (a sort by time), \<open>generation_guard\<close> and
  \<open>guarded_system\<close> (a record that admits no older generation, for resources, reservations, demands, topology
  and health), \<open>codec\<close>, \<open>wire_format\<close> and \<open>wrapped_codec\<close> (a writer and its reader, exact or up to an image),
  and \<open>simulation\<close> (the coordinator over the model).

  \<^bold>\<open>Termination and bounds.\<close> No definition carries fuel. The receive loop ends because every socket result is used once;
  the loop of a connection and that of a worker that holds it terminate by the number of bytes left in the buffer
  and in the results to come (\<open>rs_data\<close>), and report \<open>StillWaiting\<close> when the results run out. The slow search for the
  earliest fit terminates by the distance to the horizon, since its step is positive; the polling of the CUDA proof
  by the polls that are left, 400 at most, as in the code.

  \<^bold>\<open>Not modelled\<close>: the system calls that create pipes and processes, whose results
  are arguments, and the command line parsing of the system, of which \<open>documented_split\<close> states what is used; the
  scheduling of threads below the granularity of an operation under the mutex; the CUDA runtime itself.
\<close>

end
